(* ===== verification/RGB_Prelude.thy ===== *)
theory RGB_Prelude
  imports Main "HOL-Library.AList" "HOL-Library.Word"
begin

text \<open>
  Shared vocabulary of the development: type synonyms for the C++ types, the association lists
  that stand for \<^verbatim>\<open>std::unordered_map\<close>, the identifier check every service repeats, and the
  generic list lemmas the component theories use.

  \<^item> A \<^verbatim>\<open>std::string\<close> is a \<^typ>\<open>string\<close> (a list of bytes); \<^verbatim>\<open>size()\<close> is \<^const>\<open>length\<close>.
  \<^item> A millisecond time stamp or a frame number (\<^verbatim>\<open>std::int64_t\<close>) is an \<^typ>\<open>int\<close>. The code only adds,
    subtracts and compares them; its values are wall-clock milliseconds and frame numbers up to
    600, far inside the 64-bit range, so no operation of the model can leave it.
  \<^item> A \<^verbatim>\<open>std::unordered_map\<close> is an association list with distinct keys. The C++ iteration order is
    unspecified; theorems quantify over every list, so over every order.
\<close>

type_synonym ms = int
type_synonym frame_no = int
type_synonym ('k, 'v) umap = "('k \<times> 'v) list"

named_theorems rgb_frame "what an operation leaves unchanged"
named_theorems rgb_inv "operations that keep an invariant"

section \<open>Unordered maps as association lists\<close>

text \<open>\<^verbatim>\<open>emplace\<close> does nothing when the key is present; \<^verbatim>\<open>m[k] = v\<close> is \<^const>\<open>AList.update\<close>;
  \<^verbatim>\<open>erase(k)\<close> is \<^const>\<open>AList.delete\<close>.\<close>

definition emplace :: "'k \<Rightarrow> 'v \<Rightarrow> ('k, 'v) umap \<Rightarrow> ('k, 'v) umap" where
  "emplace k v m = (case map_of m k of None \<Rightarrow> m @ [(k, v)] | Some _ \<Rightarrow> m)"

definition keys_distinct :: "('k, 'v) umap \<Rightarrow> bool" where
  "keys_distinct m \<longleftrightarrow> distinct (map fst m)"

lemma keys_distinct_Nil [simp]: "keys_distinct []"
  by (simp add: keys_distinct_def)

lemma keys_distinct_Cons [simp]:
  "keys_distinct ((k, v) # m) \<longleftrightarrow> k \<notin> fst ` set m \<and> keys_distinct m"
  by (simp add: keys_distinct_def)

lemma map_of_emplace: "map_of (emplace k v m) k' =
    (if k' = k \<and> map_of m k = None then Some v else map_of m k')"
  by (auto simp: emplace_def map_add_def split: option.splits)

lemma emplace_fresh: "map_of m k = None \<Longrightarrow> emplace k v m = m @ [(k, v)]"
  by (simp add: emplace_def)

lemma keys_distinct_emplace [rgb_inv]: "keys_distinct m \<Longrightarrow> keys_distinct (emplace k v m)"
  by (auto simp: emplace_def keys_distinct_def map_of_eq_None_iff split: option.splits)

lemma keys_distinct_update [rgb_inv]: "keys_distinct m \<Longrightarrow> keys_distinct (AList.update k v m)"
  by (simp add: keys_distinct_def distinct_update)

lemma keys_distinct_delete [rgb_inv]: "keys_distinct m \<Longrightarrow> keys_distinct (AList.delete k m)"
  by (simp add: keys_distinct_def distinct_delete)

lemma keys_distinct_filter [rgb_inv]: "keys_distinct m \<Longrightarrow> keys_distinct (filter P m)"
  by (induction m) (auto simp: keys_distinct_def)

lemma map_of_iff_in_set: "keys_distinct m \<Longrightarrow> map_of m k = Some v \<longleftrightarrow> (k, v) \<in> set m"
  by (simp add: keys_distinct_def)

text \<open>Mapping a function over the values keeps the keys.\<close>

definition map_values :: "('v \<Rightarrow> 'w) \<Rightarrow> ('k, 'v) umap \<Rightarrow> ('k, 'w) umap" where
  "map_values f m = map (\<lambda>(k, v). (k, f v)) m"

lemma map_of_map_values [simp]: "map_of (map_values f m) k = map_option f (map_of m k)"
  by (induction m) (auto simp: map_values_def)

lemma keys_map_values [simp]: "map fst (map_values f m) = map fst m"
  by (simp add: map_values_def comp_def case_prod_beta)

lemma keys_distinct_map_values [simp]: "keys_distinct (map_values f m) = keys_distinct m"
  by (simp add: keys_distinct_def)

lemma set_map_values: "set (map_values f m) = (\<lambda>(k, v). (k, f v)) ` set m"
  by (simp add: map_values_def)

lemma map_of_filter_value:
  assumes "keys_distinct m"
  shows "map_of (filter (\<lambda>(k, v). P v) m) k =
    (case map_of m k of None \<Rightarrow> None | Some v \<Rightarrow> if P v then Some v else None)" (is "?l = ?r")
proof -
  have "?l = Some v \<longleftrightarrow> map_of m k = Some v \<and> P v" for v
    using assms by (simp add: map_of_iff_in_set keys_distinct_filter)
  also have "map_of m k = Some v \<and> P v \<longleftrightarrow> ?r = Some v" for v
    by (auto split: option.splits)
  finally have "?l = Some v \<longleftrightarrow> ?r = Some v" for v .
  then show ?thesis by (metis not_None_eq)
qed

section \<open>First index of an element\<close>

text \<open>Changing the value of one key.\<close>

lemma map_of_map_entry [simp]:
  "map_of (AList.map_entry k f es) x = (if x = k then map_option f (map_of es x) else map_of es x)"
  by (induction es) auto

lemma keys_map_entry [simp]: "map fst (AList.map_entry k f es) = map fst es"
  by (induction es) auto

text \<open>The loops \<^verbatim>\<open>for (i...) if (xs[i]...) return i\<close> of the code.\<close>

fun first_index :: "('a \<Rightarrow> bool) \<Rightarrow> 'a list \<Rightarrow> nat option" where
  "first_index P [] = None"
| "first_index P (x # xs) = (if P x then Some 0 else map_option Suc (first_index P xs))"

lemma first_index_SomeD:
  "first_index P xs = Some i \<Longrightarrow> i < length xs \<and> P (xs ! i) \<and> (\<forall>j<i. \<not> P (xs ! j))"
proof (induction xs arbitrary: i)
  case (Cons x xs)
  show ?case
  proof (cases "P x")
    case True
    with Cons.prems show ?thesis by simp
  next
    case False
    with Cons.prems obtain k where k: "first_index P xs = Some k" "i = Suc k" by auto
    from Cons.IH [OF k(1)] False k(2) show ?thesis by (auto simp: less_Suc_eq_0_disj)
  qed
qed simp

lemma first_index_None: "first_index P xs = None \<longleftrightarrow> (\<forall>x \<in> set xs. \<not> P x)"
  by (induction xs) auto

lemma first_index_cong: "map f xs = map f ys \<Longrightarrow> first_index (\<lambda>x. P (f x)) xs = first_index (\<lambda>x. P (f x)) ys"
proof (induction xs arbitrary: ys)
  case (Cons x xs)
  then obtain y ys' where "ys = y # ys'" "f x = f y" "map f xs = map f ys'" by auto
  with Cons.IH [of ys'] show ?case by auto
qed simp

end
