(* ===== verification/Room_Types.thy ===== *)
theory Room_Types
  imports RGB_Prelude
begin

text \<open>
  \<^verbatim>\<open>src/room/room_types.hpp\<close>: the match rules (all numbers are server-side constants), the
  life-cycle enums, the snapshot and result structs, and the phase counters the metrics read.
  The enum \<^verbatim>\<open>kAborted\<close> occurs in two C++ enums; here the finish reason is \<open>kAbortedReason\<close>.
\<close>

section \<open>Match rules\<close>

definition kPlayersPerRoom :: nat where "kPlayersPerRoom = 2"
definition kInitialHp :: int where "kInitialHp = 100"
definition kAttackDamage :: int where "kAttackDamage = 10"
definition kFrameIntervalMs :: ms where "kFrameIntervalMs = 100"
definition kMaxFrames :: frame_no where "kMaxFrames = 600"
definition kMaxCatchUpFrames :: int where "kMaxCatchUpFrames = 10"
definition kResultRetryIntervalMs :: ms where "kResultRetryIntervalMs = 1000"
definition kWaitingTimeoutMs :: ms where "kWaitingTimeoutMs = 30 * 1000"
definition kFinishedRetentionMs :: ms where "kFinishedRetentionMs = 5 * 60 * 1000"
definition kMaxSnapshotHistory :: nat where "kMaxSnapshotHistory = 128"
definition kReconnectGraceMs :: ms where "kReconnectGraceMs = 30 * 1000"
definition kMaxIdLength :: nat where "kMaxIdLength = 64"
definition kSnapshotIntervalMs :: ms where "kSnapshotIntervalMs = 1000"

lemmas room_consts = kPlayersPerRoom_def kInitialHp_def kAttackDamage_def kFrameIntervalMs_def
  kMaxFrames_def kMaxCatchUpFrames_def kResultRetryIntervalMs_def kWaitingTimeoutMs_def
  kFinishedRetentionMs_def kMaxSnapshotHistory_def kReconnectGraceMs_def kMaxIdLength_def
  kSnapshotIntervalMs_def

text \<open>The check \<^verbatim>\<open>id.empty() || id.size() > kMaxIdLength\<close> that every entry point repeats.\<close>

definition bad_id :: "string \<Rightarrow> bool" where
  "bad_id s \<longleftrightarrow> s = [] \<or> length s > kMaxIdLength"

section \<open>Enums\<close>

datatype RoomPhase = kCreated | kWaiting | kPlaying | kFinishing | kFinished | kAborted

datatype FinishReason = kNone | kHpZero | kTimeout | kAbortedReason | kDisconnect

datatype InputKind = kAttack

section \<open>Snapshots and records\<close>

record PlayerSnapshot =
  ps_player_id :: string
  ps_hp :: int
  ps_connected :: bool
  ps_online :: bool

record RoomSnapshot =
  rs_room_id :: string
  rs_match_id :: string
  rs_phase :: RoomPhase
  rs_frame :: frame_no
  rs_players :: "PlayerSnapshot list"
  rs_finish_reason :: FinishReason
  rs_winner_id :: string
  rs_started_at_ms :: ms
  rs_finished_at_ms :: ms

record MatchResultRecord =
  mr_match_id :: string
  mr_room_id :: string
  mr_winner_id :: string
  mr_player_count :: int
  mr_started_at_ms :: ms
  mr_finished_at_ms :: ms

record RoomPlayerRecord =
  rp_player_id :: string
  rp_hp :: int
  rp_joined :: bool

text \<open>\<^verbatim>\<open>std::array<RoomPlayerRecord, kPlayersPerRoom>\<close> is a list; every constructor of the model
  builds it with two elements, as the array type forces in the code.\<close>

record RoomSnapshotRecord =
  rr_match_id :: string
  rr_room_id :: string
  rr_phase :: RoomPhase
  rr_frame :: frame_no
  rr_players :: "RoomPlayerRecord list"
  rr_winner_id :: string
  rr_finish_reason :: FinishReason
  rr_started_at_ms :: ms
  rr_finished_at_ms :: ms
  rr_snapshot_at_ms :: ms

definition default_player_record :: RoomPlayerRecord where
  "default_player_record = \<lparr>rp_player_id = [], rp_hp = kInitialHp, rp_joined = False\<rparr>"

definition default_snapshot_record :: RoomSnapshotRecord where
  "default_snapshot_record =
     \<lparr>rr_match_id = [], rr_room_id = [], rr_phase = kCreated, rr_frame = 0,
      rr_players = replicate kPlayersPerRoom default_player_record, rr_winner_id = [],
      rr_finish_reason = kNone, rr_started_at_ms = 0, rr_finished_at_ms = 0,
      rr_snapshot_at_ms = 0\<rparr>"

definition default_room_snapshot :: RoomSnapshot where
  "default_room_snapshot =
     \<lparr>rs_room_id = [], rs_match_id = [], rs_phase = kCreated, rs_frame = 0, rs_players = [],
      rs_finish_reason = kNone, rs_winner_id = [], rs_started_at_ms = 0, rs_finished_at_ms = 0\<rparr>"

section \<open>Readable names\<close>

fun phase_ToString :: "RoomPhase \<Rightarrow> string" where
  "phase_ToString kCreated = ''created''"
| "phase_ToString kWaiting = ''waiting''"
| "phase_ToString kPlaying = ''playing''"
| "phase_ToString kFinishing = ''finishing''"
| "phase_ToString kFinished = ''finished''"
| "phase_ToString kAborted = ''aborted''"

fun reason_ToString :: "FinishReason \<Rightarrow> string" where
  "reason_ToString kNone = ''none''"
| "reason_ToString kHpZero = ''hp_zero''"
| "reason_ToString kTimeout = ''timeout''"
| "reason_ToString kAbortedReason = ''aborted''"
| "reason_ToString kDisconnect = ''disconnect''"

section \<open>Counting rooms per phase\<close>

definition kAllRoomPhases :: "RoomPhase list" where
  "kAllRoomPhases = [kCreated, kWaiting, kPlaying, kFinishing, kFinished, kAborted]"

text \<open>\<^verbatim>\<open>RoomPhaseCounts\<close> is the array of counts, indexed like \<^const>\<open>kAllRoomPhases\<close>.\<close>

type_synonym RoomPhaseCounts = "nat list"

definition zero_counts :: RoomPhaseCounts where
  "zero_counts = replicate (length kAllRoomPhases) 0"

definition PhaseCounts_At :: "RoomPhaseCounts \<Rightarrow> RoomPhase \<Rightarrow> nat" where
  "PhaseCounts_At counts p =
     (case first_index (\<lambda>q. q = p) kAllRoomPhases of Some i \<Rightarrow> counts ! i | None \<Rightarrow> 0)"

definition PhaseCounts_Total :: "RoomPhaseCounts \<Rightarrow> nat" where
  "PhaseCounts_Total counts = foldl (+) 0 counts"

definition bump_phase :: "RoomPhase \<Rightarrow> RoomPhaseCounts \<Rightarrow> RoomPhaseCounts" where
  "bump_phase p counts =
     (case first_index (\<lambda>q. q = p) kAllRoomPhases of
        Some i \<Rightarrow> counts[i := Suc (counts ! i)] | None \<Rightarrow> counts)"

lemma first_index_phase: "\<exists>i < 6. first_index (\<lambda>q. q = p) kAllRoomPhases = Some i \<and> kAllRoomPhases ! i = p"
  by (cases p) (simp_all add: kAllRoomPhases_def)

lemma length_bump_phase [simp]: "length (bump_phase p c) = length c"
  by (simp add: bump_phase_def split: option.splits)

lemma PhaseCounts_Total_sum: "PhaseCounts_Total c = sum_list c"
proof -
  have "foldl (+) a c = a + sum_list c" for a :: nat
    by (induction c arbitrary: a) simp_all
  then show ?thesis by (simp add: PhaseCounts_Total_def)
qed

lemma PhaseCounts_At_bump:
  "length c = 6 \<Longrightarrow> PhaseCounts_At (bump_phase p c) q = PhaseCounts_At c q + (if p = q then 1 else 0)"
  by (cases p; cases q) (simp_all add: PhaseCounts_At_def bump_phase_def kAllRoomPhases_def)

lemma PhaseCounts_Total_bump: "length c = 6 \<Longrightarrow> PhaseCounts_Total (bump_phase p c) = Suc (PhaseCounts_Total c)"
  using first_index_phase [of p]
  by (auto simp: bump_phase_def PhaseCounts_Total_sum sum_list_update elem_le_sum_list)

text \<open>An ordering of the phases along the life cycle; every operation moves up or stays.\<close>

fun phase_rank :: "RoomPhase \<Rightarrow> nat" where
  "phase_rank kCreated = 0"
| "phase_rank kWaiting = 1"
| "phase_rank kPlaying = 2"
| "phase_rank kFinishing = 3"
| "phase_rank kFinished = 4"
| "phase_rank kAborted = 4"

definition unfinished :: "RoomPhase \<Rightarrow> bool" where
  "unfinished p \<longleftrightarrow> p = kCreated \<or> p = kWaiting \<or> p = kPlaying"

definition ended :: "RoomPhase \<Rightarrow> bool" where
  "ended p \<longleftrightarrow> p = kFinishing \<or> p = kFinished \<or> p = kAborted"

lemma unfinished_not_ended: "unfinished p \<longleftrightarrow> \<not> ended p"
  by (cases p) (auto simp: unfinished_def ended_def)

end
