(* ===== verification/Battle_Room.thy ===== *)
theory Battle_Room
  imports Room_Types
begin

text \<open>
  \<^verbatim>\<open>src/room/battle_room.cpp\<close>: one room, as a record of the class's members, with one definition
  per method. Every method takes the room and returns the new room, paired with the C++ return
  value where there is one; the clock is an argument, as in the code.
\<close>

section \<open>State\<close>

datatype JoinOutcome = JoinOk | JoinNotAMember | JoinAlreadyFinished | JoinInvalidArgument

datatype SubmitOutcome =
  SubmitAccepted | SubmitNotInRoom | SubmitNotPlaying | SubmitAlreadyFinished | SubmitInvalidArgument

datatype PresenceOutcome =
  PresenceOk | PresenceNotAMember | PresenceAlreadyFinished | PresenceInvalidArgument

record PlayerRuntime =
  pr_online :: bool
  pr_offline_since_ms :: ms

record BattleRoom =
  br_room_id :: string
  br_match_id :: string
  br_phase :: RoomPhase
  br_finish_reason :: FinishReason
  br_frame :: frame_no
  br_players :: "PlayerSnapshot list"
  br_runtime :: "PlayerRuntime list"
  br_pending_attack :: "bool list"
  br_created_at_ms :: ms
  br_started_at_ms :: ms
  br_finished_at_ms :: ms
  br_last_tick_ms :: ms
  br_last_persist_attempt_ms :: ms
  br_winner_id :: string
  br_player_count :: int
  br_history :: "RoomSnapshot list"

definition fresh_runtime :: PlayerRuntime where
  "fresh_runtime = \<lparr>pr_online = True, pr_offline_since_ms = 0\<rparr>"

section \<open>Snapshots and the history buffer\<close>

definition Snapshot :: "BattleRoom \<Rightarrow> RoomSnapshot" where
  "Snapshot r =
     \<lparr>rs_room_id = br_room_id r, rs_match_id = br_match_id r, rs_phase = br_phase r,
      rs_frame = br_frame r, rs_players = br_players r, rs_finish_reason = br_finish_reason r,
      rs_winner_id = br_winner_id r, rs_started_at_ms = br_started_at_ms r,
      rs_finished_at_ms = br_finished_at_ms r\<rparr>"

text \<open>The loop \<^verbatim>\<open>while (history_.size() > kMax) history_.pop_front()\<close>.\<close>

function pop_front_to :: "nat \<Rightarrow> 'a list \<Rightarrow> 'a list" where
  "pop_front_to n xs = (if length xs > n then pop_front_to n (tl xs) else xs)"
  by pat_completeness auto
termination
  by (relation "measure (\<lambda>(n, xs). length xs)") auto

declare pop_front_to.simps [simp del]

definition PushSnapshot :: "BattleRoom \<Rightarrow> BattleRoom" where
  "PushSnapshot r =
     r\<lparr>br_history := pop_front_to kMaxSnapshotHistory (br_history r @ [Snapshot r])\<rparr>"

section \<open>Construction\<close>

definition initial_player :: "string \<Rightarrow> PlayerSnapshot" where
  "initial_player pid =
     \<lparr>ps_player_id = pid, ps_hp = kInitialHp, ps_connected = False, ps_online = True\<rparr>"

definition BattleRoom_new :: "string \<Rightarrow> string \<Rightarrow> string list \<Rightarrow> ms \<Rightarrow> BattleRoom" where
  "BattleRoom_new room_id match_id player_ids now_ms = PushSnapshot
     \<lparr>br_room_id = room_id, br_match_id = match_id, br_phase = kCreated,
      br_finish_reason = kNone, br_frame = 0, br_players = map initial_player player_ids,
      br_runtime = replicate (length player_ids) fresh_runtime,
      br_pending_attack = replicate (length player_ids) False,
      br_created_at_ms = now_ms, br_started_at_ms = 0, br_finished_at_ms = 0,
      br_last_tick_ms = 0, br_last_persist_attempt_ms = 0, br_winner_id = [],
      br_player_count = int (length player_ids), br_history = []\<rparr>"

definition restored_player :: "RoomPlayerRecord \<Rightarrow> PlayerSnapshot" where
  "restored_player p =
     \<lparr>ps_player_id = rp_player_id p, ps_hp = rp_hp p, ps_connected = rp_joined p,
      ps_online = True\<rparr>"

text \<open>The nested loop over the players: an empty identifier, or one that occurs again later.\<close>

fun restore_ids_ok :: "string list \<Rightarrow> bool" where
  "restore_ids_ok [] = True"
| "restore_ids_ok (i # is) = (i \<noteq> [] \<and> i \<notin> set is \<and> restore_ids_ok is)"

definition RestoreFrom :: "RoomSnapshotRecord \<Rightarrow> ms \<Rightarrow> BattleRoom option" where
  "RestoreFrom record now_ms =
     (if length (rr_players record) \<noteq> kPlayersPerRoom then None
      else if \<not> restore_ids_ok (map rp_player_id (rr_players record)) then None
      else Some (PushSnapshot
        \<lparr>br_room_id = rr_room_id record, br_match_id = rr_match_id record,
         br_phase = rr_phase record, br_finish_reason = rr_finish_reason record,
         br_frame = rr_frame record, br_players = map restored_player (rr_players record),
         br_runtime = replicate kPlayersPerRoom fresh_runtime,
         br_pending_attack = replicate kPlayersPerRoom False,
         br_created_at_ms =
           (if rr_snapshot_at_ms record > 0 then rr_snapshot_at_ms record else now_ms),
         br_started_at_ms = rr_started_at_ms record,
         br_finished_at_ms = rr_finished_at_ms record,
         br_last_tick_ms = now_ms,
         br_last_persist_attempt_ms = now_ms - kResultRetryIntervalMs,
         br_winner_id = rr_winner_id record,
         br_player_count = int kPlayersPerRoom, br_history = []\<rparr>))"

section \<open>Joining and input\<close>

text \<open>\<^verbatim>\<open>FindPlayer\<close> returns a pointer into \<^verbatim>\<open>players_\<close>, \<^verbatim>\<open>IndexOf\<close> an index; both are the first
  position that holds the identifier.\<close>

definition IndexOf :: "BattleRoom \<Rightarrow> string \<Rightarrow> nat option" where
  "IndexOf r player_id = first_index (\<lambda>p. ps_player_id p = player_id) (br_players r)"

definition FindPlayer :: "BattleRoom \<Rightarrow> string \<Rightarrow> nat option" where
  "FindPlayer r player_id = first_index (\<lambda>p. ps_player_id p = player_id) (br_players r)"

definition BattleRoom_Join :: "string \<Rightarrow> ms \<Rightarrow> BattleRoom \<Rightarrow> JoinOutcome \<times> BattleRoom" where
  "BattleRoom_Join player_id now_ms r =
     (if bad_id player_id then (JoinInvalidArgument, r)
      else if br_phase r = kFinishing \<or> br_phase r = kFinished \<or> br_phase r = kAborted
        then (JoinAlreadyFinished, r)
      else case FindPlayer r player_id of
        None \<Rightarrow> (JoinNotAMember, r)
      | Some i \<Rightarrow>
          (if ps_connected (br_players r ! i) then (JoinOk, r)
           else
             let r1 = r\<lparr>br_players := (br_players r)[i := (br_players r ! i)\<lparr>ps_connected := True\<rparr>]\<rparr>;
                 r2 = (if br_phase r1 = kCreated then r1\<lparr>br_phase := kWaiting\<rparr> else r1);
                 r3 = (if list_all ps_connected (br_players r2)
                       then r2\<lparr>br_phase := kPlaying, br_started_at_ms := now_ms,
                               br_last_tick_ms := now_ms, br_frame := 0\<rparr>
                       else r2)
             in (JoinOk, PushSnapshot r3)))"

definition BattleRoom_SubmitInput ::
  "string \<Rightarrow> InputKind \<Rightarrow> BattleRoom \<Rightarrow> SubmitOutcome \<times> BattleRoom" where
  "BattleRoom_SubmitInput player_id kind r =
     (if bad_id player_id then (SubmitInvalidArgument, r)
      else if kind \<noteq> kAttack then (SubmitInvalidArgument, r)
      else if br_phase r = kFinishing \<or> br_phase r = kFinished \<or> br_phase r = kAborted
        then (SubmitAlreadyFinished, r)
      else if br_phase r \<noteq> kPlaying then (SubmitNotPlaying, r)
      else case IndexOf r player_id of
        None \<Rightarrow> (SubmitNotInRoom, r)
      | Some i \<Rightarrow> (SubmitAccepted, r\<lparr>br_pending_attack := (br_pending_attack r)[i := True]\<rparr>))"

section \<open>Ending a match\<close>

definition BattleRoom_Finish :: "FinishReason \<Rightarrow> string \<Rightarrow> ms \<Rightarrow> BattleRoom \<Rightarrow> BattleRoom" where
  "BattleRoom_Finish reason winner_id now_ms r =
     PushSnapshot (r\<lparr>br_phase := kFinishing, br_finish_reason := reason,
       br_winner_id := winner_id, br_finished_at_ms := now_ms, br_last_persist_attempt_ms := 0\<rparr>)"

definition BattleRoom_Abort :: "ms \<Rightarrow> BattleRoom \<Rightarrow> BattleRoom" where
  "BattleRoom_Abort now_ms r =
     PushSnapshot (r\<lparr>br_phase := kAborted, br_finish_reason := kAbortedReason,
       br_winner_id := [], br_finished_at_ms := now_ms\<rparr>)"

definition MarkResultPersisted :: "BattleRoom \<Rightarrow> BattleRoom" where
  "MarkResultPersisted r = (if br_phase r = kFinishing then r\<lparr>br_phase := kFinished\<rparr> else r)"

definition MarkResultFailed :: "ms \<Rightarrow> BattleRoom \<Rightarrow> BattleRoom" where
  "MarkResultFailed now_ms r =
     (if br_phase r = kFinishing then r\<lparr>br_last_persist_attempt_ms := now_ms\<rparr> else r)"

definition ShouldRetryPersist :: "ms \<Rightarrow> BattleRoom \<Rightarrow> bool" where
  "ShouldRetryPersist now_ms r \<longleftrightarrow>
     br_phase r = kFinishing \<and> now_ms - br_last_persist_attempt_ms r \<ge> kResultRetryIntervalMs"

definition Result :: "BattleRoom \<Rightarrow> MatchResultRecord option" where
  "Result r =
     (if br_phase r \<noteq> kFinishing \<and> br_phase r \<noteq> kFinished then None
      else Some \<lparr>mr_match_id = br_match_id r, mr_room_id = br_room_id r,
        mr_winner_id = br_winner_id r, mr_player_count = br_player_count r,
        mr_started_at_ms = br_started_at_ms r, mr_finished_at_ms = br_finished_at_ms r\<rparr>)"

definition IsExpired :: "ms \<Rightarrow> BattleRoom \<Rightarrow> bool" where
  "IsExpired now_ms r \<longleftrightarrow>
     (br_phase r = kFinished \<or> br_phase r = kAborted)
     \<and> now_ms - br_finished_at_ms r \<ge> kFinishedRetentionMs"

section \<open>Presence and the reconnect grace period\<close>

definition IsWaitingForReconnect :: "BattleRoom \<Rightarrow> bool" where
  "IsWaitingForReconnect r \<longleftrightarrow> list_ex (\<lambda>rt. \<not> pr_online rt) (br_runtime r)"

definition BattleRoom_SetPresence ::
  "string \<Rightarrow> bool \<Rightarrow> ms \<Rightarrow> BattleRoom \<Rightarrow> PresenceOutcome \<times> BattleRoom" where
  "BattleRoom_SetPresence player_id online now_ms r =
     (if bad_id player_id then (PresenceInvalidArgument, r)
      else if br_phase r = kFinishing \<or> br_phase r = kFinished \<or> br_phase r = kAborted
        then (PresenceAlreadyFinished, r)
      else case IndexOf r player_id of
        None \<Rightarrow> (PresenceNotAMember, r)
      | Some i \<Rightarrow>
          (PresenceOk,
           if online
           then r\<lparr>br_runtime := (br_runtime r)[i := \<lparr>pr_online = True, pr_offline_since_ms = 0\<rparr>],
                  br_players := (br_players r)[i := (br_players r ! i)\<lparr>ps_online := True\<rparr>]\<rparr>
           else if pr_online (br_runtime r ! i)
           then PushSnapshot
             (r\<lparr>br_runtime := (br_runtime r)[i := \<lparr>pr_online = False, pr_offline_since_ms = now_ms\<rparr>],
                br_players := (br_players r)[i := (br_players r ! i)\<lparr>ps_online := False\<rparr>]\<rparr>)
           else r))"

text \<open>The counters of the loop in \<^verbatim>\<open>ResolveReconnectGrace\<close>: offline count, online count, the last
  online index and the latest moment a player went offline.\<close>

record grace_scan =
  gs_offline_count :: nat
  gs_online_index :: nat
  gs_online_count :: nat
  gs_latest_offline_at :: ms

definition grace_step :: "PlayerRuntime list \<Rightarrow> nat \<Rightarrow> grace_scan \<Rightarrow> grace_scan" where
  "grace_step rts i s =
     (if pr_online (rts ! i)
      then s\<lparr>gs_online_count := Suc (gs_online_count s), gs_online_index := i\<rparr>
      else s\<lparr>gs_offline_count := Suc (gs_offline_count s),
             gs_latest_offline_at := max (gs_latest_offline_at s) (pr_offline_since_ms (rts ! i))\<rparr>)"

definition scan_grace :: "PlayerRuntime list \<Rightarrow> grace_scan" where
  "scan_grace rts = fold (grace_step rts) [0..<length rts]
     \<lparr>gs_offline_count = 0, gs_online_index = 0, gs_online_count = 0, gs_latest_offline_at = 0\<rparr>"

definition ResolveReconnectGrace :: "ms \<Rightarrow> BattleRoom \<Rightarrow> bool \<times> BattleRoom" where
  "ResolveReconnectGrace now_ms r =
     (if br_phase r \<noteq> kPlaying \<or> length (br_runtime r) \<noteq> length (br_players r) then (False, r)
      else let s = scan_grace (br_runtime r) in
        if gs_offline_count s = 0 then (False, r)
        else if now_ms - gs_latest_offline_at s < kReconnectGraceMs then (False, r)
        else if gs_online_count s > 0
          then (True, BattleRoom_Finish kDisconnect
                  (ps_player_id (br_players r ! gs_online_index s)) now_ms r)
        else (True, BattleRoom_Abort now_ms r))"

section \<open>Advancing frames\<close>

text \<open>One iteration of the loop that settles this frame's attacks.\<close>

definition settle_attack ::
  "nat \<Rightarrow> bool list \<times> PlayerSnapshot list \<Rightarrow> bool list \<times> PlayerSnapshot list" where
  "settle_attack i s =
     (case s of (pend, ps) \<Rightarrow>
       if \<not> pend ! i then (pend, ps)
       else
         let pend' = pend[i := False] in
         if length ps < 2 then (pend', ps)
         else
           let target = (i + 1) mod length ps;
               hp = ps_hp (ps ! target) - kAttackDamage
           in (pend', ps[target := (ps ! target)\<lparr>ps_hp := (if hp < 0 then 0 else hp)\<rparr>]))"

definition settle_attacks ::
  "bool list \<Rightarrow> PlayerSnapshot list \<Rightarrow> bool list \<times> PlayerSnapshot list" where
  "settle_attacks pend ps = fold settle_attack [0..<length ps] (pend, ps)"

definition alive_indices :: "PlayerSnapshot list \<Rightarrow> nat list" where
  "alive_indices ps = filter (\<lambda>i. ps_hp (ps ! i) > 0) [0..<length ps]"

definition timeout_winner :: "PlayerSnapshot list \<Rightarrow> string" where
  "timeout_winner ps =
     (if length ps = 2
      then if ps_hp (ps ! 0) > ps_hp (ps ! 1) then ps_player_id (ps ! 0)
           else if ps_hp (ps ! 1) > ps_hp (ps ! 0) then ps_player_id (ps ! 1)
           else []
      else [])"

definition AdvanceOneFrame :: "ms \<Rightarrow> BattleRoom \<Rightarrow> BattleRoom" where
  "AdvanceOneFrame now_ms r =
     (let (pend, ps) = settle_attacks (br_pending_attack r) (br_players r);
          r1 = r\<lparr>br_frame := br_frame r + 1, br_pending_attack := pend, br_players := ps\<rparr>;
          alive = alive_indices ps
      in if length alive \<le> 1
         then BattleRoom_Finish kHpZero
                (if length alive = 1 then ps_player_id (ps ! (alive ! 0)) else []) now_ms r1
         else if br_frame r1 \<ge> kMaxFrames
         then BattleRoom_Finish kTimeout (timeout_winner ps) now_ms r1
         else PushSnapshot r1)"

text \<open>The loop \<^verbatim>\<open>for (i = 0; i < frames && phase_ == kPlaying; ++i)\<close>; the flag is \<^verbatim>\<open>changed\<close>.\<close>

fun tick_frames :: "nat \<Rightarrow> ms \<Rightarrow> bool \<Rightarrow> BattleRoom \<Rightarrow> bool \<times> BattleRoom" where
  "tick_frames 0 now_ms changed r = (changed, r)"
| "tick_frames (Suc n) now_ms changed r =
     (if br_phase r = kPlaying
      then tick_frames n now_ms True
             (AdvanceOneFrame now_ms (r\<lparr>br_last_tick_ms := br_last_tick_ms r + kFrameIntervalMs\<rparr>))
      else (changed, r))"

definition BattleRoom_Tick :: "ms \<Rightarrow> BattleRoom \<Rightarrow> bool \<times> BattleRoom" where
  "BattleRoom_Tick now_ms r =
     (if br_phase r = kCreated \<or> br_phase r = kWaiting
      then if now_ms - br_created_at_ms r \<ge> kWaitingTimeoutMs
           then (True, BattleRoom_Abort now_ms r) else (False, r)
      else if br_phase r \<noteq> kPlaying then (False, r)
      else if IsWaitingForReconnect r
      then case ResolveReconnectGrace now_ms r of
             (True, r') \<Rightarrow> (True, r')
           | (False, r') \<Rightarrow> (False, r'\<lparr>br_last_tick_ms := now_ms\<rparr>)
      else if now_ms < br_last_tick_ms r then (False, r)
      else
        let frames = (now_ms - br_last_tick_ms r) div kFrameIntervalMs in
        if frames \<le> 0 then (False, r)
        else if frames > kMaxCatchUpFrames
        then tick_frames (nat kMaxCatchUpFrames) now_ms False
               (r\<lparr>br_last_tick_ms := br_last_tick_ms r
                   + (frames - kMaxCatchUpFrames) * kFrameIntervalMs\<rparr>)
        else tick_frames (nat frames) now_ms False r)"

section \<open>Reading the history\<close>

definition frame_range_step :: "RoomSnapshot \<Rightarrow> bool \<times> frame_no \<times> frame_no \<Rightarrow> bool \<times> frame_no \<times> frame_no" where
  "frame_range_step s st = (case st of (first, oldest, newest) \<Rightarrow>
     (False, if first \<or> rs_frame s < oldest then rs_frame s else oldest,
             if first \<or> rs_frame s > newest then rs_frame s else newest))"

text \<open>\<^verbatim>\<open>SnapshotFrameRange\<close>: the pair (oldest, newest), both 0 for an empty buffer.\<close>

definition SnapshotFrameRange :: "BattleRoom \<Rightarrow> frame_no \<times> frame_no" where
  "SnapshotFrameRange r = snd (fold frame_range_step (br_history r) (True, 0, 0))"

definition MaxSnapshotFrame :: "BattleRoom \<Rightarrow> frame_no" where
  "MaxSnapshotFrame r = fold (\<lambda>s m. if rs_frame s > m then rs_frame s else m) (br_history r) 0"

definition snapshots_step :: "frame_no \<Rightarrow> RoomSnapshot \<Rightarrow> RoomSnapshot list \<Rightarrow> RoomSnapshot list" where
  "snapshots_step since s result =
     (if rs_frame s \<le> since then result
      else if result \<noteq> [] \<and> rs_frame (last result) = rs_frame s then butlast result @ [s]
      else result @ [s])"

definition SnapshotsAfter :: "frame_no \<Rightarrow> BattleRoom \<Rightarrow> RoomSnapshot list" where
  "SnapshotsAfter since r = fold (snapshots_step since) (br_history r) []"

end
