(* ===== verification/Snapshot_Reader.thy ===== *)
theory Snapshot_Reader
  imports Room_Types
begin

text \<open>
  \<^verbatim>\<open>src/room/room_snapshot_reader.cpp\<close>: parsing the two enum columns of a stored room and the
  check that decides whether a stored room may be restored. The code returns the reason as a
  message string, empty for a usable row; here a reason is a constructor and a usable row has
  \<^term>\<open>None\<close>.
\<close>

datatype SnapshotProblem =
  BadMatchId | BadRoomId | BadFrame | NegativeTimestamp | BadPlayerId nat | BadPlayerHp nat
| SamePlayerTwice | NobodyJoined | WinnerNotInRoom | TerminalWithoutReason
| WrongColumnCount nat | UnknownState string | UnknownReason string | CannotRebuild

definition ParseRoomPhase :: "string \<Rightarrow> RoomPhase option" where
  "ParseRoomPhase text =
     (if text = ''created'' then Some kCreated
      else if text = ''waiting'' then Some kWaiting
      else if text = ''playing'' then Some kPlaying
      else if text = ''finishing'' then Some kFinishing
      else if text = ''finished'' then Some kFinished
      else if text = ''aborted'' then Some kAborted
      else None)"

definition ParseFinishReason :: "string \<Rightarrow> FinishReason option" where
  "ParseFinishReason text =
     (if text = ''none'' then Some kNone
      else if text = ''hp_zero'' then Some kHpZero
      else if text = ''timeout'' then Some kTimeout
      else if text = ''aborted'' then Some kAbortedReason
      else None)"

text \<open>The loop over the two player slots, from index \<open>i\<close>.\<close>

fun validate_players :: "nat \<Rightarrow> RoomPlayerRecord list \<Rightarrow> SnapshotProblem option" where
  "validate_players i [] = None"
| "validate_players i (p # ps) =
     (if bad_id (rp_player_id p) then Some (BadPlayerId (i + 1))
      else if rp_hp p < 0 \<or> rp_hp p > kInitialHp then Some (BadPlayerHp (i + 1))
      else validate_players (i + 1) ps)"

definition ValidateRoomSnapshot :: "RoomSnapshotRecord \<Rightarrow> SnapshotProblem option" where
  "ValidateRoomSnapshot record =
     (let p0 = rr_players record ! 0; p1 = rr_players record ! 1 in
      if bad_id (rr_match_id record) then Some BadMatchId
      else if bad_id (rr_room_id record) then Some BadRoomId
      else if rr_frame record < 0 \<or> rr_frame record > kMaxFrames then Some BadFrame
      else if rr_started_at_ms record < 0 \<or> rr_finished_at_ms record < 0 then Some NegativeTimestamp
      else case validate_players 0 (rr_players record) of Some problem \<Rightarrow> Some problem
      | None \<Rightarrow>
          if rp_player_id p0 = rp_player_id p1 then Some SamePlayerTwice
          else if (rr_phase record = kPlaying \<or> rr_phase record = kFinishing)
            \<and> \<not> rp_joined p0 \<and> \<not> rp_joined p1 then Some NobodyJoined
          else if rr_winner_id record \<noteq> [] \<and> rr_winner_id record \<noteq> rp_player_id p0
            \<and> rr_winner_id record \<noteq> rp_player_id p1 then Some WinnerNotInRoom
          else if (rr_phase record = kFinished \<or> rr_phase record = kAborted)
            \<and> rr_finish_reason record = kNone then Some TerminalWithoutReason
          else None)"

section \<open>Parsing what was printed\<close>

lemma ParseRoomPhase_ToString: "ParseRoomPhase (phase_ToString p) = Some p"
  by (cases p) (simp_all add: ParseRoomPhase_def)

lemma ParseRoomPhase_Some: "ParseRoomPhase s = Some p \<longleftrightarrow> s = phase_ToString p"
  by (cases p) (auto simp: ParseRoomPhase_def)

text \<open>The stored phase column is parsed back exactly, and nothing else is accepted as a phase.\<close>

lemma phase_text_roundtrip:
  "ParseRoomPhase (phase_ToString p) = Some p \<and>
   (ParseRoomPhase s = Some p \<longleftrightarrow> s = phase_ToString p)"
  by (simp add: ParseRoomPhase_ToString ParseRoomPhase_Some)

text \<open>The stored finish reason is parsed back except for one value. A match won because the
  opponent did not reconnect is stored as \<open>disconnect\<close>, and the parser, which has no case for
  that text, rejects it.\<close>

lemma finish_reason_text_roundtrip_fails_for_disconnect:
  "ParseFinishReason (reason_ToString reason) = (if reason = kDisconnect then None else Some reason)"
  by (cases reason) (simp_all add: ParseFinishReason_def)

section \<open>What validation guarantees\<close>

lemma validate_players_None:
  "validate_players i ps = None \<longleftrightarrow>
     (\<forall>p \<in> set ps. \<not> bad_id (rp_player_id p) \<and> 0 \<le> rp_hp p \<and> rp_hp p \<le> kInitialHp)"
  by (induction ps arbitrary: i) auto

text \<open>A row of two players passes validation exactly when its identifiers are usable, frame,
  times and health are in range, the players differ, a started match has somebody in it, the winner
  is one of the players and a terminal row has a reason.\<close>

lemma validation_is_exact:
  assumes "rr_players rec = [p0, p1]"
  shows "ValidateRoomSnapshot rec = None \<longleftrightarrow>
    \<not> bad_id (rr_match_id rec) \<and> \<not> bad_id (rr_room_id rec) \<and>
    0 \<le> rr_frame rec \<and> rr_frame rec \<le> kMaxFrames \<and>
    0 \<le> rr_started_at_ms rec \<and> 0 \<le> rr_finished_at_ms rec \<and>
    (\<forall>p \<in> {p0, p1}. \<not> bad_id (rp_player_id p) \<and> 0 \<le> rp_hp p \<and> rp_hp p \<le> kInitialHp) \<and>
    rp_player_id p0 \<noteq> rp_player_id p1 \<and>
    (rr_phase rec \<in> {kPlaying, kFinishing} \<longrightarrow> rp_joined p0 \<or> rp_joined p1) \<and>
    rr_winner_id rec \<in> {[], rp_player_id p0, rp_player_id p1} \<and>
    (rr_phase rec \<in> {kFinished, kAborted} \<longrightarrow> rr_finish_reason rec \<noteq> kNone)"
proof (cases "validate_players 0 [p0, p1]")
  case None
  then have "\<forall>p \<in> {p0, p1}. \<not> bad_id (rp_player_id p) \<and> 0 \<le> rp_hp p \<and> rp_hp p \<le> kInitialHp"
    unfolding validate_players_None by simp
  with None show ?thesis
    unfolding ValidateRoomSnapshot_def Let_def assms
    by (simp add: not_less)
next
  case (Some e)
  then have "\<not> (\<forall>p \<in> {p0, p1}. \<not> bad_id (rp_player_id p) \<and> 0 \<le> rp_hp p \<and> rp_hp p \<le> kInitialHp)"
    using validate_players_None [of 0 "[p0, p1]"] by simp
  with Some show ?thesis unfolding ValidateRoomSnapshot_def Let_def assms
    by (simp del: validate_players.simps) blast
qed

definition sample_record :: RoomSnapshotRecord where
  "sample_record = \<lparr>rr_match_id = ''m-1'', rr_room_id = ''r-1'', rr_phase = kPlaying, rr_frame = 42,
     rr_players = [\<lparr>rp_player_id = ''alice'', rp_hp = 80, rp_joined = True\<rparr>,
                   \<lparr>rp_player_id = ''bob'', rp_hp = 30, rp_joined = True\<rparr>],
     rr_winner_id = [], rr_finish_reason = kNone, rr_started_at_ms = 1000,
     rr_finished_at_ms = 0, rr_snapshot_at_ms = 5200\<rparr>"

lemma validation_is_exact_witness: "ValidateRoomSnapshot sample_record = None"
proof -
  have "rr_players sample_record = [\<lparr>rp_player_id = ''alice'', rp_hp = 80, rp_joined = True\<rparr>,
                   \<lparr>rp_player_id = ''bob'', rp_hp = 30, rp_joined = True\<rparr>]"
    by (simp add: sample_record_def)
  from validation_is_exact [OF this] show ?thesis
    by (simp add: sample_record_def bad_id_def room_consts)
qed

end
