(* ===== verification/Decimal.thy ===== *)
theory Decimal
  imports RGB_Prelude
begin

text \<open>
  The two C++ standard-library conversions the services use at their storage boundaries:
  \<^verbatim>\<open>std::to_string\<close> on 64-bit integers and \<^verbatim>\<open>std::from_chars\<close> into \<^verbatim>\<open>std::int64_t\<close> (longest
  prefix of digits after an optional minus sign; no digits or a value out of range is an error),
  and the helpers \<^verbatim>\<open>ParseInt64\<close> and \<^verbatim>\<open>ParseString\<close> that
  \<^verbatim>\<open>src/room/mysql_room_snapshot_reader.cpp\<close> and \<^verbatim>\<open>src/room/mysql_match_result_writer.cpp\<close> share.
\<close>

definition digit_char :: "nat \<Rightarrow> char" where
  "digit_char d = char_of (48 + d)"

text \<open>A digit of the conversions \<^verbatim>\<open>%x\<close>, for one below 16.\<close>

definition hex_digit :: "nat \<Rightarrow> char" where
  "hex_digit d = (if d < 10 then char_of (48 + d) else char_of (87 + d))"

definition digit_value :: "char \<Rightarrow> nat" where
  "digit_value c = of_char c - 48"

definition is_digit :: "char \<Rightarrow> bool" where
  "is_digit c \<longleftrightarrow> 48 \<le> (of_char c :: nat) \<and> (of_char c :: nat) \<le> 57"

fun nat_digits :: "nat \<Rightarrow> string" where
  "nat_digits n = (if n < 10 then [digit_char n] else nat_digits (n div 10) @ [digit_char (n mod 10)])"

declare nat_digits.simps [simp del]

definition to_string :: "int \<Rightarrow> string" where
  "to_string i = (if i < 0 then CHR ''-'' # nat_digits (nat (- i)) else nat_digits (nat i))"

definition digits_value :: "string \<Rightarrow> nat" where
  "digits_value cs = foldl (\<lambda>a c. 10 * a + digit_value c) 0 cs"

definition in_int64 :: "int \<Rightarrow> bool" where
  "in_int64 i \<longleftrightarrow> - (2 ^ 63) \<le> i \<and> i < 2 ^ 63"

definition from_chars :: "string \<Rightarrow> int option" where
  "from_chars s =
     (let (neg, rest) = (case s of c # cs \<Rightarrow> if c = CHR ''-'' then (True, cs) else (False, s) | [] \<Rightarrow> (False, []));
          ds = takeWhile is_digit rest;
          v = (if neg then - int (digits_value ds) else int (digits_value ds))
      in if ds = [] then None else if in_int64 v then Some v else None)"

definition ParseInt64 :: "string option \<Rightarrow> int" where
  "ParseInt64 value = (case value of
     None \<Rightarrow> 0
   | Some s \<Rightarrow> if s = [] then 0 else (case from_chars s of None \<Rightarrow> 0 | Some i \<Rightarrow> i))"

definition ParseString :: "string option \<Rightarrow> string" where
  "ParseString value = (case value of Some s \<Rightarrow> s | None \<Rightarrow> [])"

text \<open>\<^verbatim>\<open>static_cast<std::int32_t>\<close> of a 64-bit value keeps the low 32 bits.\<close>

definition to_int32 :: "int \<Rightarrow> int" where
  "to_int32 i = signed_take_bit 31 i"

section \<open>Round trip\<close>

lemma of_char_digit: "d < 10 \<Longrightarrow> (of_char (digit_char d) :: nat) = 48 + d"
  by (simp add: digit_char_def)

lemma digit_char_props: "d < 10 \<Longrightarrow> is_digit (digit_char d)" "d < 10 \<Longrightarrow> digit_value (digit_char d) = d"
  by (simp_all add: is_digit_def digit_value_def of_char_digit)

lemma nat_digits_props:
  "nat_digits n \<noteq> [] \<and> (\<forall>c \<in> set (nat_digits n). is_digit c) \<and> digits_value (nat_digits n) = n"
proof (induction n rule: nat_digits.induct)
  case (1 n)
  show ?case
  proof (cases "n < 10")
    case True
    then show ?thesis by (simp add: nat_digits.simps [of n] digits_value_def digit_char_props)
  next
    case False
    with "1.IH" show ?thesis
      by (simp add: nat_digits.simps [of n] digits_value_def digit_char_props ball_Un)
  qed
qed

lemma is_digit_not_minus: "is_digit c \<Longrightarrow> c \<noteq> CHR ''-''"
  by (auto simp: is_digit_def)

lemma takeWhile_nat_digits: "takeWhile is_digit (nat_digits n) = nat_digits n"
  using nat_digits_props [of n] by (simp add: takeWhile_eq_all_conv)

lemma from_chars_digits:
  "from_chars (nat_digits n) = (if in_int64 (int n) then Some (int n) else None)"
proof -
  obtain c cs where "nat_digits n = c # cs" "c \<noteq> CHR ''-''"
    using nat_digits_props [of n] is_digit_not_minus by (cases "nat_digits n") auto
  then have "(case nat_digits n of c # cs \<Rightarrow> if c = CHR ''-'' then (True, cs) else (False, nat_digits n)
      | [] \<Rightarrow> (False, [])) = (False, nat_digits n)" by simp
  then show ?thesis
    by (simp add: from_chars_def takeWhile_nat_digits nat_digits_props Let_def)
qed

lemma from_chars_minus_digits:
  "from_chars (CHR ''-'' # nat_digits n) = (if in_int64 (- int n) then Some (- int n) else None)"
  by (simp add: from_chars_def takeWhile_nat_digits nat_digits_props Let_def)

lemma from_chars_to_string: "in_int64 i \<Longrightarrow> from_chars (to_string i) = Some i"
  by (simp add: to_string_def from_chars_digits from_chars_minus_digits)

lemma from_chars_in_range: "from_chars s = Some i \<Longrightarrow> in_int64 i"
  by (auto simp: from_chars_def Let_def split: prod.splits if_splits)

lemma to_string_nonempty [simp]: "to_string i \<noteq> []"
  using nat_digits_props by (simp add: to_string_def)

lemma ParseInt64_to_string: "in_int64 i \<Longrightarrow> ParseInt64 (Some (to_string i)) = i"
  by (simp add: ParseInt64_def from_chars_to_string)

lemma to_int32_id: "- (2 ^ 31) \<le> i \<Longrightarrow> i < 2 ^ 31 \<Longrightarrow> to_int32 i = i"
  unfolding to_int32_def by (rule signed_take_bit_int_eq_self) simp_all

lemma ParseInt64_in_range: "in_int64 (ParseInt64 v)"
proof -
  have "in_int64 0" by (simp add: in_int64_def)
  then show ?thesis by (auto simp: ParseInt64_def split: option.splits intro: from_chars_in_range)
qed

end
