(* ===== verification/Room_Storage.thy ===== *)
theory Room_Storage
  imports Battle_Room Snapshot_Reader Decimal
begin

text \<open>
  The room service's storage: the three abstract classes of \<^verbatim>\<open>match_result_writer.hpp\<close>,
  \<^verbatim>\<open>room_snapshot_writer.hpp\<close> and \<^verbatim>\<open>room_snapshot_reader.hpp\<close> as records of functions on a
  store of any type, their contracts as locales, and the MySQL implementations
  (\<^verbatim>\<open>mysql_match_result_writer.cpp\<close>, \<^verbatim>\<open>mysql_room_snapshot_writer.cpp\<close>,
  \<^verbatim>\<open>mysql_room_snapshot_reader.cpp\<close>) over a connection. The connection's \<^verbatim>\<open>Query\<close> is a parameter of
  the implementations; \<open>mysql_query\<close> says what the four SQL statements of the source do to the two
  tables, and the contracts are proved for it.
\<close>

section \<open>The interfaces\<close>

datatype WriteStatus = WriteOk | WriteUnavailable
datatype ReadStatus = ReadOk | ReadNotFound | ReadUnavailable
datatype SnapshotWriteStatus = SnapshotWriteOk | SnapshotWriteUnavailable

record 'db MatchResultWriter =
  mw_Write :: "MatchResultRecord \<Rightarrow> 'db \<Rightarrow> WriteStatus \<times> 'db"
  mw_Read :: "string \<Rightarrow> 'db \<Rightarrow> (ReadStatus \<times> MatchResultRecord option) \<times> 'db"

record 'db RoomSnapshotWriter =
  sw_Save :: "RoomSnapshotRecord \<Rightarrow> 'db \<Rightarrow> SnapshotWriteStatus \<times> 'db"

record RoomSnapshotRow =
  row_record :: RoomSnapshotRecord
  row_problem :: "SnapshotProblem option"

record 'db RoomSnapshotReader =
  sr_LoadUnfinished :: "'db \<Rightarrow> RoomSnapshotRow list option \<times> 'db"

text \<open>
  \<open>result_store\<close>: an idempotent store of results. A write either leaves the store as it was or adds
  the (normalised) record under a match identifier that was absent; a successful write leaves the
  identifier present; a failed one promises nothing more (a timed-out statement may have been
  executed). A successful read returns what is stored.
\<close>

locale result_store =
  fixes w :: "'db MatchResultWriter"
    and stored :: "'db \<Rightarrow> string \<Rightarrow> MatchResultRecord option"
    and norm :: "MatchResultRecord \<Rightarrow> MatchResultRecord"
  assumes write_effect: "mw_Write w rec db = (st, db') \<Longrightarrow>
      stored db' = stored db \<or>
      stored db (mr_match_id rec) = None \<and> stored db' = (stored db)(mr_match_id rec \<mapsto> norm rec)"
    and write_ok: "mw_Write w rec db = (WriteOk, db') \<Longrightarrow> stored db' (mr_match_id rec) \<noteq> None"
    and read_effect: "mw_Read w m db = (res, db') \<Longrightarrow> stored db' = stored db"
    and read_ok: "mw_Read w m db = ((ReadOk, x), db') \<Longrightarrow> x = stored db m \<and> x \<noteq> None"
    and read_not_found: "mw_Read w m db = ((ReadNotFound, x), db') \<Longrightarrow> stored db m = None \<or> m = []"
begin

lemma write_keeps: "mw_Write w rec db = (st, db') \<Longrightarrow> stored db m = Some x \<Longrightarrow> stored db' m = Some x"
  using write_effect [of rec db st db'] by auto

lemma write_twice:
  assumes "mw_Write w rec db = (WriteOk, db1)" and "mw_Write w rec2 db1 = (st, db2)"
    and "mr_match_id rec2 = mr_match_id rec"
  shows "stored db2 = stored db1"
  using write_ok [OF assms(1)] write_effect [OF assms(2)] assms(3) by auto

lemma write_ok_fresh:
  assumes "mw_Write w rec db = (WriteOk, db')" "stored db (mr_match_id rec) = None"
  shows "stored db' (mr_match_id rec) = Some (norm rec)"
  using write_ok [OF assms(1)] write_effect [OF assms(1)] assms(2) by auto

end

text \<open>
  \<open>snapshot_store\<close>: the newest snapshot per match. Saving never replaces a snapshot by an older
  one, a successful save of a newer or first snapshot is visible, and loading returns the rows of
  the rooms that have not ended.
\<close>

locale snapshot_store =
  fixes sw :: "'db RoomSnapshotWriter"
    and sr :: "'db RoomSnapshotReader"
    and saved_at :: "'db \<Rightarrow> string \<Rightarrow> ms option"
  assumes save_monotone: "sw_Save sw rec db = (st, db') \<Longrightarrow> saved_at db m = Some t \<Longrightarrow>
      \<exists>t'. saved_at db' m = Some t' \<and> t \<le> t'"
    and load_effect: "sr_LoadUnfinished sr db = (rows, db') \<Longrightarrow> saved_at db' = saved_at db"
begin

lemma saves_monotone:
  assumes "saved_at db m = Some t"
  shows "\<exists>t'. saved_at (fold (\<lambda>rec d. snd (sw_Save sw rec d)) recs db) m = Some t' \<and> t \<le> t'"
  using assms
proof (induction recs arbitrary: db t)
  case (Cons rec recs)
  obtain st db' where s: "sw_Save sw rec db = (st, db')" by (cases "sw_Save sw rec db")
  from save_monotone [OF s Cons.prems] obtain t' where t': "saved_at db' m = Some t'" "t \<le> t'" by blast
  from Cons.IH [OF t'(1)] t'(2) show ?case by (auto simp: s)
qed auto

end

text \<open>Results and snapshots live in one database, and a snapshot never touches a result.\<close>

locale room_storage = result_store w stored norm + snapshot_store sw sr saved_at
  for w :: "'db MatchResultWriter" and stored and norm and sw :: "'db RoomSnapshotWriter"
    and sr :: "'db RoomSnapshotReader" and saved_at +
  assumes save_stored: "sw_Save sw rec db = (st, db') \<Longrightarrow> stored db' = stored db"
    and load_stored: "sr_LoadUnfinished sr db = (rows, db') \<Longrightarrow> stored db' = stored db"
begin

lemma saves_stored: "stored (fold (\<lambda>rec d. snd (sw_Save sw rec d)) recs db) = stored db"
proof (induction recs arbitrary: db)
  case (Cons rec recs)
  obtain st db' where s: "sw_Save sw rec db = (st, db')" by (cases "sw_Save sw rec db")
  show ?case using save_stored [OF s] Cons.IH [of db'] by (simp add: s)
qed simp

end

section \<open>The MySQL implementations over a connection\<close>

type_synonym SqlRow = "string option list"

text \<open>The SQL texts of the source, by the file that holds them.\<close>

datatype SqlStatement = InsertMatchResult | SelectMatchResult | UpsertRoom | SelectUnfinishedRooms

type_synonym 'db Query = "SqlStatement \<Rightarrow> string list \<Rightarrow> 'db \<Rightarrow> (SqlRow list) option \<times> 'db"

definition MysqlMatchResultWriter_Write ::
  "'db Query option \<Rightarrow> MatchResultRecord \<Rightarrow> 'db \<Rightarrow> WriteStatus \<times> 'db" where
  "MysqlMatchResultWriter_Write conn record db =
     (case conn of None \<Rightarrow> (WriteUnavailable, db)
      | Some query \<Rightarrow>
          if mr_match_id record = [] then (WriteUnavailable, db)
          else case query InsertMatchResult
                 [mr_match_id record, mr_room_id record, mr_winner_id record,
                  to_string (mr_player_count record), to_string (mr_started_at_ms record),
                  to_string (mr_finished_at_ms record)] db of
                 (None, db') \<Rightarrow> (WriteUnavailable, db')
               | (Some _, db') \<Rightarrow> (WriteOk, db'))"

definition MysqlMatchResultWriter_Read ::
  "'db Query option \<Rightarrow> string \<Rightarrow> 'db \<Rightarrow> (ReadStatus \<times> MatchResultRecord option) \<times> 'db" where
  "MysqlMatchResultWriter_Read conn match_id db =
     (case conn of None \<Rightarrow> ((ReadUnavailable, None), db)
      | Some query \<Rightarrow>
          if match_id = [] then ((ReadNotFound, None), db)
          else case query SelectMatchResult [match_id] db of
              (None, db') \<Rightarrow> ((ReadUnavailable, None), db')
            | (Some [], db') \<Rightarrow> ((ReadNotFound, None), db')
            | (Some (row # _), db') \<Rightarrow>
                if length row \<noteq> 6 then ((ReadUnavailable, None), db')
                else ((ReadOk, Some
                  \<lparr>mr_match_id = ParseString (row ! 0), mr_room_id = ParseString (row ! 1),
                   mr_winner_id = ParseString (row ! 2),
                   mr_player_count = to_int32 (ParseInt64 (row ! 3)),
                   mr_started_at_ms = ParseInt64 (row ! 4) * 1000,
                   mr_finished_at_ms = ParseInt64 (row ! 5) * 1000\<rparr>), db'))"

definition BoolLiteral :: "bool \<Rightarrow> string" where
  "BoolLiteral b = (if b then ''1'' else ''0'')"

definition snapshot_params :: "RoomSnapshotRecord \<Rightarrow> string list" where
  "snapshot_params record =
     (let p0 = rr_players record ! 0; p1 = rr_players record ! 1 in
      [rr_match_id record, rr_room_id record, phase_ToString (rr_phase record),
       to_string (rr_frame record),
       rp_player_id p0, to_string (rp_hp p0), BoolLiteral (rp_joined p0),
       rp_player_id p1, to_string (rp_hp p1), BoolLiteral (rp_joined p1),
       rr_winner_id record, reason_ToString (rr_finish_reason record),
       to_string (rr_started_at_ms record), to_string (rr_finished_at_ms record),
       to_string (rr_snapshot_at_ms record)])"

definition MysqlRoomSnapshotWriter_Save ::
  "'db Query option \<Rightarrow> RoomSnapshotRecord \<Rightarrow> 'db \<Rightarrow> SnapshotWriteStatus \<times> 'db" where
  "MysqlRoomSnapshotWriter_Save conn record db =
     (case conn of None \<Rightarrow> (SnapshotWriteUnavailable, db)
      | Some query \<Rightarrow>
          if rr_match_id record = [] \<or> rr_room_id record = [] then (SnapshotWriteUnavailable, db)
          else case query UpsertRoom (snapshot_params record) db of
              (None, db') \<Rightarrow> (SnapshotWriteUnavailable, db')
            | (Some _, db') \<Rightarrow> (SnapshotWriteOk, db'))"

definition ParseBool :: "string option \<Rightarrow> bool" where
  "ParseBool value \<longleftrightarrow> value = Some ''1''"

definition kColumnCount :: nat where "kColumnCount = 15"

text \<open>One row of the unfinished-rooms query; every row is kept, a damaged one with its problem.\<close>

definition parse_room_row :: "SqlRow \<Rightarrow> RoomSnapshotRow" where
  "parse_room_row row =
     (if length row \<noteq> kColumnCount
      then \<lparr>row_record = default_snapshot_record, row_problem = Some (WrongColumnCount (length row))\<rparr>
      else
        let record = default_snapshot_record
              \<lparr>rr_match_id := ParseString (row ! 0), rr_room_id := ParseString (row ! 1),
               rr_frame := ParseInt64 (row ! 3), rr_winner_id := ParseString (row ! 10),
               rr_started_at_ms := ParseInt64 (row ! 12), rr_finished_at_ms := ParseInt64 (row ! 13),
               rr_snapshot_at_ms := ParseInt64 (row ! 14),
               rr_players :=
                 [\<lparr>rp_player_id = ParseString (row ! 4), rp_hp = to_int32 (ParseInt64 (row ! 5)),
                   rp_joined = ParseBool (row ! 6)\<rparr>,
                  \<lparr>rp_player_id = ParseString (row ! 7), rp_hp = to_int32 (ParseInt64 (row ! 8)),
                   rp_joined = ParseBool (row ! 9)\<rparr>]\<rparr>
        in case ParseRoomPhase (ParseString (row ! 2)) of
             None \<Rightarrow> \<lparr>row_record = record, row_problem = Some (UnknownState (ParseString (row ! 2)))\<rparr>
           | Some phase \<Rightarrow>
               let record = record\<lparr>rr_phase := phase\<rparr> in
               case ParseFinishReason (ParseString (row ! 11)) of
                 None \<Rightarrow> \<lparr>row_record = record, row_problem = Some (UnknownReason (ParseString (row ! 11)))\<rparr>
               | Some reason \<Rightarrow>
                   let record = record\<lparr>rr_finish_reason := reason\<rparr>
                   in \<lparr>row_record = record, row_problem = ValidateRoomSnapshot record\<rparr>)"

definition MysqlRoomSnapshotReader_LoadUnfinished ::
  "'db Query option \<Rightarrow> 'db \<Rightarrow> RoomSnapshotRow list option \<times> 'db" where
  "MysqlRoomSnapshotReader_LoadUnfinished conn db =
     (case conn of None \<Rightarrow> (None, db)
      | Some query \<Rightarrow>
          (case query SelectUnfinishedRooms [] db of
             (None, db') \<Rightarrow> (None, db')
           | (Some rows, db') \<Rightarrow> (Some (map parse_room_row rows), db')))"

section \<open>What the four statements do to the tables\<close>

text \<open>
  The tables are lists of rows. \<open>db_faults\<close> is the schedule of connection failures: each statement
  takes the next entry; a statement can fail before it is executed or after (a lost reply). The
  rounding of milliseconds to the seconds of a TIMESTAMP column is the parameter \<open>to_ts\<close>.
\<close>

datatype fault = NoFault | FailBefore | FailAfter

record mysql_db =
  db_faults :: "fault list"
  db_results :: "SqlRow list"
  db_rooms :: "SqlRow list"

definition nullif_empty :: "string \<Rightarrow> string option" where
  "nullif_empty s = (if s = [] then None else Some s)"

definition result_row :: "(ms \<Rightarrow> int) \<Rightarrow> string list \<Rightarrow> SqlRow" where
  "result_row to_ts ps =
     [Some (ps ! 0), Some (ps ! 1), nullif_empty (ps ! 2), Some (ps ! 3),
      Some (to_string (to_ts (ParseInt64 (Some (ps ! 4))))),
      Some (to_string (to_ts (ParseInt64 (Some (ps ! 5)))))]"

definition room_row :: "string list \<Rightarrow> SqlRow" where
  "room_row ps = (map Some ps)[10 := nullif_empty (ps ! 10)]"

text \<open>\<^verbatim>\<open>INSERT ... ON DUPLICATE KEY UPDATE match_id = match_id\<close>: the first write wins.\<close>

definition insert_result :: "SqlRow \<Rightarrow> SqlRow list \<Rightarrow> SqlRow list" where
  "insert_result row rows = (if list_ex (\<lambda>r. r ! 0 = row ! 0) rows then rows else rows @ [row])"

text \<open>\<^verbatim>\<open>ON DUPLICATE KEY UPDATE c = IF(VALUES(snapshot_at_ms) >= snapshot_at_ms, VALUES(c), c)\<close> for
  every column but the key. The duplicate is found by the primary key or by the unique room id.\<close>

definition merge_room :: "SqlRow \<Rightarrow> SqlRow \<Rightarrow> SqlRow" where
  "merge_room new old =
     (if ParseInt64 (new ! 14) \<ge> ParseInt64 (old ! 14) then (old ! 0) # tl new else old)"

fun upsert_room :: "SqlRow \<Rightarrow> SqlRow list \<Rightarrow> SqlRow list" where
  "upsert_room new [] = [new]"
| "upsert_room new (old # rows) =
     (if old ! 0 = new ! 0 \<or> old ! 1 = new ! 1 then merge_room new old # rows
      else old # upsert_room new rows)"

fun run_sql :: "(ms \<Rightarrow> int) \<Rightarrow> SqlStatement \<Rightarrow> string list \<Rightarrow> mysql_db \<Rightarrow> SqlRow list \<times> mysql_db" where
  "run_sql to_ts InsertMatchResult ps db =
     ([], db\<lparr>db_results := insert_result (result_row to_ts ps) (db_results db)\<rparr>)"
| "run_sql to_ts SelectMatchResult ps db =
     (take 1 (filter (\<lambda>r. r ! 0 = Some (ps ! 0)) (db_results db)), db)"
| "run_sql to_ts UpsertRoom ps db = ([], db\<lparr>db_rooms := upsert_room (room_row ps) (db_rooms db)\<rparr>)"
| "run_sql to_ts SelectUnfinishedRooms ps db =
     (sort_key (\<lambda>r. ParseInt64 (r ! 14))
        (filter (\<lambda>r. r ! 2 \<noteq> Some ''finished'' \<and> r ! 2 \<noteq> Some ''aborted'') (db_rooms db)), db)"

definition mysql_query :: "(ms \<Rightarrow> int) \<Rightarrow> mysql_db Query" where
  "mysql_query to_ts sql ps db =
     (case db_faults db of
        FailBefore # fs \<Rightarrow> (None, db\<lparr>db_faults := fs\<rparr>)
      | FailAfter # fs \<Rightarrow> (None, snd (run_sql to_ts sql ps (db\<lparr>db_faults := fs\<rparr>)))
      | NoFault # fs \<Rightarrow> apfst Some (run_sql to_ts sql ps (db\<lparr>db_faults := fs\<rparr>))
      | [] \<Rightarrow> apfst Some (run_sql to_ts sql ps (db\<lparr>db_faults := []\<rparr>)))"

definition mysql_writer :: "(ms \<Rightarrow> int) \<Rightarrow> mysql_db MatchResultWriter" where
  "mysql_writer to_ts =
     \<lparr>mw_Write = MysqlMatchResultWriter_Write (Some (mysql_query to_ts)),
      mw_Read = MysqlMatchResultWriter_Read (Some (mysql_query to_ts))\<rparr>"

definition mysql_snapshot_writer :: "(ms \<Rightarrow> int) \<Rightarrow> mysql_db RoomSnapshotWriter" where
  "mysql_snapshot_writer to_ts =
     \<lparr>sw_Save = MysqlRoomSnapshotWriter_Save (Some (mysql_query to_ts))\<rparr>"

definition mysql_snapshot_reader :: "(ms \<Rightarrow> int) \<Rightarrow> mysql_db RoomSnapshotReader" where
  "mysql_snapshot_reader to_ts =
     \<lparr>sr_LoadUnfinished = MysqlRoomSnapshotReader_LoadUnfinished (Some (mysql_query to_ts))\<rparr>"

section \<open>The contracts hold\<close>

definition parse_result_row :: "SqlRow \<Rightarrow> MatchResultRecord" where
  "parse_result_row row =
     \<lparr>mr_match_id = ParseString (row ! 0), mr_room_id = ParseString (row ! 1),
      mr_winner_id = ParseString (row ! 2), mr_player_count = to_int32 (ParseInt64 (row ! 3)),
      mr_started_at_ms = ParseInt64 (row ! 4) * 1000,
      mr_finished_at_ms = ParseInt64 (row ! 5) * 1000\<rparr>"

definition mysql_stored :: "mysql_db \<Rightarrow> string \<Rightarrow> MatchResultRecord option" where
  "mysql_stored db m = map_option parse_result_row (find (\<lambda>r. r ! 0 = Some m) (db_results db))"

definition result_params :: "MatchResultRecord \<Rightarrow> string list" where
  "result_params rec = [mr_match_id rec, mr_room_id rec, mr_winner_id rec,
     to_string (mr_player_count rec), to_string (mr_started_at_ms rec),
     to_string (mr_finished_at_ms rec)]"

definition mysql_norm :: "(ms \<Rightarrow> int) \<Rightarrow> MatchResultRecord \<Rightarrow> MatchResultRecord" where
  "mysql_norm to_ts rec = parse_result_row (result_row to_ts (result_params rec))"

definition mysql_saved_at :: "mysql_db \<Rightarrow> string \<Rightarrow> ms option" where
  "mysql_saved_at db m =
     map_option (\<lambda>r. ParseInt64 (r ! 14)) (find (\<lambda>r. r ! 0 = Some m) (db_rooms db))"

lemma mysql_query_result:
  "snd (mysql_query to_ts sql ps db) = db\<lparr>db_faults := fs\<rparr> \<or>
   snd (mysql_query to_ts sql ps db) = snd (run_sql to_ts sql ps (db\<lparr>db_faults := fs\<rparr>))"
  if "fs = tl (db_faults db)"
  using that by (auto simp: mysql_query_def split: list.splits fault.splits)

lemma mysql_query_Some:
  "mysql_query to_ts sql ps db = (Some rows, db') \<Longrightarrow>
   (rows, db') = run_sql to_ts sql ps (db\<lparr>db_faults := tl (db_faults db)\<rparr>)"
  by (auto simp: mysql_query_def apfst_def map_prod_def split: list.splits fault.splits prod.splits)

lemma find_append: "find P (xs @ ys) = (case find P xs of None \<Rightarrow> find P ys | Some x \<Rightarrow> Some x)"
  by (induction xs) auto

lemma find_hd_filter: "find P xs = (case filter P xs of [] \<Rightarrow> None | x # _ \<Rightarrow> Some x)"
  by (induction xs) auto

lemma find_SomeD: "find P xs = Some x \<Longrightarrow> x \<in> set xs \<and> P x"
  by (induction xs) (auto split: if_splits)

lemma mysql_stored_insert:
  "mysql_stored (db\<lparr>db_results := insert_result row (db_results db)\<rparr>) =
   (if list_ex (\<lambda>r. r ! 0 = row ! 0) (db_results db) then mysql_stored db
    else (\<lambda>m. if row ! 0 = Some m then Some (parse_result_row row) else mysql_stored db m))"
  by (auto simp: mysql_stored_def insert_result_def find_append list_ex_iff fun_eq_iff
      dest: find_SomeD split: option.splits)

lemma mysql_stored_faults [simp]: "mysql_stored (db\<lparr>db_faults := fs\<rparr>) = mysql_stored db"
  by (simp add: mysql_stored_def fun_eq_iff)

lemma mysql_stored_rooms [simp]: "mysql_stored (db\<lparr>db_rooms := rs\<rparr>) = mysql_stored db"
  by (simp add: mysql_stored_def fun_eq_iff)

lemma mysql_saved_faults [simp]: "mysql_saved_at (db\<lparr>db_faults := fs\<rparr>) = mysql_saved_at db"
  by (simp add: mysql_saved_at_def fun_eq_iff)

lemma run_insert_stored:
  fixes to_ts :: "ms \<Rightarrow> int" and ps :: "string list"
  defines "row \<equiv> result_row to_ts ps"
  assumes "db' = snd (run_sql to_ts InsertMatchResult ps db)"
  shows "mysql_stored db' =
    (case mysql_stored db (ps ! 0) of
       None \<Rightarrow> (mysql_stored db)(ps ! 0 \<mapsto> parse_result_row row) | Some _ \<Rightarrow> mysql_stored db)"
proof -
  have key: "row ! 0 = Some (ps ! 0)" by (simp add: row_def result_row_def)
  have ex: "list_ex (\<lambda>r. r ! 0 = row ! 0) (db_results db) \<longleftrightarrow> mysql_stored db (ps ! 0) \<noteq> None"
    by (auto simp: mysql_stored_def list_ex_iff find_None_iff key)
  have "mysql_stored db' = (if list_ex (\<lambda>r. r ! 0 = row ! 0) (db_results db) then mysql_stored db
    else (\<lambda>m. if row ! 0 = Some m then Some (parse_result_row row) else mysql_stored db m))"
    using mysql_stored_insert [of row db] assms(2) by (simp add: row_def)
  then show ?thesis using ex by (auto simp: key fun_eq_iff split: option.splits)
qed

lemma mysql_write_cases:
  assumes "MysqlMatchResultWriter_Write (Some (mysql_query to_ts)) rec db = (st, db')"
  shows "st = WriteUnavailable \<and> mysql_stored db' = mysql_stored db \<or>
    mysql_stored db' = (case mysql_stored db (mr_match_id rec) of
       None \<Rightarrow> (mysql_stored db)(mr_match_id rec \<mapsto> mysql_norm to_ts rec) | Some _ \<Rightarrow> mysql_stored db)"
proof (cases "mr_match_id rec = []")
  case True
  then show ?thesis using assms by (simp add: MysqlMatchResultWriter_Write_def)
next
  case False
  obtain res db1 where q: "mysql_query to_ts InsertMatchResult (result_params rec) db = (res, db1)"
    by (cases "mysql_query to_ts InsertMatchResult (result_params rec) db")
  with assms False have db': "db' = db1" "st = (if res = None then WriteUnavailable else WriteOk)"
    by (auto simp: MysqlMatchResultWriter_Write_def result_params_def split: option.splits)
  define db0 where "db0 = db\<lparr>db_faults := tl (db_faults db)\<rparr>"
  have key: "result_params rec ! 0 = mr_match_id rec" by (simp add: result_params_def)
  have db0: "mysql_stored db0 = mysql_stored db" by (simp add: db0_def)
  have run: "db1 = snd (run_sql to_ts InsertMatchResult (result_params rec) db0) \<Longrightarrow> ?thesis"
    using run_insert_stored [of db1 to_ts "result_params rec" db0]
    unfolding key db0 mysql_norm_def [symmetric] db' by blast
  show ?thesis
  proof (cases res)
    case None
    then show ?thesis
      using run mysql_query_result [OF refl, of to_ts InsertMatchResult "result_params rec" db] q
      by (auto simp: db' db0_def)
  next
    case (Some rows)
    then show ?thesis
      using run mysql_query_Some [of to_ts InsertMatchResult "result_params rec" db rows db1] q
      by (simp add: db0_def prod_eq_iff)
  qed
qed

lemma mysql_query_select:
  assumes "mysql_query to_ts SelectMatchResult [m] db = (res, db')"
  shows "mysql_stored db' = mysql_stored db \<and> mysql_saved_at db' = mysql_saved_at db \<and>
    (\<forall>rows. res = Some rows \<longrightarrow> rows = take 1 (filter (\<lambda>r. r ! 0 = Some m) (db_results db)))"
  using assms by (auto simp: mysql_query_def split: list.splits fault.splits)

lemma mysql_read_cases:
  assumes "MysqlMatchResultWriter_Read (Some (mysql_query to_ts)) m db = ((st, x), db')"
  shows "mysql_stored db' = mysql_stored db \<and> (st = ReadOk \<longrightarrow> x = mysql_stored db m \<and> x \<noteq> None) \<and>
    (st = ReadNotFound \<longrightarrow> m = [] \<or> mysql_stored db m = None)"
proof (cases "m = []")
  case True
  then show ?thesis using assms by (simp add: MysqlMatchResultWriter_Read_def)
next
  case False
  obtain res db1 where q: "mysql_query to_ts SelectMatchResult [m] db = (res, db1)"
    by (cases "mysql_query to_ts SelectMatchResult [m] db")
  note sel = mysql_query_select [OF q]
  show ?thesis
  proof (cases "filter (\<lambda>r. r ! 0 = Some m) (db_results db)")
    case Nil
    then have "mysql_stored db m = None" by (simp add: mysql_stored_def find_hd_filter)
    then show ?thesis using assms False q sel Nil
      by (auto simp: MysqlMatchResultWriter_Read_def split: option.splits)
  next
    case (Cons row rest)
    then have st: "mysql_stored db m = Some (parse_result_row row)"
      by (simp add: mysql_stored_def find_hd_filter)
    have "res = None \<or> res = Some [row]" using sel Cons by (cases res) auto
    then show ?thesis using assms False q sel
      by (auto simp: MysqlMatchResultWriter_Read_def st parse_result_row_def split: if_splits)
  qed
qed

lemma upsert_room_saved:
  assumes "find (\<lambda>r. r ! 0 = Some m) rows = Some old"
  shows "\<exists>new'. find (\<lambda>r. r ! 0 = Some m) (upsert_room (n # ns) rows) = Some new' \<and>
    ParseInt64 (old ! 14) \<le> ParseInt64 (new' ! 14)"
  using assms
proof (induction rows)
  case (Cons r rows)
  have m: "merge_room (k # ns) u ! 0 = u ! 0" "ParseInt64 (u ! 14) \<le> ParseInt64 (merge_room (k # ns) u ! 14)" for k u
    by (auto simp: merge_room_def)
  from Cons show ?case by (auto simp: m split: if_splits)
qed simp

lemma mysql_save_cases:
  assumes "MysqlRoomSnapshotWriter_Save (Some (mysql_query to_ts)) rec db = (st, db')"
  shows "mysql_stored db' = mysql_stored db \<and>
    (mysql_saved_at db m = Some t \<longrightarrow> (\<exists>t'. mysql_saved_at db' m = Some t' \<and> t \<le> t'))"
proof -
  define run where "run = db\<lparr>db_faults := tl (db_faults db),
    db_rooms := upsert_room (room_row (snapshot_params rec)) (db_rooms db)\<rparr>"
  obtain n ns where row: "room_row (snapshot_params rec) = n # ns"
    by (cases "room_row (snapshot_params rec)") (simp_all add: room_row_def snapshot_params_def Let_def)
  have "snd (mysql_query to_ts UpsertRoom (snapshot_params rec) db) \<in>
      {db\<lparr>db_faults := tl (db_faults db)\<rparr>, run}"
    using mysql_query_result [OF refl, of to_ts UpsertRoom "snapshot_params rec" db]
    by (auto simp: run_def)
  then have "db' \<in> {db, db\<lparr>db_faults := tl (db_faults db)\<rparr>, run}"
    using assms by (auto simp: MysqlRoomSnapshotWriter_Save_def split: if_splits option.splits prod.splits)
  moreover have "mysql_stored run = mysql_stored db"
    by (simp add: run_def mysql_stored_def fun_eq_iff)
  moreover have "\<exists>t'. mysql_saved_at run m = Some t' \<and> t \<le> t'" if "mysql_saved_at db m = Some t"
  proof -
    from that obtain z where z: "find (\<lambda>r. r ! 0 = Some m) (db_rooms db) = Some z" "t = ParseInt64 (z ! 14)"
      by (auto simp: mysql_saved_at_def)
    from upsert_room_saved [OF z(1), of n ns] z(2) show ?thesis
      by (auto simp: mysql_saved_at_def run_def row)
  qed
  ultimately show ?thesis by auto
qed

lemma mysql_load_cases:
  assumes "MysqlRoomSnapshotReader_LoadUnfinished (Some (mysql_query to_ts)) db = (rows, db')"
  shows "mysql_stored db' = mysql_stored db \<and> mysql_saved_at db' = mysql_saved_at db"
  using assms
  by (auto simp: MysqlRoomSnapshotReader_LoadUnfinished_def mysql_query_def
      split: option.splits prod.splits list.splits fault.splits)

interpretation mysql: room_storage "mysql_writer to_ts" mysql_stored "mysql_norm to_ts"
  "mysql_snapshot_writer to_ts" "mysql_snapshot_reader to_ts" mysql_saved_at
  for to_ts
proof unfold_locales
  fix rec db st db' m res x rows t
  show "mw_Write (mysql_writer to_ts) rec db = (st, db') \<Longrightarrow> mysql_stored db' = mysql_stored db \<or>
      mysql_stored db (mr_match_id rec) = None \<and>
      mysql_stored db' = (mysql_stored db)(mr_match_id rec \<mapsto> mysql_norm to_ts rec)"
    using mysql_write_cases [of to_ts rec db st db'] by (auto simp: mysql_writer_def split: option.splits)
  show "mw_Write (mysql_writer to_ts) rec db = (WriteOk, db') \<Longrightarrow>
      mysql_stored db' (mr_match_id rec) \<noteq> None"
    using mysql_write_cases [of to_ts rec db WriteOk db'] by (auto simp: mysql_writer_def split: option.splits)
  show "mw_Read (mysql_writer to_ts) m db = (res, db') \<Longrightarrow> mysql_stored db' = mysql_stored db"
    using mysql_read_cases [of to_ts m db "fst res" "snd res" db'] by (simp add: mysql_writer_def)
  show "mw_Read (mysql_writer to_ts) m db = ((ReadOk, x), db') \<Longrightarrow> x = mysql_stored db m \<and> x \<noteq> None"
    unfolding mysql_writer_def MatchResultWriter.simps by (drule mysql_read_cases) blast
  show "mw_Read (mysql_writer to_ts) m db = ((ReadNotFound, x), db') \<Longrightarrow>
      mysql_stored db m = None \<or> m = []"
    using mysql_read_cases [of to_ts m db ReadNotFound x db'] by (auto simp: mysql_writer_def)
  show "sw_Save (mysql_snapshot_writer to_ts) rec db = (st, db') \<Longrightarrow> mysql_saved_at db m = Some t \<Longrightarrow>
      \<exists>t'. mysql_saved_at db' m = Some t' \<and> t \<le> t'" for rec st
    using mysql_save_cases [of to_ts rec db st db' m t] by (simp add: mysql_snapshot_writer_def)
  show "sw_Save (mysql_snapshot_writer to_ts) rec db = (st, db') \<Longrightarrow> mysql_stored db' = mysql_stored db" for rec st
    using mysql_save_cases [of to_ts rec db st db'] by (simp add: mysql_snapshot_writer_def)
  show "sr_LoadUnfinished (mysql_snapshot_reader to_ts) db = (rows, db') \<Longrightarrow>
      mysql_saved_at db' = mysql_saved_at db" for rows
    using mysql_load_cases [of to_ts db rows db'] by (simp add: mysql_snapshot_reader_def)
  show "sr_LoadUnfinished (mysql_snapshot_reader to_ts) db = (rows, db') \<Longrightarrow>
      mysql_stored db' = mysql_stored db" for rows
    using mysql_load_cases [of to_ts db rows db'] by (simp add: mysql_snapshot_reader_def)
qed

section \<open>Properties of the storage\<close>

definition int64_record :: "RoomSnapshotRecord \<Rightarrow> bool" where
  "int64_record rec \<longleftrightarrow>
     in_int64 (rr_frame rec) \<and> in_int64 (rr_started_at_ms rec) \<and> in_int64 (rr_finished_at_ms rec) \<and>
     in_int64 (rr_snapshot_at_ms rec) \<and>
     list_all (\<lambda>p. - (2 ^ 31) \<le> rp_hp p \<and> rp_hp p < 2 ^ 31) (rr_players rec)"

lemma ParseString_simps [simp]: "ParseString (Some s) = s" "ParseString (nullif_empty s) = s"
  by (simp_all add: ParseString_def nullif_empty_def)

lemma ParseBool_BoolLiteral [simp]: "ParseBool (Some (BoolLiteral b)) = b"
  by (simp add: ParseBool_def BoolLiteral_def)

lemma hp_roundtrip:
  "- (2 ^ 31) \<le> i \<Longrightarrow> i < 2 ^ 31 \<Longrightarrow> to_int32 (ParseInt64 (Some (to_string i))) = i"
  by (subst ParseInt64_to_string) (auto simp: in_int64_def to_int32_id)

lemma saved_room_fields:
  assumes "int64_record rec" and "rr_players rec = [p0, p1]"
  shows "parse_room_row (room_row (snapshot_params rec)) =
    (if rr_finish_reason rec = kDisconnect
     then \<lparr>row_record = rec\<lparr>rr_finish_reason := kNone\<rparr>, row_problem = Some (UnknownReason ''disconnect'')\<rparr>
     else \<lparr>row_record = rec, row_problem = ValidateRoomSnapshot rec\<rparr>)"
proof -
  have ints: "ParseInt64 (Some (to_string (rr_frame rec))) = rr_frame rec"
    "ParseInt64 (Some (to_string (rr_started_at_ms rec))) = rr_started_at_ms rec"
    "ParseInt64 (Some (to_string (rr_finished_at_ms rec))) = rr_finished_at_ms rec"
    "ParseInt64 (Some (to_string (rr_snapshot_at_ms rec))) = rr_snapshot_at_ms rec"
    using assms(1) by (simp_all add: int64_record_def ParseInt64_to_string)
  have hps: "to_int32 (ParseInt64 (Some (to_string (rp_hp p0)))) = rp_hp p0"
    "to_int32 (ParseInt64 (Some (to_string (rp_hp p1)))) = rp_hp p1"
    using assms by (auto simp: int64_record_def intro!: hp_roundtrip)
  have reason: "ParseFinishReason (reason_ToString (rr_finish_reason rec)) =
      (if rr_finish_reason rec = kDisconnect then None else Some (rr_finish_reason rec))"
    by (cases "rr_finish_reason rec") (simp_all add: ParseFinishReason_def)
  show ?thesis
    using assms(2)
    by (cases rec, cases p0, cases p1)
       (use ints hps reason in \<open>auto simp: parse_room_row_def room_row_def snapshot_params_def Let_def
          kColumnCount_def ParseRoomPhase_ToString default_snapshot_record_def\<close>)
qed

text \<open>A room row read back is the snapshot that was saved, with the verdict of the validation.
  The exception is a match that ended because a player did not reconnect: its row comes back as
  damaged, with the default finish reason.\<close>

lemma saved_room_reads_back:
  assumes "int64_record rec" and "rr_players rec = [p0, p1]"
  shows "parse_room_row (room_row (snapshot_params rec)) =
    (if rr_finish_reason rec = kDisconnect
     then \<lparr>row_record = rec\<lparr>rr_finish_reason := kNone\<rparr>, row_problem = Some (UnknownReason ''disconnect'')\<rparr>
     else \<lparr>row_record = rec, row_problem = ValidateRoomSnapshot rec\<rparr>)"
  using assms by (rule saved_room_fields)

lemma saved_room_reads_back_witness:
  "row_record (parse_room_row (room_row (snapshot_params sample_record))) = sample_record \<and>
   row_problem (parse_room_row (room_row (snapshot_params sample_record))) = None"
proof -
  have "int64_record sample_record"
    by (simp add: int64_record_def sample_record_def in_int64_def)
  moreover have "rr_players sample_record = [\<lparr>rp_player_id = ''alice'', rp_hp = 80, rp_joined = True\<rparr>,
                   \<lparr>rp_player_id = ''bob'', rp_hp = 30, rp_joined = True\<rparr>]"
    by (simp add: sample_record_def)
  ultimately show ?thesis
    using saved_room_reads_back [of sample_record]
    by (simp add: sample_record_def ValidateRoomSnapshot_def Let_def bad_id_def room_consts)
qed

text \<open>Writing a result is idempotent, whatever fails in between: after a successful write, every
  further write for the same match leaves the table as it is, so the first result wins, and a read
  that succeeds returns it.\<close>

lemma result_write_is_idempotent:
  assumes "MysqlMatchResultWriter_Write (Some (mysql_query to_ts)) rec db = (WriteOk, db1)"
    and "MysqlMatchResultWriter_Write (Some (mysql_query to_ts)) rec2 db1 = (st, db2)"
    and "mr_match_id rec2 = mr_match_id rec"
    and "MysqlMatchResultWriter_Read (Some (mysql_query to_ts)) (mr_match_id rec) db2 = ((ReadOk, x), db3)"
  shows "mysql_stored db2 = mysql_stored db1 \<and> x = mysql_stored db1 (mr_match_id rec) \<and> x \<noteq> None \<and>
    (mysql_stored db (mr_match_id rec) = None \<longrightarrow> x = Some (mysql_norm to_ts rec))"
proof -
  have w: "mw_Write (mysql_writer to_ts) = MysqlMatchResultWriter_Write (Some (mysql_query to_ts))"
    "mw_Read (mysql_writer to_ts) = MysqlMatchResultWriter_Read (Some (mysql_query to_ts))"
    by (simp_all add: mysql_writer_def)
  have 1: "mysql_stored db2 = mysql_stored db1"
    using mysql.write_twice [of to_ts rec db db1 rec2 st db2] assms(1-3) by (simp add: w)
  have 2: "x = mysql_stored db2 (mr_match_id rec) \<and> x \<noteq> None"
    using mysql.read_ok [of to_ts "mr_match_id rec" db2 x db3] assms(4) unfolding w by blast
  have 3: "mysql_stored db (mr_match_id rec) = None \<Longrightarrow>
      mysql_stored db1 (mr_match_id rec) = Some (mysql_norm to_ts rec)"
    using mysql.write_ok_fresh [of to_ts rec db db1] assms(1) by (simp add: w)
  from 1 2 3 show ?thesis by auto
qed

definition sample_result :: MatchResultRecord where
  "sample_result = \<lparr>mr_match_id = ''m-1'', mr_room_id = ''r-1'', mr_winner_id = ''alice'',
     mr_player_count = 2, mr_started_at_ms = 1000, mr_finished_at_ms = 5000\<rparr>"

definition empty_db :: "fault list \<Rightarrow> mysql_db" where
  "empty_db faults = \<lparr>db_faults = faults, db_results = [], db_rooms = []\<rparr>"

lemma mysql_write_up:
  "db_faults db = [] \<Longrightarrow> mr_match_id rec \<noteq> [] \<Longrightarrow>
   MysqlMatchResultWriter_Write (Some (mysql_query to_ts)) rec db =
     (WriteOk, db\<lparr>db_results := insert_result (result_row to_ts (result_params rec)) (db_results db)\<rparr>)"
  by (cases db) (simp add: MysqlMatchResultWriter_Write_def mysql_query_def result_params_def)

lemma mysql_read_up:
  "db_faults db = [] \<Longrightarrow> m \<noteq> [] \<Longrightarrow> find (\<lambda>r. r ! 0 = Some m) (db_results db) = Some row \<Longrightarrow>
   length row = 6 \<Longrightarrow>
   MysqlMatchResultWriter_Read (Some (mysql_query to_ts)) m db = ((ReadOk, Some (parse_result_row row)), db)"
  by (cases db) (auto simp: MysqlMatchResultWriter_Read_def mysql_query_def parse_result_row_def
      find_hd_filter split: list.splits)

end
