(* ===== verification/Room_Manager.thy ===== *)
theory Room_Manager
  imports Room_Storage
begin

text \<open>
  \<^verbatim>\<open>src/room/room_manager.cpp\<close>: the registry of rooms. The record holds the members of the class;
  every method is one definition that takes the registry (and the database, where the method calls
  a store outside the lock) and returns the new one. A null store pointer is \<^term>\<open>None\<close>; the room-id
  factory is an argument, the identifier it returned. \<^verbatim>\<open>Tick\<close> is composed of the locked phase, the
  snapshot writes and one take/write/mark sequence per result, as the code releases and retakes the
  lock around every write.
\<close>

section \<open>State\<close>

datatype CreateOutcome = CreateOk | CreateInvalidArgument | CreateInternal | CreateShuttingDown
datatype ResultOutcome = ResultOk | ResultNotFound | ResultPending | ResultUnavailable
datatype SnapshotRangeOutcome = RangeOk | RangeNotFound | RangeIncomplete | RangeAhead

record SnapshotRange =
  sg_outcome :: SnapshotRangeOutcome
  sg_snapshots :: "RoomSnapshot list"
  sg_oldest_frame :: frame_no
  sg_latest_frame :: frame_no

record RestoreReport =
  rep_scanned :: nat
  rep_restored :: nat
  rep_rejected :: nat
  rep_load_failed :: bool

record SnapshotState =
  ss_last_write_ms :: ms
  ss_last_phase :: RoomPhase
  ss_written :: bool

record RoomManager =
  rm_rooms :: "(string, BattleRoom) umap"
  rm_match_index :: "(string, string) umap"
  rm_snapshot_state :: "(string, SnapshotState) umap"
  rm_snapshot_write_count :: nat
  rm_snapshot_failure_count :: nat
  rm_shutting_down :: bool

definition empty_manager :: RoomManager where
  "empty_manager = \<lparr>rm_rooms = [], rm_match_index = [], rm_snapshot_state = [],
     rm_snapshot_write_count = 0, rm_snapshot_failure_count = 0, rm_shutting_down = False\<rparr>"

definition default_snapshot_state :: SnapshotState where
  "default_snapshot_state = \<lparr>ss_last_write_ms = 0, ss_last_phase = kCreated, ss_written = False\<rparr>"

section \<open>Reaping\<close>

definition reap_step :: "ms \<Rightarrow> string \<times> BattleRoom \<Rightarrow> RoomManager \<Rightarrow> RoomManager" where
  "reap_step now_ms entry m =
     (if \<not> IsExpired now_ms (snd entry) then m
      else m\<lparr>rm_match_index := AList.delete (br_match_id (snd entry)) (rm_match_index m),
             rm_snapshot_state := AList.delete (br_match_id (snd entry)) (rm_snapshot_state m),
             rm_rooms := AList.delete (fst entry) (rm_rooms m)\<rparr>)"

definition ReapExpiredLocked :: "ms \<Rightarrow> RoomManager \<Rightarrow> RoomManager" where
  "ReapExpiredLocked now_ms m = fold (reap_step now_ms) (rm_rooms m) m"

section \<open>Creating and calling rooms\<close>

definition RoomManager_Create ::
  "string \<Rightarrow> string list \<Rightarrow> ms \<Rightarrow> string \<Rightarrow> RoomManager \<Rightarrow>
   (CreateOutcome \<times> (string \<times> RoomSnapshot) option) \<times> RoomManager" where
  "RoomManager_Create match_id player_ids now_ms new_id m =
     (if bad_id match_id \<or> player_ids = [] then ((CreateInvalidArgument, None), m)
      else if list_ex bad_id player_ids then ((CreateInvalidArgument, None), m)
      else
        let existing = (case map_of (rm_match_index m) match_id of
              None \<Rightarrow> None | Some rid \<Rightarrow> map_of (rm_rooms m) rid) in
        case existing of
          Some room \<Rightarrow> ((CreateOk, Some (br_room_id room, Snapshot room)), m)
        | None \<Rightarrow>
            let m1 = (if map_of (rm_match_index m) match_id = None then m
                      else m\<lparr>rm_match_index := AList.delete match_id (rm_match_index m)\<rparr>) in
            if rm_shutting_down m1 then ((CreateShuttingDown, None), m1)
            else if new_id = [] then ((CreateInternal, None), m1)
            else
              let room = BattleRoom_new new_id match_id player_ids now_ms in
              ((CreateOk, Some (new_id, Snapshot room)),
               m1\<lparr>rm_rooms := emplace new_id room (rm_rooms m1),
                  rm_match_index := emplace match_id new_id (rm_match_index m1)\<rparr>))"

text \<open>The shape \<^verbatim>\<open>Join\<close>, \<^verbatim>\<open>SubmitInput\<close> and \<^verbatim>\<open>SetPresence\<close> share: find the room, call it, return the
  outcome with the room's snapshot after the call; \<^term>\<open>None\<close> for an unknown room.\<close>

definition RoomManager_Join :: "string \<Rightarrow> string \<Rightarrow> ms \<Rightarrow> RoomManager \<Rightarrow>
  (JoinOutcome \<times> RoomSnapshot) option \<times> RoomManager" where
  "RoomManager_Join room_id player_id now_ms m =
     (case map_of (rm_rooms m) room_id of None \<Rightarrow> (None, m)
      | Some room \<Rightarrow> (case BattleRoom_Join player_id now_ms room of (outcome, room') \<Rightarrow>
          (Some (outcome, Snapshot room'), m\<lparr>rm_rooms := AList.update room_id room' (rm_rooms m)\<rparr>)))"

definition RoomManager_SubmitInput :: "string \<Rightarrow> string \<Rightarrow> InputKind \<Rightarrow> RoomManager \<Rightarrow>
  (SubmitOutcome \<times> RoomSnapshot) option \<times> RoomManager" where
  "RoomManager_SubmitInput room_id player_id kind m =
     (case map_of (rm_rooms m) room_id of None \<Rightarrow> (None, m)
      | Some room \<Rightarrow> (case BattleRoom_SubmitInput player_id kind room of (outcome, room') \<Rightarrow>
          (Some (outcome, Snapshot room'), m\<lparr>rm_rooms := AList.update room_id room' (rm_rooms m)\<rparr>)))"

definition RoomManager_SetPresence :: "string \<Rightarrow> string \<Rightarrow> bool \<Rightarrow> ms \<Rightarrow> RoomManager \<Rightarrow>
  (PresenceOutcome \<times> RoomSnapshot) option \<times> RoomManager" where
  "RoomManager_SetPresence room_id player_id online now_ms m =
     (case map_of (rm_rooms m) room_id of None \<Rightarrow> (None, m)
      | Some room \<Rightarrow> (case BattleRoom_SetPresence player_id online now_ms room of (outcome, room') \<Rightarrow>
          (Some (outcome, Snapshot room'), m\<lparr>rm_rooms := AList.update room_id room' (rm_rooms m)\<rparr>)))"

section \<open>Queries\<close>

definition RoomManager_GetState :: "string \<Rightarrow> ms \<Rightarrow> RoomManager \<Rightarrow> RoomSnapshot option \<times> RoomManager" where
  "RoomManager_GetState room_id now_ms m =
     (let m1 = ReapExpiredLocked now_ms m
      in (map_option Snapshot (map_of (rm_rooms m1) room_id), m1))"

definition RoomManager_GetResult ::
  "'db MatchResultWriter option \<Rightarrow> string \<Rightarrow> ms \<Rightarrow> RoomManager \<times> 'db \<Rightarrow>
   (ResultOutcome \<times> MatchResultRecord option \<times> RoomSnapshot option) \<times> RoomManager \<times> 'db" where
  "RoomManager_GetResult writer match_id now_ms s =
     (case s of (m, db) \<Rightarrow>
      if bad_id match_id then ((ResultNotFound, None, None), m, db)
      else
        let m1 = ReapExpiredLocked now_ms m;
            target = (case map_of (rm_match_index m1) match_id of
              None \<Rightarrow> None | Some rid \<Rightarrow> map_of (rm_rooms m1) rid);
            snap = map_option Snapshot target
        in if (case target of None \<Rightarrow> False | Some r \<Rightarrow> br_phase r = kFinishing)
           then ((ResultPending, None, snap), m1, db)
           else if (case target of None \<Rightarrow> False | Some r \<Rightarrow> br_phase r \<noteq> kFinished)
           then ((ResultNotFound, None, snap), m1, db)
           else case writer of
             None \<Rightarrow> ((ResultUnavailable, None, snap), m1, db)
           | Some w \<Rightarrow> (case mw_Read w match_id db of ((status, rec), db') \<Rightarrow>
               (case status of
                  ReadOk \<Rightarrow> ((ResultOk, rec, snap), m1, db')
                | ReadNotFound \<Rightarrow> ((ResultNotFound, None, snap), m1, db')
                | ReadUnavailable \<Rightarrow> ((ResultUnavailable, None, snap), m1, db'))))"

definition RoomManager_GetSnapshotsSince ::
  "string \<Rightarrow> frame_no \<Rightarrow> ms \<Rightarrow> RoomManager \<Rightarrow> SnapshotRange \<times> RoomManager" where
  "RoomManager_GetSnapshotsSince room_id since_frame now_ms m =
     (let m1 = ReapExpiredLocked now_ms m in
      case map_of (rm_rooms m1) room_id of
        None \<Rightarrow> (\<lparr>sg_outcome = RangeNotFound, sg_snapshots = [], sg_oldest_frame = 0,
                  sg_latest_frame = 0\<rparr>, m1)
      | Some room \<Rightarrow>
          let result = \<lparr>sg_outcome = RangeNotFound, sg_snapshots = SnapshotsAfter since_frame room,
                sg_oldest_frame = fst (SnapshotFrameRange room), sg_latest_frame = br_frame room\<rparr>
          in (if since_frame > br_frame room then result\<lparr>sg_outcome := RangeAhead\<rparr>
              else if since_frame + 1 < sg_oldest_frame result then result\<lparr>sg_outcome := RangeIncomplete\<rparr>
              else result\<lparr>sg_outcome := RangeOk\<rparr>, m1))"

section \<open>Snapshots\<close>

definition ShouldSnapshot :: "SnapshotState \<Rightarrow> RoomPhase \<Rightarrow> ms \<Rightarrow> bool" where
  "ShouldSnapshot state phase now_ms =
     (if (phase = kFinished \<or> phase = kAborted) \<and> (\<not> ss_written state \<or> ss_last_phase state \<noteq> phase)
      then True
      else if \<not> ss_written state then True
      else now_ms - ss_last_write_ms state \<ge> kSnapshotIntervalMs)"

text \<open>The loop \<^verbatim>\<open>for (i = 0; i < kPlayersPerRoom && i < players.size(); ++i)\<close> fills the fixed slots.\<close>

definition player_record :: "PlayerSnapshot \<Rightarrow> RoomPlayerRecord" where
  "player_record p = \<lparr>rp_player_id = ps_player_id p, rp_hp = ps_hp p, rp_joined = ps_connected p\<rparr>"

definition player_slots :: "PlayerSnapshot list \<Rightarrow> RoomPlayerRecord list" where
  "player_slots ps = map (\<lambda>i. if i < length ps then player_record (ps ! i) else default_player_record)
     [0..<kPlayersPerRoom]"

definition MakeSnapshotRecord :: "BattleRoom \<Rightarrow> ms \<Rightarrow> RoomSnapshotRecord" where
  "MakeSnapshotRecord room now_ms =
     (let snapshot = Snapshot room in
      \<lparr>rr_match_id = rs_match_id snapshot, rr_room_id = rs_room_id snapshot,
       rr_phase = rs_phase snapshot, rr_frame = rs_frame snapshot,
       rr_players = player_slots (rs_players snapshot), rr_winner_id = rs_winner_id snapshot,
       rr_finish_reason = rs_finish_reason snapshot, rr_started_at_ms = rs_started_at_ms snapshot,
       rr_finished_at_ms = rs_finished_at_ms snapshot, rr_snapshot_at_ms = now_ms\<rparr>)"

definition written_state :: "ms \<Rightarrow> RoomPhase \<Rightarrow> SnapshotState" where
  "written_state now_ms phase = \<lparr>ss_last_write_ms = now_ms, ss_last_phase = phase, ss_written = True\<rparr>"

definition collect_snapshot ::
  "ms \<Rightarrow> string \<times> BattleRoom \<Rightarrow> (string, SnapshotState) umap \<times> RoomSnapshotRecord list \<Rightarrow>
   (string, SnapshotState) umap \<times> RoomSnapshotRecord list" where
  "collect_snapshot now_ms entry acc =
     (case acc of (states, snapshots) \<Rightarrow>
      let room = snd entry; mid = br_match_id room;
          states1 = emplace mid default_snapshot_state states;
          state = (case map_of states1 mid of Some s \<Rightarrow> s | None \<Rightarrow> default_snapshot_state)
      in if \<not> ShouldSnapshot state (br_phase room) now_ms then (states1, snapshots)
         else (AList.update mid (written_state now_ms (br_phase room)) states1,
               snapshots @ [MakeSnapshotRecord room now_ms]))"

fun save_all :: "'db RoomSnapshotWriter \<Rightarrow> RoomSnapshotRecord list \<Rightarrow> nat \<times> nat \<times> 'db \<Rightarrow> nat \<times> nat \<times> 'db" where
  "save_all sw [] acc = acc"
| "save_all sw (record # records) (succeeded, failed, db) =
     (case sw_Save sw record db of
        (SnapshotWriteOk, db') \<Rightarrow> save_all sw records (Suc succeeded, failed, db')
      | (SnapshotWriteUnavailable, db') \<Rightarrow> save_all sw records (succeeded, Suc failed, db'))"

definition FlushSnapshots ::
  "'db RoomSnapshotWriter option \<Rightarrow> RoomSnapshotRecord list \<Rightarrow> RoomManager \<times> 'db \<Rightarrow> RoomManager \<times> 'db" where
  "FlushSnapshots writer records s =
     (case s of (m, db) \<Rightarrow> case writer of None \<Rightarrow> (m, db)
      | Some sw \<Rightarrow> if records = [] then (m, db)
          else (case save_all sw records (0, 0, db) of (succeeded, failed, db') \<Rightarrow>
            (m\<lparr>rm_snapshot_write_count := rm_snapshot_write_count m + succeeded,
               rm_snapshot_failure_count := rm_snapshot_failure_count m + failed\<rparr>, db')))"

section \<open>The tick\<close>

definition tick_locked ::
  "bool \<Rightarrow> ms \<Rightarrow> RoomManager \<Rightarrow> (string list \<times> RoomSnapshotRecord list) \<times> RoomManager" where
  "tick_locked has_snapshot_writer now_ms m =
     (let rooms = map_values (\<lambda>r. snd (BattleRoom_Tick now_ms r)) (rm_rooms m);
          to_persist = map fst (filter (\<lambda>(rid, r). br_phase r = kFinishing \<and> ShouldRetryPersist now_ms r) rooms);
          (states, snapshots) =
            (if has_snapshot_writer then fold (collect_snapshot now_ms) rooms (rm_snapshot_state m, [])
             else (rm_snapshot_state m, []))
      in ((to_persist, snapshots),
          ReapExpiredLocked now_ms (m\<lparr>rm_rooms := rooms, rm_snapshot_state := states\<rparr>)))"

text \<open>Around one write: the record is taken under the lock, written without it, and the outcome is
  marked under the lock again.\<close>

definition persist_take :: "string \<Rightarrow> RoomManager \<Rightarrow> MatchResultRecord option" where
  "persist_take room_id m =
     (case map_of (rm_rooms m) room_id of None \<Rightarrow> None
      | Some room \<Rightarrow> if br_phase room \<noteq> kFinishing then None else Result room)"

definition persist_mark :: "string \<Rightarrow> ms \<Rightarrow> WriteStatus \<Rightarrow> RoomManager \<Rightarrow> RoomManager" where
  "persist_mark room_id now_ms status m =
     (case map_of (rm_rooms m) room_id of None \<Rightarrow> m
      | Some room \<Rightarrow> m\<lparr>rm_rooms := AList.update room_id
          (if status = WriteOk then MarkResultPersisted room else MarkResultFailed now_ms room)
          (rm_rooms m)\<rparr>)"

definition persist_one ::
  "'db MatchResultWriter option \<Rightarrow> ms \<Rightarrow> string \<Rightarrow> RoomManager \<times> 'db \<Rightarrow> RoomManager \<times> 'db" where
  "persist_one writer now_ms room_id s =
     (case s of (m, db) \<Rightarrow>
      case persist_take room_id m of None \<Rightarrow> (m, db)
      | Some record \<Rightarrow>
          (case (case writer of Some w \<Rightarrow> mw_Write w record db | None \<Rightarrow> (WriteUnavailable, db)) of
             (status, db') \<Rightarrow> (persist_mark room_id now_ms status m, db')))"

definition RoomManager_Tick ::
  "'db MatchResultWriter option \<Rightarrow> 'db RoomSnapshotWriter option \<Rightarrow> ms \<Rightarrow>
   RoomManager \<times> 'db \<Rightarrow> RoomManager \<times> 'db" where
  "RoomManager_Tick writer snapshot_writer now_ms s =
     (case tick_locked (snapshot_writer \<noteq> None) now_ms (fst s) of ((to_persist, snapshots), m1) \<Rightarrow>
        fold (persist_one writer now_ms) to_persist
          (FlushSnapshots snapshot_writer snapshots (m1, snd s)))"

section \<open>Counts\<close>

definition RoomCount :: "RoomManager \<Rightarrow> nat" where
  "RoomCount m = length (rm_rooms m)"

definition PhaseCounts :: "RoomManager \<Rightarrow> RoomPhaseCounts" where
  "PhaseCounts m = fold (\<lambda>entry counts. bump_phase (br_phase (snd entry)) counts) (rm_rooms m) zero_counts"

definition TotalFramesAdvanced :: "RoomManager \<Rightarrow> 64 word" where
  "TotalFramesAdvanced m = fold (\<lambda>entry total.
     if br_frame (snd entry) > 0 then total + word_of_int (br_frame (snd entry)) else total) (rm_rooms m) 0"

definition PlayingCount :: "RoomManager \<Rightarrow> nat" where
  "PlayingCount m = fold (\<lambda>entry n. if br_phase (snd entry) = kPlaying then Suc n else n) (rm_rooms m) 0"

definition PendingResultCount :: "RoomManager \<Rightarrow> nat" where
  "PendingResultCount m = fold (\<lambda>entry n. if br_phase (snd entry) = kFinishing then Suc n else n) (rm_rooms m) 0"

definition UnfinishedGameCount :: "RoomManager \<Rightarrow> nat" where
  "UnfinishedGameCount m = fold (\<lambda>entry n. case br_phase (snd entry) of
     kCreated \<Rightarrow> Suc n | kWaiting \<Rightarrow> Suc n | kPlaying \<Rightarrow> Suc n
   | kFinishing \<Rightarrow> n | kFinished \<Rightarrow> n | kAborted \<Rightarrow> n) (rm_rooms m) 0"

section \<open>Draining\<close>

definition BeginShutdown :: "RoomManager \<Rightarrow> RoomManager" where
  "BeginShutdown m = m\<lparr>rm_shutting_down := True\<rparr>"

definition abort_step ::
  "ms \<Rightarrow> string \<times> BattleRoom \<Rightarrow> RoomManager \<times> RoomSnapshotRecord list \<times> nat \<Rightarrow>
   RoomManager \<times> RoomSnapshotRecord list \<times> nat" where
  "abort_step now_ms entry acc =
     (case acc of (m, records, aborted) \<Rightarrow>
      let room = snd entry in
      if br_phase room \<noteq> kCreated \<and> br_phase room \<noteq> kWaiting \<and> br_phase room \<noteq> kPlaying
      then (m, records, aborted)
      else
        let room' = BattleRoom_Abort now_ms room in
        (m\<lparr>rm_rooms := AList.update (fst entry) room' (rm_rooms m),
           rm_snapshot_state := AList.update (br_match_id room')
             (written_state now_ms (br_phase room')) (rm_snapshot_state m)\<rparr>,
         records @ [MakeSnapshotRecord room' now_ms], Suc aborted))"

definition AbortUnfinishedGames ::
  "'db RoomSnapshotWriter option \<Rightarrow> ms \<Rightarrow> RoomManager \<times> 'db \<Rightarrow> nat \<times> RoomManager \<times> 'db" where
  "AbortUnfinishedGames snapshot_writer now_ms s =
     (case fold (abort_step now_ms) (rm_rooms (fst s)) (fst s, [], 0) of (m1, records, aborted) \<Rightarrow>
        (aborted, FlushSnapshots snapshot_writer records (m1, snd s)))"

section \<open>Restoring after a restart\<close>

record restore_acc =
  ra_manager :: RoomManager
  ra_rejected :: "(RoomSnapshotRecord \<times> SnapshotProblem) list"
  ra_restored :: "RoomSnapshotRecord list"

definition restore_row :: "ms \<Rightarrow> RoomSnapshotRow \<Rightarrow> restore_acc \<Rightarrow> restore_acc" where
  "restore_row now_ms row acc =
     (case row_problem row of
        Some problem \<Rightarrow> acc\<lparr>ra_rejected := ra_rejected acc @ [(row_record row, problem)]\<rparr>
      | None \<Rightarrow>
          (case RestoreFrom (row_record row) now_ms of
             None \<Rightarrow> acc\<lparr>ra_rejected := ra_rejected acc @ [(row_record row, CannotRebuild)]\<rparr>
           | Some room \<Rightarrow>
               let m = ra_manager acc; rid = br_room_id room; mid = br_match_id room in
               if map_of (rm_rooms m) rid \<noteq> None \<or> map_of (rm_match_index m) mid \<noteq> None then acc
               else acc\<lparr>ra_manager := m\<lparr>rm_rooms := emplace rid room (rm_rooms m),
                                       rm_match_index := emplace mid rid (rm_match_index m)\<rparr>,
                        ra_restored := ra_restored acc @ [row_record row]\<rparr>))"

definition aborted_record :: "ms \<Rightarrow> RoomSnapshotRecord \<Rightarrow> RoomSnapshotRecord" where
  "aborted_record now_ms record = record\<lparr>rr_phase := kAborted, rr_finish_reason := kAbortedReason,
     rr_winner_id := [], rr_snapshot_at_ms := now_ms\<rparr>"

definition RejectSnapshots ::
  "'db RoomSnapshotWriter option \<Rightarrow> (RoomSnapshotRecord \<times> SnapshotProblem) list \<Rightarrow> ms \<Rightarrow> 'db \<Rightarrow> 'db" where
  "RejectSnapshots writer rejected now_ms db =
     (case writer of None \<Rightarrow> db
      | Some sw \<Rightarrow> fold (\<lambda>entry d. snd (sw_Save sw (aborted_record now_ms (fst entry)) d)) rejected db)"

definition RoomManager_Restore ::
  "'db RoomSnapshotReader option \<Rightarrow> 'db RoomSnapshotWriter option \<Rightarrow> ms \<Rightarrow> RoomManager \<times> 'db \<Rightarrow>
   RestoreReport \<times> RoomManager \<times> 'db" where
  "RoomManager_Restore reader writer now_ms s =
     (case s of (m, db) \<Rightarrow>
      case reader of
        None \<Rightarrow> (\<lparr>rep_scanned = 0, rep_restored = 0, rep_rejected = 0, rep_load_failed = False\<rparr>, m, db)
      | Some sr \<Rightarrow>
          (case sr_LoadUnfinished sr db of
             (None, db1) \<Rightarrow>
               (\<lparr>rep_scanned = 0, rep_restored = 0, rep_rejected = 0, rep_load_failed = True\<rparr>, m, db1)
           | (Some rows, db1) \<Rightarrow>
               let acc = fold (restore_row now_ms) rows \<lparr>ra_manager = m, ra_rejected = [], ra_restored = []\<rparr>
               in (\<lparr>rep_scanned = length rows, rep_restored = length (ra_restored acc),
                    rep_rejected = length (ra_rejected acc), rep_load_failed = False\<rparr>,
                   ra_manager acc, RejectSnapshots writer (ra_rejected acc) now_ms db1)))"

end
