(* ===== verification/Battle_Room_Inv.thy ===== *)
theory Battle_Room_Inv
  imports Battle_Room
begin

text \<open>
  The representation invariant of a room and its preservation by every method. The invariant has
  three parts: the aligned vectors and numeric ranges (\<open>shape_inv\<close>), the agreement of phase,
  finish reason and winner (\<open>verdict_inv\<close>) and the history buffer (\<open>hist_ok\<close>): its frames go
  up by at most one and the newest entry carries the current frame.
\<close>

section \<open>Frames that never skip\<close>

fun steps1 :: "int list \<Rightarrow> bool" where
  "steps1 [] = True"
| "steps1 [x] = True"
| "steps1 (x # y # ys) = ((y = x \<or> y = x + 1) \<and> steps1 (y # ys))"

lemma steps1_snoc: "steps1 (xs @ [y]) \<longleftrightarrow> steps1 xs \<and> (xs = [] \<or> y = last xs \<or> y = last xs + 1)"
  by (induction xs rule: steps1.induct) auto

lemma steps1_tl: "steps1 xs \<Longrightarrow> steps1 (tl xs)"
  by (cases xs rule: steps1.cases) auto

lemma steps1_hd_le_last: "steps1 xs \<Longrightarrow> xs \<noteq> [] \<Longrightarrow> hd xs \<le> last xs"
  by (induction xs rule: steps1.induct) auto

lemma pop_front_to_drop: "pop_front_to n xs = drop (length xs - n) xs"
proof (induction n xs rule: pop_front_to.induct)
  case (1 n xs)
  show ?case
  proof (cases "length xs > n")
    case True
    with 1 have "pop_front_to n xs = drop (length (tl xs) - n) (tl xs)"
      by (simp add: pop_front_to.simps [of n xs])
    also have "\<dots> = drop (Suc (length xs - Suc n)) xs" by (simp add: drop_Suc)
    also have "Suc (length xs - Suc n) = length xs - n" using True by simp
    finally show ?thesis .
  qed (simp add: pop_front_to.simps [of n xs])
qed

lemma steps1_drop: "steps1 xs \<Longrightarrow> steps1 (drop n xs)"
  by (induction n arbitrary: xs) (auto simp: drop_Suc intro: steps1_tl)

lemma length_pop_front_to: "length (pop_front_to n xs) = min n (length xs)"
  by (simp add: pop_front_to_drop)

lemma last_pop_front_to: "0 < n \<Longrightarrow> xs \<noteq> [] \<Longrightarrow> last (pop_front_to n xs) = last xs"
  by (simp add: pop_front_to_drop last_drop)

section \<open>The invariant\<close>

definition hist_frames :: "BattleRoom \<Rightarrow> int list" where
  "hist_frames r = map rs_frame (br_history r)"

definition hist_ready :: "BattleRoom \<Rightarrow> bool" where
  "hist_ready r \<longleftrightarrow> steps1 (hist_frames r) \<and>
     (br_history r = [] \<or> br_frame r = last (hist_frames r) \<or> br_frame r = last (hist_frames r) + 1)"

definition hist_ok :: "BattleRoom \<Rightarrow> bool" where
  "hist_ok r \<longleftrightarrow> br_history r \<noteq> [] \<and> steps1 (hist_frames r) \<and>
     length (br_history r) \<le> kMaxSnapshotHistory \<and> last (hist_frames r) = br_frame r"

definition player_ids :: "BattleRoom \<Rightarrow> string list" where
  "player_ids r = map ps_player_id (br_players r)"

definition hp_ok :: "PlayerSnapshot \<Rightarrow> bool" where
  "hp_ok p \<longleftrightarrow> 0 \<le> ps_hp p \<and> ps_hp p \<le> kInitialHp"

definition shape_inv :: "BattleRoom \<Rightarrow> bool" where
  "shape_inv r \<longleftrightarrow>
     length (br_runtime r) = length (br_players r) \<and>
     length (br_pending_attack r) = length (br_players r) \<and>
     br_player_count r = int (length (br_players r)) \<and>
     list_all hp_ok (br_players r) \<and>
     map pr_online (br_runtime r) = map ps_online (br_players r) \<and>
     0 \<le> br_frame r \<and> br_frame r \<le> kMaxFrames"

definition verdict_inv :: "BattleRoom \<Rightarrow> bool" where
  "verdict_inv r \<longleftrightarrow>
     (br_phase r = kCreated \<or> br_phase r = kWaiting \<longrightarrow> br_frame r = 0) \<and>
     (br_phase r = kPlaying \<longrightarrow> br_frame r < kMaxFrames) \<and>
     (br_phase r = kPlaying \<or> br_phase r = kFinishing \<or> br_phase r = kFinished \<longrightarrow>
        list_all ps_connected (br_players r)) \<and>
     (unfinished (br_phase r) \<longrightarrow> br_finish_reason r = kNone \<and> br_winner_id r = []) \<and>
     (br_phase r = kFinishing \<or> br_phase r = kFinished \<longrightarrow>
        br_finish_reason r \<in> {kHpZero, kTimeout, kDisconnect} \<and>
        (br_winner_id r = [] \<or> br_winner_id r \<in> set (player_ids r))) \<and>
     (br_phase r = kAborted \<longrightarrow> br_finish_reason r = kAbortedReason \<and> br_winner_id r = [])"

definition room_inv :: "BattleRoom \<Rightarrow> bool" where
  "room_inv r \<longleftrightarrow> shape_inv r \<and> verdict_inv r \<and> hist_ok r"

lemmas room_inv_defs = room_inv_def shape_inv_def verdict_inv_def

lemma room_invI [intro?]: "shape_inv r \<Longrightarrow> verdict_inv r \<Longrightarrow> hist_ok r \<Longrightarrow> room_inv r"
  by (simp add: room_inv_def)

section \<open>PushSnapshot\<close>

lemma PushSnapshot_sel [simp]:
  "br_room_id (PushSnapshot r) = br_room_id r" "br_match_id (PushSnapshot r) = br_match_id r"
  "br_phase (PushSnapshot r) = br_phase r" "br_finish_reason (PushSnapshot r) = br_finish_reason r"
  "br_frame (PushSnapshot r) = br_frame r" "br_players (PushSnapshot r) = br_players r"
  "br_runtime (PushSnapshot r) = br_runtime r"
  "br_pending_attack (PushSnapshot r) = br_pending_attack r"
  "br_created_at_ms (PushSnapshot r) = br_created_at_ms r"
  "br_started_at_ms (PushSnapshot r) = br_started_at_ms r"
  "br_finished_at_ms (PushSnapshot r) = br_finished_at_ms r"
  "br_last_tick_ms (PushSnapshot r) = br_last_tick_ms r"
  "br_last_persist_attempt_ms (PushSnapshot r) = br_last_persist_attempt_ms r"
  "br_winner_id (PushSnapshot r) = br_winner_id r"
  "br_player_count (PushSnapshot r) = br_player_count r"
  by (simp_all add: PushSnapshot_def)

lemma Snapshot_sel [simp]:
  "rs_room_id (Snapshot r) = br_room_id r" "rs_match_id (Snapshot r) = br_match_id r"
  "rs_phase (Snapshot r) = br_phase r" "rs_frame (Snapshot r) = br_frame r"
  "rs_players (Snapshot r) = br_players r" "rs_finish_reason (Snapshot r) = br_finish_reason r"
  "rs_winner_id (Snapshot r) = br_winner_id r" "rs_started_at_ms (Snapshot r) = br_started_at_ms r"
  "rs_finished_at_ms (Snapshot r) = br_finished_at_ms r"
  by (simp_all add: Snapshot_def)

lemma Snapshot_PushSnapshot [simp]: "Snapshot (PushSnapshot r) = Snapshot r"
  by (simp add: Snapshot_def)

lemma shape_inv_PushSnapshot [simp]: "shape_inv (PushSnapshot r) = shape_inv r"
  by (simp add: shape_inv_def)

lemma verdict_inv_PushSnapshot [simp]: "verdict_inv (PushSnapshot r) = verdict_inv r"
  by (simp add: verdict_inv_def player_ids_def)

lemma hist_ok_PushSnapshot [intro]:
  assumes "hist_ready r"
  shows "hist_ok (PushSnapshot r)"
proof -
  let ?fs = "hist_frames r @ [br_frame r]"
  have 1: "steps1 ?fs" using assms by (auto simp: hist_ready_def steps1_snoc hist_frames_def)
  have 2: "hist_frames (PushSnapshot r) = drop (length ?fs - kMaxSnapshotHistory) ?fs"
    by (simp add: hist_frames_def PushSnapshot_def pop_front_to_drop flip: drop_map)
  have "steps1 (hist_frames (PushSnapshot r))" using 1 by (simp only: 2 steps1_drop)
  moreover have "last (hist_frames (PushSnapshot r)) = br_frame r"
    by (simp add: 2 room_consts)
  moreover have "br_history (PushSnapshot r) \<noteq> []"
    "length (br_history (PushSnapshot r)) \<le> kMaxSnapshotHistory"
    by (simp_all add: PushSnapshot_def length_pop_front_to pop_front_to_drop room_consts)
  ultimately show ?thesis by (simp add: hist_ok_def)
qed

lemma hist_ok_cong:
  "br_history r' = br_history r \<Longrightarrow> br_frame r' = br_frame r \<Longrightarrow> hist_ok r' = hist_ok r"
  by (simp add: hist_ok_def hist_frames_def)

lemma hist_ready_same:
  "hist_ok r \<Longrightarrow> br_history r' = br_history r \<Longrightarrow> br_frame r' = br_frame r \<Longrightarrow> hist_ready r'"
  by (simp add: hist_ok_def hist_ready_def hist_frames_def)

lemma hist_ready_next:
  "hist_ok r \<Longrightarrow> br_history r' = br_history r \<Longrightarrow> br_frame r' = br_frame r + 1 \<Longrightarrow> hist_ready r'"
  by (simp add: hist_ok_def hist_ready_def hist_frames_def)

section \<open>Construction, joining, input\<close>

lemma room_inv_new [rgb_inv]: "room_inv (BattleRoom_new room_id match_id ids now_ms)"
  unfolding BattleRoom_new_def
proof
  show "hist_ok (PushSnapshot \<lparr>br_room_id = room_id, br_match_id = match_id, br_phase = kCreated,
      br_finish_reason = kNone, br_frame = 0, br_players = map initial_player ids,
      br_runtime = replicate (length ids) fresh_runtime,
      br_pending_attack = replicate (length ids) False,
      br_created_at_ms = now_ms, br_started_at_ms = 0, br_finished_at_ms = 0,
      br_last_tick_ms = 0, br_last_persist_attempt_ms = 0, br_winner_id = [],
      br_player_count = int (length ids), br_history = []\<rparr>)"
    by (rule hist_ok_PushSnapshot) (simp add: hist_ready_def hist_frames_def)
qed (auto simp: shape_inv_def verdict_inv_def initial_player_def hp_ok_def list_all_iff fresh_runtime_def room_consts
       map_replicate_const comp_def unfinished_def)

lemma FindPlayer_bound: "FindPlayer r pid = Some i \<Longrightarrow> i < length (br_players r) \<and> ps_player_id (br_players r ! i) = pid"
  by (auto simp: FindPlayer_def dest: first_index_SomeD)

lemma IndexOf_FindPlayer: "IndexOf r pid = FindPlayer r pid"
  by (simp add: IndexOf_def FindPlayer_def)

text \<open>Overwriting one player's flag keeps every other field of every player.\<close>

lemma map_list_update_same: "i < length xs \<Longrightarrow> f y = f (xs ! i) \<Longrightarrow> map f (xs[i := y]) = map f xs"
  by (metis list_update_id map_update)

lemma list_all_list_update: "list_all P xs \<Longrightarrow> P y \<Longrightarrow> list_all P (xs[i := y])"
  by (auto simp: list_all_iff dest!: set_update_subset_insert [THEN subsetD])

lemma room_inv_Join [rgb_inv]:
  assumes "room_inv r"
  shows "room_inv (snd (BattleRoom_Join pid now_ms r))"
proof (cases "\<exists>i. \<not> bad_id pid \<and> \<not> ended (br_phase r) \<and> FindPlayer r pid = Some i
    \<and> \<not> ps_connected (br_players r ! i)")
  case False
  with assms show ?thesis
    by (auto simp: BattleRoom_Join_def Let_def ended_def split: option.splits)
next
  case True
  then obtain i where i: "\<not> bad_id pid" "\<not> ended (br_phase r)" "FindPlayer r pid = Some i"
    "\<not> ps_connected (br_players r ! i)" by blast
  from i(3) have len: "i < length (br_players r)" by (auto dest: FindPlayer_bound)
  define q where "q = (br_players r ! i)\<lparr>ps_connected := True\<rparr>"
  define r1 where "r1 = r\<lparr>br_players := (br_players r)[i := q]\<rparr>"
  define r2 where "r2 = (if br_phase r1 = kCreated then r1\<lparr>br_phase := kWaiting\<rparr> else r1)"
  define r3 where "r3 = (if list_all ps_connected (br_players r2)
    then r2\<lparr>br_phase := kPlaying, br_started_at_ms := now_ms, br_last_tick_ms := now_ms, br_frame := 0\<rparr>
    else r2)"
  have eq: "snd (BattleRoom_Join pid now_ms r) = PushSnapshot r3"
    using i by (simp add: BattleRoom_Join_def Let_def ended_def r3_def r2_def r1_def q_def)
  have shape: "shape_inv r" and verd: "verdict_inv r" and hist: "hist_ok r"
    using assms by (auto simp: room_inv_def)
  have "\<not> list_all ps_connected (br_players r)"
    using i(4) len by (auto simp: list_all_iff)
  then have not_playing: "br_phase r \<noteq> kPlaying"
    using verd by (auto simp: verdict_inv_def)
  have open_phase: "br_phase r = kCreated \<or> br_phase r = kWaiting"
    using not_playing i(2) by (cases "br_phase r") (auto simp: ended_def)
  then have frame0: "br_frame r = 0"
    using verd by (auto simp: verdict_inv_def)
  have "hp_ok q"
    using shape len by (simp add: shape_inv_def q_def hp_ok_def list_all_length)
  then have "list_all hp_ok (br_players r1)"
    using shape unfolding r1_def by (simp add: shape_inv_def list_all_list_update)
  moreover have "map ps_online (br_players r1) = map ps_online (br_players r)"
    using len by (simp add: r1_def map_list_update_same q_def)
  ultimately have "shape_inv r1" using shape unfolding shape_inv_def by (simp add: r1_def)
  then have s3: "shape_inv r3"
    by (auto simp: r3_def r2_def shape_inv_def room_consts)
  have none: "br_finish_reason r = kNone" "br_winner_id r = []"
    using verd open_phase by (auto simp: verdict_inv_def unfinished_def)
  have "br_phase r2 = kWaiting" using open_phase by (auto simp: r2_def r1_def)
  then have v3: "verdict_inv r3"
    using none frame0 by (simp add: r3_def r2_def r1_def verdict_inv_def unfinished_def room_consts)
  have "hist_ready r3"
    using hist frame0 by (auto simp: r3_def r2_def r1_def intro!: hist_ready_same [OF hist])
  then show ?thesis using s3 v3 eq by (auto simp: room_inv_def)
qed

lemma room_inv_SubmitInput [rgb_inv]:
  "room_inv r \<Longrightarrow> room_inv (snd (BattleRoom_SubmitInput pid kind r))"
  by (auto simp: BattleRoom_SubmitInput_def room_inv_defs player_ids_def hist_ok_def hist_frames_def
      split: option.splits)

section \<open>Ending a match, persistence marks\<close>

lemma room_inv_Finish [rgb_inv]:
  assumes "shape_inv r" "hist_ready r" "reason \<in> {kHpZero, kTimeout, kDisconnect}"
    "w = [] \<or> w \<in> set (player_ids r)" "list_all ps_connected (br_players r)"
  shows "room_inv (BattleRoom_Finish reason w now_ms r)"
  unfolding BattleRoom_Finish_def
proof
  show "hist_ok (PushSnapshot (r\<lparr>br_phase := kFinishing, br_finish_reason := reason,
      br_winner_id := w, br_finished_at_ms := now_ms, br_last_persist_attempt_ms := 0\<rparr>))"
    using assms(2) by (intro hist_ok_PushSnapshot) (simp add: hist_ready_def hist_frames_def)
qed (use assms in \<open>auto simp: shape_inv_def verdict_inv_def unfinished_def player_ids_def\<close>)

lemma room_inv_Abort [rgb_inv]:
  assumes "room_inv r"
  shows "room_inv (BattleRoom_Abort now_ms r)"
  unfolding BattleRoom_Abort_def
proof
  show "hist_ok (PushSnapshot (r\<lparr>br_phase := kAborted, br_finish_reason := kAbortedReason,
      br_winner_id := [], br_finished_at_ms := now_ms\<rparr>))"
    using assms by (intro hist_ok_PushSnapshot hist_ready_same [of r]) (auto simp: room_inv_def)
qed (use assms in \<open>auto simp: room_inv_defs unfinished_def\<close>)

lemma room_inv_MarkResultPersisted [rgb_inv]: "room_inv r \<Longrightarrow> room_inv (MarkResultPersisted r)"
  by (auto simp: MarkResultPersisted_def room_inv_defs unfinished_def player_ids_def
      hist_ok_def hist_frames_def)

lemma room_inv_MarkResultFailed [rgb_inv]: "room_inv r \<Longrightarrow> room_inv (MarkResultFailed now_ms r)"
  by (auto simp: MarkResultFailed_def room_inv_defs unfinished_def player_ids_def
      hist_ok_def hist_frames_def)

section \<open>Presence\<close>

lemma room_inv_SetPresence [rgb_inv]:
  assumes "room_inv r"
  shows "room_inv (snd (BattleRoom_SetPresence pid online now_ms r))"
proof (cases "\<exists>i. \<not> bad_id pid \<and> \<not> ended (br_phase r) \<and> IndexOf r pid = Some i")
  case False
  with assms show ?thesis
    by (auto simp: BattleRoom_SetPresence_def ended_def split: option.splits)
next
  case True
  then obtain i where i: "\<not> bad_id pid" "\<not> ended (br_phase r)" "IndexOf r pid = Some i" by blast
  then have len: "i < length (br_players r)" by (auto simp: IndexOf_FindPlayer dest: FindPlayer_bound)
  have shape: "shape_inv r" and verd: "verdict_inv r" and hist: "hist_ok r"
    using assms by (auto simp: room_inv_def)
  define set_on where "set_on = (\<lambda>b since. r\<lparr>
    br_runtime := (br_runtime r)[i := \<lparr>pr_online = b, pr_offline_since_ms = since\<rparr>],
    br_players := (br_players r)[i := (br_players r ! i)\<lparr>ps_online := b\<rparr>]\<rparr>)"
  have "hp_ok ((br_players r ! i)\<lparr>ps_online := b\<rparr>)" for b
    using shape len by (simp add: shape_inv_def hp_ok_def list_all_length)
  then have "list_all hp_ok (br_players (set_on b t))" for b t
    using shape unfolding set_on_def by (simp add: shape_inv_def list_all_list_update)
  then have s: "shape_inv (set_on b t)" for b t
    using shape unfolding shape_inv_def by (simp add: set_on_def map_update)
  have conn: "list_all ps_connected (br_players (set_on b t))"
    if "list_all ps_connected (br_players r)" for b t
    using that len unfolding set_on_def
    by simp (rule list_all_list_update, simp_all add: list_all_length)
  have ids: "player_ids (set_on b t) = player_ids r" for b t
    using len by (simp add: player_ids_def set_on_def map_list_update_same)
  have v: "verdict_inv (set_on b t)" for b t
    using verd conn [of b t] unfolding verdict_inv_def ids by (simp add: set_on_def)
  have "hist_ok (set_on b t)" "hist_ok (PushSnapshot (set_on b t))" for b t
    using hist by (auto simp: set_on_def intro!: hist_ok_PushSnapshot hist_ready_same [OF hist]
        hist_ok_cong [THEN iffD2, OF _ _ hist])
  with s v have "room_inv (set_on b t)" "room_inv (PushSnapshot (set_on b t))" for b t
    by (simp_all add: room_inv_def)
  moreover have "snd (BattleRoom_SetPresence pid online now_ms r) \<in>
      {set_on True 0, PushSnapshot (set_on False now_ms), r}"
    using i by (simp add: BattleRoom_SetPresence_def ended_def set_on_def)
  ultimately show ?thesis using assms by auto
qed

section \<open>Settling a frame\<close>

lemma settle_attack_players:
  assumes "settle_attack i (pend, ps) = (pend', ps')"
  shows "length ps' = length ps" "map ps_player_id ps' = map ps_player_id ps"
    "map ps_connected ps' = map ps_connected ps" "map ps_online ps' = map ps_online ps"
    "length pend' = length pend" "list_all hp_ok ps \<Longrightarrow> list_all hp_ok ps'"
    "pend' = pend[i := False]"
proof -
  define t where "t = Suc i mod length ps"
  have t_bound: "\<not> length ps < 2 \<Longrightarrow> t < length ps"
    unfolding t_def by (rule mod_less_divisor) linarith
  define hp where "hp = ps_hp (ps ! t) - kAttackDamage"
  define q where "q = (ps ! t)\<lparr>ps_hp := (if hp < 0 then 0 else hp)\<rparr>"
  show pend': "pend' = pend[i := False]"
    using assms by (auto simp: settle_attack_def Let_def split: if_splits)
       (metis list_update_id)
  have "ps' = ps \<or> (t < length ps \<and> ps' = ps[t := q])"
    using assms t_bound
    by (auto simp: settle_attack_def Let_def t_def [symmetric] q_def hp_def split: if_splits)
  moreover have "t < length ps \<Longrightarrow> list_all hp_ok ps \<Longrightarrow> hp_ok q"
    by (auto simp: q_def hp_ok_def hp_def list_all_length room_consts)
  ultimately show "length ps' = length ps" "map ps_player_id ps' = map ps_player_id ps"
    "map ps_connected ps' = map ps_connected ps" "map ps_online ps' = map ps_online ps"
    "list_all hp_ok ps \<Longrightarrow> list_all hp_ok ps'"
    by (auto simp: map_list_update_same q_def list_all_list_update)
  show "length pend' = length pend" by (simp add: pend')
qed

lemma settle_fold_players:
  assumes "fold settle_attack [0..<k] (pend, ps) = (pend', ps')" "k \<le> length pend"
  shows "length ps' = length ps \<and> map ps_player_id ps' = map ps_player_id ps \<and>
    map ps_connected ps' = map ps_connected ps \<and> map ps_online ps' = map ps_online ps \<and>
    length pend' = length pend \<and> (list_all hp_ok ps \<longrightarrow> list_all hp_ok ps') \<and>
    (\<forall>i < k. \<not> pend' ! i)"
  using assms
proof (induction k arbitrary: pend' ps')
  case (Suc k)
  obtain pend1 ps1 where 1: "fold settle_attack [0..<k] (pend, ps) = (pend1, ps1)"
    by (cases "fold settle_attack [0..<k] (pend, ps)")
  with Suc.prems have 2: "settle_attack k (pend1, ps1) = (pend', ps')" by simp
  note IH = Suc.IH [OF 1]
  show ?case
    using IH Suc.prems(2) settle_attack_players [OF 2]
    by (auto simp: nth_list_update less_Suc_eq)
qed simp

lemma settle_attacks_players:
  assumes "settle_attacks pend ps = (pend', ps')" "length pend = length ps"
  shows "length ps' = length ps" "map ps_player_id ps' = map ps_player_id ps"
    "map ps_connected ps' = map ps_connected ps" "map ps_online ps' = map ps_online ps"
    "list_all hp_ok ps \<Longrightarrow> list_all hp_ok ps'" "pend' = replicate (length ps) False"
proof -
  note f = settle_fold_players [OF assms(1) [unfolded settle_attacks_def]]
  then show "length ps' = length ps" "map ps_player_id ps' = map ps_player_id ps"
    "map ps_connected ps' = map ps_connected ps" "map ps_online ps' = map ps_online ps"
    "list_all hp_ok ps \<Longrightarrow> list_all hp_ok ps'"
    using assms(2) by auto
  show "pend' = replicate (length ps) False"
    using f assms(2) by (auto intro: nth_equalityI)
qed

lemma list_all_via_map: "map f xs = map f ys \<Longrightarrow> list_all f xs = list_all f ys"
  by (metis (mono_tags, lifting) list_all_length length_map nth_map)

section \<open>Ticks\<close>

lemma alive_indices_bound: "i \<in> set (alive_indices ps) \<Longrightarrow> i < length ps"
  by (auto simp: alive_indices_def)

lemma timeout_winner_member: "timeout_winner ps = [] \<or> timeout_winner ps \<in> set (map ps_player_id ps)"
  by (auto simp: timeout_winner_def)

lemma room_inv_AdvanceOneFrame [rgb_inv]:
  assumes inv: "room_inv r" and playing: "br_phase r = kPlaying"
  shows "room_inv (AdvanceOneFrame now_ms r)"
proof -
  obtain pend ps where settle: "settle_attacks (br_pending_attack r) (br_players r) = (pend, ps)"
    by (cases "settle_attacks (br_pending_attack r) (br_players r)")
  define r1 where "r1 = r\<lparr>br_frame := br_frame r + 1, br_pending_attack := pend, br_players := ps\<rparr>"
  have shape: "shape_inv r" and verd: "verdict_inv r" and hist: "hist_ok r"
    using inv by (auto simp: room_inv_def)
  have "length (br_pending_attack r) = length (br_players r)" using shape by (simp add: shape_inv_def)
  note p = settle_attacks_players [OF settle this]
  have lt: "br_frame r < kMaxFrames" using verd playing by (simp add: verdict_inv_def)
  have s1: "shape_inv r1"
    using shape p lt by (simp add: shape_inv_def r1_def)
  have ready: "hist_ready r1"
    by (rule hist_ready_next [OF hist]) (simp_all add: r1_def)
  have conn: "list_all ps_connected ps"
    using verd playing list_all_via_map [OF p(3)] by (simp add: verdict_inv_def)
  then have v1: "br_frame r1 < kMaxFrames \<Longrightarrow> verdict_inv r1"
    using verd playing conn by (auto simp: verdict_inv_def r1_def unfinished_def)
  have conn1: "list_all ps_connected (br_players r1)" using conn by (simp add: r1_def)
  have w1: "ps_player_id (ps ! (alive_indices ps ! 0)) \<in> set (player_ids r1)"
    if "length (alive_indices ps) = 1"
    using that alive_indices_bound [of "alive_indices ps ! 0" ps]
    by (auto simp: player_ids_def r1_def)
  have w2: "timeout_winner ps = [] \<or> timeout_winner ps \<in> set (player_ids r1)"
    using timeout_winner_member [of ps] by (simp add: player_ids_def r1_def)
  have "room_inv (BattleRoom_Finish kHpZero
      (if length (alive_indices ps) = 1 then ps_player_id (ps ! (alive_indices ps ! 0)) else []) now_ms r1)"
    using s1 ready w1 conn1 by (intro room_inv_Finish) auto
  moreover have "room_inv (BattleRoom_Finish kTimeout (timeout_winner ps) now_ms r1)"
    using s1 ready w2 conn1 by (intro room_inv_Finish) auto
  moreover have "br_frame r1 < kMaxFrames \<Longrightarrow> room_inv (PushSnapshot r1)"
    using s1 ready v1 by (auto simp: room_inv_def)
  ultimately show ?thesis
    by (auto simp: AdvanceOneFrame_def settle Let_def r1_def [symmetric])
qed

lemma room_inv_last_tick [rgb_inv]: "room_inv r \<Longrightarrow> room_inv (r\<lparr>br_last_tick_ms := t\<rparr>)"
  by (auto simp: room_inv_defs player_ids_def hist_ok_def hist_frames_def)

lemma room_inv_tick_frames [rgb_inv]:
  "room_inv r \<Longrightarrow> room_inv (snd (tick_frames n now_ms c r))"
proof (induction n arbitrary: c r)
  case (Suc n)
  then show ?case by (simp add: room_inv_AdvanceOneFrame room_inv_last_tick)
qed simp

lemma scan_grace_step_bound:
  "i < n \<Longrightarrow> gs_online_index s < n \<Longrightarrow> gs_online_index (grace_step rts i s) < n"
  by (simp add: grace_step_def)

lemma scan_grace_bound:
  assumes "rts \<noteq> []"
  shows "gs_online_index (scan_grace rts) < length rts"
  unfolding scan_grace_def
  by (rule fold_invariant [where Q = "\<lambda>i. i < length rts"])
     (use assms in \<open>auto intro: scan_grace_step_bound\<close>)

lemma scan_grace_online_nonempty: "gs_online_count (scan_grace rts) > 0 \<Longrightarrow> rts \<noteq> []"
  by (auto simp: scan_grace_def)

lemma room_inv_ResolveReconnectGrace [rgb_inv]:
  assumes "room_inv r"
  shows "room_inv (snd (ResolveReconnectGrace now_ms r))"
proof -
  define s where "s = scan_grace (br_runtime r)"
  have "ps_player_id (br_players r ! gs_online_index s) \<in> set (player_ids r)"
    if "gs_online_count s > 0"
  proof -
    have "br_runtime r \<noteq> []" using that scan_grace_online_nonempty by (simp add: s_def)
    then have "gs_online_index s < length (br_players r)"
      using scan_grace_bound assms by (metis room_inv_def s_def shape_inv_def)
    then show ?thesis by (simp add: player_ids_def)
  qed
  then have "br_phase r = kPlaying \<Longrightarrow> gs_online_count s > 0 \<Longrightarrow> room_inv (BattleRoom_Finish kDisconnect
      (ps_player_id (br_players r ! gs_online_index s)) now_ms r)"
    using assms by (intro room_inv_Finish) (auto simp: room_inv_def verdict_inv_def intro: hist_ready_same)
  with assms show ?thesis
    by (auto simp: ResolveReconnectGrace_def Let_def s_def [symmetric] room_inv_Abort)
qed

lemma room_inv_Tick [rgb_inv]:
  assumes "room_inv r"
  shows "room_inv (snd (BattleRoom_Tick now_ms r))"
proof -
  have "room_inv (snd (ResolveReconnectGrace now_ms r))"
    using assms by (rule room_inv_ResolveReconnectGrace)
  with assms show ?thesis
    by (auto simp: BattleRoom_Tick_def Let_def room_inv_Abort room_inv_tick_frames
        room_inv_last_tick split: prod.splits bool.splits)
qed

section \<open>Restoring\<close>

text \<open>
  What a persisted row must satisfy for the restored room to satisfy the invariant: the ranges
  \<^verbatim>\<open>ValidateRoomSnapshot\<close> checks, and the agreement of phase, reason, winner and frame that a row
  written by the manager has.
\<close>

definition record_wf :: "RoomSnapshotRecord \<Rightarrow> bool" where
  "record_wf rec \<longleftrightarrow>
     length (rr_players rec) = kPlayersPerRoom \<and>
     list_all (\<lambda>p. 0 \<le> rp_hp p \<and> rp_hp p \<le> kInitialHp) (rr_players rec) \<and>
     0 \<le> rr_frame rec \<and> rr_frame rec \<le> kMaxFrames \<and>
     (rr_phase rec = kCreated \<or> rr_phase rec = kWaiting \<longrightarrow> rr_frame rec = 0) \<and>
     (rr_phase rec = kPlaying \<longrightarrow> rr_frame rec < kMaxFrames) \<and>
     (rr_phase rec = kPlaying \<or> rr_phase rec = kFinishing \<or> rr_phase rec = kFinished \<longrightarrow>
        list_all rp_joined (rr_players rec)) \<and>
     (unfinished (rr_phase rec) \<longrightarrow> rr_finish_reason rec = kNone \<and> rr_winner_id rec = []) \<and>
     (rr_phase rec = kFinishing \<or> rr_phase rec = kFinished \<longrightarrow>
        rr_finish_reason rec \<in> {kHpZero, kTimeout, kDisconnect} \<and>
        (rr_winner_id rec = [] \<or> rr_winner_id rec \<in> set (map rp_player_id (rr_players rec)))) \<and>
     (rr_phase rec = kAborted \<longrightarrow> rr_finish_reason rec = kAbortedReason \<and> rr_winner_id rec = [])"

lemma list_all_map_comp: "list_all P (map f xs) = list_all (\<lambda>x. P (f x)) xs"
  by (simp add: list.pred_map comp_def)

lemma room_inv_RestoreFrom [rgb_inv]:
  assumes wf: "record_wf rec" and restored: "RestoreFrom rec now_ms = Some r"
  shows "room_inv r"
proof -
  obtain q where q: "r = PushSnapshot q" "br_history q = []" "br_frame q = rr_frame rec"
    "br_players q = map restored_player (rr_players rec)"
    "br_runtime q = replicate kPlayersPerRoom fresh_runtime"
    "br_pending_attack q = replicate kPlayersPerRoom False"
    "br_player_count q = int kPlayersPerRoom" "br_phase q = rr_phase rec"
    "br_finish_reason q = rr_finish_reason rec" "br_winner_id q = rr_winner_id rec"
    using restored by (auto simp: RestoreFrom_def split: if_splits)
  have len: "length (rr_players rec) = 2" using wf by (simp add: record_wf_def room_consts)
  have "map ps_online (br_players q) = replicate 2 True"
    using len by (simp add: q restored_player_def comp_def map_replicate_const)
  then have "shape_inv q"
    using wf len by (simp add: shape_inv_def q record_wf_def list_all_map_comp hp_ok_def
        restored_player_def fresh_runtime_def kPlayersPerRoom_def)
  moreover have "verdict_inv q"
    using wf by (simp add: verdict_inv_def q record_wf_def list_all_map_comp player_ids_def
        restored_player_def comp_def)
  moreover have "hist_ready q" by (simp add: hist_ready_def q hist_frames_def)
  ultimately show ?thesis unfolding q(1) by (auto simp: room_inv_def)
qed

end
