(* ===== verification/Battle_Room_Props.thy ===== *)
theory Battle_Room_Props
  imports Battle_Room_Inv
begin

text \<open>
  What a room does: frame arithmetic and the absence of time debt, the exact damage of a frame,
  the reconnect grace period, the irreversibility of a verdict, the completeness of the history
  that is handed to a reconnecting client, and the life cycle as a step relation.
\<close>

section \<open>What the operations leave unchanged\<close>

lemma Finish_sel [simp]:
  "br_room_id (BattleRoom_Finish w x t r) = br_room_id r"
  "br_match_id (BattleRoom_Finish w x t r) = br_match_id r"
  "br_phase (BattleRoom_Finish w x t r) = kFinishing"
  "br_finish_reason (BattleRoom_Finish w x t r) = w"
  "br_frame (BattleRoom_Finish w x t r) = br_frame r"
  "br_players (BattleRoom_Finish w x t r) = br_players r"
  "br_runtime (BattleRoom_Finish w x t r) = br_runtime r"
  "br_pending_attack (BattleRoom_Finish w x t r) = br_pending_attack r"
  "br_created_at_ms (BattleRoom_Finish w x t r) = br_created_at_ms r"
  "br_started_at_ms (BattleRoom_Finish w x t r) = br_started_at_ms r"
  "br_finished_at_ms (BattleRoom_Finish w x t r) = t"
  "br_last_tick_ms (BattleRoom_Finish w x t r) = br_last_tick_ms r"
  "br_last_persist_attempt_ms (BattleRoom_Finish w x t r) = 0"
  "br_winner_id (BattleRoom_Finish w x t r) = x"
  "br_player_count (BattleRoom_Finish w x t r) = br_player_count r"
  by (simp_all add: BattleRoom_Finish_def)

lemma Abort_sel [simp]:
  "br_room_id (BattleRoom_Abort t r) = br_room_id r"
  "br_match_id (BattleRoom_Abort t r) = br_match_id r"
  "br_phase (BattleRoom_Abort t r) = kAborted"
  "br_finish_reason (BattleRoom_Abort t r) = kAbortedReason"
  "br_frame (BattleRoom_Abort t r) = br_frame r"
  "br_players (BattleRoom_Abort t r) = br_players r"
  "br_runtime (BattleRoom_Abort t r) = br_runtime r"
  "br_pending_attack (BattleRoom_Abort t r) = br_pending_attack r"
  "br_created_at_ms (BattleRoom_Abort t r) = br_created_at_ms r"
  "br_started_at_ms (BattleRoom_Abort t r) = br_started_at_ms r"
  "br_finished_at_ms (BattleRoom_Abort t r) = t"
  "br_last_tick_ms (BattleRoom_Abort t r) = br_last_tick_ms r"
  "br_winner_id (BattleRoom_Abort t r) = []"
  "br_player_count (BattleRoom_Abort t r) = br_player_count r"
  by (simp_all add: BattleRoom_Abort_def)

lemma AdvanceOneFrame_sel [simp]:
  "br_room_id (AdvanceOneFrame t r) = br_room_id r"
  "br_match_id (AdvanceOneFrame t r) = br_match_id r"
  "br_frame (AdvanceOneFrame t r) = br_frame r + 1"
  "br_runtime (AdvanceOneFrame t r) = br_runtime r"
  "br_created_at_ms (AdvanceOneFrame t r) = br_created_at_ms r"
  "br_started_at_ms (AdvanceOneFrame t r) = br_started_at_ms r"
  "br_last_tick_ms (AdvanceOneFrame t r) = br_last_tick_ms r"
  "br_player_count (AdvanceOneFrame t r) = br_player_count r"
  "br_players (AdvanceOneFrame t r) = snd (settle_attacks (br_pending_attack r) (br_players r))"
  "br_pending_attack (AdvanceOneFrame t r) = fst (settle_attacks (br_pending_attack r) (br_players r))"
  by (simp_all add: AdvanceOneFrame_def Let_def split: prod.splits)

lemma AdvanceOneFrame_phase:
  "br_phase r = kPlaying \<Longrightarrow> br_phase (AdvanceOneFrame t r) \<in> {kPlaying, kFinishing}"
  by (simp add: AdvanceOneFrame_def Let_def split: prod.splits)

lemma AdvanceOneFrame_last:
  "br_frame r \<ge> kMaxFrames - 1 \<Longrightarrow> br_phase (AdvanceOneFrame t r) = kFinishing"
  by (simp add: AdvanceOneFrame_def Let_def split: prod.splits)

section \<open>The exact damage of one frame\<close>

text \<open>Two players: each loses ten points exactly when the other one attacked, never below zero,
  and every pending attack is consumed.\<close>

definition damaged :: "bool \<Rightarrow> PlayerSnapshot \<Rightarrow> PlayerSnapshot" where
  "damaged hit p = (if hit then p\<lparr>ps_hp := max 0 (ps_hp p - kAttackDamage)\<rparr> else p)"

lemma settle_attacks_two:
  "settle_attacks [a0, a1] [p0, p1] = ([False, False], [damaged a1 p0, damaged a0 p1])"
proof -
  have "[0..<length [p0, p1]] = [0, 1]" by (simp add: upt_rec)
  then show ?thesis
    by (simp add: settle_attacks_def settle_attack_def damaged_def Let_def max_def)
qed

lemma damaged_sel [simp]:
  "ps_player_id (damaged h p) = ps_player_id p" "ps_connected (damaged h p) = ps_connected p"
  "ps_online (damaged h p) = ps_online p"
  "ps_hp (damaged h p) = (if h then max 0 (ps_hp p - kAttackDamage) else ps_hp p)"
  by (simp_all add: damaged_def)

text \<open>The verdict of a frame as a function of the two health values and the frame number.\<close>

definition frame_verdict ::
  "frame_no \<Rightarrow> PlayerSnapshot \<Rightarrow> PlayerSnapshot \<Rightarrow> (FinishReason \<times> string) option" where
  "frame_verdict f p0 p1 =
     (if ps_hp p0 \<le> 0 \<and> ps_hp p1 \<le> 0 then Some (kHpZero, [])
      else if ps_hp p0 \<le> 0 then Some (kHpZero, ps_player_id p1)
      else if ps_hp p1 \<le> 0 then Some (kHpZero, ps_player_id p0)
      else if f \<ge> kMaxFrames
      then Some (kTimeout, if ps_hp p0 > ps_hp p1 then ps_player_id p0
                           else if ps_hp p1 > ps_hp p0 then ps_player_id p1 else [])
      else None)"

lemma alive_indices_two:
  "alive_indices [p0, p1] =
    (if 0 < ps_hp p0 then [0] else []) @ (if 0 < ps_hp p1 then [1] else [])"
proof -
  have "[0..<length [p0, p1]] = [0, 1]" by (simp add: upt_rec)
  then show ?thesis by (simp add: alive_indices_def)
qed

text \<open>C24: one frame of a two-player match. Attacks of both players are settled at the same time:
  each loses exactly ten points when the other one attacked, the queue of attacks is emptied, and
  the match ends exactly when the abstract verdict says so, with that reason and that winner.\<close>

theorem advance_frame_two_players:
  assumes "br_players r = [p0, p1]" and "br_pending_attack r = [a0, a1]"
    and "br_phase r = kPlaying"
  shows "br_players (AdvanceOneFrame now_ms r) = [damaged a1 p0, damaged a0 p1] \<and>
    br_pending_attack (AdvanceOneFrame now_ms r) = [False, False] \<and>
    br_frame (AdvanceOneFrame now_ms r) = br_frame r + 1 \<and>
    (case frame_verdict (br_frame r + 1) (damaged a1 p0) (damaged a0 p1) of
       None \<Rightarrow> br_phase (AdvanceOneFrame now_ms r) = kPlaying
     | Some (reason, w) \<Rightarrow> br_phase (AdvanceOneFrame now_ms r) = kFinishing \<and>
         br_finish_reason (AdvanceOneFrame now_ms r) = reason \<and>
         br_winner_id (AdvanceOneFrame now_ms r) = w \<and>
         br_finished_at_ms (AdvanceOneFrame now_ms r) = now_ms)"
  using assms
  by (auto simp: settle_attacks_two AdvanceOneFrame_def Let_def frame_verdict_def
      alive_indices_two timeout_winner_def)

text \<open>A match between two players in which the first one is about to deliver the last blow.\<close>

definition duel :: BattleRoom where
  "duel = (snd (BattleRoom_Join ''bob'' 1000 (snd (BattleRoom_Join ''alice'' 900
     (BattleRoom_new ''r-1'' ''m-1'' [''alice'', ''bob''] 800)))))"

definition last_blow :: BattleRoom where
  "last_blow = snd (BattleRoom_SubmitInput ''alice'' kAttack
     (duel\<lparr>br_players := [(br_players duel ! 0), (br_players duel ! 1)\<lparr>ps_hp := 7\<rparr>]\<rparr>))"

lemmas duel_simps = duel_def BattleRoom_Join_def BattleRoom_new_def bad_id_def FindPlayer_def
  initial_player_def room_consts

lemma duel_fields:
  "br_phase duel = kPlaying" "br_frame duel = 0" "br_last_tick_ms duel = 1000"
  "br_players duel = [\<lparr>ps_player_id = ''alice'', ps_hp = 100, ps_connected = True, ps_online = True\<rparr>,
     \<lparr>ps_player_id = ''bob'', ps_hp = 100, ps_connected = True, ps_online = True\<rparr>]"
  "br_runtime duel = [fresh_runtime, fresh_runtime]" "br_pending_attack duel = [False, False]"
  "br_room_id duel = ''r-1''" "br_match_id duel = ''m-1''"
  by (simp_all add: duel_simps Let_def numeral_2_eq_2)

lemma room_inv_duel: "room_inv duel"
  unfolding duel_def by (intro room_inv_Join room_inv_new)

lemma last_blow_fields:
  "br_phase last_blow = kPlaying" "br_pending_attack last_blow = [True, False]"
  "br_players last_blow = [br_players duel ! 0, (br_players duel ! 1)\<lparr>ps_hp := 7\<rparr>]"
  by (simp_all add: last_blow_def BattleRoom_SubmitInput_def bad_id_def IndexOf_def duel_fields
      room_consts)

theorem advance_frame_two_players_witness:
  "br_phase (AdvanceOneFrame 1100 last_blow) = kFinishing \<and>
   br_winner_id (AdvanceOneFrame 1100 last_blow) = ''alice'' \<and>
   map ps_hp (br_players (AdvanceOneFrame 1100 last_blow)) = [100, 0]"
  using advance_frame_two_players [OF last_blow_fields(3,2,1), of 1100]
  by (simp add: frame_verdict_def damaged_def duel_fields kAttackDamage_def)

section \<open>Submitting twice\<close>

text \<open>At most one attack per player and frame. A second submission of the same player before
  the next frame is accepted and changes nothing, so clicking faster cannot win.\<close>

lemma submit_twice_is_submit_once:
  "BattleRoom_SubmitInput pid kind (snd (BattleRoom_SubmitInput pid kind r)) =
   (fst (BattleRoom_SubmitInput pid kind r), snd (BattleRoom_SubmitInput pid kind r))"
  by (auto simp: BattleRoom_SubmitInput_def IndexOf_def split: option.splits)

section \<open>Time: no drift and no debt\<close>

lemma tick_frames_playing:
  "br_phase (snd (tick_frames n t c r)) = kPlaying \<Longrightarrow>
     br_phase r = kPlaying \<and>
     br_frame (snd (tick_frames n t c r)) = br_frame r + int n \<and>
     br_last_tick_ms (snd (tick_frames n t c r)) = br_last_tick_ms r + int n * kFrameIntervalMs"
proof (induction n arbitrary: c r)
  case (Suc n)
  then show ?case by (auto simp: algebra_simps split: if_splits)
qed simp

lemma Tick_playing_eq:
  assumes "br_phase r = kPlaying" "\<not> IsWaitingForReconnect r" "br_last_tick_ms r \<le> now_ms"
  defines "frames \<equiv> (now_ms - br_last_tick_ms r) div kFrameIntervalMs"
  shows "BattleRoom_Tick now_ms r = tick_frames (nat (min kMaxCatchUpFrames frames)) now_ms False
    (r\<lparr>br_last_tick_ms := br_last_tick_ms r + max 0 (frames - kMaxCatchUpFrames) * kFrameIntervalMs\<rparr>)"
proof -
  have "0 \<le> frames" using assms by (simp add: room_consts)
  then show ?thesis
    using assms(1-3) unfolding BattleRoom_Tick_def frames_def [symmetric]
    by (auto simp: min_def max_def kMaxCatchUpFrames_def)
qed

text \<open>A tick of a running match owes no time afterwards. If the match is still running, the
  frame number has advanced by the elapsed whole frames, capped at ten; the time base stays on the
  original 100 ms grid and is less than one frame behind the clock, also when frames were
  dropped.\<close>

lemma tick_advances_by_elapsed_frames:
  assumes "br_phase r = kPlaying" and "\<not> IsWaitingForReconnect r"
    and "br_last_tick_ms r \<le> now_ms"
    and "br_phase (snd (BattleRoom_Tick now_ms r)) = kPlaying"
  shows "br_frame (snd (BattleRoom_Tick now_ms r)) =
      br_frame r + min kMaxCatchUpFrames ((now_ms - br_last_tick_ms r) div kFrameIntervalMs) \<and>
    br_last_tick_ms (snd (BattleRoom_Tick now_ms r)) \<le> now_ms \<and>
    now_ms - br_last_tick_ms (snd (BattleRoom_Tick now_ms r)) < kFrameIntervalMs \<and>
    (br_last_tick_ms (snd (BattleRoom_Tick now_ms r)) - br_last_tick_ms r) mod kFrameIntervalMs = 0"
proof -
  define frames where "frames = (now_ms - br_last_tick_ms r) div kFrameIntervalMs"
  have nn: "0 \<le> frames" using assms(3) by (simp add: frames_def room_consts)
  note eq = Tick_playing_eq [OF assms(1-3), folded frames_def]
  note p = tick_frames_playing [OF assms(4) [unfolded eq]]
  have last: "br_last_tick_ms (snd (BattleRoom_Tick now_ms r)) = br_last_tick_ms r + frames * 100"
    using p nn unfolding eq by (simp add: room_consts max_def min_def split: if_splits)
  have "br_frame (snd (BattleRoom_Tick now_ms r)) = br_frame r + min kMaxCatchUpFrames frames"
    using p nn unfolding eq by (simp add: room_consts)
  moreover have "frames * 100 \<le> now_ms - br_last_tick_ms r"
    "now_ms - br_last_tick_ms r < frames * 100 + 100"
    by (simp_all add: frames_def kFrameIntervalMs_def)
  ultimately show ?thesis
    using last by (simp add: frames_def [symmetric] kFrameIntervalMs_def)
qed

section \<open>The life cycle only moves forward\<close>

definition player_le :: "PlayerSnapshot \<Rightarrow> PlayerSnapshot \<Rightarrow> bool" where
  "player_le p q \<longleftrightarrow> ps_player_id q = ps_player_id p \<and> ps_hp q \<le> ps_hp p"

text \<open>\<open>evolves r r'\<close>: same room, same players in the same order, no phase, frame or health value
  moved backwards, and everything about an ended match is frozen.\<close>

definition evolves :: "BattleRoom \<Rightarrow> BattleRoom \<Rightarrow> bool" where
  "evolves r r' \<longleftrightarrow>
     br_room_id r' = br_room_id r \<and> br_match_id r' = br_match_id r \<and>
     br_player_count r' = br_player_count r \<and>
     list_all2 player_le (br_players r) (br_players r') \<and>
     phase_rank (br_phase r) \<le> phase_rank (br_phase r') \<and>
     br_frame r \<le> br_frame r' \<and>
     (ended (br_phase r) \<longrightarrow>
        br_frame r' = br_frame r \<and> br_players r' = br_players r \<and>
        br_finish_reason r' = br_finish_reason r \<and> br_winner_id r' = br_winner_id r \<and>
        br_started_at_ms r' = br_started_at_ms r \<and> br_finished_at_ms r' = br_finished_at_ms r \<and>
        (br_phase r' = br_phase r \<or> br_phase r = kFinishing \<and> br_phase r' = kFinished))"

lemma player_le_refl [simp]: "player_le p p"
  by (simp add: player_le_def)

lemma list_all2_player_le_refl [simp]: "list_all2 player_le ps ps"
  by (simp add: list_all2_same)

lemma list_all2_player_le_trans:
  "list_all2 player_le ps qs \<Longrightarrow> list_all2 player_le qs rs \<Longrightarrow> list_all2 player_le ps rs"
  by (rule list_all2_trans [where ?P1.0 = player_le and ?P2.0 = player_le])
     (auto simp: player_le_def)

lemma ended_rank: "ended p \<longleftrightarrow> 3 \<le> phase_rank p"
  by (cases p) (auto simp: ended_def)

lemma evolves_refl [simp]: "evolves r r"
  by (simp add: evolves_def)

lemma evolves_trans [trans]: "evolves r s \<Longrightarrow> evolves s t \<Longrightarrow> evolves r t"
  unfolding evolves_def by (auto simp: ended_rank intro: list_all2_player_le_trans)

lemma evolves_open:
  assumes "\<not> ended (br_phase r)" "br_room_id r' = br_room_id r" "br_match_id r' = br_match_id r"
    "br_player_count r' = br_player_count r" "list_all2 player_le (br_players r) (br_players r')"
    "phase_rank (br_phase r) \<le> phase_rank (br_phase r')" "br_frame r \<le> br_frame r'"
  shows "evolves r r'"
  using assms by (simp add: evolves_def)

lemma list_all2_player_le_update:
  "player_le (ps ! i) q \<Longrightarrow> list_all2 player_le ps (ps[i := q])"
  by (cases "i < length ps") (auto simp: list_all2_conv_all_nth nth_list_update)

lemma evolves_Join:
  assumes "room_inv r"
  shows "evolves r (snd (BattleRoom_Join pid t r))"
proof -
  have "br_frame r = 0" if "\<not> ended (br_phase r)" "br_phase r \<noteq> kPlaying"
    using that assms by (cases "br_phase r") (auto simp: room_inv_defs ended_def)
  moreover have "br_phase r = kPlaying \<Longrightarrow> FindPlayer r pid = Some i \<Longrightarrow>
      ps_connected (br_players r ! i)" for i
    using assms by (auto simp: room_inv_defs list_all_length dest: FindPlayer_bound)
  moreover have "list_all2 player_le (br_players r)
      ((br_players r)[i := (br_players r ! i)\<lparr>ps_connected := True\<rparr>])" for i
    by (rule list_all2_player_le_update) (simp add: player_le_def)
  ultimately show ?thesis
    by (cases "br_phase r")
       (auto simp: BattleRoom_Join_def Let_def ended_def evolves_def split: option.splits)
qed

lemma evolves_SubmitInput: "evolves r (snd (BattleRoom_SubmitInput pid kind r))"
  by (auto simp: BattleRoom_SubmitInput_def evolves_def split: option.splits)

lemma evolves_SetPresence: "evolves r (snd (BattleRoom_SetPresence pid online t r))"
proof -
  have "list_all2 player_le (br_players r)
      ((br_players r)[i := (br_players r ! i)\<lparr>ps_online := b\<rparr>])" for i b
    by (rule list_all2_player_le_update) (simp add: player_le_def)
  then show ?thesis
    by (auto simp: BattleRoom_SetPresence_def evolves_def ended_def split: option.splits)
qed

lemma evolves_marks:
  "evolves r (MarkResultPersisted r)" "evolves r (MarkResultFailed t r)"
  by (auto simp: MarkResultPersisted_def MarkResultFailed_def evolves_def)

lemma evolves_Finish: "br_phase r = kPlaying \<Longrightarrow> evolves r (BattleRoom_Finish w x t r)"
  by (rule evolves_open) (simp_all add: ended_def)

lemma evolves_Abort: "\<not> ended (br_phase r) \<Longrightarrow> evolves r (BattleRoom_Abort t r)"
  by (rule evolves_open) (cases "br_phase r"; simp add: ended_def)+

lemma settle_attack_le:
  assumes "list_all hp_ok ps"
  shows "list_all2 player_le ps (snd (settle_attack i (pend, ps)))"
proof -
  define t where "t = Suc i mod length ps"
  define q where "q = (ps ! t)\<lparr>ps_hp := (if ps_hp (ps ! t) - kAttackDamage < 0 then 0
    else ps_hp (ps ! t) - kAttackDamage)\<rparr>"
  have "list_all2 player_le ps (ps[t := q])"
  proof (cases "t < length ps")
    case True
    then have "player_le (ps ! t) q"
      using assms by (simp add: list_all_length hp_ok_def player_le_def q_def kAttackDamage_def)
    then show ?thesis by (rule list_all2_player_le_update)
  next
    case False
    then show ?thesis by (simp add: list_update_beyond)
  qed
  then show ?thesis
    by (auto simp: settle_attack_def Let_def t_def [symmetric] q_def split: if_splits)
qed

lemma settle_attacks_le:
  assumes "list_all hp_ok ps"
  shows "list_all2 player_le ps (snd (settle_attacks pend ps))"
proof -
  define P where "P = (\<lambda>s :: bool list \<times> PlayerSnapshot list.
    list_all hp_ok (snd s) \<and> list_all2 player_le ps (snd s))"
  have step: "P (settle_attack i s)" if "P s" for i s
  proof -
    obtain pd qs where s: "s = (pd, qs)" by (cases s)
    obtain pd' qs' where s': "settle_attack i (pd, qs) = (pd', qs')"
      by (cases "settle_attack i (pd, qs)")
    show ?thesis
      using that settle_attack_le [of qs i pd] settle_attack_players(6) [OF s']
      by (auto simp: P_def s s' intro: list_all2_player_le_trans)
  qed
  have "P (fold settle_attack [0..<length ps] (pend, ps))"
    by (rule fold_invariant [where Q = "\<lambda>_. True"]) (use assms step in \<open>auto simp: P_def\<close>)
  then show ?thesis by (simp add: P_def settle_attacks_def)
qed

lemma evolves_AdvanceOneFrame:
  assumes "room_inv r" "br_phase r = kPlaying"
  shows "evolves r (AdvanceOneFrame t r)"
  using AdvanceOneFrame_phase [OF assms(2), of t] assms
  by (intro evolves_open) (auto simp: ended_def settle_attacks_le room_inv_defs)

lemma evolves_last_tick: "evolves r (r\<lparr>br_last_tick_ms := t\<rparr>)"
  by (simp add: evolves_def)

lemma evolves_tick_frames: "room_inv r \<Longrightarrow> evolves r (snd (tick_frames n t c r))"
proof (induction n arbitrary: c r)
  case (Suc n)
  show ?case
  proof (cases "br_phase r = kPlaying")
    case True
    define r1 where "r1 = r\<lparr>br_last_tick_ms := br_last_tick_ms r + kFrameIntervalMs\<rparr>"
    have i1: "room_inv r1" "br_phase r1 = kPlaying"
      using Suc.prems True by (simp_all add: r1_def room_inv_last_tick)
    have "evolves r r1" by (simp add: r1_def evolves_last_tick)
    also have "evolves r1 (AdvanceOneFrame t r1)" by (rule evolves_AdvanceOneFrame [OF i1])
    also have "evolves (AdvanceOneFrame t r1) (snd (tick_frames n t True (AdvanceOneFrame t r1)))"
      by (rule Suc.IH) (rule room_inv_AdvanceOneFrame [OF i1])
    finally show ?thesis using True by (simp add: r1_def)
  qed simp
qed simp

lemma evolves_ResolveReconnectGrace: "evolves r (snd (ResolveReconnectGrace t r))"
  by (auto simp: ResolveReconnectGrace_def Let_def ended_def intro: evolves_Finish evolves_Abort)

lemma evolves_Tick:
  assumes "room_inv r"
  shows "evolves r (snd (BattleRoom_Tick t r))"
proof -
  have g: "evolves r (snd (ResolveReconnectGrace t r))" by (rule evolves_ResolveReconnectGrace)
  have f: "evolves r (snd (tick_frames n t c (r\<lparr>br_last_tick_ms := x\<rparr>)))" for n c x
    by (rule evolves_trans [OF evolves_last_tick evolves_tick_frames])
       (simp add: assms room_inv_last_tick)
  show ?thesis
    using g f evolves_trans [OF g evolves_last_tick] evolves_tick_frames [OF assms]
    by (auto simp: BattleRoom_Tick_def Let_def ended_def intro: evolves_Abort
        split: prod.splits bool.splits)
qed

section \<open>Rooms as a state machine\<close>

text \<open>The calls the manager makes on a room, in any order and with any arguments. \<^verbatim>\<open>Abort\<close> has the
  precondition its header states: the match has not ended.\<close>

inductive room_step :: "BattleRoom \<Rightarrow> BattleRoom \<Rightarrow> bool" where
  join: "room_step r (snd (BattleRoom_Join pid t r))"
| submit: "room_step r (snd (BattleRoom_SubmitInput pid kind r))"
| presence: "room_step r (snd (BattleRoom_SetPresence pid online t r))"
| tick: "room_step r (snd (BattleRoom_Tick t r))"
| persisted: "room_step r (MarkResultPersisted r)"
| persist_failed: "room_step r (MarkResultFailed t r)"
| abort: "unfinished (br_phase r) \<Longrightarrow> room_step r (BattleRoom_Abort t r)"

inductive_cases room_stepE: "room_step r r'"

lemmas room_steps_snoc = rtranclp.rtrancl_into_rtrancl [where r = room_step]

lemma room_step_inv: "room_step r r' \<Longrightarrow> room_inv r \<Longrightarrow> room_inv r'"
  by (induction rule: room_step.induct) (simp_all add: rgb_inv)

lemma room_step_evolves: "room_step r r' \<Longrightarrow> room_inv r \<Longrightarrow> evolves r r'"
  by (induction rule: room_step.induct)
     (auto simp: evolves_Join evolves_SubmitInput evolves_SetPresence evolves_Tick evolves_marks
       unfinished_not_ended intro: evolves_Abort)

lemma room_steps_inv_evolves: "room_step\<^sup>*\<^sup>* r r' \<Longrightarrow> room_inv r \<Longrightarrow> room_inv r' \<and> evolves r r'"
  by (induction rule: rtranclp_induct) (auto intro: room_step_inv evolves_trans room_step_evolves)

text \<open>Every room that is reached from a new one by any sequence of calls satisfies the
  representation invariant: aligned vectors, health in 0..100, frame in 0..600, agreement of phase,
  reason and winner, and a gap-free history of at most 128 entries that ends at the current frame.\<close>

lemma reachable_room_inv:
  assumes "room_step\<^sup>*\<^sup>* (BattleRoom_new room_id match_id ids created) r"
  shows "room_inv r"
  using room_steps_inv_evolves [OF assms room_inv_new] by simp

lemma duel_reachable: "room_step\<^sup>*\<^sup>* (BattleRoom_new ''r-1'' ''m-1'' [''alice'', ''bob''] 800) duel"
  unfolding duel_def by (intro room_steps_snoc [OF _ join] rtranclp.rtrancl_refl)



section \<open>The reconnect grace period\<close>

lemma scan_grace_two:
  "scan_grace [a, b] =
     \<lparr>gs_offline_count = (if pr_online a then 0 else 1) + (if pr_online b then 0 else 1),
      gs_online_index = (if pr_online b then 1 else 0),
      gs_online_count = (if pr_online a then 1 else 0) + (if pr_online b then 1 else 0),
      gs_latest_offline_at = max (if pr_online a then 0 else max 0 (pr_offline_since_ms a))
        (if pr_online b then 0 else pr_offline_since_ms b)\<rparr>"
proof -
  have "[0..<length [a, b]] = [0, 1]" by (simp add: upt_rec)
  then show ?thesis by (simp add: scan_grace_def grace_step_def)
qed

text \<open>What a tick of a two-player match does while somebody is offline.\<close>

definition grace_outcome :: "ms \<Rightarrow> PlayerRuntime \<Rightarrow> PlayerRuntime \<Rightarrow> nat option option" where
  "grace_outcome now_ms a b =
     (if pr_online a \<and> \<not> pr_online b
      then if now_ms - max 0 (pr_offline_since_ms b) \<ge> kReconnectGraceMs then Some (Some 0) else None
      else if \<not> pr_online a \<and> pr_online b
      then if now_ms - max 0 (pr_offline_since_ms a) \<ge> kReconnectGraceMs then Some (Some 1) else None
      else if now_ms - max 0 (max (pr_offline_since_ms a) (pr_offline_since_ms b)) \<ge> kReconnectGraceMs
      then Some None else None)"

text \<open>While a player of a running two-player match is offline, a tick advances no frame. It
  does nothing but move the time base until 30 seconds after the last disconnection; then the
  player who is still online wins by disconnect, and if nobody is online the match is aborted
  without a winner.\<close>

lemma tick_during_grace_period:
  assumes "br_phase r = kPlaying" and "br_runtime r = [a, b]" and "length (br_players r) = 2"
    and "IsWaitingForReconnect r"
  shows "BattleRoom_Tick now_ms r =
    (case grace_outcome now_ms a b of
       None \<Rightarrow> (False, r\<lparr>br_last_tick_ms := now_ms\<rparr>)
     | Some (Some i) \<Rightarrow> (True, BattleRoom_Finish kDisconnect (ps_player_id (br_players r ! i)) now_ms r)
     | Some None \<Rightarrow> (True, BattleRoom_Abort now_ms r))"
  using assms
  by (auto simp: BattleRoom_Tick_def ResolveReconnectGrace_def scan_grace_two Let_def
      IsWaitingForReconnect_def grace_outcome_def max_def)

definition duel_bob_gone :: BattleRoom where
  "duel_bob_gone = snd (BattleRoom_SetPresence ''bob'' False 2000 duel)"

lemma duel_bob_gone_fields:
  "br_phase duel_bob_gone = kPlaying"
  "br_runtime duel_bob_gone = [fresh_runtime, \<lparr>pr_online = False, pr_offline_since_ms = 2000\<rparr>]"
  "map ps_player_id (br_players duel_bob_gone) = [''alice'', ''bob'']"
  by (simp_all add: duel_bob_gone_def BattleRoom_SetPresence_def bad_id_def IndexOf_def duel_fields
      fresh_runtime_def kMaxIdLength_def)

section \<open>The history a reconnecting client gets\<close>

definition snaps :: "frame_no \<Rightarrow> RoomSnapshot list \<Rightarrow> RoomSnapshot list" where
  "snaps since xs = fold (snapshots_step since) xs []"

lemma snaps_Nil [simp]: "snaps since [] = []"
  by (simp add: snaps_def)

lemma snaps_snoc: "snaps since (xs @ [s]) = snapshots_step since s (snaps since xs)"
  by (simp add: snaps_def)

lemma upto_snoc: "(i::int) \<le> j + 1 \<Longrightarrow> [i..j] @ [j + 1] = [i..j + 1]"
  using upto_rec2 [of i "j + 1"] by simp

lemma map_butlast_snoc: "xs \<noteq> [] \<Longrightarrow> f s = f (last xs) \<Longrightarrow> map f (butlast xs @ [s]) = map f xs"
  by (induction xs rule: rev_induct) auto

lemma frames_of_snaps:
  assumes "steps1 (map rs_frame xs)" "xs \<noteq> []"
  shows "map rs_frame (snaps since xs) = [max (since + 1) (rs_frame (hd xs)) .. rs_frame (last xs)]"
  using assms
proof (induction xs rule: rev_induct)
  case (snoc s xs)
  show ?case
  proof (cases "xs = []")
    case True
    then show ?thesis by (simp add: snaps_def snapshots_step_def)
  next
    case False
    define lo where "lo = max (since + 1) (rs_frame (hd xs))"
    define top where "top = rs_frame (last xs)"
    have st: "steps1 (map rs_frame xs)" and s: "rs_frame s = top \<or> rs_frame s = top + 1"
      using snoc.prems False by (auto simp: steps1_snoc last_map top_def)
    have IH: "map rs_frame (snaps since xs) = [lo..top]"
      using snoc.IH [OF st False] by (simp add: lo_def top_def)
    have hd_le: "rs_frame (hd xs) \<le> top"
      using steps1_hd_le_last [OF st] False by (simp add: hd_map last_map top_def)
    have "map rs_frame (snapshots_step since s (snaps since xs)) = [lo..rs_frame s]"
    proof (cases "rs_frame s \<le> since")
      case True
      then have "[lo..rs_frame s] = []" "[lo..top] = []" using s by (auto simp: lo_def)
      with IH True show ?thesis by (simp add: snapshots_step_def)
    next
      case new: False
      have lo_le: "lo \<le> rs_frame s" using new s hd_le by (auto simp: lo_def)
      show ?thesis
      proof (cases "rs_frame s = top")
        case True
        then have ne: "snaps since xs \<noteq> []" using IH lo_le by auto
        have "rs_frame (last (snaps since xs)) = last (map rs_frame (snaps since xs))"
          using ne by (simp add: last_map)
        also have "\<dots> = top" using lo_le True by (simp add: IH upto_rec2 [of lo top])
        finally have l: "rs_frame (last (snaps since xs)) = rs_frame s" using True by simp
        then have "snapshots_step since s (snaps since xs) = butlast (snaps since xs) @ [s]"
          using new ne by (simp add: snapshots_step_def)
        then have "map rs_frame (snapshots_step since s (snaps since xs)) = [lo..top]"
          using map_butlast_snoc [OF ne, of rs_frame s] l IH by simp
        then show ?thesis using True by simp
      next
        case False
        then have st1: "rs_frame s = top + 1" using s by simp
        have "snaps since xs \<noteq> [] \<Longrightarrow> rs_frame (last (snaps since xs)) \<noteq> rs_frame s"
        proof -
          assume ne: "snaps since xs \<noteq> []"
          then have "rs_frame (last (snaps since xs)) \<in> set [lo..top]"
            by (metis IH last_in_set last_map list.map_disc_iff)
          then show ?thesis using st1 by simp
        qed
        then show ?thesis
          using new IH lo_le st1 by (auto simp: snapshots_step_def upto_snoc)
      qed
    qed
    then show ?thesis using False by (simp add: snaps_snoc lo_def)
  qed
qed simp

lemma snaps_newest_of_frame:
  assumes "steps1 (map rs_frame xs)" "t \<in> set (snaps since xs)"
  shows "t = last (filter (\<lambda>u. rs_frame u = rs_frame t) xs) \<and> t \<in> set xs"
  using assms
proof (induction xs rule: rev_induct)
  case (snoc s xs)
  have st: "steps1 (map rs_frame xs)" using snoc.prems(1) by (simp add: steps1_snoc)
  show ?case
  proof (cases "t = s")
    case True
    then show ?thesis by simp
  next
    case False
    then have t: "t \<in> set (snaps since xs)"
      using snoc.prems(2) by (auto simp: snaps_snoc snapshots_step_def dest: in_set_butlastD split: if_splits)
    note IH = snoc.IH [OF st t]
    have "rs_frame t \<noteq> rs_frame s"
    proof
      assume eq: "rs_frame t = rs_frame s"
      have xs: "xs \<noteq> []" using t by auto
      define n where "n = length (snaps since xs) - 1"
      have sorted: "map rs_frame (snaps since xs) = [max (since + 1) (rs_frame (hd xs)) .. rs_frame (last xs)]"
        by (rule frames_of_snaps [OF st xs])
      have fs: "rs_frame s = rs_frame (last xs) \<or> rs_frame s = rs_frame (last xs) + 1"
        using snoc.prems(1) xs by (auto simp: steps1_snoc last_map)
      have "rs_frame t \<in> set [max (since + 1) (rs_frame (hd xs)) .. rs_frame (last xs)]"
        using t unfolding sorted [symmetric] by simp
      then have range: "since < rs_frame t" "rs_frame t \<le> rs_frame (last xs)"
        "max (since + 1) (rs_frame (hd xs)) \<le> rs_frame (last xs)" by auto
      then have top: "rs_frame t = rs_frame (last xs)" using eq fs by simp
      have ne: "snaps since xs \<noteq> []" using t by auto
      have dist: "distinct (map rs_frame (snaps since xs))" by (simp add: sorted)
      have "rs_frame (last (snaps since xs)) = last (map rs_frame (snaps since xs))"
        using ne by (simp add: last_map)
      also have "\<dots> = rs_frame (last xs)"
        using range(3) by (simp add: sorted upto_rec2 [of _ "rs_frame (last xs)"])
      finally have l: "rs_frame (last (snaps since xs)) = rs_frame s" using top eq by simp
      then have "snaps since (xs @ [s]) = butlast (snaps since xs) @ [s]"
        using ne range(1) eq by (simp add: snaps_snoc snapshots_step_def)
      then have tb: "t \<in> set (butlast (snaps since xs))" using snoc.prems(2) False by auto
      have "snaps since xs = butlast (snaps since xs) @ [last (snaps since xs)]" using ne by simp
      then have "distinct (map rs_frame (butlast (snaps since xs) @ [last (snaps since xs)]))"
        using dist by simp
      then have "rs_frame (last (snaps since xs)) \<notin> rs_frame ` set (butlast (snaps since xs))"
        unfolding map_append distinct_append by simp
      then show False using imageI [OF tb, of rs_frame] l eq by simp
    qed
    with IH show ?thesis by simp
  qed
qed simp

lemma frame_range_fold:
  assumes "steps1 (map rs_frame xs)" "xs \<noteq> []"
  shows "fold frame_range_step xs (True, 0, 0) = (False, rs_frame (hd xs), rs_frame (last xs))"
  using assms
proof (induction xs rule: rev_induct)
  case (snoc s xs)
  show ?case
  proof (cases "xs = []")
    case False
    have st: "steps1 (map rs_frame xs)" and s: "rs_frame s = rs_frame (last xs) \<or> rs_frame s = rs_frame (last xs) + 1"
      using snoc.prems False by (auto simp: steps1_snoc last_map)
    have "rs_frame (hd xs) \<le> rs_frame (last xs)"
      using steps1_hd_le_last [OF st] False by (simp add: hd_map last_map)
    with s snoc.IH [OF st False] False show ?thesis by (auto simp: frame_range_step_def)
  qed (simp add: frame_range_step_def)
qed simp

lemma SnapshotFrameRange_inv:
  assumes "hist_ok r"
  shows "SnapshotFrameRange r = (rs_frame (hd (br_history r)), br_frame r)"
  using assms frame_range_fold [of "br_history r"]
  by (auto simp: SnapshotFrameRange_def hist_ok_def hist_frames_def last_map)

lemma SnapshotsAfter_frames:
  assumes "room_inv r"
  shows "map rs_frame (SnapshotsAfter since r) =
      [max (since + 1) (fst (SnapshotFrameRange r)) .. br_frame r]"
proof -
  have h: "hist_ok r" using assms by (simp add: room_inv_def)
  then have st: "steps1 (map rs_frame (br_history r))" "br_history r \<noteq> []"
    "rs_frame (last (br_history r)) = br_frame r"
    by (auto simp: hist_ok_def hist_frames_def last_map)
  show ?thesis
    using frames_of_snaps [OF st(1,2)] st(3)
    by (auto simp: SnapshotsAfter_def snaps_def SnapshotFrameRange_inv [OF h])
qed

text \<open>The history handed to a client that saw frame \<open>since\<close> has, for every frame from the later
  of \<open>since + 1\<close> and the oldest buffered frame up to the current frame, exactly one snapshot, in
  order and without gaps, and each is the newest snapshot recorded for its frame.\<close>

lemma snapshots_after_is_gap_free:
  assumes "room_inv r"
  shows "map rs_frame (SnapshotsAfter since r) =
      [max (since + 1) (fst (SnapshotFrameRange r)) .. br_frame r] \<and>
    (\<forall>t \<in> set (SnapshotsAfter since r).
       t = last (filter (\<lambda>u. rs_frame u = rs_frame t) (br_history r)))"
proof -
  have "steps1 (map rs_frame (br_history r))"
    using assms by (simp add: room_inv_def hist_ok_def hist_frames_def)
  then show ?thesis
    using snaps_newest_of_frame SnapshotsAfter_frames [OF assms, of since]
    by (auto simp: SnapshotsAfter_def snaps_def)
qed

section \<open>Every match ends\<close>

text \<open>A round: any inputs of any players, then one tick.\<close>

definition round_step :: "string list \<times> ms \<Rightarrow> BattleRoom \<Rightarrow> BattleRoom" where
  "round_step e r = snd (BattleRoom_Tick (snd e)
     (fold (\<lambda>pid q. snd (BattleRoom_SubmitInput pid kAttack q)) (fst e) r))"

fun spaced :: "ms \<Rightarrow> ms list \<Rightarrow> bool" where
  "spaced t0 [] = True"
| "spaced t0 (t # ts) = (t0 + kFrameIntervalMs \<le> t \<and> spaced t ts)"

lemma spaced_mono: "spaced t ts \<Longrightarrow> s \<le> t \<Longrightarrow> spaced s ts"
  by (cases ts) auto

lemma submit_sel [simp]:
  "br_phase (snd (BattleRoom_SubmitInput pid k r)) = br_phase r"
  "br_frame (snd (BattleRoom_SubmitInput pid k r)) = br_frame r"
  "br_runtime (snd (BattleRoom_SubmitInput pid k r)) = br_runtime r"
  "br_last_tick_ms (snd (BattleRoom_SubmitInput pid k r)) = br_last_tick_ms r"
  by (auto simp: BattleRoom_SubmitInput_def split: option.splits)

lemma inputs_sel:
  defines "g \<equiv> \<lambda>pids r. fold (\<lambda>pid q. snd (BattleRoom_SubmitInput pid kAttack q)) pids r"
  shows "br_phase (g pids r) = br_phase r" "br_frame (g pids r) = br_frame r"
    "br_runtime (g pids r) = br_runtime r" "br_last_tick_ms (g pids r) = br_last_tick_ms r"
    "room_inv r \<Longrightarrow> room_inv (g pids r)"
proof -
  show "br_phase (g pids r) = br_phase r" "br_frame (g pids r) = br_frame r"
    "br_runtime (g pids r) = br_runtime r" "br_last_tick_ms (g pids r) = br_last_tick_ms r"
    unfolding g_def by (induction pids arbitrary: r) simp_all
  show "room_inv r \<Longrightarrow> room_inv (g pids r)"
    unfolding g_def by (induction pids arbitrary: r) (simp_all add: room_inv_SubmitInput)
qed

lemma tick_frames_runtime [simp]: "br_runtime (snd (tick_frames n t c r)) = br_runtime r"
  by (induction n arbitrary: c r) simp_all

lemma tick_frames_phase:
  "br_phase r \<in> {kPlaying, kFinishing} \<Longrightarrow> br_phase (snd (tick_frames n t c r)) \<in> {kPlaying, kFinishing}"
proof (induction n arbitrary: c r)
  case (Suc n)
  show ?case
  proof (cases "br_phase r = kPlaying")
    case True
    then have "br_phase (AdvanceOneFrame t
        (r\<lparr>br_last_tick_ms := br_last_tick_ms r + kFrameIntervalMs\<rparr>)) \<in> {kPlaying, kFinishing}"
      by (intro AdvanceOneFrame_phase) simp
    from Suc.IH [OF this, of True] True show ?thesis by simp
  next
    case False
    then show ?thesis using Suc.prems by simp
  qed
qed simp

lemma Tick_finishing [simp]: "br_phase r = kFinishing \<Longrightarrow> BattleRoom_Tick t r = (False, r)"
  by (simp add: BattleRoom_Tick_def)

lemma round_step_progress:
  fixes pids :: "string list"
  assumes "room_inv r" "br_phase r = kPlaying" "\<not> IsWaitingForReconnect r"
    "br_last_tick_ms r + kFrameIntervalMs \<le> t"
  defines "r' \<equiv> round_step (pids, t) r"
  shows "br_phase r' = kFinishing \<or>
    br_phase r' = kPlaying \<and> \<not> IsWaitingForReconnect r' \<and> br_frame r + 1 \<le> br_frame r' \<and>
    br_last_tick_ms r' \<le> t"
proof -
  define q where "q = fold (\<lambda>pid q. snd (BattleRoom_SubmitInput pid kAttack q)) pids r"
  have q: "br_phase q = kPlaying" "\<not> IsWaitingForReconnect q" "br_last_tick_ms q \<le> t"
    "br_last_tick_ms q + kFrameIntervalMs \<le> t" "br_frame q = br_frame r"
    using assms(2-4) by (simp_all add: q_def inputs_sel IsWaitingForReconnect_def kFrameIntervalMs_def)
  have r': "r' = snd (BattleRoom_Tick t q)" by (simp add: r'_def round_step_def q_def)
  note eq = Tick_playing_eq [OF q(1-3)]
  have "br_phase r' \<in> {kPlaying, kFinishing}"
    unfolding r' eq using q(1) by (intro tick_frames_phase) simp
  moreover have "\<not> IsWaitingForReconnect r'"
    using q(2) unfolding r' eq by (simp add: IsWaitingForReconnect_def)
  moreover have "br_frame r + 1 \<le> br_frame r' \<and> br_last_tick_ms r' \<le> t" if "br_phase r' = kPlaying"
  proof -
    have "1 \<le> (t - br_last_tick_ms q) div kFrameIntervalMs"
      using q(4) by (simp add: kFrameIntervalMs_def)
    then show ?thesis
      using tick_advances_by_elapsed_frames [OF q(1-3)] that q(5)
      by (simp add: r' kMaxCatchUpFrames_def)
  qed
  ultimately show ?thesis by auto
qed

lemma round_step_finishing: "br_phase r = kFinishing \<Longrightarrow> br_phase (round_step e r) = kFinishing"
  by (simp add: round_step_def inputs_sel)

lemma rounds_finishing: "br_phase r = kFinishing \<Longrightarrow> br_phase (fold round_step es r) = kFinishing"
  by (induction es arbitrary: r) (simp_all add: round_step_finishing)

lemma room_inv_round_step: "room_inv r \<Longrightarrow> room_inv (round_step e r)"
  unfolding round_step_def by (intro room_inv_Tick inputs_sel(5))

lemma rounds_end:
  "room_inv r \<Longrightarrow> br_phase r = kPlaying \<Longrightarrow> \<not> IsWaitingForReconnect r \<Longrightarrow>
   spaced (br_last_tick_ms r) (map snd es) \<Longrightarrow> kMaxFrames - br_frame r \<le> int (length es) \<Longrightarrow>
   br_phase (fold round_step es r) = kFinishing"
proof (induction es arbitrary: r)
  case Nil
  then show ?case by (simp add: room_inv_defs)
next
  case (Cons e es)
  obtain pids t where e: "e = (pids, t)" by (cases e)
  have sp: "br_last_tick_ms r + kFrameIntervalMs \<le> t" "spaced t (map snd es)"
    using Cons.prems(4) by (simp_all add: e)
  from round_step_progress [OF Cons.prems(1-3) sp(1), of pids]
  show ?case
  proof
    assume "br_phase (round_step (pids, t) r) = kFinishing"
    then show ?thesis by (simp add: e rounds_finishing)
  next
    assume p: "br_phase (round_step (pids, t) r) = kPlaying \<and>
      \<not> IsWaitingForReconnect (round_step (pids, t) r) \<and>
      br_frame r + 1 \<le> br_frame (round_step (pids, t) r) \<and> br_last_tick_ms (round_step (pids, t) r) \<le> t"
    have "br_phase (fold round_step es (round_step (pids, t) r)) = kFinishing"
    proof (rule Cons.IH)
      show "spaced (br_last_tick_ms (round_step (pids, t) r)) (map snd es)"
        using p sp(2) by (blast intro: spaced_mono)
    qed (use p Cons.prems in \<open>auto intro: room_inv_round_step\<close>)
    then show ?thesis by (simp add: e)
  qed
qed


lemma spaced_grid:
  "spaced (a + 100 * int n) (map (\<lambda>i. a + 100 * int (Suc i)) [n..<n + k])"
proof (induction k arbitrary: n)
  case (Suc k)
  have "[n..<n + Suc k] = n # [Suc n..<Suc n + k]" by (simp add: upt_conv_Cons del: upt_Suc)
  with Suc.IH [of "Suc n"] show ?case by (simp add: kFrameIntervalMs_def del: upt_Suc)
qed simp


section \<open>The waiting timeout\<close>

text \<open>A room nobody fills does not live forever: before the match has started, a tick aborts the
  room exactly when 30 seconds have passed since its creation, and otherwise changes nothing.\<close>

lemma waiting_room_times_out:
  assumes "br_phase r = kCreated \<or> br_phase r = kWaiting"
  shows "BattleRoom_Tick now_ms r =
    (if now_ms - br_created_at_ms r \<ge> kWaitingTimeoutMs then (True, BattleRoom_Abort now_ms r)
     else (False, r)) \<and>
    Result (BattleRoom_Abort now_ms r) = None"
  using assms by (simp add: BattleRoom_Tick_def Result_def)

end
