(* ===== verification/Room_Manager_Inv.thy ===== *)
theory Room_Manager_Inv
  imports Room_Manager Battle_Room_Props
begin

text \<open>
  The invariant of the room registry and its preservation: the two indexes mirror each other (one
  room per match, the snapshot schedule has no entry of a reclaimed room), every room satisfies the
  room invariant, and what the result table holds for a match agrees with the phase of its room.
\<close>

section \<open>Reaping in closed form\<close>

definition expired :: "ms \<Rightarrow> (string, BattleRoom) umap \<Rightarrow> (string, BattleRoom) umap" where
  "expired t es = filter (\<lambda>e. IsExpired t (snd e)) es"

definition drop_keys :: "'k set \<Rightarrow> ('k, 'v) umap \<Rightarrow> ('k, 'v) umap" where
  "drop_keys ks m = filter (\<lambda>e. fst e \<notin> ks) m"

lemma drop_keys_empty [simp]: "drop_keys {} m = m"
  by (simp add: drop_keys_def)

lemma drop_keys_delete: "drop_keys ks (AList.delete k m) = drop_keys (insert k ks) m"
  by (simp add: drop_keys_def AList.delete_eq) (metis (mono_tags, lifting) case_prod_beta)

lemma map_of_drop_keys: "map_of (drop_keys ks m) k = (if k \<in> ks then None else map_of m k)"
  by (induction m) (auto simp: drop_keys_def)

lemma set_drop_keys: "set (drop_keys ks m) = {e \<in> set m. fst e \<notin> ks}"
  by (auto simp: drop_keys_def)

lemma keys_distinct_drop_keys [rgb_inv]: "keys_distinct m \<Longrightarrow> keys_distinct (drop_keys ks m)"
  by (simp add: drop_keys_def keys_distinct_filter)

lemma reap_fold:
  "fold (reap_step t) es m =
    m\<lparr>rm_match_index := drop_keys ((br_match_id \<circ> snd) ` set (expired t es)) (rm_match_index m),
      rm_snapshot_state := drop_keys ((br_match_id \<circ> snd) ` set (expired t es)) (rm_snapshot_state m),
      rm_rooms := drop_keys (fst ` set (expired t es)) (rm_rooms m)\<rparr>"
  by (induction es arbitrary: m) (auto simp: expired_def reap_step_def drop_keys_delete)

lemma Reap_closed:
  "ReapExpiredLocked t m =
    m\<lparr>rm_match_index := drop_keys ((br_match_id \<circ> snd) ` set (expired t (rm_rooms m))) (rm_match_index m),
      rm_snapshot_state := drop_keys ((br_match_id \<circ> snd) ` set (expired t (rm_rooms m))) (rm_snapshot_state m),
      rm_rooms := drop_keys (fst ` set (expired t (rm_rooms m))) (rm_rooms m)\<rparr>"
  by (simp add: ReapExpiredLocked_def reap_fold)

lemma Reap_frame [simp]:
  "rm_shutting_down (ReapExpiredLocked t m) = rm_shutting_down m"
  "rm_snapshot_write_count (ReapExpiredLocked t m) = rm_snapshot_write_count m"
  "rm_snapshot_failure_count (ReapExpiredLocked t m) = rm_snapshot_failure_count m"
  by (simp_all add: Reap_closed)

section \<open>The invariant\<close>

definition index_inv :: "RoomManager \<Rightarrow> bool" where
  "index_inv m \<longleftrightarrow>
     keys_distinct (rm_rooms m) \<and> keys_distinct (rm_match_index m) \<and>
     (\<forall>rid r. map_of (rm_rooms m) rid = Some r \<longrightarrow>
        br_room_id r = rid \<and> map_of (rm_match_index m) (br_match_id r) = Some rid \<and>
        \<not> bad_id (br_match_id r)) \<and>
     (\<forall>mid rid. map_of (rm_match_index m) mid = Some rid \<longrightarrow>
        (\<exists>r. map_of (rm_rooms m) rid = Some r \<and> br_match_id r = mid)) \<and>
     fst ` set (rm_snapshot_state m) \<subseteq> dom (map_of (rm_match_index m))"

definition rooms_inv :: "RoomManager \<Rightarrow> bool" where
  "rooms_inv m \<longleftrightarrow> (\<forall>rid r. map_of (rm_rooms m) rid = Some r \<longrightarrow> room_inv r)"

definition manager_inv :: "RoomManager \<Rightarrow> bool" where
  "manager_inv m \<longleftrightarrow> index_inv m \<and> rooms_inv m"

lemma index_invD:
  assumes "index_inv m"
  shows "keys_distinct (rm_rooms m)" "keys_distinct (rm_match_index m)"
    "map_of (rm_rooms m) rid = Some r \<Longrightarrow> br_room_id r = rid"
    "map_of (rm_rooms m) rid = Some r \<Longrightarrow> map_of (rm_match_index m) (br_match_id r) = Some rid"
    "map_of (rm_match_index m) mid = Some rid \<Longrightarrow>
       \<exists>r. map_of (rm_rooms m) rid = Some r \<and> br_match_id r = mid"
    "mid \<in> fst ` set (rm_snapshot_state m) \<Longrightarrow> map_of (rm_match_index m) mid \<noteq> None"
    "map_of (rm_rooms m) rid = Some r \<Longrightarrow> \<not> bad_id (br_match_id r)"
  using assms unfolding index_inv_def by blast+

lemma rooms_invD: "rooms_inv m \<Longrightarrow> map_of (rm_rooms m) rid = Some r \<Longrightarrow> room_inv r"
  by (auto simp: rooms_inv_def)

lemma manager_inv_empty [rgb_inv]: "manager_inv empty_manager"
  by (simp add: manager_inv_def index_inv_def rooms_inv_def empty_manager_def)

text \<open>Under the invariant reaping removes exactly the expired rooms, and their index entries.\<close>

lemma Reap_rooms:
  assumes "index_inv m"
  shows "map_of (rm_rooms (ReapExpiredLocked t m)) rid =
    (case map_of (rm_rooms m) rid of None \<Rightarrow> None
     | Some r \<Rightarrow> if IsExpired t r then None else Some r)"
proof -
  have "rid \<in> fst ` set (expired t (rm_rooms m)) \<longleftrightarrow>
      (\<exists>r. map_of (rm_rooms m) rid = Some r \<and> IsExpired t r)"
    using index_invD(1) [OF assms] by (force simp: expired_def map_of_iff_in_set)
  then show ?thesis by (auto simp: Reap_closed map_of_drop_keys split: option.splits)
qed

lemma Reap_rooms_Some:
  "index_inv m \<Longrightarrow> map_of (rm_rooms (ReapExpiredLocked t m)) rid = Some r \<longleftrightarrow>
     map_of (rm_rooms m) rid = Some r \<and> \<not> IsExpired t r"
  by (auto simp: Reap_rooms split: option.splits)

lemma Reap_index_Some:
  assumes "index_inv m"
  shows "map_of (rm_match_index (ReapExpiredLocked t m)) mid = Some rid \<longleftrightarrow>
    map_of (rm_match_index m) mid = Some rid \<and>
    (\<exists>r. map_of (rm_rooms m) rid = Some r \<and> \<not> IsExpired t r)"
proof -
  have *: "mid \<in> (br_match_id \<circ> snd) ` set (expired t (rm_rooms m)) \<longleftrightarrow>
      (\<exists>rid r. map_of (rm_rooms m) rid = Some r \<and> IsExpired t r \<and> br_match_id r = mid)"
    using index_invD(1) [OF assms] by (force simp: expired_def map_of_iff_in_set)
  show ?thesis
  proof (cases "map_of (rm_match_index m) mid = Some rid")
    case True
    from index_invD(5) [OF assms True] obtain r
      where r: "map_of (rm_rooms m) rid = Some r" "br_match_id r = mid" by blast
    have "mid \<in> (br_match_id \<circ> snd) ` set (expired t (rm_rooms m)) \<longleftrightarrow> IsExpired t r"
      unfolding * using index_invD(4) [OF assms] r True by (metis option.inject)
    then show ?thesis using True r by (simp add: Reap_closed map_of_drop_keys)
  next
    case False
    then show ?thesis by (simp add: Reap_closed map_of_drop_keys)
  qed
qed

lemma index_inv_Reap [rgb_inv]:
  assumes "index_inv m"
  shows "index_inv (ReapExpiredLocked t m)"
  unfolding index_inv_def Reap_rooms_Some [OF assms] Reap_index_Some [OF assms]
proof (intro conjI allI impI)
  show "keys_distinct (rm_rooms (ReapExpiredLocked t m))"
    "keys_distinct (rm_match_index (ReapExpiredLocked t m))"
    using index_invD(1,2) [OF assms] by (simp_all add: Reap_closed keys_distinct_drop_keys)
  show "fst ` set (rm_snapshot_state (ReapExpiredLocked t m)) \<subseteq>
      dom (map_of (rm_match_index (ReapExpiredLocked t m)))"
    using assms by (auto simp: Reap_closed set_drop_keys map_of_drop_keys index_inv_def dom_def)
qed (metis index_invD(3,4,5,7) [OF assms] option.inject)+

lemma rooms_inv_Reap [rgb_inv]: "rooms_inv m \<Longrightarrow> rooms_inv (ReapExpiredLocked t m)"
  by (auto simp: rooms_inv_def Reap_closed map_of_drop_keys)

lemma manager_inv_Reap [rgb_inv]: "manager_inv m \<Longrightarrow> manager_inv (ReapExpiredLocked t m)"
  by (simp add: manager_inv_def rgb_inv)


section \<open>Replacing rooms\<close>

text \<open>\<open>quiet r r'\<close>: a transition of one room that does not confirm its result.\<close>

definition quiet :: "BattleRoom \<Rightarrow> BattleRoom \<Rightarrow> bool" where
  "quiet r r' \<longleftrightarrow> (room_inv r \<longrightarrow> room_inv r' \<and> evolves r r') \<and>
     br_room_id r' = br_room_id r \<and> br_match_id r' = br_match_id r \<and>
     (br_phase r' = kFinished \<longrightarrow> br_phase r = kFinished)"

lemma quiet_refl [simp, intro]: "quiet r r"
  by (simp add: quiet_def)

lemma Join_frame [simp]:
  "br_room_id (snd (BattleRoom_Join p t r)) = br_room_id r"
  "br_match_id (snd (BattleRoom_Join p t r)) = br_match_id r"
  "br_phase (snd (BattleRoom_Join p t r)) = kFinished \<longleftrightarrow> br_phase r = kFinished"
  by (auto simp: BattleRoom_Join_def Let_def split: option.splits)

lemma SubmitInput_frame [simp]:
  "br_match_id (snd (BattleRoom_SubmitInput p k r)) = br_match_id r"
  "br_phase (snd (BattleRoom_SubmitInput p k r)) = br_phase r"
  by (auto simp: BattleRoom_SubmitInput_def split: option.splits)

lemma SubmitInput_room_id [simp]: "br_room_id (snd (BattleRoom_SubmitInput p k r)) = br_room_id r"
  by (auto simp: BattleRoom_SubmitInput_def split: option.splits)

lemma SetPresence_frame [simp]:
  "br_room_id (snd (BattleRoom_SetPresence p b t r)) = br_room_id r"
  "br_match_id (snd (BattleRoom_SetPresence p b t r)) = br_match_id r"
  "br_phase (snd (BattleRoom_SetPresence p b t r)) = br_phase r"
  by (auto simp: BattleRoom_SetPresence_def split: option.splits)

lemma MarkResultFailed_frame [simp]:
  "br_room_id (MarkResultFailed t r) = br_room_id r"
  "br_match_id (MarkResultFailed t r) = br_match_id r"
  "br_phase (MarkResultFailed t r) = br_phase r" "Result (MarkResultFailed t r) = Result r"
  by (simp_all add: MarkResultFailed_def Result_def)

lemma MarkResultPersisted_frame [simp]:
  "br_room_id (MarkResultPersisted r) = br_room_id r"
  "br_match_id (MarkResultPersisted r) = br_match_id r"
  "Result (MarkResultPersisted r) = Result r"
  "br_phase (MarkResultPersisted r) = (if br_phase r = kFinishing then kFinished else br_phase r)"
  by (simp_all add: MarkResultPersisted_def Result_def)

lemma tick_frames_frame [simp]:
  "br_room_id (snd (tick_frames n t c r)) = br_room_id r"
  "br_match_id (snd (tick_frames n t c r)) = br_match_id r"
  by (induction n arbitrary: c r) simp_all

lemma tick_frames_not_finished:
  "br_phase r \<noteq> kFinished \<Longrightarrow> br_phase (snd (tick_frames n t c r)) \<noteq> kFinished"
proof (induction n arbitrary: c r)
  case (Suc n)
  show ?case
  proof (cases "br_phase r = kPlaying")
    case True
    then have "br_phase (AdvanceOneFrame t (r\<lparr>br_last_tick_ms := x\<rparr>)) \<noteq> kFinished" for x
      using AdvanceOneFrame_phase [of "r\<lparr>br_last_tick_ms := x\<rparr>" t] by auto
    with Suc.IH True show ?thesis by simp
  qed (use Suc.prems in simp)
qed simp

lemma Tick_frame [simp]:
  "br_room_id (snd (BattleRoom_Tick t r)) = br_room_id r"
  "br_match_id (snd (BattleRoom_Tick t r)) = br_match_id r"
  by (auto simp: BattleRoom_Tick_def ResolveReconnectGrace_def Let_def)

lemma Tick_finished: "br_phase (snd (BattleRoom_Tick t r)) = kFinished \<Longrightarrow> br_phase r = kFinished"
proof (rule ccontr)
  assume a: "br_phase (snd (BattleRoom_Tick t r)) = kFinished" "br_phase r \<noteq> kFinished"
  have "br_phase (snd (tick_frames n t False (r\<lparr>br_last_tick_ms := x\<rparr>))) \<noteq> kFinished"
    "br_phase (snd (tick_frames n t False r)) \<noteq> kFinished" for n x
    using a(2) by (auto intro!: tick_frames_not_finished)
  with a show False
    by (auto simp: BattleRoom_Tick_def ResolveReconnectGrace_def Let_def split: if_splits)
qed

lemma quiet_ops:
  "quiet r (snd (BattleRoom_Join p t r))" "quiet r (snd (BattleRoom_SubmitInput p k r))"
  "quiet r (snd (BattleRoom_SetPresence p b t r))" "quiet r (snd (BattleRoom_Tick t r))"
  "quiet r (MarkResultFailed t r)"
  by (auto simp: quiet_def rgb_inv evolves_Join evolves_SubmitInput evolves_SetPresence evolves_Tick
      evolves_marks dest: Tick_finished)

lemma quiet_Abort: "unfinished (br_phase r) \<Longrightarrow> quiet r (BattleRoom_Abort t r)"
  by (auto simp: quiet_def unfinished_not_ended intro: evolves_Abort room_inv_Abort)

text \<open>\<open>rooms_rel P m m'\<close>: the same rooms, each related by \<open>P\<close>.\<close>

definition rooms_rel :: "(BattleRoom \<Rightarrow> BattleRoom \<Rightarrow> bool) \<Rightarrow> (string, BattleRoom) umap \<Rightarrow>
    (string, BattleRoom) umap \<Rightarrow> bool" where
  "rooms_rel P rs rs' \<longleftrightarrow> keys_distinct rs' \<and> (\<forall>rid. rel_option P (map_of rs rid) (map_of rs' rid))"

lemma rooms_rel_Some':
  "rooms_rel P rs rs' \<Longrightarrow> map_of rs' rid = Some r' \<Longrightarrow> \<exists>r. map_of rs rid = Some r \<and> P r r'"
  by (metis rooms_rel_def option_rel_Some2)

lemma rooms_rel_Some:
  "rooms_rel P rs rs' \<Longrightarrow> map_of rs rid = Some r \<Longrightarrow> \<exists>r'. map_of rs' rid = Some r' \<and> P r r'"
  by (metis rooms_rel_def option_rel_Some1)

lemma rooms_rel_map_values:
  "keys_distinct rs \<Longrightarrow> (\<And>r. P r (f r)) \<Longrightarrow> rooms_rel P rs (map_values f rs)"
  by (auto simp: rooms_rel_def rel_option_iff split: option.splits)

lemma rooms_rel_update:
  assumes "keys_distinct rs" "map_of rs rid = Some r" "P r r'" "\<And>r. P r r"
  shows "rooms_rel P rs (AList.update rid r' rs)"
  using assms by (auto simp: rooms_rel_def update_conv' rel_option_iff keys_distinct_update split: option.splits)

lemma manager_inv_rooms:
  assumes "manager_inv m" "rooms_rel quiet (rm_rooms m) rs'"
  shows "manager_inv (m\<lparr>rm_rooms := rs'\<rparr>)"
proof -
  have i: "index_inv m" "rooms_inv m" using assms(1) by (simp_all add: manager_inv_def)
  note some = rooms_rel_Some' [OF assms(2)] and some' = rooms_rel_Some [OF assms(2)]
  have "index_inv (m\<lparr>rm_rooms := rs'\<rparr>)"
    unfolding index_inv_def
  proof (intro conjI allI impI)
    show "keys_distinct (rm_rooms (m\<lparr>rm_rooms := rs'\<rparr>))" using assms(2) by (simp add: rooms_rel_def)
    show "keys_distinct (rm_match_index (m\<lparr>rm_rooms := rs'\<rparr>))" using index_invD(2) [OF i(1)] by simp
    fix rid r' assume "map_of (rm_rooms (m\<lparr>rm_rooms := rs'\<rparr>)) rid = Some r'"
    with some obtain r where "map_of (rm_rooms m) rid = Some r" "quiet r r'" by auto
    then show "br_room_id r' = rid" "map_of (rm_match_index (m\<lparr>rm_rooms := rs'\<rparr>)) (br_match_id r') = Some rid"
      "\<not> bad_id (br_match_id r')"
      using index_invD(3,4,7) [OF i(1)] by (auto simp: quiet_def)
  next
    fix mid rid assume "map_of (rm_match_index (m\<lparr>rm_rooms := rs'\<rparr>)) mid = Some rid"
    then show "\<exists>r. map_of (rm_rooms (m\<lparr>rm_rooms := rs'\<rparr>)) rid = Some r \<and> br_match_id r = mid"
      using index_invD(5) [OF i(1), of mid rid] some' by (fastforce simp: quiet_def)
  qed (use i(1) in \<open>simp add: index_inv_def\<close>)
  moreover have "rooms_inv (m\<lparr>rm_rooms := rs'\<rparr>)"
    using i(2) by (auto simp: rooms_inv_def quiet_def dest!: some)
  ultimately show ?thesis by (simp add: manager_inv_def)
qed


section \<open>Agreement with the result table\<close>

text \<open>\<open>result_ok\<close>: the table has no row for an unfinished or aborted match, the confirmed row for a
  finished one, and for a match that is being persisted either nothing yet or the right row (a
  write whose reply was lost).\<close>

definition result_ok :: "(string \<Rightarrow> MatchResultRecord option) \<Rightarrow> (MatchResultRecord \<Rightarrow> MatchResultRecord) \<Rightarrow>
    BattleRoom \<Rightarrow> bool" where
  "result_ok stored norm r \<longleftrightarrow>
     (case br_phase r of
        kFinished \<Rightarrow> stored (br_match_id r) = Some (norm (the (Result r)))
      | kFinishing \<Rightarrow> stored (br_match_id r) = None \<or> stored (br_match_id r) = Some (norm (the (Result r)))
      | _ \<Rightarrow> stored (br_match_id r) = None)"

definition linked :: "(string \<Rightarrow> MatchResultRecord option) \<Rightarrow> (MatchResultRecord \<Rightarrow> MatchResultRecord) \<Rightarrow>
    RoomManager \<Rightarrow> bool" where
  "linked stored norm m \<longleftrightarrow> (\<forall>rid r. map_of (rm_rooms m) rid = Some r \<longrightarrow> result_ok stored norm r)"

lemma Result_evolves: "evolves r r' \<Longrightarrow> br_phase r = kFinishing \<or> br_phase r = kFinished \<Longrightarrow> Result r' = Result r"
  by (auto simp: evolves_def Result_def ended_def)

lemma result_ok_quiet:
  assumes "result_ok stored norm r" "quiet r r'" "room_inv r"
  shows "result_ok stored norm r'"
proof -
  have e: "evolves r r'" "br_match_id r' = br_match_id r" "br_phase r' = kFinished \<Longrightarrow> br_phase r = kFinished"
    using assms by (auto simp: quiet_def)
  show ?thesis
  proof (cases "br_phase r = kFinishing \<or> br_phase r = kFinished")
    case True
    from True have "br_phase r' = br_phase r \<or> br_phase r = kFinishing \<and> br_phase r' = kFinished"
      using e(1) by (auto simp: evolves_def ended_def)
    with e(3) have "br_phase r' = br_phase r" by (cases "br_phase r'") auto
    then show ?thesis
      using assms(1) unfolding result_ok_def Result_evolves [OF e(1) True] e(2) by simp
  next
    case False
    then have "stored (br_match_id r) = None"
      using assms(1) by (cases "br_phase r") (simp_all add: result_ok_def)
    then show ?thesis using e(2,3) False by (cases "br_phase r'") (simp_all add: result_ok_def)
  qed
qed

lemma linked_rooms:
  assumes "linked stored norm m" "manager_inv m" "rooms_rel quiet (rm_rooms m) rs'"
  shows "linked stored norm (m\<lparr>rm_rooms := rs'\<rparr>)"
  using assms(1,2) unfolding linked_def manager_inv_def rooms_inv_def
  by (auto dest!: rooms_rel_Some' [OF assms(3)]) (metis result_ok_quiet)

text \<open>The three invariants together; \<open>sound\<close> is what every operation of the service keeps.\<close>

definition sound :: "(string \<Rightarrow> MatchResultRecord option) \<Rightarrow> (MatchResultRecord \<Rightarrow> MatchResultRecord) \<Rightarrow>
    RoomManager \<Rightarrow> bool" where
  "sound stored norm m \<longleftrightarrow> manager_inv m \<and> linked stored norm m"

lemma sound_rooms:
  "sound stored norm m \<Longrightarrow> rooms_rel quiet (rm_rooms m) rs' \<Longrightarrow> sound stored norm (m\<lparr>rm_rooms := rs'\<rparr>)"
  by (auto simp: sound_def manager_inv_rooms linked_rooms)

lemma sound_empty: "sound stored norm empty_manager"
  by (auto simp: sound_def rgb_inv linked_def) (simp add: empty_manager_def)

lemma sound_Reap: "sound stored norm m \<Longrightarrow> sound stored norm (ReapExpiredLocked t m)"
  by (auto simp: sound_def rgb_inv linked_def manager_inv_def Reap_rooms_Some)

lemma sound_update_room:
  assumes "sound stored norm m" "map_of (rm_rooms m) rid = Some r" "quiet r r'"
  shows "sound stored norm (m\<lparr>rm_rooms := AList.update rid r' (rm_rooms m)\<rparr>)"
  using assms by (intro sound_rooms rooms_rel_update) (auto simp: sound_def manager_inv_def index_inv_def)

lemma sound_calls:
  assumes "sound stored norm m"
  shows "sound stored norm (snd (RoomManager_Join rid p t m))"
    "sound stored norm (snd (RoomManager_SubmitInput rid p k m))"
    "sound stored norm (snd (RoomManager_SetPresence rid p b t m))"
  using assms sound_update_room [OF assms]
    quiet_ops(1) [of _ p t] quiet_ops(2) [of _ p k] quiet_ops(3) [of _ p b t]
  by (auto simp: RoomManager_Join_def RoomManager_SubmitInput_def RoomManager_SetPresence_def
      split: option.splits prod.splits) (metis snd_conv)+

lemma index_inv_snapshot_state:
  assumes "index_inv m" "fst ` set st \<subseteq> dom (map_of (rm_match_index m))"
  shows "index_inv (m\<lparr>rm_snapshot_state := st\<rparr>)"
  using assms by (simp add: index_inv_def)

lemma sound_snapshot_state:
  "sound stored norm m \<Longrightarrow> fst ` set st \<subseteq> dom (map_of (rm_match_index m)) \<Longrightarrow>
   sound stored norm (m\<lparr>rm_snapshot_state := st\<rparr>)"
  by (auto simp: sound_def manager_inv_def index_inv_snapshot_state rooms_inv_def linked_def)

lemma sound_counters [simp]:
  "sound stored norm (m\<lparr>rm_snapshot_write_count := a, rm_snapshot_failure_count := b\<rparr>) = sound stored norm m"
  "sound stored norm (m\<lparr>rm_shutting_down := c\<rparr>) = sound stored norm m"
  by (simp_all add: sound_def manager_inv_def index_inv_def rooms_inv_def linked_def)

section \<open>Creating\<close>

lemma result_ok_new [simp]: "stored mid = None \<Longrightarrow> result_ok stored norm (BattleRoom_new rid mid ps t)"
  by (simp add: result_ok_def BattleRoom_new_def)

lemma BattleRoom_new_ids [simp]:
  "br_room_id (BattleRoom_new rid mid ps t) = rid" "br_match_id (BattleRoom_new rid mid ps t) = mid"
  "br_phase (BattleRoom_new rid mid ps t) = kCreated"
  by (simp_all add: BattleRoom_new_def)

lemma index_lookup:
  assumes "index_inv m"
  shows "(case map_of (rm_match_index m) mid of None \<Rightarrow> None | Some rid \<Rightarrow> map_of (rm_rooms m) rid) = Some r
    \<longleftrightarrow> (\<exists>rid. map_of (rm_rooms m) rid = Some r \<and> br_match_id r = mid)"
  using index_invD(4,5) [OF assms] by (fastforce split: option.splits)

lemma index_inv_add_room:
  assumes "index_inv m" "map_of (rm_match_index m) (br_match_id r) = None"
    "map_of (rm_rooms m) (br_room_id r) = None" "\<not> bad_id (br_match_id r)"
  shows "index_inv (m\<lparr>rm_rooms := emplace (br_room_id r) r (rm_rooms m),
    rm_match_index := emplace (br_match_id r) (br_room_id r) (rm_match_index m)\<rparr>)"
  using assms unfolding index_inv_def
  by (auto simp: map_of_emplace keys_distinct_emplace dom_def) (metis option.distinct(1))+

lemma sound_add_room:
  assumes "sound stored norm m" "map_of (rm_match_index m) (br_match_id r) = None"
    "map_of (rm_rooms m) (br_room_id r) = None" "room_inv r" "result_ok stored norm r"
    "\<not> bad_id (br_match_id r)"
  shows "sound stored norm (m\<lparr>rm_rooms := emplace (br_room_id r) r (rm_rooms m),
    rm_match_index := emplace (br_match_id r) (br_room_id r) (rm_match_index m)\<rparr>)"
proof -
  have "index_inv (m\<lparr>rm_rooms := emplace (br_room_id r) r (rm_rooms m),
      rm_match_index := emplace (br_match_id r) (br_room_id r) (rm_match_index m)\<rparr>)"
    using assms index_inv_add_room by (simp add: sound_def manager_inv_def)
  then show ?thesis
    using assms by (auto simp: sound_def manager_inv_def rooms_inv_def linked_def map_of_emplace)
qed

text \<open>Under the invariant the branch that repairs a dangling index entry is never taken.\<close>

lemma Create_eq:
  assumes "index_inv m"
  shows "RoomManager_Create mid ps t new_id m =
    (if bad_id mid \<or> ps = [] \<or> list_ex bad_id ps then ((CreateInvalidArgument, None), m)
     else case map_of (rm_match_index m) mid of
       Some rid \<Rightarrow> ((CreateOk, Some (rid, Snapshot (the (map_of (rm_rooms m) rid)))), m)
     | None \<Rightarrow> if rm_shutting_down m then ((CreateShuttingDown, None), m)
         else if new_id = [] then ((CreateInternal, None), m)
         else ((CreateOk, Some (new_id, Snapshot (BattleRoom_new new_id mid ps t))),
           m\<lparr>rm_rooms := emplace new_id (BattleRoom_new new_id mid ps t) (rm_rooms m),
             rm_match_index := emplace mid new_id (rm_match_index m)\<rparr>))"
proof (cases "map_of (rm_match_index m) mid")
  case None
  then show ?thesis by (simp add: RoomManager_Create_def Let_def)
next
  case (Some rid)
  from index_invD(5) [OF assms Some] obtain r where r: "map_of (rm_rooms m) rid = Some r" by blast
  with index_invD(3) [OF assms] have "br_room_id r = rid" by blast
  with Some r show ?thesis by (simp add: RoomManager_Create_def Let_def)
qed

lemma sound_Create:
  assumes "sound stored norm m" "map_of (rm_rooms m) new_id = None"
    "stored mid = None \<or> map_of (rm_match_index m) mid \<noteq> None"
  shows "sound stored norm (snd (RoomManager_Create mid ps t new_id m))"
proof -
  have i: "index_inv m" using assms(1) by (simp add: sound_def manager_inv_def)
  show ?thesis
    using sound_add_room [OF assms(1), of "BattleRoom_new new_id mid ps t"] assms
    by (auto simp: Create_eq [OF i] room_inv_new split: option.splits)
qed


section \<open>The tick\<close>

lemma keys_AList_update: "fst ` set (AList.update k v m) = insert k (fst ` set m)"
  by (simp add: dom_update)

lemma keys_emplace: "fst ` set (emplace k v m) = insert k (fst ` set m)"
proof (cases "map_of m k")
  case (Some x)
  then have "k \<in> fst ` set m" by (force dest: map_of_SomeD)
  with Some show ?thesis by (simp add: emplace_def insert_absorb)
qed (simp add: emplace_fresh)

lemma collect_keys:
  "fst ` set (fst (fold (collect_snapshot t) es (st, sn))) =
   fst ` set st \<union> (br_match_id \<circ> snd) ` set es"
proof (induction es arbitrary: st sn)
  case (Cons e es)
  obtain st1 sn1 where c: "collect_snapshot t e (st, sn) = (st1, sn1)"
    by (cases "collect_snapshot t e (st, sn)")
  then have "fst ` set st1 = insert (br_match_id (snd e)) (fst ` set st)"
    unfolding collect_snapshot_def Let_def
    by (simp add: keys_AList_update keys_emplace split: if_splits) (metis insert_absorb2 keys_AList_update keys_emplace)+
  then show ?case using Cons.IH [of st1 sn1] by (auto simp: c)
qed simp

definition ticked :: "ms \<Rightarrow> RoomManager \<Rightarrow> (string, BattleRoom) umap" where
  "ticked t m = map_values (\<lambda>r. snd (BattleRoom_Tick t r)) (rm_rooms m)"

lemma rooms_rel_ticked: "keys_distinct (rm_rooms m) \<Longrightarrow> rooms_rel quiet (rm_rooms m) (ticked t m)"
  unfolding ticked_def by (rule rooms_rel_map_values) (auto intro: quiet_ops)

lemma tick_locked_eq:
  "tick_locked b t m =
    (let cs = if b then fold (collect_snapshot t) (ticked t m) (rm_snapshot_state m, [])
              else (rm_snapshot_state m, [])
     in ((map fst (filter (\<lambda>(rid, r). br_phase r = kFinishing \<and> ShouldRetryPersist t r) (ticked t m)), snd cs),
         ReapExpiredLocked t (m\<lparr>rm_rooms := ticked t m, rm_snapshot_state := fst cs\<rparr>)))"
  by (simp add: tick_locked_def ticked_def Let_def split: prod.splits)

lemma sound_ticked:
  assumes "sound stored norm m"
  shows "sound stored norm (m\<lparr>rm_rooms := ticked t m, rm_snapshot_state :=
    fst (if b then fold (collect_snapshot t) (ticked t m) (rm_snapshot_state m, [])
         else (rm_snapshot_state m, []))\<rparr>)"
proof -
  have "keys_distinct (rm_rooms m)" using assms by (simp add: sound_def manager_inv_def index_inv_def)
  then have s: "sound stored norm (m\<lparr>rm_rooms := ticked t m\<rparr>)"
    by (intro sound_rooms assms rooms_rel_ticked)
  let ?m = "m\<lparr>rm_rooms := ticked t m\<rparr>"
  have i: "index_inv ?m" using s by (simp add: sound_def manager_inv_def)
  have "(br_match_id \<circ> snd) ` set (ticked t m) \<subseteq> dom (map_of (rm_match_index m))"
    using index_invD(1,4) [OF i] by (auto simp: map_of_iff_in_set [symmetric] dom_def)
  moreover have "fst ` set (rm_snapshot_state m) \<subseteq> dom (map_of (rm_match_index m))"
    using i by (simp add: index_inv_def)
  ultimately have "sound stored norm (?m\<lparr>rm_snapshot_state :=
      fst (if b then fold (collect_snapshot t) (ticked t m) (rm_snapshot_state m, [])
           else (rm_snapshot_state m, []))\<rparr>)"
    by (intro sound_snapshot_state s) (simp add: collect_keys)
  then show ?thesis by simp
qed

lemma sound_tick_locked:
  "sound stored norm m \<Longrightarrow> sound stored norm (snd (tick_locked b t m))"
  by (simp add: tick_locked_eq Let_def sound_Reap sound_ticked del: fst_conv split del: if_split)

lemma Flush_frame [simp]:
  "rm_rooms (fst (FlushSnapshots w recs s)) = rm_rooms (fst s)"
  "rm_match_index (fst (FlushSnapshots w recs s)) = rm_match_index (fst s)"
  "rm_snapshot_state (fst (FlushSnapshots w recs s)) = rm_snapshot_state (fst s)"
  "rm_shutting_down (fst (FlushSnapshots w recs s)) = rm_shutting_down (fst s)"
  by (auto simp: FlushSnapshots_def split: option.splits prod.splits)

lemma sound_Flush [simp]:
  "sound stored norm (fst (FlushSnapshots w recs s)) = sound stored norm (fst s)"
  by (auto simp: FlushSnapshots_def split: option.splits prod.splits)

section \<open>Aborting\<close>

definition abort_room :: "ms \<Rightarrow> BattleRoom \<Rightarrow> BattleRoom" where
  "abort_room t r = (if unfinished (br_phase r) then BattleRoom_Abort t r else r)"

definition open_rooms :: "(string, BattleRoom) umap \<Rightarrow> BattleRoom list" where
  "open_rooms es = filter (\<lambda>r. unfinished (br_phase r)) (map snd es)"

lemma update_append: "k \<notin> fst ` set pre \<Longrightarrow> AList.update k v (pre @ m) = pre @ AList.update k v m"
  by (induction pre) auto

lemma abort_step_open:
  "unfinished (br_phase r) \<Longrightarrow> abort_step t (k, r) (m, recs, n) =
    (m\<lparr>rm_snapshot_state := AList.update (br_match_id r) (written_state t kAborted) (rm_snapshot_state m),
       rm_rooms := AList.update k (BattleRoom_Abort t r) (rm_rooms m)\<rparr>,
     recs @ [MakeSnapshotRecord (BattleRoom_Abort t r) t], Suc n)"
  by (auto simp: abort_step_def unfinished_def Let_def)

lemma abort_step_done: "\<not> unfinished (br_phase r) \<Longrightarrow> abort_step t (k, r) s = s"
  by (cases s) (simp add: abort_step_def unfinished_def)

lemma abort_fold:
  "keys_distinct (pre @ es) \<Longrightarrow>
   fold (abort_step t) es (m\<lparr>rm_rooms := pre @ es\<rparr>, recs, n) =
     (m\<lparr>rm_rooms := pre @ map_values (abort_room t) es,
        rm_snapshot_state := fold (\<lambda>r. AList.update (br_match_id r) (written_state t kAborted))
          (open_rooms es) (rm_snapshot_state m)\<rparr>,
      recs @ map (\<lambda>r. MakeSnapshotRecord (BattleRoom_Abort t r) t) (open_rooms es),
      n + length (open_rooms es))"
proof (induction es arbitrary: pre m recs n)
  case (Cons e es)
  obtain k r where e [simp]: "e = (k, r)" by (cases e)
  have k: "k \<notin> fst ` set pre" using Cons.prems by (auto simp: keys_distinct_def)
  have d: "keys_distinct ((pre @ [(k, abort_room t r)]) @ es)"
    using Cons.prems by (auto simp: keys_distinct_def)
  show ?case
  proof (cases "unfinished (br_phase r)")
    case True
    then show ?thesis
      using Cons.IH [OF d, of "m\<lparr>rm_snapshot_state :=
          AList.update (br_match_id r) (written_state t kAborted) (rm_snapshot_state m)\<rparr>"] k
      by (simp add: abort_step_open update_append abort_room_def open_rooms_def map_values_def)
  next
    case False
    then show ?thesis
      using Cons.IH [OF d, of m]
      by (simp add: abort_step_done abort_room_def open_rooms_def map_values_def)
  qed
qed (simp add: open_rooms_def map_values_def)

lemma Abort_games_eq:
  assumes "keys_distinct (rm_rooms m)"
  shows "AbortUnfinishedGames sw t (m, db) =
    (length (open_rooms (rm_rooms m)),
     FlushSnapshots sw (map (\<lambda>r. MakeSnapshotRecord (BattleRoom_Abort t r) t) (open_rooms (rm_rooms m)))
       (m\<lparr>rm_rooms := map_values (abort_room t) (rm_rooms m),
          rm_snapshot_state := fold (\<lambda>r. AList.update (br_match_id r) (written_state t kAborted))
            (open_rooms (rm_rooms m)) (rm_snapshot_state m)\<rparr>, db))"
proof -
  have m: "m\<lparr>rm_rooms := [] @ rm_rooms m\<rparr> = m" by simp
  show ?thesis
    using abort_fold [of "[]" "rm_rooms m" t m "[]" 0] assms
    unfolding AbortUnfinishedGames_def m by simp
qed

lemma quiet_abort_room: "quiet r (abort_room t r)"
  by (simp add: abort_room_def quiet_Abort)

lemma fold_update_keys:
  "fst ` set (fold (\<lambda>r. AList.update (f r) (g r)) rs st) = f ` set rs \<union> fst ` set st"
  by (induction rs arbitrary: st) (auto simp: keys_AList_update)

lemma sound_AbortUnfinishedGames:
  assumes "sound stored norm m"
  shows "sound stored norm (fst (snd (AbortUnfinishedGames sw t (m, db))))"
proof -
  have i: "index_inv m" using assms by (simp add: sound_def manager_inv_def)
  let ?m = "m\<lparr>rm_rooms := map_values (abort_room t) (rm_rooms m)\<rparr>"
  have s: "sound stored norm ?m"
    using index_invD(1) [OF i] by (intro sound_rooms assms rooms_rel_map_values quiet_abort_room)
  have "br_match_id ` set (open_rooms (rm_rooms m)) \<subseteq> dom (map_of (rm_match_index m))"
    using index_invD(1,4) [OF i] by (auto simp: open_rooms_def map_of_iff_in_set [symmetric] dom_def)
  moreover have "fst ` set (rm_snapshot_state m) \<subseteq> dom (map_of (rm_match_index m))"
    using i by (simp add: index_inv_def)
  ultimately have "sound stored norm (?m\<lparr>rm_snapshot_state := fold (\<lambda>r. AList.update (br_match_id r)
      (written_state t kAborted)) (open_rooms (rm_rooms m)) (rm_snapshot_state m)\<rparr>)"
    by (intro sound_snapshot_state s) (simp add: fold_update_keys)
  then show ?thesis by (simp add: Abort_games_eq [OF index_invD(1) [OF i]])
qed

section \<open>Persisting a result\<close>

lemma result_ok_other:
  "result_ok stored norm r \<Longrightarrow> br_match_id r \<noteq> mid \<Longrightarrow> result_ok (stored(mid \<mapsto> x)) norm r"
  unfolding result_ok_def by (simp cong: RoomPhase.case_cong)

context room_storage
begin

lemma save_all_stored: "stored (snd (snd (save_all sw recs (a, b, db)))) = stored db"
proof (induction recs arbitrary: a b db)
  case (Cons rec recs)
  obtain st db' where s: "sw_Save sw rec db = (st, db')" by (cases "sw_Save sw rec db")
  show ?case using save_stored [OF s] Cons.IH by (cases st) (simp_all add: s)
qed simp

lemma Flush_stored: "stored (snd (FlushSnapshots (Some sw) recs s)) = stored (snd s)"
  using save_all_stored [of recs 0 0 "snd s"]
  by (auto simp: FlushSnapshots_def split: prod.splits)

lemma sound_persist_one:
  assumes s: "sound (stored db) norm m"
    and p: "persist_one (Some w) t rid (m, db) = (m', db')"
  shows "sound (stored db') norm m' \<and> (\<forall>mid x. stored db mid = Some x \<longrightarrow> stored db' mid = Some x)"
proof (cases "persist_take rid m")
  case None
  then show ?thesis using p s by (simp add: persist_one_def)
next
  case (Some rec)
  then obtain r where r: "map_of (rm_rooms m) rid = Some r" "br_phase r = kFinishing" "Result r = Some rec"
    by (auto simp: persist_take_def split: option.splits if_splits)
  obtain st where st: "mw_Write w rec db = (st, db')"
    using p Some by (auto simp: persist_one_def split: prod.splits)
  with p Some have m': "m' = persist_mark rid t st m" by (simp add: persist_one_def)
  have mid: "mr_match_id rec = br_match_id r" using r(2,3) by (auto simp: Result_def)
  have i: "index_inv m" "rooms_inv m" and l: "linked (stored db) norm m"
    using s by (simp_all add: sound_def manager_inv_def)
  have ok: "result_ok (stored db) norm r" using l r(1) by (simp add: linked_def)
  have other: "br_match_id r2 \<noteq> br_match_id r" if "map_of (rm_rooms m) rid2 = Some r2" "rid2 \<noteq> rid" for rid2 r2
    using index_invD(4) [OF i(1) that(1)] index_invD(4) [OF i(1) r(1)] that(2) by auto
  have eff: "stored db' = stored db \<or> stored db (br_match_id r) = None \<and>
      stored db' = (stored db)(br_match_id r \<mapsto> norm rec)"
    using write_effect [OF st] by (simp add: mid)
  have ok': "result_ok (stored db') norm r"
    using eff ok r(2,3) by (auto simp: result_ok_def)
  have l': "linked (stored db') norm m"
    unfolding linked_def
  proof (intro allI impI)
    fix rid2 r2 assume a: "map_of (rm_rooms m) rid2 = Some r2"
    show "result_ok (stored db') norm r2"
      using eff a ok' r(1) l other [OF a] by (cases "rid2 = rid") (auto simp: linked_def intro!: result_ok_other)
  qed
  have keep: "\<forall>mid x. stored db mid = Some x \<longrightarrow> stored db' mid = Some x" using eff by auto
  have snd': "sound (stored db') norm m" using s l' by (simp add: sound_def)
  show ?thesis
  proof (cases "st = WriteOk")
    case False
    have "sound (stored db') norm (m\<lparr>rm_rooms := AList.update rid (MarkResultFailed t r) (rm_rooms m)\<rparr>)"
      by (rule sound_update_room [OF snd' r(1) quiet_ops(5)])
    then show ?thesis using False keep by (simp add: m' persist_mark_def r(1))
  next
    case True
    define P where "P = (\<lambda>q q'. q' = q \<or> br_room_id q' = br_room_id q \<and> br_match_id q' = br_match_id q)"
    have st': "stored db' (br_match_id r) = Some (norm rec)"
      using write_ok [of rec db db'] st True ok' r(2,3) by (auto simp: mid result_ok_def)
    have new: "map_of (rm_rooms m') rid2 = (if rid2 = rid then Some (MarkResultPersisted r) else map_of (rm_rooms m) rid2)" for rid2
      by (simp add: m' persist_mark_def r(1) True update_conv')
    have fr: "rm_match_index m' = rm_match_index m" "rm_snapshot_state m' = rm_snapshot_state m"
      "keys_distinct (rm_rooms m')"
      using index_invD(1) [OF i(1)] by (simp_all add: m' persist_mark_def r(1) True keys_distinct_update)
    have "index_inv m'"
      unfolding index_inv_def new fr
    proof (intro conjI allI impI)
      fix rid2 r2 assume "(if rid2 = rid then Some (MarkResultPersisted r) else map_of (rm_rooms m) rid2) = Some r2"
      then show "br_room_id r2 = rid2" "map_of (rm_match_index m) (br_match_id r2) = Some rid2"
        "\<not> bad_id (br_match_id r2)"
        using index_invD(3,4,7) [OF i(1)] r(1) by (auto split: if_splits)
    next
      fix mid rid2 assume "map_of (rm_match_index m) mid = Some rid2"
      from index_invD(5) [OF i(1) this] r(1)
      show "\<exists>r2. (if rid2 = rid then Some (MarkResultPersisted r) else map_of (rm_rooms m) rid2) = Some r2 \<and>
          br_match_id r2 = mid" by auto
    qed (use i(1) fr(3) in \<open>simp_all add: index_inv_def\<close>)
    moreover have "rooms_inv m'"
      using i(2) r(1) by (auto simp: rooms_inv_def new room_inv_MarkResultPersisted)
    moreover have "result_ok (stored db') norm (MarkResultPersisted r)"
      using st' r(2,3) by (simp add: result_ok_def)
    then have "linked (stored db') norm m'"
      using l' by (simp add: linked_def new)
    ultimately show ?thesis using keep by (simp add: sound_def manager_inv_def)
  qed
qed

lemma sound_persist_fold:
  assumes "sound (stored (snd s)) norm (fst s)"
  shows "sound (stored (snd (fold (persist_one (Some w) t) ids s))) norm (fst (fold (persist_one (Some w) t) ids s)) \<and>
    (\<forall>mid x. stored (snd s) mid = Some x \<longrightarrow> stored (snd (fold (persist_one (Some w) t) ids s)) mid = Some x)"
  using assms
proof (induction ids arbitrary: s)
  case (Cons rid ids)
  obtain m' db' where p: "persist_one (Some w) t rid s = (m', db')" by (cases "persist_one (Some w) t rid s")
  have 1: "sound (stored db') norm m'" "\<forall>mid x. stored (snd s) mid = Some x \<longrightarrow> stored db' mid = Some x"
    using sound_persist_one [of "snd s" "fst s" t rid m' db'] Cons.prems p by simp_all
  from Cons.IH [of "(m', db')"] 1 show ?case by (simp add: p)
qed simp

lemma sound_Tick:
  assumes "sound (stored db) norm m" and "RoomManager_Tick (Some w) (Some sw) t (m, db) = (m', db')"
  shows "sound (stored db') norm m' \<and> (\<forall>mid x. stored db mid = Some x \<longrightarrow> stored db' mid = Some x)"
proof -
  obtain ids recs m1 where tl: "tick_locked True t m = ((ids, recs), m1)"
    by (metis prod.exhaust)
  have "sound (stored db) norm m1" using sound_tick_locked [OF assms(1), of True t] tl by simp
  then have "sound (stored (snd (FlushSnapshots (Some sw) recs (m1, db)))) norm
      (fst (FlushSnapshots (Some sw) recs (m1, db)))"
    by (simp add: Flush_stored)
  from sound_persist_fold [OF this, of t ids] assms(2) show ?thesis
    by (simp add: RoomManager_Tick_def tl Flush_stored)
qed

lemma GetResult_db:
  assumes "RoomManager_GetResult (Some w) mid t (m, db) = (res, m', db')"
  shows "stored db' = stored db \<and> (m' = m \<or> m' = ReapExpiredLocked t m)"
  using assms read_effect
  by (auto simp: RoomManager_GetResult_def Let_def split: if_splits option.splits prod.splits ReadStatus.splits)

end

end
