(* ===== verification/Room_Manager_Props.thy ===== *)
theory Room_Manager_Props
  imports Room_Manager_Inv
begin

text \<open>
  What the registry promises: one room per match and idempotent creation, durable results before
  they are reported, persistence once the database is back, draining, complete replays for a
  reconnecting client, and what a restart preserves.
\<close>

section \<open>The operations as a step relation\<close>

text \<open>
  The steps of the service. \<open>create\<close> has the two facts about identifiers the service relies on: the
  24-character room token is not in use, and the match service never creates a match whose result
  is already in the table.
\<close>

inductive manager_step ::
  "'db MatchResultWriter \<Rightarrow> 'db RoomSnapshotWriter \<Rightarrow> ('db \<Rightarrow> string \<Rightarrow> MatchResultRecord option) \<Rightarrow>
   RoomManager \<times> 'db \<Rightarrow> RoomManager \<times> 'db \<Rightarrow> bool"
  for w sw stored where
  create: "map_of (rm_rooms m) new_id = None \<Longrightarrow>
    stored db mid = None \<or> map_of (rm_match_index m) mid \<noteq> None \<Longrightarrow>
    manager_step w sw stored (m, db) (snd (RoomManager_Create mid ps t new_id m), db)"
| join: "manager_step w sw stored (m, db) (snd (RoomManager_Join rid p t m), db)"
| submit: "manager_step w sw stored (m, db) (snd (RoomManager_SubmitInput rid p k m), db)"
| presence: "manager_step w sw stored (m, db) (snd (RoomManager_SetPresence rid p b t m), db)"
| get_state: "manager_step w sw stored (m, db) (snd (RoomManager_GetState rid t m), db)"
| get_result: "RoomManager_GetResult (Some w) mid t (m, db) = (res, s') \<Longrightarrow>
    manager_step w sw stored (m, db) s'"
| get_snapshots: "manager_step w sw stored (m, db) (snd (RoomManager_GetSnapshotsSince rid f t m), db)"
| tick: "RoomManager_Tick (Some w) (Some sw) t (m, db) = s' \<Longrightarrow> manager_step w sw stored (m, db) s'"
| shutdown: "manager_step w sw stored (m, db) (BeginShutdown m, db)"
| abort: "AbortUnfinishedGames (Some sw) t (m, db) = (n, s') \<Longrightarrow> manager_step w sw stored (m, db) s'"

lemma sound_queries:
  "sound stored norm m \<Longrightarrow> sound stored norm (snd (RoomManager_GetState rid t m))"
  "sound stored norm m \<Longrightarrow> sound stored norm (snd (RoomManager_GetSnapshotsSince rid f t m))"
  by (auto simp: RoomManager_GetState_def RoomManager_GetSnapshotsSince_def Let_def sound_Reap
      split: option.splits)

context room_storage
begin

lemma Flush_storedD: "FlushSnapshots (Some sw) recs s = (m', db') \<Longrightarrow> stored db' = stored (snd s)"
  using Flush_stored [of recs s] by simp

lemma manager_step_sound:
  assumes "manager_step w sw stored (m, db) (m', db')" "sound (stored db) norm m"
  shows "sound (stored db') norm m' \<and> (\<forall>mid x. stored db mid = Some x \<longrightarrow> stored db' mid = Some x)"
  using assms(1)
proof (cases rule: manager_step.cases)
  case (get_result mid t res)
  then have "stored db' = stored db" "m' = m \<or> m' = ReapExpiredLocked t m"
    using GetResult_db by blast+
  then show ?thesis using assms(2) by (auto simp: sound_Reap)
next
  case (tick t)
  then show ?thesis using sound_Tick [OF assms(2)] by blast
next
  case (abort t n)
  have i: "keys_distinct (rm_rooms m)" using assms(2) by (simp add: sound_def manager_inv_def index_inv_def)
  have "stored db' = stored db" using abort by (auto simp: Abort_games_eq [OF i] dest: Flush_storedD)
  moreover have "sound (stored db) norm m'"
    using sound_AbortUnfinishedGames [OF assms(2), of "Some sw" t db] abort by simp
  ultimately show ?thesis by simp
qed (use assms(2) in \<open>auto simp: sound_Create sound_calls sound_queries BeginShutdown_def\<close>)

lemma manager_steps_sound:
  assumes "(manager_step w sw stored)\<^sup>*\<^sup>* (m, db) (m', db')" "sound (stored db) norm m"
  shows "sound (stored db') norm m' \<and> (\<forall>mid x. stored db mid = Some x \<longrightarrow> stored db' mid = Some x)"
  using assms(1)
proof (induction rule: rtranclp_induct2)
  case (step m1 db1 m2 db2)
  from manager_step_sound [OF step.hyps(2)] step.IH show ?case by auto
qed (use assms(2) in simp)

end

section \<open>Invariants of the running service\<close>



text \<open>A run used by the examples: one match is created, both players join, and the first frames
  are simulated.\<close>

definition ts_of :: "ms \<Rightarrow> int" where "ts_of t = t div 1000"

definition demo_manager :: RoomManager where
  "demo_manager = snd (RoomManager_Create ''m-1'' [''alice'', ''bob''] 800 ''r-1'' empty_manager)"

lemma demo_fields:
  "rm_rooms demo_manager = [(''r-1'', BattleRoom_new ''r-1'' ''m-1'' [''alice'', ''bob''] 800)]"
  "rm_match_index demo_manager = [(''m-1'', ''r-1'')]" "rm_shutting_down demo_manager = False"
  "rm_snapshot_state demo_manager = []"
  by (simp_all add: demo_manager_def RoomManager_Create_def empty_manager_def emplace_def bad_id_def room_consts Let_def)

lemma demo_reachable:
  "(manager_step (mysql_writer to_ts) (mysql_snapshot_writer to_ts) mysql_stored)\<^sup>*\<^sup>*
     (empty_manager, empty_db fs) (demo_manager, empty_db fs)"
  unfolding demo_manager_def
  by (intro r_into_rtranclp manager_step.create) (simp_all add: empty_manager_def mysql_stored_def empty_db_def)

lemma manager_inv_demo: "manager_inv demo_manager"
proof -
  have "sound (mysql_stored (empty_db [])) (mysql_norm ts_of) demo_manager"
    using mysql.manager_steps_sound [OF demo_reachable sound_empty] by blast
  then show ?thesis by (simp add: sound_def)
qed


section \<open>Creation\<close>

lemma BeginShutdown_frame [simp]:
  "rm_rooms (BeginShutdown m) = rm_rooms m" "rm_match_index (BeginShutdown m) = rm_match_index m"
  "rm_shutting_down (BeginShutdown m)"
  by (simp_all add: BeginShutdown_def)

text \<open>Creating a room is idempotent per match. Once a creation succeeded, every later creation
  for the same match (a retry with another clock, another fresh room id, another player list, even
  after draining began) returns the same room id, adds no room and changes nothing.\<close>

lemma create_is_idempotent:
  assumes "index_inv m" and "map_of (rm_rooms m) new_id = None"
    and "RoomManager_Create mid ps t new_id m = ((CreateOk, Some (rid, snap)), m')"
    and "qs \<noteq> []" and "list_all (\<lambda>p. \<not> bad_id p) qs"
  shows "RoomManager_Create mid qs u new_id2 m' =
      ((CreateOk, Some (rid, Snapshot (the (map_of (rm_rooms m') rid)))), m') \<and>
    RoomManager_Create mid qs u new_id2 (BeginShutdown m') =
      ((CreateOk, Some (rid, Snapshot (the (map_of (rm_rooms m') rid)))), BeginShutdown m') \<and>
    map_of (rm_match_index m') mid = Some rid \<and> rid \<in> dom (map_of (rm_rooms m'))"
proof -
  have mid: "\<not> bad_id mid" using assms(3) by (auto simp: RoomManager_Create_def split: if_splits)
  then have i': "index_inv m'"
    using assms(1,3) index_inv_add_room [OF assms(1), of "BattleRoom_new new_id mid ps t"] assms(2)
    by (auto simp: Create_eq [OF assms(1)] split: if_splits option.splits)
  have i2: "index_inv (BeginShutdown m')" using i' by (simp add: BeginShutdown_def index_inv_def)
  have idx: "map_of (rm_match_index m') mid = Some rid"
    using assms(3) by (auto simp: Create_eq [OF assms(1)] map_of_emplace split: if_splits option.splits)
  have qs: "\<not> list_ex bad_id qs" using assms(5) by (simp add: list_ex_iff list_all_iff)
  have "rid \<in> dom (map_of (rm_rooms m'))" using index_invD(5) [OF i' idx] by blast
  then show ?thesis
    using idx mid qs assms(4) by (simp add: Create_eq [OF i'] Create_eq [OF i2])
qed

section \<open>Results\<close>

text \<open>\<open>live m t mid r\<close>: \<open>r\<close> is the room of the match, and not yet due for reclamation at \<open>t\<close>.\<close>

definition live :: "RoomManager \<Rightarrow> ms \<Rightarrow> string \<Rightarrow> BattleRoom \<Rightarrow> bool" where
  "live m t mid r \<longleftrightarrow>
     map_of (rm_rooms m) (br_room_id r) = Some r \<and> br_match_id r = mid \<and> \<not> IsExpired t r"

lemma reaped_lookup:
  assumes "index_inv m"
  shows "(case map_of (rm_match_index (ReapExpiredLocked t m)) mid of None \<Rightarrow> None
      | Some rid \<Rightarrow> map_of (rm_rooms (ReapExpiredLocked t m)) rid) = Some r \<longleftrightarrow> live m t mid r"
  unfolding index_lookup [OF index_inv_Reap [OF assms]] Reap_rooms_Some [OF assms] live_def
  using index_invD(3) [OF assms] by blast

context room_storage
begin

lemma result_queries:
  assumes "(manager_step w sw stored)\<^sup>*\<^sup>*
    (empty_manager, db0) (m, db)"
    and "RoomManager_GetResult (Some w) mid t (m, db) = ((outcome, rec, snap), s')"
    and "\<not> bad_id mid"
  shows "(outcome = ResultOk \<longrightarrow> rec = stored db mid \<and> rec \<noteq> None \<and>
      (\<forall>r. live m t mid r \<longrightarrow> br_phase r = kFinished \<and> rec = Some (norm (the (Result r))))) \<and>
    (outcome = ResultPending \<longleftrightarrow> (\<exists>r. live m t mid r \<and> br_phase r = kFinishing)) \<and>
    (\<forall>r. live m t mid r \<longrightarrow> br_phase r \<notin> {kFinishing, kFinished} \<longrightarrow>
      outcome = ResultNotFound \<and> rec = None) \<and>
    (\<forall>r. live m t mid r \<longrightarrow> snap = Some (Snapshot r))"
proof -
  have s: "sound (stored db) norm m"
    using manager_steps_sound [OF assms(1) sound_empty] by blast
  then have i: "index_inv m" by (simp add: sound_def manager_inv_def)
  define target where "target = (case map_of (rm_match_index (ReapExpiredLocked t m)) mid of None \<Rightarrow> None
      | Some rid \<Rightarrow> map_of (rm_rooms (ReapExpiredLocked t m)) rid)"
  have tgt: "live m t mid r \<longleftrightarrow> target = Some r" for r
    unfolding target_def reaped_lookup [OF i] ..
  have fin: "live m t mid r \<Longrightarrow> br_phase r = kFinished \<Longrightarrow>
      stored db mid = Some (norm (the (Result r)))" for r
    using s unfolding live_def sound_def linked_def result_ok_def by fastforce
  note eq = assms(2) [unfolded RoomManager_GetResult_def prod.case Let_def target_def [symmetric]]
  have sn: "\<forall>r. live m t mid r \<longrightarrow> snap = Some (Snapshot r)"
    using eq assms(3) by (auto simp: tgt split: if_splits option.splits prod.splits ReadStatus.splits)
  have "(outcome = ResultOk \<longrightarrow> rec = stored db mid \<and> rec \<noteq> None \<and>
      (\<forall>r. live m t mid r \<longrightarrow> br_phase r = kFinished \<and> rec = Some (norm (the (Result r))))) \<and>
    (outcome = ResultPending \<longleftrightarrow> (\<exists>r. live m t mid r \<and> br_phase r = kFinishing)) \<and>
    (\<forall>r. live m t mid r \<longrightarrow> br_phase r \<notin> {kFinishing, kFinished} \<longrightarrow>
      outcome = ResultNotFound \<and> rec = None)"
  proof (cases "case target of None \<Rightarrow> True | Some r \<Rightarrow> br_phase r = kFinished")
    case True
    then have ph: "live m t mid r \<Longrightarrow> br_phase r = kFinished" for r by (auto simp: tgt)
    obtain st x db' where r: "mw_Read w mid db = ((st, x), db')" by (metis prod.exhaust)
    have out: "(outcome, rec) = (case st of ReadOk \<Rightarrow> (ResultOk, x) | ReadNotFound \<Rightarrow> (ResultNotFound, None)
        | ReadUnavailable \<Rightarrow> (ResultUnavailable, None))"
      using eq True assms(3) r by (cases target) (auto split: ReadStatus.splits)
    have "outcome \<noteq> ResultPending" "outcome = ResultOk \<Longrightarrow> st = ReadOk \<and> rec = x"
      using out by (cases st; simp)+
    moreover have "st = ReadOk \<Longrightarrow> x = stored db mid \<and> x \<noteq> None"
      using read_ok [of mid db x db'] r by blast
    ultimately show ?thesis using ph fin by fastforce
  next
    case False
    then obtain r where t: "target = Some r" "br_phase r \<noteq> kFinished" by (cases target) auto
    then show ?thesis using eq assms(3) by (auto simp: tgt split: if_splits)
  qed
  with sn show ?thesis by blast
qed

end

lemma reported_results:
  assumes "(manager_step (mysql_writer to_ts) (mysql_snapshot_writer to_ts) mysql_stored)\<^sup>*\<^sup>*
    (empty_manager, db0) (m, db)"
    and "RoomManager_GetResult (Some (mysql_writer to_ts)) mid t (m, db) = ((outcome, rec, snap), s')"
    and "\<not> bad_id mid"
  shows "(outcome = ResultOk \<longrightarrow> rec = mysql_stored db mid \<and> rec \<noteq> None \<and>
      (\<forall>r. live m t mid r \<longrightarrow> br_phase r = kFinished \<and> rec = Some (mysql_norm to_ts (the (Result r))))) \<and>
    (outcome = ResultPending \<longleftrightarrow> (\<exists>r. live m t mid r \<and> br_phase r = kFinishing)) \<and>
    (\<forall>r. live m t mid r \<longrightarrow> br_phase r \<notin> {kFinishing, kFinished} \<longrightarrow>
      outcome = ResultNotFound \<and> rec = None) \<and>
    (\<forall>r. live m t mid r \<longrightarrow> snap = Some (Snapshot r))"
  using mysql.result_queries [OF assms] by blast

section \<open>Liveness of persistence\<close>

lemma Tick_finishing_room: "br_phase r = kFinishing \<Longrightarrow> snd (BattleRoom_Tick t r) = r"
  by simp

lemma mysql_query_up: "db_faults db = [] \<Longrightarrow> db_faults (snd (mysql_query to_ts sql ps db)) = []"
  by (cases sql) (simp_all add: mysql_query_def)

lemma mysql_save_up:
  assumes "db_faults db = []" "sw_Save (mysql_snapshot_writer to_ts) rec db = (st, db')"
  shows "db_faults db' = []"
proof -
  have "db_faults (snd (mysql_query to_ts UpsertRoom (snapshot_params rec) db)) = []"
    using assms(1) by (rule mysql_query_up)
  then show ?thesis
    using assms by (auto simp: mysql_snapshot_writer_def MysqlRoomSnapshotWriter_Save_def split: if_splits prod.splits option.splits)
qed

lemma save_all_up:
  "db_faults db = [] \<Longrightarrow> db_faults (snd (snd (save_all (mysql_snapshot_writer to_ts) recs (a, b, db)))) = []"
proof (induction recs arbitrary: a b db)
  case (Cons rec recs)
  obtain st db' where s: "sw_Save (mysql_snapshot_writer to_ts) rec db = (st, db')"
    by (cases "sw_Save (mysql_snapshot_writer to_ts) rec db")
  show ?case using mysql_save_up [OF Cons.prems s] Cons.IH by (cases st) (simp_all add: s)
qed simp

lemma Flush_up:
  "db_faults (snd s) = [] \<Longrightarrow> db_faults (snd (FlushSnapshots (Some (mysql_snapshot_writer to_ts)) recs s)) = []"
  using save_all_up [of "snd s" to_ts recs 0 0] by (auto simp: FlushSnapshots_def split: prod.splits)

lemma write_up:
  assumes "db_faults db = []" "mr_match_id rec \<noteq> []"
  shows "\<exists>db'. mw_Write (mysql_writer to_ts) rec db = (WriteOk, db') \<and> db_faults db' = []"
  using mysql_write_up [OF assms, of to_ts] assms(1) by (simp add: mysql_writer_def)

text \<open>One persist step with the database up: the room of the step is confirmed, no other changes.\<close>

lemma persist_one_up:
  assumes "db_faults db = []" "map_of (rm_rooms m) rid = Some r" "br_phase r = kFinishing" "br_match_id r \<noteq> []"
  shows "\<exists>db'. persist_one (Some (mysql_writer to_ts)) t rid (m, db) =
    (m\<lparr>rm_rooms := AList.update rid (r\<lparr>br_phase := kFinished\<rparr>) (rm_rooms m)\<rparr>, db') \<and> db_faults db' = []"
proof -
  obtain rec where rec: "Result r = Some rec" "mr_match_id rec = br_match_id r"
    using assms(3) by (auto simp: Result_def)
  with assms(4) obtain db' where "mw_Write (mysql_writer to_ts) rec db = (WriteOk, db')" "db_faults db' = []"
    using write_up [OF assms(1), of rec to_ts] by auto
  then show ?thesis
    using assms rec by (simp add: persist_one_def persist_take_def persist_mark_def MarkResultPersisted_def)
qed

lemma persist_fold_up:
  assumes "db_faults db = []" "distinct ids"
    and "\<And>rid. rid \<in> set ids \<Longrightarrow> \<exists>r. map_of (rm_rooms m) rid = Some r \<and> br_phase r = kFinishing \<and> br_match_id r \<noteq> []"
  shows "map_of (rm_rooms (fst (fold (persist_one (Some (mysql_writer to_ts)) t) ids (m, db)))) rid =
    (if rid \<in> set ids then map_option (\<lambda>r. r\<lparr>br_phase := kFinished\<rparr>) (map_of (rm_rooms m) rid)
     else map_of (rm_rooms m) rid)"
  using assms
proof (induction ids arbitrary: m db)
  case (Cons i ids)
  from Cons.prems(3) [of i] obtain r where r: "map_of (rm_rooms m) i = Some r" "br_phase r = kFinishing"
    "br_match_id r \<noteq> []" by auto
  from persist_one_up [OF Cons.prems(1) r, of to_ts t] obtain db' where p:
    "persist_one (Some (mysql_writer to_ts)) t i (m, db) =
      (m\<lparr>rm_rooms := AList.update i (r\<lparr>br_phase := kFinished\<rparr>) (rm_rooms m)\<rparr>, db')" "db_faults db' = []"
    by blast
  let ?m = "m\<lparr>rm_rooms := AList.update i (r\<lparr>br_phase := kFinished\<rparr>) (rm_rooms m)\<rparr>"
  have "map_of (rm_rooms (fst (fold (persist_one (Some (mysql_writer to_ts)) t) ids (?m, db')))) rid =
    (if rid \<in> set ids then map_option (\<lambda>r. r\<lparr>br_phase := kFinished\<rparr>) (map_of (rm_rooms ?m) rid)
     else map_of (rm_rooms ?m) rid)"
    using Cons.prems by (intro Cons.IH p(2)) (auto simp: update_conv')
  then show ?case using Cons.prems(2) r by (auto simp: p(1) update_conv')
qed simp

lemma ids_to_persist:
  "keys_distinct rs \<Longrightarrow> distinct (map fst (filter P rs))"
  by (metis keys_distinct_def keys_distinct_filter)

text \<open>C13: no decided match waits longer than the database. In one tick with the database reachable,
  every room whose retry is due is confirmed and its result is in the table; until then the room is
  kept, whatever the clock says.\<close>

theorem results_are_persisted_when_database_is_up:
  assumes "(manager_step (mysql_writer to_ts) (mysql_snapshot_writer to_ts) mysql_stored)\<^sup>*\<^sup>*
      (empty_manager, db0) (m, db)"
    and "db_faults db = []"
    and "map_of (rm_rooms m) rid = Some r" and "br_phase r = kFinishing"
    and "ShouldRetryPersist t r"
    and "RoomManager_Tick (Some (mysql_writer to_ts)) (Some (mysql_snapshot_writer to_ts)) t (m, db) = (m', db')"
  shows "map_of (rm_rooms m') rid = Some (r\<lparr>br_phase := kFinished\<rparr>) \<and>
    mysql_stored db' (br_match_id r) = Some (mysql_norm to_ts (the (Result r)))"
proof -
  have s: "sound (mysql_stored db) (mysql_norm to_ts) m"
    using mysql.manager_steps_sound [OF assms(1) sound_empty] by blast
  then have i: "index_inv m" by (simp add: sound_def manager_inv_def)
  note d = index_invD(1) [OF i]
  define cs where "cs = fold (collect_snapshot t) (ticked t m) (rm_snapshot_state m, [])"
  define ids where "ids = map fst (filter (\<lambda>(rid, r). br_phase r = kFinishing \<and> ShouldRetryPersist t r) (ticked t m))"
  define m0 where "m0 = m\<lparr>rm_rooms := ticked t m, rm_snapshot_state := fst cs\<rparr>"
  define m1 where "m1 = ReapExpiredLocked t m0"
  have s0: "sound (mysql_stored db) (mysql_norm to_ts) m0"
    using sound_ticked [OF s, of True t] by (simp add: m0_def cs_def)
  then have i0: "index_inv m0" by (simp add: sound_def manager_inv_def)
  have tl: "tick_locked True t m = ((ids, snd cs), m1)"
    by (simp add: tick_locked_eq Let_def ids_def cs_def m1_def m0_def)
  have dt: "keys_distinct (ticked t m)" using d by (simp add: ticked_def)
  have reap: "map_of (rm_rooms m1) k = Some q \<longleftrightarrow> map_of (ticked t m) k = Some q \<and> \<not> IsExpired t q" for k q
    using Reap_rooms_Some [OF i0] by (simp add: m1_def m0_def)
  have ids: "k \<in> set ids \<Longrightarrow> \<exists>q. map_of (rm_rooms m1) k = Some q \<and> br_phase q = kFinishing \<and> br_match_id q \<noteq> []" for k
  proof -
    assume "k \<in> set ids"
    then obtain q where q: "map_of (ticked t m) k = Some q" "br_phase q = kFinishing"
      by (auto simp: ids_def map_of_iff_in_set [OF dt])
    moreover have "br_match_id q \<noteq> []" using q(1) index_invD(7) [OF i] by (auto simp: ticked_def bad_id_def)
    ultimately show ?thesis by (auto simp: reap IsExpired_def)
  qed
  obtain db1 m2 where fl: "FlushSnapshots (Some (mysql_snapshot_writer to_ts)) (snd cs) (m1, db) = (m2, db1)"
    by (metis prod.exhaust)
  have m2: "rm_rooms m2 = rm_rooms m1" and up: "db_faults db1 = []"
    using Flush_frame(1) [of "Some (mysql_snapshot_writer to_ts)" "snd cs" "(m1, db)"]
      Flush_up [of "(m1, db)" to_ts "snd cs"] assms(2) by (simp_all add: fl)
  have res: "fold (persist_one (Some (mysql_writer to_ts)) t) ids (m2, db1) = (m', db')"
    using assms(6) by (simp add: RoomManager_Tick_def tl fl)
  have r1: "map_of (ticked t m) rid = Some r" using assms(3,4) by (simp add: ticked_def)
  then have "rid \<in> set ids" using assms(4,5) by (force simp: ids_def map_of_iff_in_set [OF dt])
  moreover have "map_of (rm_rooms m1) rid = Some r" using r1 assms(4) by (simp add: reap IsExpired_def)
  ultimately have 1: "map_of (rm_rooms m') rid = Some (r\<lparr>br_phase := kFinished\<rparr>)"
    using persist_fold_up [OF up, of ids m2 to_ts t rid] ids ids_to_persist [OF dt] res m2
    by (simp add: ids_def)
  have "sound (mysql_stored db') (mysql_norm to_ts) m'"
    using mysql.sound_Tick [OF s assms(6)] by blast
  then have "result_ok (mysql_stored db') (mysql_norm to_ts) (r\<lparr>br_phase := kFinished\<rparr>)"
    using 1 unfolding sound_def linked_def by blast
  then show ?thesis using 1 assms(4) by (simp add: result_ok_def Result_def)
qed


text \<open>A run through an outage: Bob never comes back, and the tick that decides the match finds the
  database down for both of its writes.\<close>

definition gone_manager :: RoomManager where
  "gone_manager = demo_manager\<lparr>rm_rooms := [(''r-1'', duel_bob_gone)]\<rparr>"

lemma gone_reachable:
  "(manager_step (mysql_writer to_ts) (mysql_snapshot_writer to_ts) mysql_stored)\<^sup>*\<^sup>*
     (empty_manager, empty_db fs) (gone_manager, empty_db fs)"
proof -
  let ?S = "manager_step (mysql_writer to_ts) (mysql_snapshot_writer to_ts) mysql_stored"
  let ?m = "\<lambda>r. demo_manager\<lparr>rm_rooms := [(''r-1'', r)]\<rparr>"
  let ?r0 = "BattleRoom_new ''r-1'' ''m-1'' [''alice'', ''bob''] 800"
  have j: "?S (?m r, empty_db fs) (?m (snd (BattleRoom_Join p t r)), empty_db fs)" for r p t
    using manager_step.join [of _ _ _ "?m r" "empty_db fs" "''r-1''" p t]
    by (simp add: RoomManager_Join_def case_prod_beta)
  have p: "?S (?m r, empty_db fs) (?m (snd (BattleRoom_SetPresence p b t r)), empty_db fs)" for r p b t
    using manager_step.presence [of _ _ _ "?m r" "empty_db fs" "''r-1''" p b t]
    by (simp add: RoomManager_SetPresence_def case_prod_beta)
  have "?m ?r0 = demo_manager" using demo_fields(1) by simp
  then have "?S\<^sup>*\<^sup>* (empty_manager, empty_db fs) (?m ?r0, empty_db fs)" using demo_reachable by simp
  then have "?S\<^sup>*\<^sup>* (empty_manager, empty_db fs) (?m (snd (BattleRoom_Join ''alice'' 900 ?r0)), empty_db fs)"
    by (rule rtranclp.rtrancl_into_rtrancl) (rule j)
  then have "?S\<^sup>*\<^sup>* (empty_manager, empty_db fs) (?m duel, empty_db fs)"
    unfolding duel_def by (rule rtranclp.rtrancl_into_rtrancl) (rule j)
  then show ?thesis
    unfolding gone_manager_def duel_bob_gone_def by (rule rtranclp.rtrancl_into_rtrancl) (rule p)
qed

definition lost :: BattleRoom where
  "lost = BattleRoom_Finish kDisconnect ''alice'' 32000 duel_bob_gone"

lemma duel_bob_gone_ids: "br_room_id duel_bob_gone = ''r-1''" "br_match_id duel_bob_gone = ''m-1''"
  by (simp_all add: duel_bob_gone_def duel_fields)

lemma lost_tick: "snd (BattleRoom_Tick 32000 duel_bob_gone) = lost"
proof -
  have ids: "length (br_players duel_bob_gone) = 2" "ps_player_id (br_players duel_bob_gone ! 0) = ''alice''"
    using duel_bob_gone_fields(3) by (auto simp: map_eq_Cons_conv)
  have w: "IsWaitingForReconnect duel_bob_gone"
    by (simp add: IsWaitingForReconnect_def duel_bob_gone_fields)
  show ?thesis
    using tick_during_grace_period [OF duel_bob_gone_fields(1,2) ids(1) w, of 32000] ids(2)
    by (simp add: grace_outcome_def fresh_runtime_def kReconnectGraceMs_def lost_def)
qed

definition outage :: "RoomManager \<times> mysql_db" where
  "outage = RoomManager_Tick (Some (mysql_writer ts_of)) (Some (mysql_snapshot_writer ts_of)) 32000
     (gone_manager, empty_db [FailBefore, FailBefore])"

lemma outage_eq:
  "\<exists>m. outage = (m, empty_db []) \<and> rm_rooms m = [(''r-1'', MarkResultFailed 32000 lost)]"
proof -
  have l: "br_phase lost = kFinishing" "br_room_id lost = ''r-1''" "br_match_id lost = ''m-1''"
    "br_last_persist_attempt_ms lost = 0"
    by (simp_all add: lost_def duel_bob_gone_ids)
  have t: "ticked 32000 gone_manager = [(''r-1'', lost)]"
    by (simp add: ticked_def gone_manager_def map_values_def lost_tick)
  have rec: "rr_match_id (MakeSnapshotRecord lost 32000) = ''m-1''" "rr_room_id (MakeSnapshotRecord lost 32000) = ''r-1''"
    by (simp_all add: MakeSnapshotRecord_def Let_def Snapshot_def l)
  have res: "\<exists>rec. Result lost = Some rec \<and> mr_match_id rec = ''m-1''"
    by (simp add: Result_def l)
  have g: "rm_snapshot_state gone_manager = []" by (simp add: gone_manager_def demo_fields)
  have tl: "\<exists>m. tick_locked True 32000 gone_manager = (([''r-1''], [MakeSnapshotRecord lost 32000]), m) \<and>
      rm_rooms m = [(''r-1'', lost)]"
    by (simp add: tick_locked_eq t Let_def ShouldRetryPersist_def l room_consts collect_snapshot_def
        g ShouldSnapshot_def emplace_def default_snapshot_state_def
        ReapExpiredLocked_def reap_step_def IsExpired_def)
  have q: "mysql_query ts_of sql ps (empty_db (FailBefore # fs)) = (None, empty_db fs)" for sql ps fs
    by (simp add: mysql_query_def empty_db_def)
  from tl res show ?thesis
    by (auto simp: outage_def RoomManager_Tick_def FlushSnapshots_def mysql_snapshot_writer_def
        MysqlRoomSnapshotWriter_Save_def q rec persist_one_def persist_take_def persist_mark_def l
        mysql_writer_def MysqlMatchResultWriter_Write_def)
qed

lemma outage_reachable:
  "(manager_step (mysql_writer ts_of) (mysql_snapshot_writer ts_of) mysql_stored)\<^sup>*\<^sup>*
     (empty_manager, empty_db [FailBefore, FailBefore]) (fst outage, snd outage)"
proof -
  have "manager_step (mysql_writer ts_of) (mysql_snapshot_writer ts_of) mysql_stored
      (gone_manager, empty_db [FailBefore, FailBefore]) outage"
    by (rule manager_step.tick) (simp add: outage_def)
  with gone_reachable [of ts_of "[FailBefore, FailBefore]"] show ?thesis by simp
qed

lemma outage_facts:
  "map_of (rm_rooms (fst outage)) ''r-1'' = Some (MarkResultFailed 32000 lost)"
  "br_phase (MarkResultFailed 32000 lost) = kFinishing"
  "br_match_id (MarkResultFailed 32000 lost) = ''m-1''"
  "ShouldRetryPersist 33000 (MarkResultFailed 32000 lost)"
  "snd outage = empty_db []"
proof -
  obtain m where m: "outage = (m, empty_db [])" "rm_rooms m = [(''r-1'', MarkResultFailed 32000 lost)]"
    using outage_eq by blast
  show "map_of (rm_rooms (fst outage)) ''r-1'' = Some (MarkResultFailed 32000 lost)" by (simp add: m)
  show "snd outage = empty_db []" by (simp add: m)
qed (simp_all add: lost_def duel_bob_gone_ids MarkResultFailed_def ShouldRetryPersist_def room_consts)

theorem results_are_persisted_when_database_is_up_witness:
  "mysql_stored (snd outage) ''m-1'' = None \<and>
   mysql_stored (snd (RoomManager_Tick (Some (mysql_writer ts_of)) (Some (mysql_snapshot_writer ts_of)) 33000 outage))
     ''m-1'' = Some (mysql_norm ts_of (the (Result lost)))"
proof -
  obtain m' db' where t: "RoomManager_Tick (Some (mysql_writer ts_of)) (Some (mysql_snapshot_writer ts_of)) 33000
      (fst outage, snd outage) = (m', db')" by (metis prod.exhaust)
  have up: "db_faults (snd outage) = []" by (simp add: outage_facts empty_db_def)
  have mysql_none: "mysql_stored (snd outage) ''m-1'' = None"
    by (simp add: outage_facts mysql_stored_def empty_db_def)
  show ?thesis
    using results_are_persisted_when_database_is_up [OF outage_reachable up outage_facts(1,2,4) t] t [unfolded prod.collapse]
      outage_facts(3) mysql_none
    by (metis MarkResultFailed_frame(4) snd_conv)
qed

section \<open>Draining\<close>

lemma UnfinishedGameCount_open: "UnfinishedGameCount m = length (open_rooms (rm_rooms m))"
proof -
  have "fold (\<lambda>entry n. case br_phase (snd entry) of kCreated \<Rightarrow> Suc n | kWaiting \<Rightarrow> Suc n | kPlaying \<Rightarrow> Suc n
      | kFinishing \<Rightarrow> n | kFinished \<Rightarrow> n | kAborted \<Rightarrow> n) es n = n + length (open_rooms es)"
    for es :: "(string \<times> BattleRoom) list" and n
    by (induction es arbitrary: n) (auto simp: open_rooms_def unfinished_def split: RoomPhase.splits)
  then show ?thesis by (simp add: UnfinishedGameCount_def)
qed

lemma open_rooms_aborted: "open_rooms (map_values (abort_room t) es) = []"
proof -
  have "\<not> unfinished (br_phase (abort_room t r))" for r
    by (simp add: abort_room_def) (simp add: unfinished_def)
  then show ?thesis by (auto simp: open_rooms_def map_values_def filter_empty_conv)
qed

text \<open>The drain deadline. Aborting the unfinished games reports how many there were, leaves none
  unfinished, aborts exactly those (no winner, reason \<open>aborted\<close>), does not touch a match that is
  decided, waiting for its result to be written or finished, writes no result, and schedules no
  further snapshot for the aborted rooms.\<close>

lemma drain_aborts_exactly_the_unfinished:
  assumes "manager_inv m"
    and "AbortUnfinishedGames (Some (mysql_snapshot_writer to_ts)) t (m, db) = (n, m', db')"
  shows "n = UnfinishedGameCount m \<and> UnfinishedGameCount m' = 0 \<and> RoomCount m' = RoomCount m \<and>
    mysql_stored db' = mysql_stored db \<and>
    (\<forall>rid. map_of (rm_rooms m') rid = (case map_of (rm_rooms m) rid of None \<Rightarrow> None
      | Some r \<Rightarrow> Some (if unfinished (br_phase r) then BattleRoom_Abort t r else r)))"
proof -
  have d: "keys_distinct (rm_rooms m)" using assms(1) by (simp add: manager_inv_def index_inv_def)
  define m1 where "m1 = m\<lparr>rm_rooms := map_values (abort_room t) (rm_rooms m),
    rm_snapshot_state := fold (\<lambda>r. AList.update (br_match_id r) (written_state t kAborted))
      (open_rooms (rm_rooms m)) (rm_snapshot_state m)\<rparr>"
  note eq = assms(2) [unfolded Abort_games_eq [OF d] m1_def [symmetric]]
  have n: "n = length (open_rooms (rm_rooms m))" using eq by simp
  have fl: "FlushSnapshots (Some (mysql_snapshot_writer to_ts))
      (map (\<lambda>r. MakeSnapshotRecord (BattleRoom_Abort t r) t) (open_rooms (rm_rooms m))) (m1, db) = (m', db')"
    using eq by simp
  have m': "rm_rooms m' = map_values (abort_room t) (rm_rooms m)"
    using arg_cong [OF fl, of "\<lambda>s. rm_rooms (fst s)"] by (simp add: m1_def)
  have "mysql_stored db' = mysql_stored db" using mysql.Flush_storedD [OF fl] by simp
  moreover have "RoomCount m' = RoomCount m" by (simp add: RoomCount_def m' map_values_def)
  moreover have "UnfinishedGameCount m' = 0" by (simp add: UnfinishedGameCount_open m' open_rooms_aborted)
  moreover have "map_of (rm_rooms m') rid = (case map_of (rm_rooms m) rid of None \<Rightarrow> None
      | Some r \<Rightarrow> Some (if unfinished (br_phase r) then BattleRoom_Abort t r else r))" for rid
    by (simp add: m' abort_room_def split: option.splits)
  ultimately show ?thesis using n by (simp add: UnfinishedGameCount_open)
qed


section \<open>Replays for a reconnecting client\<close>

text \<open>A replay that is reported as complete is complete. For a live room the answer is \<open>ok\<close> exactly
  when the requested interval is covered by the buffer, and then the snapshots are one per frame,
  from the frame after the client's up to the current one; in every other case the outcome says
  why (the client is ahead, or the oldest buffered frame is too new).\<close>

lemma complete_replay_has_every_frame:
  assumes "manager_inv m"
    and "RoomManager_GetSnapshotsSince rid since t m = (sg, m')"
    and "map_of (rm_rooms m) rid = Some r" and "\<not> IsExpired t r"
  shows "sg_latest_frame sg = br_frame r \<and> sg_oldest_frame sg = fst (SnapshotFrameRange r) \<and>
    (sg_outcome sg = RangeOk \<longrightarrow> map rs_frame (sg_snapshots sg) = [since + 1 .. br_frame r]) \<and>
    sg_outcome sg = (if since > br_frame r then RangeAhead
      else if since + 1 < fst (SnapshotFrameRange r) then RangeIncomplete else RangeOk)"
proof -
  have i: "index_inv m" "room_inv r"
    using assms(1,3) by (auto simp: manager_inv_def rooms_inv_def)
  have look: "map_of (rm_rooms (ReapExpiredLocked t m)) rid = Some r"
    using assms(3,4) by (simp add: Reap_rooms_Some [OF i(1)])
  have "map rs_frame (SnapshotsAfter since r) =
      [max (since + 1) (fst (SnapshotFrameRange r)) .. br_frame r]"
    using i(2) by (rule SnapshotsAfter_frames)
  then show ?thesis
    using assms(2) by (auto simp: RoomManager_GetSnapshotsSince_def Let_def look max_def split: if_splits)
qed

section \<open>Counts\<close>

lemma PhaseCounts_fold:
  "length c = 6 \<Longrightarrow>
   length (fold (\<lambda>e c. bump_phase (br_phase (snd e)) c) es c) = 6 \<and>
   PhaseCounts_At (fold (\<lambda>e c. bump_phase (br_phase (snd e)) c) es c) p =
     PhaseCounts_At c p + length (filter (\<lambda>e. br_phase (snd e) = p) es) \<and>
   PhaseCounts_Total (fold (\<lambda>e c. bump_phase (br_phase (snd e)) c) es c) =
     PhaseCounts_Total c + length es"
proof (induction es arbitrary: c)
  case (Cons e es)
  then show ?case by (simp add: PhaseCounts_At_bump PhaseCounts_Total_bump)
qed simp

lemma count_fold: "fold (\<lambda>e n. if P e then Suc n else n) es n = n + length (filter P es)"
  by (induction es arbitrary: n) simp_all

text \<open>The counters agree with each other: the per-phase counts are the numbers of rooms in that
  phase, they sum up to the number of rooms, and the playing, pending and unfinished counts are the
  matching entries.\<close>

lemma phase_counts_are_consistent:
  "PhaseCounts_Total (PhaseCounts m) = RoomCount m \<and>
   PhaseCounts_At (PhaseCounts m) p = length (filter (\<lambda>e. br_phase (snd e) = p) (rm_rooms m)) \<and>
   PlayingCount m = PhaseCounts_At (PhaseCounts m) kPlaying \<and>
   PendingResultCount m = PhaseCounts_At (PhaseCounts m) kFinishing \<and>
   UnfinishedGameCount m = PhaseCounts_At (PhaseCounts m) kCreated +
     PhaseCounts_At (PhaseCounts m) kWaiting + PhaseCounts_At (PhaseCounts m) kPlaying"
proof -
  have z: "length zero_counts = 6" "PhaseCounts_At zero_counts q = 0" "PhaseCounts_Total zero_counts = 0" for q
    by (cases q; simp add: zero_counts_def kAllRoomPhases_def PhaseCounts_At_def PhaseCounts_Total_def eval_nat_numeral)+
  have at: "PhaseCounts_At (PhaseCounts m) q = length (filter (\<lambda>e. br_phase (snd e) = q) (rm_rooms m))" for q
    using PhaseCounts_fold [OF z(1), of "rm_rooms m" q] by (simp add: PhaseCounts_def z)
  have "length (filter (\<lambda>e. unfinished (br_phase (snd e))) es) =
      length (filter (\<lambda>e. br_phase (snd e) = kCreated) es) +
      length (filter (\<lambda>e. br_phase (snd e) = kWaiting) es) +
      length (filter (\<lambda>e. br_phase (snd e) = kPlaying) es)" for es :: "(string \<times> BattleRoom) list"
    by (induction es) (auto simp: unfinished_def)
  then have "UnfinishedGameCount m = PhaseCounts_At (PhaseCounts m) kCreated +
     PhaseCounts_At (PhaseCounts m) kWaiting + PhaseCounts_At (PhaseCounts m) kPlaying"
    by (simp add: UnfinishedGameCount_open open_rooms_def filter_map comp_def at)
  then show ?thesis
    using PhaseCounts_fold [OF z(1), of "rm_rooms m" p]
    by (simp add: PhaseCounts_def z RoomCount_def PlayingCount_def PendingResultCount_def count_fold
        at [unfolded PhaseCounts_def])
qed

end
