(* ===== verification/Mysql_Connection.thy ===== *)
theory Mysql_Connection
  imports Room_Storage
begin

text \<open>
  The shared MySQL connection, \<^verbatim>\<open>src/common/mysql_connection.cpp\<close>: it connects on first use, runs one
  prepared statement at a time, and repeats a statement once on a new connection when the old one
  turns out to be dead.

  The client library is a parameter, a record of its calls over a world \<^typ>\<open>'w\<close>. The locale
  \<open>mysql_client\<close> says what the code relies on of it; \<open>wire_lib\<close> is a library over a wire that may fail
  every call, with the statements of the room storage behind it. The statements are a type \<^typ>\<open>'sql\<close>;
  the mutex is the atomicity of a call, and log lines are left out.
\<close>

section \<open>The client library\<close>

record MysqlOptions =
  mo_host :: string
  mo_port :: int
  mo_user :: string
  mo_password :: string
  mo_database :: string
  mo_connect_timeout_seconds :: nat
  mo_read_timeout_seconds :: nat
  mo_write_timeout_seconds :: nat

text \<open>A failed call gives the error number and its text. A fetch whose value does not fit the buffer of
  its column fails with number 0.\<close>

type_synonym mysql_error = "(nat \<times> string) option"

datatype Fetch = FetchRow SqlRow | FetchNoData | FetchFailed nat

record ('sql, 'w) Libmysql =
  ml_init :: "'w \<Rightarrow> bool \<times> 'w"
  ml_real_connect :: "MysqlOptions \<Rightarrow> 'w \<Rightarrow> string option \<times> 'w"
  ml_set_character_set :: "'w \<Rightarrow> bool \<times> 'w"
  ml_close :: "'w \<Rightarrow> 'w"
  ml_stmt_init :: "'w \<Rightarrow> bool \<times> 'w"
  ml_stmt_prepare :: "'sql \<Rightarrow> 'w \<Rightarrow> mysql_error \<times> 'w"
  ml_stmt_bind_param :: "string list \<Rightarrow> 'w \<Rightarrow> mysql_error \<times> 'w"
  ml_stmt_execute :: "'w \<Rightarrow> mysql_error \<times> 'w"
  ml_num_fields :: "'w \<Rightarrow> nat"
  ml_stmt_bind_result :: "nat \<Rightarrow> 'w \<Rightarrow> mysql_error \<times> 'w"
  ml_stmt_fetch :: "'w \<Rightarrow> Fetch \<times> 'w"
  ml_stmt_close :: "'w \<Rightarrow> 'w"

section \<open>The connection\<close>

definition kMaxBindParams :: nat where "kMaxBindParams = 32"
definition kMaxResultColumns :: nat where "kMaxResultColumns = 16"
definition kColumnBufferSize :: nat where "kColumnBufferSize = 256"

definition IsConnectionLostError :: "nat \<Rightarrow> bool" where
  "IsConnectionLostError error_code \<longleftrightarrow> error_code = 2006 \<or> error_code = 2013 \<or> error_code = 2003 \<or> error_code = 2002"

record MysqlConnection =
  my_options :: MysqlOptions
  my_connected :: bool
  my_last_error :: string

definition MysqlConnection_new :: "MysqlOptions \<Rightarrow> MysqlConnection" where
  "MysqlConnection_new options = \<lparr>my_options = options, my_connected = False, my_last_error = []\<rparr>"

definition Disconnect :: "('sql, 'w) Libmysql \<Rightarrow> MysqlConnection \<Rightarrow> 'w \<Rightarrow> MysqlConnection \<times> 'w" where
  "Disconnect lib c w = (if my_connected c then (c\<lparr>my_connected := False\<rparr>, ml_close lib w) else (c, w))"

definition EnsureConnected :: "('sql, 'w) Libmysql \<Rightarrow> MysqlConnection \<Rightarrow> 'w \<Rightarrow> bool \<times> MysqlConnection \<times> 'w" where
  "EnsureConnected lib c w =
     (if my_connected c then (True, c, w)
      else case ml_init lib w of
        (False, w1) \<Rightarrow> (False, c\<lparr>my_last_error := ''mysql_init failed''\<rparr>, w1)
      | (True, w1) \<Rightarrow>
          let c1 = c\<lparr>my_connected := True\<rparr> in
          (case ml_real_connect lib (my_options c1) w1 of
             (Some err, w2) \<Rightarrow> (False, Disconnect lib (c1\<lparr>my_last_error := ''connect failed: '' @ err\<rparr>) w2)
           | (None, w2) \<Rightarrow>
               (case ml_set_character_set lib w2 of
                  (False, w3) \<Rightarrow> (False, Disconnect lib (c1\<lparr>my_last_error := ''set charset failed''\<rparr>) w3)
                | (True, w3) \<Rightarrow> (True, c1, w3))))"

text \<open>One attempt is answered with its rows, or fails, with a flag that asks for another one.\<close>

datatype attempt = Answered "SqlRow list" | Failed bool

partial_function (option) fetch_rows ::
  "('w \<Rightarrow> Fetch \<times> 'w) \<Rightarrow> SqlRow list \<Rightarrow> 'w \<Rightarrow> (nat option \<times> SqlRow list \<times> 'w) option" where
  "fetch_rows fetch rows w =
     (case fetch w of
        (FetchNoData, w') \<Rightarrow> Some (None, rows, w')
      | (FetchFailed e, w') \<Rightarrow> Some (Some e, rows, w')
      | (FetchRow r, w') \<Rightarrow> fetch_rows fetch (rows @ [r]) w')"

definition read_result :: "('sql, 'w) Libmysql \<Rightarrow> MysqlConnection \<Rightarrow> 'w \<Rightarrow> (attempt \<times> MysqlConnection \<times> 'w) option" where
  "read_result lib c w =
     (let column_count = ml_num_fields lib w in
      if column_count > kMaxResultColumns then Some (Failed False, c\<lparr>my_last_error := ''too many columns''\<rparr>, w)
      else if column_count = 0 then Some (Answered [], c, w)
      else case ml_stmt_bind_result lib (kColumnBufferSize - 1) w of
        (Some (e, text), w1) \<Rightarrow> Some (Failed False, c\<lparr>my_last_error := ''bind_result failed: '' @ text\<rparr>, w1)
      | (None, w1) \<Rightarrow>
          (case fetch_rows (ml_stmt_fetch lib) [] w1 of
             None \<Rightarrow> None
           | Some (None, rows, w2) \<Rightarrow> Some (Answered rows, c, w2)
           | Some (Some e, rows, w2) \<Rightarrow>
               Some (Failed (e \<noteq> 0 \<and> IsConnectionLostError e), c\<lparr>my_last_error := ''fetch failed or value truncated''\<rparr>, w2)))"

definition run_statement ::
  "('sql, 'w) Libmysql \<Rightarrow> 'sql \<Rightarrow> string list \<Rightarrow> MysqlConnection \<Rightarrow> 'w \<Rightarrow> (attempt \<times> MysqlConnection \<times> 'w) option" where
  "run_statement lib sql params c w =
     (case ml_stmt_prepare lib sql w of
        (Some (e, text), w1) \<Rightarrow> Some (Failed (IsConnectionLostError e), c\<lparr>my_last_error := ''prepare failed: '' @ text\<rparr>, w1)
      | (None, w1) \<Rightarrow>
          (case (if params = [] then (None, w1) else ml_stmt_bind_param lib params w1) of
             (Some (e, text), w2) \<Rightarrow> Some (Failed False, c\<lparr>my_last_error := ''bind_param failed: '' @ text\<rparr>, w2)
           | (None, w2) \<Rightarrow>
               (case ml_stmt_execute lib w2 of
                  (Some (e, text), w3) \<Rightarrow>
                    Some (Failed (IsConnectionLostError e), c\<lparr>my_last_error := ''execute failed: '' @ text\<rparr>, w3)
                | (None, w3) \<Rightarrow> read_result lib c w3)))"

definition QueryOnce ::
  "('sql, 'w) Libmysql \<Rightarrow> 'sql \<Rightarrow> string list \<Rightarrow> MysqlConnection \<Rightarrow> 'w \<Rightarrow> (attempt \<times> MysqlConnection \<times> 'w) option" where
  "QueryOnce lib sql params c w =
     (case EnsureConnected lib c w of
        (False, c1, w1) \<Rightarrow> Some (Failed False, c1, w1)
      | (True, c1, w1) \<Rightarrow>
          (case ml_stmt_init lib w1 of
             (False, w2) \<Rightarrow> Some (Failed False, c1\<lparr>my_last_error := ''stmt_init failed''\<rparr>, w2)
           | (True, w2) \<Rightarrow>
               (case run_statement lib sql params c1 w2 of
                  None \<Rightarrow> None
                | Some (a, c2, w3) \<Rightarrow> Some (a, c2, ml_stmt_close lib w3))))"

definition QueryLocked ::
  "('sql, 'w) Libmysql \<Rightarrow> 'sql \<Rightarrow> string list \<Rightarrow> bool \<Rightarrow> MysqlConnection \<Rightarrow> 'w \<Rightarrow>
   (SqlRow list option \<times> MysqlConnection \<times> 'w) option" where
  "QueryLocked lib sql params null_output c w =
     (if null_output then Some (None, c\<lparr>my_last_error := ''null output''\<rparr>, w)
      else if length params > kMaxBindParams
      then Some (None, c\<lparr>my_last_error :=
             ''too many params: got '' @ nat_digits (length params) @ '', limit is '' @ nat_digits kMaxBindParams\<rparr>, w)
      else case QueryOnce lib sql params c w of
        None \<Rightarrow> None
      | Some (Answered rows, c1, w1) \<Rightarrow> Some (Some rows, c1\<lparr>my_last_error := []\<rparr>, w1)
      | Some (Failed retry_on_dead_connection, c1, w1) \<Rightarrow>
          if \<not> retry_on_dead_connection then Some (None, c1, w1)
          else case Disconnect lib c1 w1 of (c2, w2) \<Rightarrow>
            (case QueryOnce lib sql params c2 w2 of
               None \<Rightarrow> None
             | Some (Answered rows, c3, w3) \<Rightarrow> Some (Some rows, c3\<lparr>my_last_error := []\<rparr>, w3)
             | Some (Failed _, c3, w3) \<Rightarrow> Some (None, c3, w3)))"

definition MysqlConnection_Query ::
  "('sql, 'w) Libmysql \<Rightarrow> 'sql \<Rightarrow> string list \<Rightarrow> MysqlConnection \<Rightarrow> 'w \<Rightarrow>
   (SqlRow list option \<times> MysqlConnection \<times> 'w) option" where
  "MysqlConnection_Query lib sql params c w = QueryLocked lib sql params False c w"

text \<open>The statement \<^verbatim>\<open>SELECT 1\<close> is an argument.\<close>

definition MysqlConnection_Ping ::
  "('sql, 'w) Libmysql \<Rightarrow> 'sql \<Rightarrow> MysqlConnection \<Rightarrow> 'w \<Rightarrow> (bool \<times> MysqlConnection \<times> 'w) option" where
  "MysqlConnection_Ping lib select_one c w = map_option (apfst (\<lambda>r. r \<noteq> None)) (QueryLocked lib select_one [] False c w)"

section \<open>What the code relies on\<close>

text \<open>
  Only executing a statement changes the tables, by what the statement does, and a failed execution
  has either done that or nothing. Fetching gives the rows of the result one by one and then says so.
\<close>

locale mysql_client =
  fixes lib :: "('sql, 'w) Libmysql"
    and tables :: "'w \<Rightarrow> 'db"
    and run :: "'sql \<Rightarrow> string list \<Rightarrow> 'db \<Rightarrow> SqlRow list \<times> 'db"
    and prepared :: "'w \<Rightarrow> 'sql option"
    and arguments :: "'w \<Rightarrow> string list"
    and results :: "'w \<Rightarrow> SqlRow list"
  assumes init_tables: "tables (snd (ml_init lib w)) = tables w"
    and connect_tables: "tables (snd (ml_real_connect lib opts w)) = tables w"
    and charset_tables: "tables (snd (ml_set_character_set lib w)) = tables w"
    and close_tables: "tables (ml_close lib w) = tables w"
    and stmt_init_tables: "tables (snd (ml_stmt_init lib w)) = tables w"
    and prepare_tables: "tables (snd (ml_stmt_prepare lib sql w)) = tables w"
    and prepare_ok: "ml_stmt_prepare lib sql w = (None, w') \<Longrightarrow> prepared w' = Some sql \<and> arguments w' = []"
    and bind_param_tables: "tables (snd (ml_stmt_bind_param lib params w)) = tables w"
    and bind_param_ok: "ml_stmt_bind_param lib params w = (None, w') \<Longrightarrow> prepared w' = prepared w \<and> arguments w' = params"
    and execute_ok: "ml_stmt_execute lib w = (None, w') \<Longrightarrow> prepared w = Some sql \<Longrightarrow>
      (results w', tables w') = run sql (arguments w) (tables w)"
    and execute_failed: "ml_stmt_execute lib w = (Some e, w') \<Longrightarrow> prepared w = Some sql \<Longrightarrow>
      tables w' = tables w \<or> tables w' = snd (run sql (arguments w) (tables w))"
    and no_fields: "ml_num_fields lib w = 0 \<Longrightarrow> results w = []"
    and bind_result_tables: "tables (snd (ml_stmt_bind_result lib n w)) = tables w"
    and bind_result_ok: "ml_stmt_bind_result lib n w = (None, w') \<Longrightarrow> results w' = results w"
    and fetch_tables: "tables (snd (ml_stmt_fetch lib w)) = tables w"
    and fetch_row: "ml_stmt_fetch lib w = (FetchRow r, w') \<Longrightarrow> results w = r # results w'"
    and fetch_end: "ml_stmt_fetch lib w = (FetchNoData, w') \<Longrightarrow> results w = []"
    and stmt_close_tables: "tables (ml_stmt_close lib w) = tables w"
begin

lemma fetch_rows_ends:
  "\<exists>e out w'. fetch_rows (ml_stmt_fetch lib) rows w = Some (e, out, w') \<and> tables w' = tables w \<and>
     (e = None \<longrightarrow> out = rows @ results w)"
proof (induction "length (results w)" arbitrary: rows w rule: less_induct)
  case less
  obtain f w1 where f: "ml_stmt_fetch lib w = (f, w1)" by (cases "ml_stmt_fetch lib w")
  have t: "tables w1 = tables w" using fetch_tables [of w] f by simp
  show ?case
  proof (cases f)
    case (FetchRow r)
    then have r: "results w = r # results w1" using fetch_row f by simp
    then have "length (results w1) < length (results w)" by simp
    from less [OF this, of "rows @ [r]"] obtain e out w' where
      "fetch_rows (ml_stmt_fetch lib) (rows @ [r]) w1 = Some (e, out, w')" "tables w' = tables w1"
      "e = None \<longrightarrow> out = (rows @ [r]) @ results w1" by blast
    then show ?thesis using f FetchRow r t by (subst fetch_rows.simps) simp
  next
    case FetchNoData
    then show ?thesis using f t fetch_end by (subst fetch_rows.simps) simp
  next
    case (FetchFailed e)
    then show ?thesis using f t by (subst fetch_rows.simps) simp
  qed
qed

lemma read_result_effect:
  "\<exists>a c' w'. read_result lib c w = Some (a, c', w') \<and> tables w' = tables w \<and> (\<forall>out. a = Answered out \<longrightarrow> out = results w)"
proof -
  obtain r w1 where b: "ml_stmt_bind_result lib (kColumnBufferSize - 1) w = (r, w1)"
    by (cases "ml_stmt_bind_result lib (kColumnBufferSize - 1) w")
  have t: "tables w1 = tables w" using bind_result_tables [of "kColumnBufferSize - 1" w] b by simp
  obtain e out w2 where f: "fetch_rows (ml_stmt_fetch lib) [] w1 = Some (e, out, w2)" "tables w2 = tables w1"
    "e = None \<longrightarrow> out = [] @ results w1" using fetch_rows_ends [of "[]" w1] by blast
  have "results w1 = results w" if "r = None" using b unfolding that by (rule bind_result_ok)
  then show ?thesis
    using b t f no_fields [of w] by (cases r; cases e) (auto simp: read_result_def Let_def)
qed

lemma run_statement_effect:
  "\<exists>a c' w'. run_statement lib sql params c w = Some (a, c', w') \<and>
     (case a of Answered out \<Rightarrow> (out, tables w') = run sql params (tables w)
      | Failed _ \<Rightarrow> tables w' = tables w \<or> tables w' = snd (run sql params (tables w)))"
proof -
  obtain r1 w1 where p: "ml_stmt_prepare lib sql w = (r1, w1)" by (cases "ml_stmt_prepare lib sql w")
  have t1: "tables w1 = tables w" using prepare_tables [of sql w] p by simp
  obtain r2 w2 where b: "(if params = [] then (None, w1) else ml_stmt_bind_param lib params w1) = (r2, w2)" by fastforce
  have t2: "tables w2 = tables w1" using bind_param_tables [of params w1] b by (auto split: if_splits)
  obtain r3 w3 where e: "ml_stmt_execute lib w2 = (r3, w3)" by (cases "ml_stmt_execute lib w2")
  show ?thesis
  proof (cases r1)
    case None
    note r1 = this
    show ?thesis
    proof (cases r2)
      case None
      note r2 = this
      have st: "prepared w2 = Some sql" "arguments w2 = params"
        using prepare_ok p r1 bind_param_ok b r2 by (auto split: if_splits)
      show ?thesis
      proof (cases r3)
        case None
        have x: "(results w3, tables w3) = run sql params (tables w)"
          using execute_ok [OF _ st(1)] e None t1 t2 st(2) by simp
        obtain a c' w' where "read_result lib c w3 = Some (a, c', w')" "tables w' = tables w3" "\<forall>out. a = Answered out \<longrightarrow> out = results w3"
          using read_result_effect by blast
        moreover have "run_statement lib sql params c w = read_result lib c w3"
          using p r1 b r2 e None by (simp add: run_statement_def)
        moreover have "tables w3 = snd (run sql params (tables w))" using x by (metis snd_conv)
        ultimately show ?thesis using x by (cases a) auto
      next
        case (Some x)
        then show ?thesis
          using p r1 b r2 e execute_failed [OF _ st(1)] t1 t2 st(2) by (cases x) (auto simp: run_statement_def)
      qed
    next
      case (Some x)
      then show ?thesis using p r1 b t1 t2 by (cases x) (auto simp: run_statement_def)
    qed
  next
    case (Some x)
    then show ?thesis using p t1 by (cases x) (auto simp: run_statement_def)
  qed
qed

lemma EnsureConnected_tables: "EnsureConnected lib c w = (ok, c', w') \<Longrightarrow> tables w' = tables w"
  using init_tables [of w] connect_tables charset_tables
  by (auto simp: EnsureConnected_def Disconnect_def Let_def close_tables split: if_splits prod.splits bool.splits option.splits)
    (metis snd_conv)+

lemma Disconnect_tables: "Disconnect lib c w = (c', w') \<Longrightarrow> tables w' = tables w"
  by (auto simp: Disconnect_def close_tables split: if_splits)

lemma QueryOnce_effect:
  "\<exists>a c' w'. QueryOnce lib sql params c w = Some (a, c', w') \<and>
     (case a of Answered out \<Rightarrow> (out, tables w') = run sql params (tables w)
      | Failed _ \<Rightarrow> tables w' = tables w \<or> tables w' = snd (run sql params (tables w)))"
proof -
  obtain ok c1 w1 where e: "EnsureConnected lib c w = (ok, c1, w1)" by (cases "EnsureConnected lib c w")
  note t1 = EnsureConnected_tables [OF e]
  obtain ok2 w2 where i: "ml_stmt_init lib w1 = (ok2, w2)" by (cases "ml_stmt_init lib w1")
  have t2: "tables w2 = tables w1" using stmt_init_tables [of w1] i by simp
  obtain a c2 w3 where r: "run_statement lib sql params c1 w2 = Some (a, c2, w3)"
    "case a of Answered out \<Rightarrow> (out, tables w3) = run sql params (tables w2)
      | Failed _ \<Rightarrow> tables w3 = tables w2 \<or> tables w3 = snd (run sql params (tables w2))"
    using run_statement_effect by blast
  show ?thesis
    using e i r t1 t2 by (cases ok; cases ok2; cases a) (auto simp: QueryOnce_def stmt_close_tables)
qed

text \<open>A call always returns. Its answer is that of the statement, which has been executed once or twice;
  a call that failed has executed it at most twice.\<close>

lemma QueryLocked_effect:
  "\<exists>r c' w'. QueryLocked lib sql params null_output c w = Some (r, c', w') \<and>
     (let t = tables w; t1 = snd (run sql params t); t2 = snd (run sql params t1) in
      case r of Some rows \<Rightarrow> (rows, tables w') = run sql params t \<or> (rows, tables w') = run sql params t1
      | None \<Rightarrow> tables w' = t \<or> tables w' = t1 \<or> tables w' = t2)"
proof (cases "null_output \<or> length params > kMaxBindParams")
  case True
  then show ?thesis by (auto simp: QueryLocked_def Let_def)
next
  case False
  obtain a c1 w1 where q: "QueryOnce lib sql params c w = Some (a, c1, w1)"
    "case a of Answered out \<Rightarrow> (out, tables w1) = run sql params (tables w)
      | Failed _ \<Rightarrow> tables w1 = tables w \<or> tables w1 = snd (run sql params (tables w))"
    using QueryOnce_effect by blast
  obtain c2 w2 where d: "Disconnect lib c1 w1 = (c2, w2)" by (cases "Disconnect lib c1 w1")
  note t2 = Disconnect_tables [OF d]
  obtain a' c3 w3 where q': "QueryOnce lib sql params c2 w2 = Some (a', c3, w3)"
    "case a' of Answered out \<Rightarrow> (out, tables w3) = run sql params (tables w2)
      | Failed _ \<Rightarrow> tables w3 = tables w2 \<or> tables w3 = snd (run sql params (tables w2))"
    using QueryOnce_effect by blast
  show ?thesis
  proof (cases a)
    case (Answered out)
    then show ?thesis using False q by (auto simp: QueryLocked_def Let_def)
  next
    case (Failed retry)
    then show ?thesis
      using False q d t2 q' by (cases retry; cases a') (auto simp: QueryLocked_def Let_def)
  qed
qed

end

text \<open>Statements that may be repeated: doing one again changes nothing and gives the same rows.\<close>

locale repeatable_client = mysql_client +
  fixes may_repeat :: "'a \<Rightarrow> string list \<Rightarrow> bool"
  assumes run_again: "may_repeat sql params \<Longrightarrow> run sql params (snd (run sql params t)) = run sql params t"
begin

lemma Query_once:
  assumes "may_repeat sql params"
  shows "\<exists>r c' w'. MysqlConnection_Query lib sql params c w = Some (r, c', w') \<and>
     (case r of Some rows \<Rightarrow> (rows, tables w') = run sql params (tables w)
      | None \<Rightarrow> tables w' = tables w \<or> tables w' = snd (run sql params (tables w)))"
proof -
  obtain r c' w' where q: "QueryLocked lib sql params False c w = Some (r, c', w')"
    and e: "let t = tables w; t1 = snd (run sql params t); t2 = snd (run sql params t1) in
      case r of Some rows \<Rightarrow> (rows, tables w') = run sql params t \<or> (rows, tables w') = run sql params t1
      | None \<Rightarrow> tables w' = t \<or> tables w' = t1 \<or> tables w' = t2"
    using QueryLocked_effect by blast
  show ?thesis using q e by (cases r) (auto simp: MysqlConnection_Query_def Let_def run_again [OF assms])
qed

end

end
