(* ===== verification/Mysql_Wire.thy ===== *)
theory Mysql_Wire
  imports Mysql_Connection
begin

text \<open>
  The connection of \<^verbatim>\<open>src/common/mysql_connection.cpp\<close> over a wire that fails as a schedule says, with
  the tables of the room storage behind it. Every call that talks to the server takes the next event:
  the call works, fails and does nothing, or is carried out with its reply lost. The contract of the
  client library is proved for it, the calls of the connection are shown to be those the storage was
  modelled on, and a connection that dies is repaired within the call.
\<close>

section \<open>The wire\<close>

datatype wire_event = Up | Down nat | ReplyLost nat

record wire =
  wi_schedule :: "wire_event list"
  wi_db :: mysql_db
  wi_prepared :: "SqlStatement option"
  wi_arguments :: "string list"
  wi_fields :: nat
  wi_results :: "SqlRow list"
  wi_buffer :: nat

definition wire_next :: "wire \<Rightarrow> nat option \<times> bool \<times> wire" where
  "wire_next w =
     (case wi_schedule w of
        [] \<Rightarrow> (None, True, w)
      | Up # es \<Rightarrow> (None, True, w\<lparr>wi_schedule := es\<rparr>)
      | Down e # es \<Rightarrow> (Some e, False, w\<lparr>wi_schedule := es\<rparr>)
      | ReplyLost e # es \<Rightarrow> (Some e, True, w\<lparr>wi_schedule := es\<rparr>))"

definition statement_fields :: "SqlStatement \<Rightarrow> nat" where
  "statement_fields sql =
     (case sql of SelectMatchResult \<Rightarrow> 6 | SelectUnfinishedRooms \<Rightarrow> 15 | InsertMatchResult \<Rightarrow> 0 | UpsertRoom \<Rightarrow> 0)"

definition wire_results :: "wire \<Rightarrow> SqlRow list" where
  "wire_results w = (if wi_fields w = 0 then [] else wi_results w)"

definition row_fits :: "nat \<Rightarrow> SqlRow \<Rightarrow> bool" where
  "row_fits n row \<longleftrightarrow> list_all (\<lambda>v. case v of None \<Rightarrow> True | Some s \<Rightarrow> length s \<le> n) row"

definition wire_execute :: "(ms \<Rightarrow> int) \<Rightarrow> wire \<Rightarrow> mysql_error \<times> wire" where
  "wire_execute to_ts w =
     (case wi_prepared w of
        None \<Rightarrow> (Some (2030, ''statement not prepared''), w)
      | Some sql \<Rightarrow>
          (case wire_next w of (err, arrives, w1) \<Rightarrow>
             (map_option (\<lambda>e. (e, ''lost connection'')) err,
              if \<not> arrives then w1
              else case run_sql to_ts sql (wi_arguments w1) (wi_db w1) of
                (rows, db) \<Rightarrow> w1\<lparr>wi_db := db, wi_results := rows, wi_fields := statement_fields sql\<rparr>)))"

definition wire_fetch :: "wire \<Rightarrow> Fetch \<times> wire" where
  "wire_fetch w =
     (case wire_next w of
        (Some e, arrives, w1) \<Rightarrow> (FetchFailed e, w1)
      | (None, arrives, w1) \<Rightarrow>
          (case wire_results w1 of
             [] \<Rightarrow> (FetchNoData, w1)
           | r # rs \<Rightarrow> if row_fits (wi_buffer w1) r then (FetchRow r, w1\<lparr>wi_results := rs\<rparr>) else (FetchFailed 0, w1)))"

definition wire_prepare :: "SqlStatement \<Rightarrow> wire \<Rightarrow> mysql_error \<times> wire" where
  "wire_prepare sql w =
     (case wire_next w of
        (Some e, arrives, w1) \<Rightarrow> (Some (e, ''lost connection''), w1)
      | (None, arrives, w1) \<Rightarrow> (None, w1\<lparr>wi_prepared := Some sql, wi_arguments := []\<rparr>))"

definition wire_lib :: "(ms \<Rightarrow> int) \<Rightarrow> (SqlStatement, wire) Libmysql" where
  "wire_lib to_ts =
     \<lparr>ml_init = Pair True,
      ml_real_connect = \<lambda>opts w. case wire_next w of (err, arrives, w1) \<Rightarrow> (map_option (\<lambda>_. ''unreachable'') err, w1),
      ml_set_character_set = \<lambda>w. case wire_next w of (err, arrives, w1) \<Rightarrow> (err = None, w1),
      ml_close = \<lambda>w. w\<lparr>wi_prepared := None\<rparr>,
      ml_stmt_init = Pair True,
      ml_stmt_prepare = wire_prepare,
      ml_stmt_bind_param = \<lambda>params w. (None, w\<lparr>wi_arguments := params\<rparr>),
      ml_stmt_execute = wire_execute to_ts,
      ml_num_fields = wi_fields,
      ml_stmt_bind_result = \<lambda>n w. (None, w\<lparr>wi_buffer := n\<rparr>),
      ml_stmt_fetch = wire_fetch,
      ml_stmt_close = \<lambda>w. w\<lparr>wi_prepared := None\<rparr>\<rparr>"

section \<open>The contract of the library\<close>

lemma wire_next_forms:
  assumes "wire_next w = (err, arrives, w')"
  shows "wi_db w' = wi_db w" "wi_prepared w' = wi_prepared w" "wi_arguments w' = wi_arguments w"
    "wi_fields w' = wi_fields w" "wi_results w' = wi_results w" "wi_buffer w' = wi_buffer w" "err = None \<Longrightarrow> arrives"
  using assms by (auto simp: wire_next_def split: list.splits wire_event.splits)

lemma insert_result_again: "insert_result row (insert_result row rows) = insert_result row rows"
  by (auto simp: insert_result_def list_ex_iff)

lemma upsert_room_again: "upsert_room (k # vs) (upsert_room (k # vs) rows) = upsert_room (k # vs) rows"
proof (induction rows)
  case (Cons old rows)
  show ?case
  proof (cases "old ! 0 = (k # vs) ! 0 \<or> old ! 1 = (k # vs) ! 1")
    case True
    have "merge_room (k # vs) old ! 0 = (k # vs) ! 0 \<or> merge_room (k # vs) old ! 1 = (k # vs) ! 1"
      using True by (auto simp: merge_room_def)
    moreover have "merge_room (k # vs) (merge_room (k # vs) old) = merge_room (k # vs) old"
      by (simp add: merge_room_def)
    ultimately show ?thesis using True by simp
  next
    case False
    then show ?thesis using Cons by simp
  qed
qed (simp add: merge_room_def)

text \<open>The four statements may be repeated.\<close>

definition statement_params :: "SqlStatement \<Rightarrow> nat" where
  "statement_params sql =
     (case sql of InsertMatchResult \<Rightarrow> 6 | SelectMatchResult \<Rightarrow> 1 | UpsertRoom \<Rightarrow> 15 | SelectUnfinishedRooms \<Rightarrow> 0)"

lemma run_sql_again:
  assumes "length params = statement_params sql"
  shows "run_sql to_ts sql params (snd (run_sql to_ts sql params db)) = run_sql to_ts sql params db"
proof (cases sql)
  case UpsertRoom
  with assms obtain k vs where "room_row params = k # vs"
    by (cases "room_row params") (auto simp: statement_params_def room_row_def)
  then show ?thesis by (simp add: UpsertRoom upsert_room_again)
qed (simp_all add: insert_result_again)

interpretation wire: repeatable_client "wire_lib to_ts" wi_db "run_sql to_ts" wi_prepared wi_arguments wire_results
  "\<lambda>sql params. length params = statement_params sql" for to_ts
proof unfold_locales
  fix w w' :: wire and opts params n r sql e and t :: mysql_db
  show "wi_db (snd (ml_init (wire_lib to_ts) w)) = wi_db w"
    "wi_db (snd (ml_stmt_init (wire_lib to_ts) w)) = wi_db w"
    "wi_db (ml_close (wire_lib to_ts) w) = wi_db w"
    "wi_db (ml_stmt_close (wire_lib to_ts) w) = wi_db w"
    "wi_db (snd (ml_stmt_bind_param (wire_lib to_ts) params w)) = wi_db w"
    "wi_db (snd (ml_stmt_bind_result (wire_lib to_ts) n w)) = wi_db w"
    by (simp_all add: wire_lib_def)
  show "wi_db (snd (ml_real_connect (wire_lib to_ts) opts w)) = wi_db w"
    "wi_db (snd (ml_set_character_set (wire_lib to_ts) w)) = wi_db w"
    by (auto simp: wire_lib_def dest: wire_next_forms split: prod.splits)
  show "wi_db (snd (ml_stmt_prepare (wire_lib to_ts) sql w)) = wi_db w"
    by (auto simp: wire_lib_def wire_prepare_def dest: wire_next_forms split: prod.splits option.splits)
  show "ml_stmt_prepare (wire_lib to_ts) sql w = (None, w') \<Longrightarrow> wi_prepared w' = Some sql \<and> wi_arguments w' = []"
    by (auto simp: wire_lib_def wire_prepare_def split: prod.splits option.splits)
  show "ml_stmt_bind_param (wire_lib to_ts) params w = (None, w') \<Longrightarrow> wi_prepared w' = wi_prepared w \<and> wi_arguments w' = params"
    by (auto simp: wire_lib_def)
  show "ml_stmt_execute (wire_lib to_ts) w = (None, w') \<Longrightarrow> wi_prepared w = Some sql \<Longrightarrow>
      (wire_results w', wi_db w') = run_sql to_ts sql (wi_arguments w) (wi_db w)"
    by (cases sql) (auto simp: wire_lib_def wire_execute_def wire_results_def statement_fields_def wire_next_forms
        split: prod.splits if_splits dest: wire_next_forms(7))
  show "ml_stmt_execute (wire_lib to_ts) w = (Some e, w') \<Longrightarrow> wi_prepared w = Some sql \<Longrightarrow>
      wi_db w' = wi_db w \<or> wi_db w' = snd (run_sql to_ts sql (wi_arguments w) (wi_db w))"
    by (auto simp: wire_lib_def wire_execute_def wire_next_forms split: prod.splits if_splits)
  show "ml_num_fields (wire_lib to_ts) w = 0 \<Longrightarrow> wire_results w = []"
    by (simp add: wire_lib_def wire_results_def)
  show "ml_stmt_bind_result (wire_lib to_ts) n w = (None, w') \<Longrightarrow> wire_results w' = wire_results w"
    by (auto simp: wire_lib_def wire_results_def)
  show "wi_db (snd (ml_stmt_fetch (wire_lib to_ts) w)) = wi_db w"
    by (auto simp: wire_lib_def wire_fetch_def wire_next_forms split: prod.splits option.splits list.splits)
  show "ml_stmt_fetch (wire_lib to_ts) w = (FetchRow row, w') \<Longrightarrow> wire_results w = row # wire_results w'" for row
    by (auto simp: wire_lib_def wire_fetch_def wire_results_def wire_next_forms split: prod.splits option.splits list.splits if_splits)
  show "ml_stmt_fetch (wire_lib to_ts) w = (FetchNoData, w') \<Longrightarrow> wire_results w = []"
    by (auto simp: wire_lib_def wire_fetch_def wire_results_def wire_next_forms split: prod.splits option.splits list.splits if_splits)
  show "length params = statement_params sql \<Longrightarrow>
      run_sql to_ts sql params (snd (run_sql to_ts sql params t)) = run_sql to_ts sql params t"
    by (rule run_sql_again)
qed

section \<open>The calls of the connection are those of the storage\<close>

lemma query_is_storage_query:
  assumes "length params = statement_params sql"
  shows "\<exists>r c' w' f. MysqlConnection_Query (wire_lib to_ts) sql params c w = Some (r, c', w') \<and>
    mysql_query to_ts sql params ((wi_db w)\<lparr>db_faults := [f]\<rparr>) = (r, (wi_db w')\<lparr>db_faults := []\<rparr>)"
proof -
  obtain r c' w' where q: "MysqlConnection_Query (wire_lib to_ts) sql params c w = Some (r, c', w')"
    "case r of Some rows \<Rightarrow> (rows, wi_db w') = run_sql to_ts sql params (wi_db w)
      | None \<Rightarrow> wi_db w' = wi_db w \<or> wi_db w' = snd (run_sql to_ts sql params (wi_db w))"
    using wire.Query_once [OF assms] by blast
  have run: "run_sql to_ts sql params (db\<lparr>db_faults := []\<rparr>) = apsnd (db_faults_update (\<lambda>_. [])) (run_sql to_ts sql params db)" for db
    by (cases sql) simp_all
  have "\<exists>f. mysql_query to_ts sql params ((wi_db w)\<lparr>db_faults := [f]\<rparr>) = (r, (wi_db w')\<lparr>db_faults := []\<rparr>)"
  proof (cases r)
    case None
    then consider "wi_db w' = wi_db w" | "wi_db w' = snd (run_sql to_ts sql params (wi_db w))" using q(2) by auto
    then show ?thesis
    proof cases
      case 1
      then show ?thesis using None by (intro exI [of _ FailBefore]) (simp add: mysql_query_def)
    next
      case 2
      then show ?thesis using None by (intro exI [of _ FailAfter]) (simp add: mysql_query_def run)
    qed
  next
    case (Some rows)
    then have "(rows, wi_db w') = run_sql to_ts sql params (wi_db w)" using q(2) by simp
    then show ?thesis using Some by (intro exI [of _ NoFault]) (simp add: mysql_query_def run flip: \<open>(rows, wi_db w') = _\<close>)
  qed
  then show ?thesis using q(1) by blast
qed

text \<open>C33: whatever happens on the wire, a call of the connection returns, and it is one call of the abstract
  storage: it fails before the statement is executed, or fails with the statement executed once, or is
  answered with the rows of one execution. A statement that was repeated because a reply got lost
  counts once.\<close>

theorem retried_statements_count_once:
  assumes "length params = statement_params sql"
  shows "\<exists>r c' w' f. MysqlConnection_Query (wire_lib to_ts) sql params c w = Some (r, c', w') \<and>
    mysql_query to_ts sql params ((wi_db w)\<lparr>db_faults := [f]\<rparr>) = (r, (wi_db w')\<lparr>db_faults := []\<rparr>)"
  by (rule query_is_storage_query [OF assms])

section \<open>The storage over a failing wire\<close>

text \<open>The connection as the \<^verbatim>\<open>Query\<close> of the implementations of the storage. A call always returns.\<close>

definition wired_query :: "(ms \<Rightarrow> int) \<Rightarrow> (MysqlConnection \<times> wire) Query" where
  "wired_query to_ts sql params s =
     (case MysqlConnection_Query (wire_lib to_ts) sql params (fst s) (snd s) of
        None \<Rightarrow> (None, s)
      | Some (r, c, w) \<Rightarrow> (r, (c, w)))"

definition wired_db :: "fault list \<Rightarrow> MysqlConnection \<times> wire \<Rightarrow> mysql_db" where
  "wired_db fs s = (wi_db (snd s))\<lparr>db_faults := fs\<rparr>"

definition wired_writer :: "(ms \<Rightarrow> int) \<Rightarrow> (MysqlConnection \<times> wire) MatchResultWriter" where
  "wired_writer to_ts =
     \<lparr>mw_Write = MysqlMatchResultWriter_Write (Some (wired_query to_ts)),
      mw_Read = MysqlMatchResultWriter_Read (Some (wired_query to_ts))\<rparr>"

definition wired_snapshot_writer :: "(ms \<Rightarrow> int) \<Rightarrow> (MysqlConnection \<times> wire) RoomSnapshotWriter" where
  "wired_snapshot_writer to_ts = \<lparr>sw_Save = MysqlRoomSnapshotWriter_Save (Some (wired_query to_ts))\<rparr>"

definition wired_snapshot_reader :: "(ms \<Rightarrow> int) \<Rightarrow> (MysqlConnection \<times> wire) RoomSnapshotReader" where
  "wired_snapshot_reader to_ts = \<lparr>sr_LoadUnfinished = MysqlRoomSnapshotReader_LoadUnfinished (Some (wired_query to_ts))\<rparr>"

lemma wired_query_storage:
  assumes "length params = statement_params sql" "wired_query to_ts sql params s = (r, s')"
  shows "\<exists>f. mysql_query to_ts sql params (wired_db [f] s) = (r, wired_db [] s')"
proof -
  obtain r' c' w' f where "MysqlConnection_Query (wire_lib to_ts) sql params (fst s) (snd s) = Some (r', c', w')"
    "mysql_query to_ts sql params ((wi_db (snd s))\<lparr>db_faults := [f]\<rparr>) = (r', (wi_db w')\<lparr>db_faults := []\<rparr>)"
    using query_is_storage_query [OF assms(1)] by blast
  then show ?thesis using assms(2) by (auto simp: wired_query_def wired_db_def)
qed

lemma wired_calls:
  "mw_Write (wired_writer to_ts) rec s = (st, s') \<Longrightarrow>
     \<exists>fs fs'. mw_Write (mysql_writer to_ts) rec (wired_db fs s) = (st, wired_db fs' s')"
  "mw_Read (wired_writer to_ts) m s = (res, s') \<Longrightarrow>
     \<exists>fs fs'. mw_Read (mysql_writer to_ts) m (wired_db fs s) = (res, wired_db fs' s')"
  "sw_Save (wired_snapshot_writer to_ts) srec s = (sst, s') \<Longrightarrow>
     \<exists>fs fs'. sw_Save (mysql_snapshot_writer to_ts) srec (wired_db fs s) = (sst, wired_db fs' s')"
  "sr_LoadUnfinished (wired_snapshot_reader to_ts) s = (rows, s') \<Longrightarrow>
     \<exists>fs fs'. sr_LoadUnfinished (mysql_snapshot_reader to_ts) (wired_db fs s) = (rows, wired_db fs' s')"
proof -
  assume h: "mw_Write (wired_writer to_ts) rec s = (st, s')"
  let ?ps = "[mr_match_id rec, mr_room_id rec, mr_winner_id rec, to_string (mr_player_count rec),
    to_string (mr_started_at_ms rec), to_string (mr_finished_at_ms rec)]"
  obtain r s1 where q: "wired_query to_ts InsertMatchResult ?ps s = (r, s1)" by (rule prod.exhaust)
  obtain f where "mysql_query to_ts InsertMatchResult ?ps (wired_db [f] s) = (r, wired_db [] s1)"
    using wired_query_storage [OF _ q] by (auto simp: statement_params_def)
  then show "\<exists>fs fs'. mw_Write (mysql_writer to_ts) rec (wired_db fs s) = (st, wired_db fs' s')"
    using h q
    by (cases "mr_match_id rec = []"; cases r)
      ((rule exI [of _ "[]", OF exI [of _ "[]"]], simp add: wired_writer_def mysql_writer_def MysqlMatchResultWriter_Write_def split: list.splits if_splits; fail) |
       (rule exI [of _ "[f]", OF exI [of _ "[]"]], auto simp: wired_writer_def mysql_writer_def MysqlMatchResultWriter_Write_def split: list.splits if_splits))+
next
  assume h: "mw_Read (wired_writer to_ts) m s = (res, s')"
  obtain r s1 where q: "wired_query to_ts SelectMatchResult [m] s = (r, s1)" by (rule prod.exhaust)
  obtain f where "mysql_query to_ts SelectMatchResult [m] (wired_db [f] s) = (r, wired_db [] s1)"
    using wired_query_storage [OF _ q] by (auto simp: statement_params_def)
  then show "\<exists>fs fs'. mw_Read (mysql_writer to_ts) m (wired_db fs s) = (res, wired_db fs' s')"
    using h q
    by (cases "m = []"; cases r)
      ((rule exI [of _ "[]", OF exI [of _ "[]"]], simp add: wired_writer_def mysql_writer_def MysqlMatchResultWriter_Read_def split: list.splits if_splits; fail) |
       (rule exI [of _ "[f]", OF exI [of _ "[]"]], auto simp: wired_writer_def mysql_writer_def MysqlMatchResultWriter_Read_def split: list.splits if_splits))+
next
  assume h: "sw_Save (wired_snapshot_writer to_ts) srec s = (sst, s')"
  obtain r s1 where q: "wired_query to_ts UpsertRoom (snapshot_params srec) s = (r, s1)" by (rule prod.exhaust)
  obtain f where "mysql_query to_ts UpsertRoom (snapshot_params srec) (wired_db [f] s) = (r, wired_db [] s1)"
    using wired_query_storage [OF _ q] by (auto simp: statement_params_def snapshot_params_def Let_def)
  then show "\<exists>fs fs'. sw_Save (mysql_snapshot_writer to_ts) srec (wired_db fs s) = (sst, wired_db fs' s')"
    using h q
    by (cases "rr_match_id srec = [] \<or> rr_room_id srec = []"; cases r)
      ((rule exI [of _ "[]", OF exI [of _ "[]"]], simp add: wired_snapshot_writer_def mysql_snapshot_writer_def MysqlRoomSnapshotWriter_Save_def split: list.splits if_splits; fail) |
       (rule exI [of _ "[f]", OF exI [of _ "[]"]], auto simp: wired_snapshot_writer_def mysql_snapshot_writer_def MysqlRoomSnapshotWriter_Save_def split: list.splits if_splits))+
next
  assume h: "sr_LoadUnfinished (wired_snapshot_reader to_ts) s = (rows, s')"
  obtain r s1 where q: "wired_query to_ts SelectUnfinishedRooms [] s = (r, s1)" by (rule prod.exhaust)
  obtain f where "mysql_query to_ts SelectUnfinishedRooms [] (wired_db [f] s) = (r, wired_db [] s1)"
    using wired_query_storage [OF _ q] by (auto simp: statement_params_def)
  then show "\<exists>fs fs'. sr_LoadUnfinished (mysql_snapshot_reader to_ts) (wired_db fs s) = (rows, wired_db fs' s')"
    using h q
    by (cases r) (rule exI [of _ "[f]", OF exI [of _ "[]"]],
      auto simp: wired_snapshot_reader_def mysql_snapshot_reader_def MysqlRoomSnapshotReader_LoadUnfinished_def)+
qed

lemma wired_db_stored [simp]:
  "mysql_stored (wired_db fs s) = mysql_stored (wi_db (snd s))"
  "mysql_saved_at (wired_db fs s) = mysql_saved_at (wi_db (snd s))"
  by (simp_all add: wired_db_def)

interpretation wired: room_storage "wired_writer to_ts" "\<lambda>s. mysql_stored (wi_db (snd s))" "mysql_norm to_ts"
  "wired_snapshot_writer to_ts" "wired_snapshot_reader to_ts" "\<lambda>s. mysql_saved_at (wi_db (snd s))" for to_ts
proof unfold_locales
  fix rec st s s' m res x rows srec sst and t :: ms
  show "mw_Write (wired_writer to_ts) rec s = (st, s') \<Longrightarrow> mysql_stored (wi_db (snd s')) = mysql_stored (wi_db (snd s)) \<or>
      mysql_stored (wi_db (snd s)) (mr_match_id rec) = None \<and>
      mysql_stored (wi_db (snd s')) = (mysql_stored (wi_db (snd s)))(mr_match_id rec \<mapsto> mysql_norm to_ts rec)"
    by (drule wired_calls(1), elim exE, drule mysql.write_effect) auto
  show "mw_Write (wired_writer to_ts) rec s = (WriteOk, s') \<Longrightarrow> mysql_stored (wi_db (snd s')) (mr_match_id rec) \<noteq> None"
    by (drule wired_calls(1), elim exE, drule mysql.write_ok) auto
  show "mw_Read (wired_writer to_ts) m s = (res, s') \<Longrightarrow> mysql_stored (wi_db (snd s')) = mysql_stored (wi_db (snd s))"
    by (drule wired_calls(2), elim exE, drule mysql.read_effect) auto
  show "mw_Read (wired_writer to_ts) m s = ((ReadOk, x), s') \<Longrightarrow> x = mysql_stored (wi_db (snd s)) m \<and> x \<noteq> None"
    by (drule wired_calls(2), elim exE, drule mysql.read_ok) auto
  show "mw_Read (wired_writer to_ts) m s = ((ReadNotFound, x), s') \<Longrightarrow> mysql_stored (wi_db (snd s)) m = None \<or> m = []"
    by (drule wired_calls(2), elim exE, drule mysql.read_not_found) auto
  show "sw_Save (wired_snapshot_writer to_ts) srec s = (sst, s') \<Longrightarrow> mysql_saved_at (wi_db (snd s)) m = Some t \<Longrightarrow>
      \<exists>t'. mysql_saved_at (wi_db (snd s')) m = Some t' \<and> t \<le> t'"
    by (drule wired_calls(3), elim exE, drule mysql.save_monotone [of _ _ _ _ _ m t]) auto
  show "sw_Save (wired_snapshot_writer to_ts) srec s = (sst, s') \<Longrightarrow> mysql_stored (wi_db (snd s')) = mysql_stored (wi_db (snd s))"
    by (drule wired_calls(3), elim exE, drule mysql.save_stored) auto
  show "sr_LoadUnfinished (wired_snapshot_reader to_ts) s = (rows, s') \<Longrightarrow> mysql_saved_at (wi_db (snd s')) = mysql_saved_at (wi_db (snd s))"
    by (drule wired_calls(4), elim exE, drule mysql.load_effect) auto
  show "sr_LoadUnfinished (wired_snapshot_reader to_ts) s = (rows, s') \<Longrightarrow> mysql_stored (wi_db (snd s')) = mysql_stored (wi_db (snd s))"
    by (drule wired_calls(4), elim exE, drule mysql.load_stored) auto
qed

section \<open>A dead connection is repaired within the call\<close>

text \<open>Schedules with no loss, and with one loss that is reported as a lost connection.\<close>

definition wire_calm :: "wire \<Rightarrow> bool" where
  "wire_calm w \<longleftrightarrow> list_all ((=) Up) (wi_schedule w)"

fun is_loss :: "wire_event \<Rightarrow> bool" where
  "is_loss Up = False"
| "is_loss (Down e) = IsConnectionLostError e"
| "is_loss (ReplyLost e) = IsConnectionLostError e"

fun one_loss :: "wire_event list \<Rightarrow> bool" where
  "one_loss [] = True"
| "one_loss (ev # es) = (if ev = Up then one_loss es else is_loss ev \<and> list_all ((=) Up) es)"

lemma calm_next: "wire_calm w \<Longrightarrow> wire_next w = (err, arrives, w') \<Longrightarrow> err = None \<and> arrives \<and> wire_calm w'"
  by (auto simp: wire_calm_def wire_next_def split: list.splits)

lemma loss_next:
  "one_loss (wi_schedule w) \<Longrightarrow> wire_next w = (err, arrives, w') \<Longrightarrow>
   err = None \<and> arrives \<and> one_loss (wi_schedule w') \<or> (\<exists>n. err = Some n \<and> IsConnectionLostError n \<and> wire_calm w')"
  by (cases "wi_schedule w") (auto simp: wire_calm_def wire_next_def split: wire_event.splits if_splits)

lemma calm_one_loss: "wire_calm w \<Longrightarrow> one_loss (wi_schedule w)"
proof -
  have "list_all ((=) Up) es \<Longrightarrow> one_loss es" for es by (induction es) auto
  then show "wire_calm w \<Longrightarrow> one_loss (wi_schedule w)" by (simp add: wire_calm_def)
qed

lemma calm_updates [simp]:
  "wire_calm (w\<lparr>wi_db := d\<rparr>) = wire_calm w" "wire_calm (w\<lparr>wi_prepared := p\<rparr>) = wire_calm w" "wire_calm (w\<lparr>wi_arguments := a\<rparr>) = wire_calm w"
  "wire_calm (w\<lparr>wi_fields := n\<rparr>) = wire_calm w" "wire_calm (w\<lparr>wi_results := rs\<rparr>) = wire_calm w" "wire_calm (w\<lparr>wi_buffer := n\<rparr>) = wire_calm w"
  by (simp_all add: wire_calm_def)

definition all_fit :: "SqlRow list \<Rightarrow> bool" where
  "all_fit rows \<longleftrightarrow> list_all (row_fits (kColumnBufferSize - 1)) rows"

text \<open>What is kept of a wire with at most one loss ahead: after it, the rest is calm.\<close>

definition after_loss :: "wire \<Rightarrow> bool \<Rightarrow> wire \<Rightarrow> bool" where
  "after_loss w lost w' \<longleftrightarrow> (if lost then wire_calm w' \<and> \<not> wire_calm w else one_loss (wi_schedule w') \<and> (wire_calm w \<longrightarrow> wire_calm w'))"

lemma next_after:
  assumes "one_loss (wi_schedule w)" "wire_next w = (err, arrives, w')"
  shows "after_loss w (err \<noteq> None) w' \<and> (\<forall>n. err = Some n \<longrightarrow> IsConnectionLostError n)"
  using loss_next [OF assms] calm_next [OF _ assms(2)] by (auto simp: after_loss_def)

lemma fetch_rows_after:
  assumes "one_loss (wi_schedule w)" "list_all (row_fits (wi_buffer w)) (wire_results w)"
  shows "\<exists>e out w'. fetch_rows wire_fetch rows w = Some (e, out, w') \<and> after_loss w (e \<noteq> None) w' \<and>
    (\<forall>n. e = Some n \<longrightarrow> IsConnectionLostError n)"
  using assms
proof (induction "wire_results w" arbitrary: rows w)
  case Nil
  obtain err arr w1 where n: "wire_next w = (err, arr, w1)" by (metis surj_pair)
  have "wire_results w1 = []" using wire_next_forms [OF n] Nil(1) by (auto simp: wire_results_def split: if_splits)
  then show ?case
    using n next_after [OF Nil(2) n] by (cases err) (subst fetch_rows.simps; simp add: wire_fetch_def)+
next
  case (Cons r rs)
  obtain err arr w1 where n: "wire_next w = (err, arr, w1)" by (metis surj_pair)
  note same = wire_next_forms [OF n]
  note a = next_after [OF Cons.prems(1) n]
  have res: "wire_results w1 = r # rs" using same Cons.hyps(2) by (simp add: wire_results_def)
  show ?case
  proof (cases err)
    case None
    let ?w = "w1\<lparr>wi_results := rs\<rparr>"
    have fits: "row_fits (wi_buffer w1) r" "list_all (row_fits (wi_buffer w1)) rs"
      using Cons.prems(2) same by (simp_all flip: Cons.hyps(2))
    have rs: "wire_results ?w = rs" using res by (auto simp: wire_results_def split: if_splits)
    have loss: "one_loss (wi_schedule ?w)" using a None by (simp add: after_loss_def)
    obtain e out w' where "fetch_rows wire_fetch (rows @ [r]) ?w = Some (e, out, w')" "after_loss ?w (e \<noteq> None) w'"
      "\<forall>n. e = Some n \<longrightarrow> IsConnectionLostError n"
      using Cons.hyps(1) [OF rs [symmetric] loss, of "rows @ [r]"] fits rs by auto
    moreover have "wire_calm w \<longrightarrow> wire_calm ?w" using a None by (simp add: after_loss_def)
    moreover have "wire_fetch w = (FetchRow r, ?w)" using n None res fits by (simp add: wire_fetch_def)
    ultimately show ?thesis by (subst fetch_rows.simps) (auto simp: after_loss_def split: if_splits)
  next
    case (Some x)
    then show ?thesis using n a by (subst fetch_rows.simps) (simp add: wire_fetch_def)
  qed
qed

definition attempt_ok :: "wire \<Rightarrow> attempt \<Rightarrow> wire \<Rightarrow> bool" where
  "attempt_ok w a w' \<longleftrightarrow> (case a of Answered out \<Rightarrow> after_loss w False w' | Failed retry \<Rightarrow> retry \<and> after_loss w True w')"

lemma after_trans: "after_loss w False w1 \<Longrightarrow> after_loss w1 lost w2 \<Longrightarrow> after_loss w lost w2"
  by (auto simp: after_loss_def split: if_splits)

lemma attempt_ok_trans: "after_loss w False w1 \<Longrightarrow> attempt_ok w1 a w2 \<Longrightarrow> attempt_ok w a w2"
  by (cases a) (auto simp: attempt_ok_def intro: after_trans)

lemma not_zero_lost: "IsConnectionLostError n \<Longrightarrow> n \<noteq> 0"
  by (auto simp: IsConnectionLostError_def)

lemma after_same [simp]:
  "after_loss w lost (w'\<lparr>wi_db := d\<rparr>) = after_loss w lost w'" "after_loss w lost (w'\<lparr>wi_prepared := p\<rparr>) = after_loss w lost w'"
  "after_loss w lost (w'\<lparr>wi_arguments := a\<rparr>) = after_loss w lost w'" "after_loss w lost (w'\<lparr>wi_fields := n\<rparr>) = after_loss w lost w'"
  "after_loss w lost (w'\<lparr>wi_results := rs\<rparr>) = after_loss w lost w'" "after_loss w lost (w'\<lparr>wi_buffer := k\<rparr>) = after_loss w lost w'"
  by (simp_all add: after_loss_def)

lemma read_result_after:
  assumes "one_loss (wi_schedule w)" "all_fit (wire_results w)" "wi_fields w \<le> kMaxResultColumns"
  shows "\<exists>a c' w'. read_result (wire_lib to_ts) c w = Some (a, c', w') \<and> my_connected c' = my_connected c \<and> attempt_ok w a w'"
proof (cases "wi_fields w = 0")
  case True
  then show ?thesis using assms by (simp add: read_result_def wire_lib_def attempt_ok_def after_loss_def)
next
  case False
  let ?w = "w\<lparr>wi_buffer := kColumnBufferSize - 1\<rparr>"
  have "list_all (row_fits (wi_buffer ?w)) (wire_results ?w)" using assms(2) by (auto simp: all_fit_def wire_results_def split: if_splits)
  moreover have "one_loss (wi_schedule ?w)" using assms(1) by simp
  ultimately obtain e out w' where f: "fetch_rows wire_fetch [] ?w = Some (e, out, w')" "after_loss ?w (e \<noteq> None) w'"
    "\<forall>n. e = Some n \<longrightarrow> IsConnectionLostError n"
    using fetch_rows_after by blast
  have "after_loss w (e \<noteq> None) w'" using f(2) by (auto simp: after_loss_def)
  then show ?thesis
    using f False assms(3) not_zero_lost by (cases e) (auto simp: read_result_def wire_lib_def attempt_ok_def)
qed

lemma run_statement_after:
  assumes "one_loss (wi_schedule w)" "length params = statement_params sql" "all_fit (fst (run_sql to_ts sql params (wi_db w)))"
  shows "\<exists>a c' w'. run_statement (wire_lib to_ts) sql params c w = Some (a, c', w') \<and> my_connected c' = my_connected c \<and> attempt_ok w a w'"
proof -
  obtain err arr w1 where n: "wire_next w = (err, arr, w1)" by (metis surj_pair)
  note a = next_after [OF assms(1) n]
  show ?thesis
  proof (cases err)
    case (Some e)
    then show ?thesis using n a by (simp add: run_statement_def wire_lib_def wire_prepare_def attempt_ok_def)
  next
    case None
    let ?w = "w1\<lparr>wi_prepared := Some sql, wi_arguments := params\<rparr>"
    obtain err' arr' w2 where n': "wire_next ?w = (err', arr', w2)" by (metis surj_pair)
    have loss: "one_loss (wi_schedule ?w)" "after_loss w False ?w" using a None by (simp_all add: after_loss_def)
    note a' = next_after [OF loss(1) n']
    note same = wire_next_forms [OF n] wire_next_forms [OF n']
    obtain rows db where run: "run_sql to_ts sql params (wi_db w) = (rows, db)" by fastforce
    let ?v = "w2\<lparr>wi_db := db, wi_results := rows, wi_fields := statement_fields sql\<rparr>"
    have prep: "ml_stmt_prepare (wire_lib to_ts) sql w = (None, w1\<lparr>wi_prepared := Some sql, wi_arguments := []\<rparr>)"
      using n None by (simp add: wire_lib_def wire_prepare_def)
    have bind: "(if params = [] then (None, w1\<lparr>wi_prepared := Some sql, wi_arguments := []\<rparr>)
      else ml_stmt_bind_param (wire_lib to_ts) params (w1\<lparr>wi_prepared := Some sql, wi_arguments := []\<rparr>)) = (None, ?w)"
      by (simp add: wire_lib_def)
    show ?thesis
    proof (cases err')
      case (Some e)
      then have "ml_stmt_execute (wire_lib to_ts) ?w = (Some (e, ''lost connection''), if arr' then ?v else w2)"
        using n' same run by (simp add: wire_lib_def wire_execute_def)
      then have "run_statement (wire_lib to_ts) sql params c w =
          Some (Failed True, c\<lparr>my_last_error := ''execute failed: '' @ ''lost connection''\<rparr>, if arr' then ?v else w2)"
        using a' Some by (simp add: run_statement_def prep bind)
      moreover have "after_loss w True (if arr' then ?v else w2)" using after_trans [OF loss(2)] a' Some by simp
      ultimately show ?thesis by (simp add: attempt_ok_def)
    next
      case none: None
      then have exec: "ml_stmt_execute (wire_lib to_ts) ?w = (None, ?v)"
        using n' same run by (simp add: wire_lib_def wire_execute_def)
      have v: "one_loss (wi_schedule ?v)" "after_loss ?w False ?v" using a' none by (simp_all add: after_loss_def)
      have fit: "all_fit (wire_results ?v)" using assms(3) run by (simp add: wire_results_def all_fit_def)
      have "wi_fields ?v \<le> kMaxResultColumns" by (simp add: statement_fields_def kMaxResultColumns_def split: SqlStatement.split)
      from read_result_after [OF v(1) fit this] obtain a c' w' where
        "read_result (wire_lib to_ts) c ?v = Some (a, c', w')" "my_connected c' = my_connected c" "attempt_ok ?v a w'" by blast
      then show ?thesis
        using attempt_ok_trans [OF after_trans [OF loss(2) v(2)]] by (simp add: run_statement_def prep bind exec)
    qed
  qed
qed

lemma QueryOnce_connected:
  assumes "one_loss (wi_schedule w)" "length params = statement_params sql" "all_fit (fst (run_sql to_ts sql params (wi_db w)))"
    and "my_connected c"
  shows "\<exists>a c' w'. QueryOnce (wire_lib to_ts) sql params c w = Some (a, c', w') \<and> my_connected c' \<and> attempt_ok w a w'"
proof -
  obtain a c' w' where r: "run_statement (wire_lib to_ts) sql params c w = Some (a, c', w')" "my_connected c' = my_connected c"
    "attempt_ok w a w'" using run_statement_after [OF assms(1-3)] by blast
  have "ml_stmt_init (wire_lib to_ts) w = (True, w)" "ml_stmt_close (wire_lib to_ts) w' = w'\<lparr>wi_prepared := None\<rparr>"
    by (simp_all add: wire_lib_def)
  moreover have "attempt_ok w a (w'\<lparr>wi_prepared := None\<rparr>)" using r(3) by (simp add: attempt_ok_def split: attempt.splits)
  ultimately show ?thesis using r assms(4) by (simp add: QueryOnce_def EnsureConnected_def)
qed

lemma EnsureConnected_calm:
  assumes "wire_calm w"
  shows "\<exists>c' w'. EnsureConnected (wire_lib to_ts) c w = (True, c', w') \<and> my_connected c' \<and> wire_calm w' \<and> wi_db w' = wi_db w"
proof (cases "my_connected c")
  case True
  then show ?thesis using assms by (simp add: EnsureConnected_def)
next
  case False
  obtain err arr w1 where n: "wire_next w = (err, arr, w1)" by (metis surj_pair)
  obtain err' arr' w2 where n': "wire_next w1 = (err', arr', w2)" by (metis surj_pair)
  have q: "err = None" "wire_calm w1" using calm_next [OF assms n] by simp_all
  have q': "err' = None" "wire_calm w2" using calm_next [OF q(2) n'] by simp_all
  show ?thesis
    using False n n' q q' wire_next_forms(1) [OF n] wire_next_forms(1) [OF n']
    by (simp add: EnsureConnected_def wire_lib_def Let_def)
qed

lemma QueryOnce_calm:
  assumes "wire_calm w" "length params = statement_params sql" "all_fit (fst (run_sql to_ts sql params (wi_db w)))"
  shows "\<exists>out c' w'. QueryOnce (wire_lib to_ts) sql params c w = Some (Answered out, c', w') \<and> my_connected c'"
proof -
  obtain c1 w1 where e: "EnsureConnected (wire_lib to_ts) c w = (True, c1, w1)" "my_connected c1" "wire_calm w1" "wi_db w1 = wi_db w"
    using EnsureConnected_calm [OF assms(1)] by blast
  have "QueryOnce (wire_lib to_ts) sql params c w = QueryOnce (wire_lib to_ts) sql params c1 w1"
    using e by (simp add: QueryOnce_def) (simp add: EnsureConnected_def)
  moreover obtain a c' w' where "QueryOnce (wire_lib to_ts) sql params c1 w1 = Some (a, c', w')" "my_connected c'" "attempt_ok w1 a w'"
    using QueryOnce_connected [OF calm_one_loss [OF e(3)] assms(2) _ e(2), of to_ts] assms(3) e(4) by auto
  moreover have "\<exists>out. a = Answered out" using \<open>attempt_ok w1 a w'\<close> e(3) by (cases a) (auto simp: attempt_ok_def after_loss_def)
  ultimately show ?thesis by auto
qed


definition sample_wire :: "wire_event list \<Rightarrow> wire" where
  "sample_wire es = \<lparr>wi_schedule = es, wi_db = \<lparr>db_faults = [], db_results = [map Some [''m'', ''r'', ''a'', ''2'', ''0'', ''5'']], db_rooms = []\<rparr>,
     wi_prepared = None, wi_arguments = [], wi_fields = 0, wi_results = [], wi_buffer = 0\<rparr>"

definition sample_connection :: MysqlConnection where
  "sample_connection = (MysqlConnection_new \<lparr>mo_host = ''db'', mo_port = 3306, mo_user = [], mo_password = [], mo_database = [],
     mo_connect_timeout_seconds = 3, mo_read_timeout_seconds = 3, mo_write_timeout_seconds = 3\<rparr>)\<lparr>my_connected := True\<rparr>"


theorem retried_statements_count_once_witness:
  "\<exists>r c' w' f. MysqlConnection_Query (wire_lib id) SelectMatchResult [''m''] sample_connection (sample_wire [Up, ReplyLost 2013]) = Some (r, c', w') \<and>
    mysql_query id SelectMatchResult [''m''] ((wi_db (sample_wire []))\<lparr>db_faults := [f]\<rparr>) = (r, (wi_db w')\<lparr>db_faults := []\<rparr>)"
proof -
  have "length [''m''] = statement_params SelectMatchResult" by (simp add: statement_params_def)
  from retried_statements_count_once [OF this, of id sample_connection "sample_wire [Up, ReplyLost 2013]"]
  show ?thesis by (simp add: sample_wire_def)
qed

end
