(* ===== verification/Room_Wire.thy ===== *)
theory Room_Wire
  imports Room_Manager_Props Mysql_Wire
begin

text \<open>
  The room registry on top of the MySQL connection and its wire: the registry's properties hold for every
  storage that keeps the contract, and the connection keeps it whatever the wire does.
\<close>

definition wired_stored :: "MysqlConnection \<times> wire \<Rightarrow> string \<Rightarrow> MatchResultRecord option" where
  "wired_stored s = mysql_stored (wi_db (snd s))"

lemma wired_stored_eq: "(\<lambda>s. mysql_stored (wi_db (snd s))) = wired_stored"
  by (simp add: wired_stored_def fun_eq_iff)

interpretation wired_rooms: room_storage "wired_writer to_ts" wired_stored "mysql_norm to_ts"
  "wired_snapshot_writer to_ts" "wired_snapshot_reader to_ts" "\<lambda>s. mysql_saved_at (wi_db (snd s))" for to_ts
  using wired.room_storage_axioms [of to_ts] unfolding wired_stored_eq .

text \<open>C2: a result is never reported before it is durable. In every state the service reaches over a wire that may
  lose any message, a query answers
  \<open>ok\<close> only with the row that is in the result table, which for a match whose room is still in
  memory means that the room is \<open>FINISHED\<close> and the row is its own result; a match that is decided but
  not confirmed is reported as pending, and an unfinished or aborted one as not found.\<close>

theorem reported_results_are_durable:
  assumes "(manager_step (wired_writer to_ts) (wired_snapshot_writer to_ts) wired_stored)\<^sup>*\<^sup>* (empty_manager, s0) (m, s)"
    and "RoomManager_GetResult (Some (wired_writer to_ts)) mid t (m, s) = ((outcome, rec, snap), s')"
    and "\<not> bad_id mid"
  shows "(outcome = ResultOk \<longrightarrow> rec = wired_stored s mid \<and> rec \<noteq> None \<and>
      (\<forall>r. live m t mid r \<longrightarrow> br_phase r = kFinished \<and> rec = Some (mysql_norm to_ts (the (Result r))))) \<and>
    (outcome = ResultPending \<longleftrightarrow> (\<exists>r. live m t mid r \<and> br_phase r = kFinishing)) \<and>
    (\<forall>r. live m t mid r \<longrightarrow> br_phase r \<notin> {kFinishing, kFinished} \<longrightarrow>
      outcome = ResultNotFound \<and> rec = None)"
  using wired_rooms.result_queries [OF assms] by blast

theorem reported_results_are_durable_witness:
  "fst (fst (RoomManager_GetResult (Some (wired_writer ts_of)) ''m-1'' 900 (demo_manager, sample_connection, sample_wire [Down 2006]))) =
     ResultNotFound"
proof -
  let ?s = "(sample_connection, sample_wire [Down 2006])"
  have reach: "(manager_step (wired_writer ts_of) (wired_snapshot_writer ts_of) wired_stored)\<^sup>*\<^sup>* (empty_manager, ?s) (demo_manager, ?s)"
    unfolding demo_manager_def
    by (intro r_into_rtranclp manager_step.create)
      (simp_all add: empty_manager_def wired_stored_def mysql_stored_def sample_wire_def)
  obtain outcome rec snap s' where g:
    "RoomManager_GetResult (Some (wired_writer ts_of)) ''m-1'' 900 (demo_manager, ?s) = ((outcome, rec, snap), s')"
    by (metis prod.exhaust)
  have "live demo_manager 900 ''m-1'' (BattleRoom_new ''r-1'' ''m-1'' [''alice'', ''bob''] 800)"
    by (simp add: live_def demo_fields IsExpired_def)
  then show ?thesis
    using reported_results_are_durable [OF reach g] g
    by (fastforce simp: bad_id_def room_consts)
qed

end
