(* ===== verification/Drain_Wait.thy ===== *)
theory Drain_Wait
  imports RGB_Prelude
begin

text \<open>
  The waiting loop the room and gateway processes share when they drain: while there is work left and the
  deadline has not come, sleep 50 ms and look again. What the other threads do during a sleep is a list of
  events, and the clock after it a reading; the list of sleeps is the schedule of a run.
\<close>

fun wait_while ::
  "('ev list \<Rightarrow> 's \<Rightarrow> 's) \<Rightarrow> ('s \<Rightarrow> bool) \<Rightarrow> ms \<Rightarrow> ('ev list \<times> ms) list \<Rightarrow> ms \<Rightarrow> 's \<Rightarrow> ms \<times> 's" where
  "wait_while run busy deadline_ms [] now_ms s = (now_ms, s)"
| "wait_while run busy deadline_ms ((events, later_ms) # sleeps) now_ms s =
     (if busy s \<and> now_ms < deadline_ms then wait_while run busy deadline_ms sleeps later_ms (run events s) else (now_ms, s))"

text \<open>The loop is over: nothing is left to do or the deadline has come.\<close>

definition wait_over :: "('s \<Rightarrow> bool) \<Rightarrow> ms \<Rightarrow> ms \<times> 's \<Rightarrow> bool" where
  "wait_over busy deadline_ms x \<longleftrightarrow> \<not> (busy (snd x) \<and> fst x < deadline_ms)"

fun real_sleeps :: "ms \<Rightarrow> ('ev list \<times> ms) list \<Rightarrow> bool" where
  "real_sleeps now_ms [] = True"
| "real_sleeps now_ms ((events, later_ms) # sleeps) \<longleftrightarrow> now_ms + 50 \<le> later_ms \<and> real_sleeps later_ms sleeps"

text \<open>The loop ends after at most \<open>timeout div 50 + 1\<close> sleeps.\<close>

lemma wait_while_ends:
  "real_sleeps now_ms sleeps \<Longrightarrow> deadline_ms \<le> now_ms + 50 * int (length sleeps) \<Longrightarrow>
   wait_over busy deadline_ms (wait_while run busy deadline_ms sleeps now_ms s)"
proof (induction sleeps arbitrary: now_ms s)
  case (Cons x sleeps)
  obtain events later_ms where x: "x = (events, later_ms)" by (cases x)
  show ?case
  proof (cases "busy s \<and> now_ms < deadline_ms")
    case True
    then show ?thesis using Cons.IH [of later_ms "run events s"] Cons.prems by (simp add: x)
  qed (auto simp: x wait_over_def)
qed (auto simp: wait_over_def)

lemma wait_while_keeps:
  "(\<And>events s. P s \<Longrightarrow> P (run events s)) \<Longrightarrow> P s \<Longrightarrow> P (snd (wait_while run busy deadline_ms sleeps now_ms s))"
  by (induction sleeps arbitrary: now_ms s) auto

end
