(* ===== verification/Room_Drain.thy ===== *)
theory Room_Drain
  imports Room_Wire Drain_Wait
begin

text \<open>
  How the room process ends, \<^verbatim>\<open>src/room/room_main.cpp\<close> after its signal: no new rooms, a wait for the running
  matches and for the results that are not written yet, the rest aborted, and a last tick for the final
  snapshots. The ticking thread and the request threads go on all the time.
\<close>

section \<open>The sequence\<close>

text \<open>The calls of the other threads.\<close>

datatype room_event = RcCreate string "string list" ms string | RcJoin string string ms | RcInput string string InputKind
  | RcPresence string string bool ms | RcState string ms | RcResult string ms | RcSnapshots string frame_no ms | RcTick ms

fun room_call :: "'db MatchResultWriter \<Rightarrow> 'db RoomSnapshotWriter \<Rightarrow> room_event \<Rightarrow> RoomManager \<times> 'db \<Rightarrow> RoomManager \<times> 'db" where
  "room_call w sw (RcCreate mid ps t new_id) (m, db) = (snd (RoomManager_Create mid ps t new_id m), db)"
| "room_call w sw (RcJoin rid p t) (m, db) = (snd (RoomManager_Join rid p t m), db)"
| "room_call w sw (RcInput rid p k) (m, db) = (snd (RoomManager_SubmitInput rid p k m), db)"
| "room_call w sw (RcPresence rid p b t) (m, db) = (snd (RoomManager_SetPresence rid p b t m), db)"
| "room_call w sw (RcState rid t) (m, db) = (snd (RoomManager_GetState rid t m), db)"
| "room_call w sw (RcResult mid t) (m, db) = snd (RoomManager_GetResult (Some w) mid t (m, db))"
| "room_call w sw (RcSnapshots rid f t) (m, db) = (snd (RoomManager_GetSnapshotsSince rid f t m), db)"
| "room_call w sw (RcTick t) (m, db) = RoomManager_Tick (Some w) (Some sw) t (m, db)"

definition room_calls :: "'db MatchResultWriter \<Rightarrow> 'db RoomSnapshotWriter \<Rightarrow> room_event list \<Rightarrow> RoomManager \<times> 'db \<Rightarrow> RoomManager \<times> 'db" where
  "room_calls w sw calls s = fold (room_call w sw) calls s"

definition drain_busy :: "RoomManager \<times> 'db \<Rightarrow> bool" where
  "drain_busy s \<longleftrightarrow> UnfinishedGameCount (fst s) > 0 \<or> PendingResultCount (fst s) > 0"

text \<open>\<open>before\<close> are the calls of the other threads between the last look of the loop and the count of the rest,
  \<open>between\<close> those before the abort and \<open>late\<close> those before the last tick; the three clocks are the readings
  at the start, for the abort and for the tick.\<close>

definition room_drain ::
  "'db MatchResultWriter \<Rightarrow> 'db RoomSnapshotWriter \<Rightarrow> ms \<Rightarrow> (room_event list \<times> ms) list \<Rightarrow>
   room_event list \<Rightarrow> room_event list \<Rightarrow> room_event list \<Rightarrow> ms \<Rightarrow> ms \<Rightarrow> ms \<Rightarrow> RoomManager \<times> 'db \<Rightarrow> nat \<times> RoomManager \<times> 'db" where
  "room_drain w sw drain_timeout_flag_ms sleeps before between late start_ms abort_ms tick_ms s =
     (let drain_timeout_ms = (if drain_timeout_flag_ms > 0 then drain_timeout_flag_ms else 0);
          waited = room_calls w sw before (snd (wait_while (room_calls w sw) drain_busy (start_ms + drain_timeout_ms) sleeps start_ms
            (BeginShutdown (fst s), snd s)));
          (aborted, rest) = (if UnfinishedGameCount (fst waited) > 0 then AbortUnfinishedGames (Some sw) abort_ms (room_calls w sw between waited)
            else (0, waited))
      in (aborted, RoomManager_Tick (Some w) (Some sw) tick_ms (room_calls w sw late rest)))"

section \<open>What a draining registry does to its rooms\<close>

definition drains :: "RoomManager \<Rightarrow> RoomManager \<Rightarrow> bool" where
  "drains m m' \<longleftrightarrow> rm_shutting_down m' = rm_shutting_down m \<and>
     (\<forall>rid r'. map_of (rm_rooms m') rid = Some r' \<longrightarrow> (\<exists>r. map_of (rm_rooms m) rid = Some r \<and> evolves r r'))"

lemma drains_refl [simp]: "drains m m"
  by (auto simp: drains_def)

lemma drains_trans: "drains m m1 \<Longrightarrow> drains m1 m2 \<Longrightarrow> drains m m2"
  unfolding drains_def by (meson evolves_trans)

lemma drains_Reap: "index_inv m \<Longrightarrow> drains m (ReapExpiredLocked t m)"
  by (auto simp: drains_def Reap_rooms_Some)

lemma drains_update:
  assumes "map_of (rm_rooms m) rid = Some r" "evolves r r'"
  shows "drains m (m\<lparr>rm_rooms := AList.update rid r' (rm_rooms m)\<rparr>)"
  using assms by (auto simp: drains_def update_conv')

lemma drains_calls:
  "rooms_inv m \<Longrightarrow> drains m (snd (RoomManager_Join rid p t m))" "drains m (snd (RoomManager_SubmitInput rid p k m))"
  "drains m (snd (RoomManager_SetPresence rid p b t m))"
  by (auto simp: RoomManager_Join_def RoomManager_SubmitInput_def RoomManager_SetPresence_def case_prod_beta
      split: option.split intro!: drains_update evolves_Join evolves_SubmitInput evolves_SetPresence dest: rooms_invD)

lemma drains_Create: "index_inv m \<Longrightarrow> rm_shutting_down m \<Longrightarrow> snd (RoomManager_Create mid ps t new_id m) = m"
  by (simp add: Create_eq split: option.split)

lemma drains_persist_one: "persist_one w t rid (m, db) = (m', db') \<Longrightarrow> drains m m'"
  by (auto simp: persist_one_def persist_mark_def split: option.splits prod.splits if_splits
      intro!: drains_update evolves_marks)

lemma drains_persist_fold: "fold (persist_one w t) ids s = (m', db') \<Longrightarrow> drains (fst s) m'"
proof (induction ids arbitrary: s)
  case (Cons rid ids)
  obtain m1 db1 where p: "persist_one w t rid s = (m1, db1)" by fastforce
  then show ?case
    using Cons.IH [of "(m1, db1)"] Cons.prems drains_persist_one [of w t rid "fst s" "snd s" m1 db1] drains_trans by auto
qed simp

definition drained_from ::
  "('db \<Rightarrow> string \<Rightarrow> MatchResultRecord option) \<Rightarrow> (MatchResultRecord \<Rightarrow> MatchResultRecord) \<Rightarrow> RoomManager \<times> 'db \<Rightarrow> RoomManager \<times> 'db \<Rightarrow> bool" where
  "drained_from stored norm s s' \<longleftrightarrow> sound (stored (snd s')) norm (fst s') \<and> drains (fst s) (fst s') \<and>
     (\<forall>mid x. stored (snd s) mid = Some x \<longrightarrow> stored (snd s') mid = Some x)"

lemma drained_from_trans: "drained_from stored norm s s1 \<Longrightarrow> drained_from stored norm s1 s2 \<Longrightarrow> drained_from stored norm s s2"
  unfolding drained_from_def using drains_trans by blast

context room_storage
begin

lemma drains_Tick:
  assumes "sound (stored db) norm m" "RoomManager_Tick (Some w) (Some sw) t (m, db) = (m', db')"
  shows "drains m m'"
proof -
  obtain ids recs m1 where tl: "tick_locked True t m = ((ids, recs), m1)" by (metis prod.exhaust)
  define st where "st = fst (if True then fold (collect_snapshot t) (ticked t m) (rm_snapshot_state m, []) else (rm_snapshot_state m, []))"
  let ?m = "m\<lparr>rm_rooms := ticked t m, rm_snapshot_state := st\<rparr>"
  have m: "keys_distinct (rm_rooms m)" "rooms_inv m" using assms(1) by (simp_all add: sound_def manager_inv_def index_inv_def)
  have "drains m ?m"
    using m(2) by (auto simp: drains_def ticked_def map_of_map_values rooms_inv_def intro!: evolves_Tick)
  moreover have "index_inv ?m"
    using sound_ticked [OF assms(1), where t = t and b = True] unfolding st_def [symmetric] by (simp add: sound_def manager_inv_def)
  moreover have "m1 = ReapExpiredLocked t ?m" using tl by (simp add: tick_locked_eq Let_def st_def)
  ultimately have "drains m m1" using drains_Reap drains_trans by blast
  moreover have "drains m1 (fst (FlushSnapshots (Some sw) recs (m1, db)))"
    by (auto simp: drains_def)
  moreover have "drains (fst (FlushSnapshots (Some sw) recs (m1, db))) m'"
    using assms(2) by (intro drains_persist_fold [of "Some w" t ids]) (simp add: RoomManager_Tick_def tl)
  ultimately show ?thesis using drains_trans by blast
qed

lemma room_call_step:
  assumes "sound (stored db) norm m" "rm_shutting_down m" "room_call w sw c (m, db) = (m', db')"
  shows "sound (stored db') norm m' \<and> drains m m' \<and> (\<forall>mid x. stored db mid = Some x \<longrightarrow> stored db' mid = Some x)"
proof -
  have i: "index_inv m" "rooms_inv m" using assms(1) by (simp_all add: sound_def manager_inv_def)
  have step: ?thesis if "manager_step w sw stored (m, db) (m', db')" "drains m m'"
    using manager_step_sound [OF that(1) assms(1)] that(2) by blast
  show ?thesis
  proof (cases c)
    case (RcCreate mid ps t new_id)
    then show ?thesis using assms drains_Create [OF i(1) assms(2)] by simp
  next
    case (RcJoin rid p t)
    then show ?thesis using assms(3) drains_calls(1) [OF i(2)] by (intro step) (auto intro: manager_step.join)
  next
    case (RcInput rid p k)
    then show ?thesis using assms(3) drains_calls(2) [of m] by (intro step) (auto intro: manager_step.submit)
  next
    case (RcPresence rid p b t)
    then show ?thesis using assms(3) drains_calls(3) [of m] by (intro step) (auto intro: manager_step.presence)
  next
    case (RcState rid t)
    then have "m' = ReapExpiredLocked t m" "db' = db" using assms(3) by (auto simp: RoomManager_GetState_def Let_def)
    then show ?thesis using assms(1) drains_Reap [OF i(1)] by (simp add: sound_Reap)
  next
    case (RcResult mid t)
    then have "stored db' = stored db \<and> (m' = m \<or> m' = ReapExpiredLocked t m)"
      using assms(3) GetResult_db [of mid t m db _ m' db'] by (metis prod.collapse room_call.simps(6))
    then show ?thesis using assms(1) drains_Reap [OF i(1)] by (auto simp: sound_Reap)
  next
    case (RcSnapshots rid f t)
    then have "m' = ReapExpiredLocked t m" "db' = db"
      using assms(3) by (auto simp: RoomManager_GetSnapshotsSince_def Let_def split: option.splits if_splits)
    then show ?thesis using assms(1) drains_Reap [OF i(1)] by (simp add: sound_Reap)
  next
    case (RcTick t)
    then show ?thesis using assms(3) drains_Tick [OF assms(1)] sound_Tick [OF assms(1)] by simp
  qed
qed

lemma drained_from_call:
  "drained_from stored norm s s1 \<Longrightarrow> rm_shutting_down (fst s) \<Longrightarrow> drained_from stored norm s (room_call w sw c s1)"
proof -
  assume d: "drained_from stored norm s s1" and sh: "rm_shutting_down (fst s)"
  obtain m' db' where c: "room_call w sw c (fst s1, snd s1) = (m', db')" by fastforce
  have "rm_shutting_down (fst s1)" using d sh by (simp add: drained_from_def drains_def)
  with d have "drained_from stored norm s1 (m', db')"
    using room_call_step [OF _ _ c] by (simp add: drained_from_def)
  then show "drained_from stored norm s (room_call w sw c s1)" using drained_from_trans [OF d] c by simp
qed

lemma drained_from_calls:
  "drained_from stored norm s s1 \<Longrightarrow> rm_shutting_down (fst s) \<Longrightarrow> drained_from stored norm s (room_calls w sw cs s1)"
  unfolding room_calls_def by (induction cs arbitrary: s1) (simp_all add: drained_from_call)

lemma drained_from_abort:
  assumes "drained_from stored norm s s1" "AbortUnfinishedGames (Some sw) t s1 = (n, s2)"
  shows "drained_from stored norm s s2 \<and> open_rooms (rm_rooms (fst s2)) = []"
proof -
  have so: "sound (stored (snd s1)) norm (fst s1)" using assms(1) by (simp add: drained_from_def)
  have d: "keys_distinct (rm_rooms (fst s1))" using so by (simp add: sound_def manager_inv_def index_inv_def)
  obtain m1 db1 m2 db2 where s1: "s1 = (m1, db1)" and s2: "s2 = (m2, db2)" by fastforce
  note eq = Abort_games_eq [OF d, of "Some sw" t "snd s1"]
  have fl: "(m2, db2) = snd (AbortUnfinishedGames (Some sw) t (fst s1, snd s1))" using assms(2) s2 by simp
  have rooms: "rm_rooms m2 = map_values (abort_room t) (rm_rooms m1)" "rm_shutting_down m2 = rm_shutting_down m1"
    using arg_cong [OF fl, of "\<lambda>x. rm_rooms (fst x)"] arg_cong [OF fl, of "\<lambda>x. rm_shutting_down (fst x)"]
    unfolding eq by (simp_all add: s1)
  have st: "stored db2 = stored db1" using arg_cong [OF fl, of "\<lambda>x. stored (snd x)"] unfolding eq by (simp add: Flush_stored s1)
  have "sound (stored db1) norm m2"
    using sound_AbortUnfinishedGames [OF so, of "Some sw" t "snd s1"] arg_cong [OF fl, of fst] by (simp add: s1)
  moreover have "drains m1 m2"
    by (auto simp: drains_def rooms abort_room_def unfinished_not_ended intro!: evolves_Abort)
  moreover have "open_rooms (rm_rooms m2) = []" by (simp add: rooms open_rooms_aborted)
  ultimately have "drained_from stored norm s1 s2" by (simp add: drained_from_def s1 s2 st)
  then show ?thesis using drained_from_trans [OF assms(1)] \<open>open_rooms (rm_rooms m2) = []\<close> by (simp add: s2)
qed

lemma drains_open: "drains m m' \<Longrightarrow> open_rooms (rm_rooms m) = [] \<Longrightarrow> keys_distinct (rm_rooms m') \<Longrightarrow> keys_distinct (rm_rooms m) \<Longrightarrow>
  open_rooms (rm_rooms m') = []"
proof -
  assume d: "drains m m'" and o: "open_rooms (rm_rooms m) = []" and k: "keys_distinct (rm_rooms m')" "keys_distinct (rm_rooms m)"
  have "ended (br_phase r')" if r': "(rid, r') \<in> set (rm_rooms m')" for rid r'
  proof -
    have "map_of (rm_rooms m') rid = Some r'" using r' k(1) by (simp add: map_of_iff_in_set)
    then obtain r where r: "map_of (rm_rooms m) rid = Some r" "evolves r r'" using d by (auto simp: drains_def)
    then have "(rid, r) \<in> set (rm_rooms m)" by (simp add: map_of_iff_in_set k(2))
    then have "ended (br_phase r)" using o by (force simp: open_rooms_def filter_empty_conv unfinished_not_ended)
    then show ?thesis using r(2) by (auto simp: evolves_def ended_rank)
  qed
  then show ?thesis by (force simp: open_rooms_def filter_empty_conv unfinished_not_ended)
qed

lemma room_drain_ends:
  assumes "sound (stored db) norm m" "room_drain w sw flag sleeps before between late t0 t1 t2 (m, db) = (n, m', db')"
  shows "drained_from stored norm (BeginShutdown m, db) (m', db') \<and> UnfinishedGameCount m' = 0"
proof -
  let ?s0 = "(BeginShutdown m, db)"
  define waited where "waited = room_calls w sw before (snd (wait_while (room_calls w sw) drain_busy (t0 + (if flag > 0 then flag else 0)) sleeps t0 ?s0))"
  define rest where "rest = snd (if UnfinishedGameCount (fst waited) > 0 then AbortUnfinishedGames (Some sw) t1 (room_calls w sw between waited) else (0, waited))"
  have sh: "rm_shutting_down (fst ?s0)" by simp
  have "sound (stored db) norm (BeginShutdown m)"
    using assms(1) by (simp add: BeginShutdown_def sound_def manager_inv_def index_inv_def rooms_inv_def linked_def)
  then have d0: "drained_from stored norm ?s0 ?s0" by (simp add: drained_from_def)
  have d1: "drained_from stored norm ?s0 waited"
    unfolding waited_def by (rule drained_from_calls [OF wait_while_keeps [where P = "drained_from stored norm ?s0"]]) (use d0 sh drained_from_calls in auto)
  have d2: "drained_from stored norm ?s0 rest \<and> open_rooms (rm_rooms (fst rest)) = []"
  proof (cases "UnfinishedGameCount (fst waited) > 0")
    case True
    have "drained_from stored norm ?s0 (room_calls w sw between waited)" by (rule drained_from_calls [OF d1 sh])
    from drained_from_abort [OF this, of t1 "fst (AbortUnfinishedGames (Some sw) t1 (room_calls w sw between waited))" rest]
    show ?thesis using True by (simp add: rest_def)
  next
    case False
    then show ?thesis using d1 by (simp add: rest_def UnfinishedGameCount_open)
  qed
  have d3: "drained_from stored norm ?s0 (room_call w sw (RcTick t2) (room_calls w sw late rest))"
    using drained_from_call drained_from_calls d2 sh by blast
  have r0: "drained_from stored norm rest rest" using d2 by (simp add: drained_from_def)
  have shr: "rm_shutting_down (fst rest)" using d2 sh by (simp add: drained_from_def drains_def)
  have d4: "drained_from stored norm rest (room_call w sw (RcTick t2) (room_calls w sw late rest))"
    using drained_from_call drained_from_calls r0 shr by blast
  have e: "(m', db') = room_call w sw (RcTick t2) (room_calls w sw late rest)"
    using assms(2) unfolding room_drain_def Let_def prod.sel waited_def [symmetric]
    by (cases "room_calls w sw late rest") (auto simp: rest_def split: prod.splits)
  have k: "keys_distinct (rm_rooms (fst rest))" "keys_distinct (rm_rooms m')"
    using d2 d3 unfolding e [symmetric] by (simp_all add: drained_from_def sound_def manager_inv_def index_inv_def)
  have "open_rooms (rm_rooms m') = []"
    using drains_open [OF _ _ k(2,1)] d2 d4 unfolding e [symmetric] by (simp add: drained_from_def)
  then show ?thesis using d3 unfolding e [symmetric] by (simp add: UnfinishedGameCount_open)
qed

end

section \<open>After the drain\<close>



end
