(* ===== verification/Match_Codec.thy ===== *)
theory Match_Codec
  imports Decimal
begin

text \<open>
  The line format of the queue snapshot: \<^verbatim>\<open>src/match/match_queue_store.hpp\<close> and
  \<^verbatim>\<open>src/match/match_queue_store.cpp\<close>. A line is the version character, the kind of the entry and
  its fields, a string as \<^verbatim>\<open><length>:<bytes>\<close> and an integer as \<^verbatim>\<open><digits>;\<close>.

  The \<^verbatim>\<open>Reader\<close> of the code is a text and a position in it; the model keeps the part not yet read,
  so that "past the end" is the empty list. \<^verbatim>\<open>MatchQueueSnapshotRow::problem\<close> is a value of the type
  \<open>EntryProblem\<close> instead of a text, and a row is the problem or the entry: nothing reads the
  half-filled entry of a row with a problem.
\<close>

section \<open>Data\<close>

definition kSnapshotFormatVersion :: char where "kSnapshotFormatVersion = CHR ''1''"
definition kMaxPlayersPerSnapshotGroup :: nat where "kMaxPlayersPerSnapshotGroup = 8"
definition kMaxFieldLength :: nat where "kMaxFieldLength = 64"

datatype SnapshotEntryKind = EntryQueued | EntryMatched

record MatchQueueEntry =
  me_kind :: SnapshotEntryKind
  me_player_id :: string
  me_queued_at_ms :: ms
  me_match_id :: string
  me_room_id :: string
  me_player_ids :: "string list"
  me_stamp_ms :: ms

definition default_entry :: MatchQueueEntry where
  "default_entry = \<lparr>me_kind = EntryQueued, me_player_id = [], me_queued_at_ms = 0, me_match_id = [],
     me_room_id = [], me_player_ids = [], me_stamp_ms = 0\<rparr>"

datatype EntryProblem = EmptyLine | UnknownVersion char | MissingKind | UnknownKind char
  | TruncatedField | PlayerCountOutOfRange int | TrailingBytes | BadPlayerId | BadQueuedAt
  | BadMatchId | BadRoomId | BadStamp | BadPlayerCount | BadMember | NotAString

type_synonym MatchQueueSnapshotRow = "EntryProblem + MatchQueueEntry"

record MatchQueueSnapshot =
  sn_queued :: "MatchQueueEntry list"
  sn_matched :: "MatchQueueEntry list"

section \<open>Writing\<close>

definition AppendString :: "string \<Rightarrow> string \<Rightarrow> string" where
  "AppendString out value = out @ to_string (int (length value)) @ CHR '':'' # value"

definition AppendInt :: "string \<Rightarrow> int \<Rightarrow> string" where
  "AppendInt out value = out @ to_string value @ [CHR '';'']"

definition ValidIdentifier :: "string \<Rightarrow> bool" where
  "ValidIdentifier value \<longleftrightarrow> value \<noteq> [] \<and> length value \<le> kMaxFieldLength"

definition ValidateEntry :: "MatchQueueEntry \<Rightarrow> EntryProblem option" where
  "ValidateEntry entry =
     (if me_kind entry = EntryQueued then
        if \<not> ValidIdentifier (me_player_id entry) then Some BadPlayerId
        else if me_queued_at_ms entry \<le> 0 then Some BadQueuedAt
        else None
      else if \<not> ValidIdentifier (me_match_id entry) then Some BadMatchId
      else if \<not> ValidIdentifier (me_room_id entry) then Some BadRoomId
      else if me_stamp_ms entry \<le> 0 then Some BadStamp
      else if me_player_ids entry = [] \<or> length (me_player_ids entry) > kMaxPlayersPerSnapshotGroup
        then Some BadPlayerCount
      else if list_ex (\<lambda>p. \<not> ValidIdentifier p) (me_player_ids entry) then Some BadMember
      else None)"

definition EncodeMatchQueueEntry :: "MatchQueueEntry \<Rightarrow> string option" where
  "EncodeMatchQueueEntry entry =
     (if ValidateEntry entry \<noteq> None then None
      else Some
        (if me_kind entry = EntryQueued then
           AppendInt (AppendString [kSnapshotFormatVersion, CHR ''Q''] (me_player_id entry))
             (me_queued_at_ms entry)
         else
           foldl AppendString
             (AppendInt
               (AppendInt
                 (AppendString
                   (AppendString [kSnapshotFormatVersion, CHR ''M''] (me_match_id entry))
                   (me_room_id entry))
                 (me_stamp_ms entry))
               (int (length (me_player_ids entry))))
             (me_player_ids entry)))"

section \<open>Reading\<close>

text \<open>\<^verbatim>\<open>std::from_chars\<close> into a \<^verbatim>\<open>std::size_t\<close> and into a \<^verbatim>\<open>std::int64_t\<close>, with what follows the number.\<close>

definition from_chars_size :: "string \<Rightarrow> (nat \<times> string) option" where
  "from_chars_size s =
     (let ds = takeWhile is_digit s in
      if ds = [] \<or> digits_value ds \<ge> 2 ^ 64 then None
      else Some (digits_value ds, dropWhile is_digit s))"

definition from_chars_int :: "string \<Rightarrow> (int \<times> string) option" where
  "from_chars_int s =
     (let rest = (case s of c # cs \<Rightarrow> if c = CHR ''-'' then cs else s | [] \<Rightarrow> [])
      in map_option (\<lambda>v. (v, dropWhile is_digit rest)) (from_chars s))"

type_synonym Reader = string

definition ReadChar :: "Reader \<Rightarrow> (char \<times> Reader) option" where
  "ReadChar rd = (case rd of [] \<Rightarrow> None | c # rest \<Rightarrow> Some (c, rest))"

definition ReadString :: "Reader \<Rightarrow> (string \<times> Reader) option" where
  "ReadString rd =
     (case from_chars_size rd of
        None \<Rightarrow> None
      | Some (len, ptr) \<Rightarrow>
          (case ptr of
             [] \<Rightarrow> None
           | c # rest \<Rightarrow>
               if c \<noteq> CHR '':'' then None
               else if len > length rest then None
               else Some (take len rest, drop len rest)))"

definition ReadInt :: "Reader \<Rightarrow> (int \<times> Reader) option" where
  "ReadInt rd =
     (case from_chars_int rd of
        None \<Rightarrow> None
      | Some (v, ptr) \<Rightarrow>
          (case ptr of [] \<Rightarrow> None | c # rest \<Rightarrow> if c \<noteq> CHR '';'' then None else Some (v, rest)))"

text \<open>The loop over the members of a match.\<close>

fun ReadStrings :: "nat \<Rightarrow> Reader \<Rightarrow> (string list \<times> Reader) option" where
  "ReadStrings 0 rd = Some ([], rd)"
| "ReadStrings (Suc n) rd =
     (case ReadString rd of
        None \<Rightarrow> None
      | Some (s, rd') \<Rightarrow> map_option (apfst ((#) s)) (ReadStrings n rd'))"

definition ReadQueued :: "Reader \<Rightarrow> EntryProblem + (MatchQueueEntry \<times> Reader)" where
  "ReadQueued rd =
     (case ReadString rd of
        None \<Rightarrow> Inl TruncatedField
      | Some (player_id, rd1) \<Rightarrow>
          (case ReadInt rd1 of
             None \<Rightarrow> Inl TruncatedField
           | Some (queued_at_ms, rd2) \<Rightarrow>
               Inr (default_entry\<lparr>me_kind := EntryQueued, me_player_id := player_id,
                      me_queued_at_ms := queued_at_ms\<rparr>, rd2)))"

definition ReadMatched :: "Reader \<Rightarrow> EntryProblem + (MatchQueueEntry \<times> Reader)" where
  "ReadMatched rd =
     (case ReadString rd of
        None \<Rightarrow> Inl TruncatedField
      | Some (match_id, rd1) \<Rightarrow>
     (case ReadString rd1 of
        None \<Rightarrow> Inl TruncatedField
      | Some (room_id, rd2) \<Rightarrow>
     (case ReadInt rd2 of
        None \<Rightarrow> Inl TruncatedField
      | Some (stamp_ms, rd3) \<Rightarrow>
     (case ReadInt rd3 of
        None \<Rightarrow> Inl TruncatedField
      | Some (count, rd4) \<Rightarrow>
          if count \<le> 0 \<or> count > int kMaxPlayersPerSnapshotGroup then Inl (PlayerCountOutOfRange count)
          else (case ReadStrings (nat count) rd4 of
                  None \<Rightarrow> Inl TruncatedField
                | Some (player_ids, rd5) \<Rightarrow>
                    Inr (default_entry\<lparr>me_kind := EntryMatched, me_match_id := match_id,
                           me_room_id := room_id, me_stamp_ms := stamp_ms,
                           me_player_ids := player_ids\<rparr>, rd5))))))"

definition DecodeMatchQueueEntry :: "string \<Rightarrow> MatchQueueSnapshotRow" where
  "DecodeMatchQueueEntry line =
     (case ReadChar line of
        None \<Rightarrow> Inl EmptyLine
      | Some (version, rd) \<Rightarrow>
          if version \<noteq> kSnapshotFormatVersion then Inl (UnknownVersion version)
          else (case ReadChar rd of
                  None \<Rightarrow> Inl MissingKind
                | Some (kind, rd') \<Rightarrow>
                    (case (if kind = CHR ''Q'' then ReadQueued rd'
                           else if kind = CHR ''M'' then ReadMatched rd'
                           else Inl (UnknownKind kind)) of
                       Inl problem \<Rightarrow> Inl problem
                     | Inr (entry, rd'') \<Rightarrow>
                         if rd'' \<noteq> [] then Inl TrailingBytes
                         else (case ValidateEntry entry of Some problem \<Rightarrow> Inl problem | None \<Rightarrow> Inr entry))))"

section \<open>Reading back what was written\<close>

lemma takeWhile_digits_append:
  "\<not> is_digit c \<Longrightarrow> takeWhile is_digit (nat_digits n @ c # t) = nat_digits n"
  "\<not> is_digit c \<Longrightarrow> dropWhile is_digit (nat_digits n @ c # t) = c # t"
proof -
  assume c: "\<not> is_digit c"
  have d: "\<And>x. x \<in> set (nat_digits n) \<Longrightarrow> is_digit x" using nat_digits_props by blast
  show "takeWhile is_digit (nat_digits n @ c # t) = nat_digits n"
    using takeWhile_append2 [of "nat_digits n" is_digit "c # t"] c d by simp
  show "dropWhile is_digit (nat_digits n @ c # t) = c # t"
    using dropWhile_append2 [of "nat_digits n" is_digit "c # t"] c d by simp
qed

lemma separators_not_digits [simp]: "\<not> is_digit CHR '':''" "\<not> is_digit CHR '';''" "\<not> is_digit CHR ''-''"
  by (simp_all add: is_digit_def)

lemma from_chars_size_append:
  "\<not> is_digit c \<Longrightarrow> n < 2 ^ 64 \<Longrightarrow> from_chars_size (nat_digits n @ c # t) = Some (n, c # t)"
  using nat_digits_props [of n] by (simp add: from_chars_size_def takeWhile_digits_append)

lemma nat_digits_first: "\<exists>x xs. nat_digits n = x # xs \<and> x \<noteq> CHR ''-''"
  using nat_digits_props [of n] is_digit_not_minus by (cases "nat_digits n") auto

lemma from_chars_only_digits:
  "from_chars s = from_chars (case s of c # cs \<Rightarrow> if c = CHR ''-'' then c # takeWhile is_digit cs
       else takeWhile is_digit s | [] \<Rightarrow> [])"
  by (auto simp: from_chars_def Let_def takeWhile_idem is_digit_def split: list.splits)

lemma from_chars_int_append:
  assumes c: "\<not> is_digit c" and i: "in_int64 i"
  shows "from_chars_int (to_string i @ c # t) = Some (i, c # t)"
proof (cases "i < 0")
  case True
  have "from_chars (CHR ''-'' # nat_digits (nat (- i)) @ c # t) = Some i"
    using c i True by (subst from_chars_only_digits)
      (simp add: takeWhile_digits_append from_chars_minus_digits)
  then show ?thesis using True c by (simp add: from_chars_int_def to_string_def takeWhile_digits_append)
next
  case False
  obtain x xs where x: "nat_digits (nat i) = x # xs" "x \<noteq> CHR ''-''" using nat_digits_first by blast
  have s: "to_string i @ c # t = x # xs @ c # t" using False x by (simp add: to_string_def)
  have tw: "takeWhile is_digit (x # xs @ c # t) = nat_digits (nat i)"
    and dw: "dropWhile is_digit (x # xs @ c # t) = c # t"
    using takeWhile_digits_append [OF c, of "nat i" t] x by simp_all
  have "from_chars (x # xs @ c # t) = from_chars (nat_digits (nat i))"
    using x(2) tw by (subst from_chars_only_digits) simp
  then have "from_chars (x # xs @ c # t) = Some i" using i False by (simp add: from_chars_digits)
  then show ?thesis using s x(2) dw by (simp add: from_chars_int_def del: dropWhile.simps)
qed

lemma ReadString_AppendString:
  assumes "length v < 2 ^ 64"
  shows "ReadString (AppendString [] v @ t) = Some (v, t)"
proof -
  have "AppendString [] v @ t = nat_digits (length v) @ CHR '':'' # v @ t"
    by (simp add: AppendString_def to_string_def)
  then show ?thesis using assms by (simp add: ReadString_def from_chars_size_append)
qed

lemma ReadInt_AppendInt: "in_int64 i \<Longrightarrow> ReadInt (AppendInt [] i @ t) = Some (i, t)"
  by (simp add: ReadInt_def AppendInt_def from_chars_int_append)

lemma Append_prefix: "AppendString out v = out @ AppendString [] v" "AppendInt out i = out @ AppendInt [] i"
  by (simp_all add: AppendString_def AppendInt_def)

lemma foldl_AppendString: "foldl AppendString out vs = out @ concat (map (AppendString []) vs)"
proof (induction vs arbitrary: out)
  case (Cons v vs)
  have "foldl AppendString out (v # vs) = AppendString out v @ concat (map (AppendString []) vs)"
    by (simp add: Cons.IH)
  then show ?case by (simp add: Append_prefix(1) [of out])
qed simp

lemma ReadStrings_concat:
  "\<forall>v \<in> set vs. length v < 2 ^ 64 \<Longrightarrow>
   ReadStrings (length vs) (concat (map (AppendString []) vs) @ t) = Some (vs, t)"
  by (induction vs) (simp_all add: ReadString_AppendString)

lemma ValidIdentifier_length: "ValidIdentifier v \<Longrightarrow> length v < 2 ^ 64"
  by (simp add: ValidIdentifier_def kMaxFieldLength_def)

text \<open>The fields of an entry that its kind uses; the others are not written.\<close>

definition entry_fields :: "MatchQueueEntry \<Rightarrow> MatchQueueEntry" where
  "entry_fields e =
     (if me_kind e = EntryQueued
      then default_entry\<lparr>me_player_id := me_player_id e, me_queued_at_ms := me_queued_at_ms e\<rparr>
      else default_entry\<lparr>me_kind := EntryMatched, me_match_id := me_match_id e,
             me_room_id := me_room_id e, me_player_ids := me_player_ids e, me_stamp_ms := me_stamp_ms e\<rparr>)"

definition entry_in_range :: "MatchQueueEntry \<Rightarrow> bool" where
  "entry_in_range e \<longleftrightarrow> in_int64 (me_queued_at_ms e) \<and> in_int64 (me_stamp_ms e)"

lemma Encode_queued:
  "me_kind e = EntryQueued \<Longrightarrow> EncodeMatchQueueEntry e =
    (if ValidateEntry e = None
     then Some (kSnapshotFormatVersion # CHR ''Q'' # AppendString [] (me_player_id e)
                @ AppendInt [] (me_queued_at_ms e)) else None)"
  by (auto simp: EncodeMatchQueueEntry_def Append_prefix(1) [of "[_, _]"] Append_prefix(2) [of "_ # _"])

lemma Encode_matched:
  "me_kind e = EntryMatched \<Longrightarrow> EncodeMatchQueueEntry e =
    (if ValidateEntry e = None
     then Some (kSnapshotFormatVersion # CHR ''M'' # AppendString [] (me_match_id e)
                @ AppendString [] (me_room_id e) @ AppendInt [] (me_stamp_ms e)
                @ AppendInt [] (int (length (me_player_ids e)))
                @ concat (map (AppendString []) (me_player_ids e))) else None)"
  by (simp add: EncodeMatchQueueEntry_def foldl_AppendString Append_prefix(1) [of "_ # _"] Append_prefix(2) [of "_ # _"])

lemma ReadQueued_Encode:
  assumes "length p < 2 ^ 64" "in_int64 q"
  shows "ReadQueued (AppendString [] p @ AppendInt [] q @ t) =
    Inr (default_entry\<lparr>me_kind := EntryQueued, me_player_id := p, me_queued_at_ms := q\<rparr>, t)"
  using assms by (simp add: ReadQueued_def ReadString_AppendString ReadInt_AppendInt)

lemma ReadMatched_Encode:
  assumes "length m < 2 ^ 64" "length r < 2 ^ 64" "in_int64 st" "ps \<noteq> []"
    "length ps \<le> kMaxPlayersPerSnapshotGroup" "\<forall>p \<in> set ps. length p < 2 ^ 64"
  shows "ReadMatched (AppendString [] m @ AppendString [] r @ AppendInt [] st @ AppendInt [] (int (length ps))
           @ concat (map (AppendString []) ps) @ t) =
    Inr (default_entry\<lparr>me_kind := EntryMatched, me_match_id := m, me_room_id := r, me_stamp_ms := st,
           me_player_ids := ps\<rparr>, t)"
proof -
  have "in_int64 (int (length ps))"
    using assms(5) by (simp add: in_int64_def kMaxPlayersPerSnapshotGroup_def)
  moreover have "\<not> (int (length ps) \<le> 0 \<or> int (length ps) > int kMaxPlayersPerSnapshotGroup)"
    using assms(4,5) by simp
  ultimately show ?thesis
    using assms by (simp add: ReadMatched_def ReadString_AppendString ReadInt_AppendInt ReadStrings_concat)
qed

lemma ValidateEntry_fields: "ValidateEntry (entry_fields e) = ValidateEntry e"
  by (cases "me_kind e") (simp_all add: ValidateEntry_def entry_fields_def default_entry_def)

lemma Decode_Encode:
  assumes enc: "EncodeMatchQueueEntry e = Some line" and r: "entry_in_range e"
  shows "DecodeMatchQueueEntry line = Inr (entry_fields e)"
proof (cases "me_kind e")
  case EntryQueued
  with enc have v: "ValidateEntry e = None" by (auto simp: Encode_queued split: if_splits)
  with EntryQueued have "length (me_player_id e) < 2 ^ 64"
    by (auto simp: ValidateEntry_def dest: ValidIdentifier_length split: if_splits)
  moreover have "in_int64 (me_queued_at_ms e)" using r by (simp add: entry_in_range_def)
  ultimately have "ReadQueued (AppendString [] (me_player_id e) @ AppendInt [] (me_queued_at_ms e)) =
      Inr (entry_fields e, [])"
    using ReadQueued_Encode [of "me_player_id e" "me_queued_at_ms e" "[]"] EntryQueued
    by (simp add: entry_fields_def default_entry_def)
  then show ?thesis
    using enc v EntryQueued ValidateEntry_fields [of e]
    by (auto simp: Encode_queued DecodeMatchQueueEntry_def ReadChar_def)
next
  case EntryMatched
  with enc have v: "ValidateEntry e = None" by (auto simp: Encode_matched split: if_splits)
  with EntryMatched have f: "length (me_match_id e) < 2 ^ 64" "length (me_room_id e) < 2 ^ 64"
      "me_player_ids e \<noteq> []" "length (me_player_ids e) \<le> kMaxPlayersPerSnapshotGroup"
      "\<forall>p \<in> set (me_player_ids e). ValidIdentifier p"
    by (auto simp: ValidateEntry_def list_ex_iff dest: ValidIdentifier_length split: if_splits)
  from f(5) have l: "\<forall>p \<in> set (me_player_ids e). length p < 2 ^ 64" using ValidIdentifier_length by blast
  have st: "in_int64 (me_stamp_ms e)" using r by (simp add: entry_in_range_def)
  have "ReadMatched (AppendString [] (me_match_id e) @ AppendString [] (me_room_id e)
      @ AppendInt [] (me_stamp_ms e) @ AppendInt [] (int (length (me_player_ids e)))
      @ concat (map (AppendString []) (me_player_ids e))) = Inr (entry_fields e, [])"
    using ReadMatched_Encode [OF f(1,2) st f(3,4) l, of "[]"] EntryMatched by (simp add: entry_fields_def)
  then show ?thesis
    using enc v EntryMatched ValidateEntry_fields [of e]
    by (auto simp: Encode_matched DecodeMatchQueueEntry_def ReadChar_def)
qed

section \<open>A line cut short is never accepted\<close>

lemma takeWhile_stop_append:
  assumes "takeWhile P s = ds" "dropWhile P s = c # r"
  shows "takeWhile P (s @ t) = ds \<and> dropWhile P (s @ t) = c # r @ t"
proof -
  have "\<not> P c" using assms(2) by (simp add: dropWhile_eq_Cons_conv)
  moreover have "s = ds @ c # r" using takeWhile_dropWhile_id [of P s] assms by simp
  moreover have "\<forall>x \<in> set ds. P x" using assms(1) by (auto dest: set_takeWhileD)
  ultimately show ?thesis by (simp add: takeWhile_append2 dropWhile_append2)
qed

lemma ReadString_mono: "ReadString u = Some (s, r) \<Longrightarrow> ReadString (u @ t) = Some (s, r @ t)"
proof -
  assume a: "ReadString u = Some (s, r)"
  then obtain n rest where n: "from_chars_size u = Some (n, CHR '':'' # rest)" "n \<le> length rest"
      "s = take n rest" "r = drop n rest"
    by (auto simp: ReadString_def split: option.splits list.splits if_splits)
  from n(1) have "takeWhile is_digit u \<noteq> []" "digits_value (takeWhile is_digit u) = n" "n < 2 ^ 64"
      "dropWhile is_digit u = CHR '':'' # rest"
    by (auto simp: from_chars_size_def Let_def split: if_splits)
  then have "from_chars_size (u @ t) = Some (n, CHR '':'' # rest @ t)"
    using takeWhile_stop_append [of is_digit u "takeWhile is_digit u" "CHR '':''" rest t]
    by (simp add: from_chars_size_def)
  then show ?thesis using n by (simp add: ReadString_def)
qed

lemma from_chars_int_stop:
  assumes "from_chars_int u = Some (v, c # r)"
  shows "from_chars_int (u @ t) = Some (v, c # r @ t)"
proof -
  from assms obtain x xs where u: "u = x # xs" by (cases u) (auto simp: from_chars_int_def from_chars_def)
  define rest where "rest = (if x = CHR ''-'' then xs else u)"
  have fc: "from_chars u = Some v" and dw: "dropWhile is_digit rest = c # r"
    using assms by (cases "x = CHR ''-''"; simp add: from_chars_int_def u rest_def del: dropWhile.simps)+
  have tw: "takeWhile is_digit (rest @ t) = takeWhile is_digit rest"
      "dropWhile is_digit (rest @ t) = c # r @ t"
    using takeWhile_stop_append [OF refl dw, of t] by simp_all
  have "from_chars (u @ t) = Some v"
    using fc tw(1) by (subst (asm) from_chars_only_digits, subst from_chars_only_digits)
      (auto simp: u rest_def split: if_splits)
  then show ?thesis using tw(2)
    by (cases "x = CHR ''-''") (simp_all add: from_chars_int_def u rest_def del: dropWhile.simps)
qed

lemma ReadInt_mono: "ReadInt u = Some (v, r) \<Longrightarrow> ReadInt (u @ t) = Some (v, r @ t)"
  by (auto simp: ReadInt_def from_chars_int_stop split: option.splits list.splits if_splits)

lemma ReadStrings_mono: "ReadStrings n u = Some (vs, r) \<Longrightarrow> ReadStrings n (u @ t) = Some (vs, r @ t)"
proof (induction n arbitrary: u vs)
  case (Suc n)
  then obtain s u' vs' where "ReadString u = Some (s, u')" "ReadStrings n u' = Some (vs', r)" "vs = s # vs'"
    by (auto split: option.splits)
  with Suc.IH show ?case by (simp add: ReadString_mono)
qed simp

lemma ReadQueued_mono: "ReadQueued u = Inr (e, r) \<Longrightarrow> ReadQueued (u @ t) = Inr (e, r @ t)"
  by (auto simp: ReadQueued_def ReadString_mono ReadInt_mono split: option.splits)

lemma ReadMatched_mono: "ReadMatched u = Inr (e, r) \<Longrightarrow> ReadMatched (u @ t) = Inr (e, r @ t)"
  by (auto simp: ReadMatched_def ReadString_mono ReadInt_mono ReadStrings_mono
      split: option.splits if_splits)

lemma Decode_Inr_cases:
  assumes "DecodeMatchQueueEntry line = Inr e"
  obtains rest where "line = kSnapshotFormatVersion # CHR ''Q'' # rest" "ReadQueued rest = Inr (e, [])"
      "ValidateEntry e = None"
  | rest where "line = kSnapshotFormatVersion # CHR ''M'' # rest" "ReadMatched rest = Inr (e, [])"
      "ValidateEntry e = None"
  using assms
  by (auto simp: DecodeMatchQueueEntry_def ReadChar_def
      split: list.splits option.splits sum.splits if_splits prod.splits)

lemma Decode_append:
  assumes "DecodeMatchQueueEntry u = Inr e" "t \<noteq> []"
  shows "DecodeMatchQueueEntry (u @ t) = Inl TrailingBytes"
  using assms(1)
proof (cases rule: Decode_Inr_cases)
  case (1 rest)
  then show ?thesis
    using ReadQueued_mono [of rest e "[]" t] assms(2) by (simp add: DecodeMatchQueueEntry_def ReadChar_def)
next
  case (2 rest)
  then show ?thesis
    using ReadMatched_mono [of rest e "[]" t] assms(2) by (simp add: DecodeMatchQueueEntry_def ReadChar_def)
qed

lemma Decode_valid: "DecodeMatchQueueEntry line = Inr e \<Longrightarrow> ValidateEntry e = None"
  by (auto elim: Decode_Inr_cases)

section \<open>Properties of the format\<close>

text \<open>A snapshot line reads back. Every entry that the writer accepts (and whose times fit a 64-bit
  integer, as they do in the code) is decoded to exactly the fields its kind uses, whatever bytes the
  identifiers hold, and the writer refuses exactly the entries the shared validation refuses.\<close>

lemma queue_entry_reads_back:
  assumes "entry_in_range e"
  shows "(ValidateEntry e = None \<longrightarrow>
           (\<exists>line. EncodeMatchQueueEntry e = Some line \<and> DecodeMatchQueueEntry line = Inr (entry_fields e)))
       \<and> (ValidateEntry e \<noteq> None \<longrightarrow> EncodeMatchQueueEntry e = None)"
proof (intro conjI impI)
  assume "ValidateEntry e = None"
  then obtain line where l: "EncodeMatchQueueEntry e = Some line" by (auto simp: EncodeMatchQueueEntry_def)
  with Decode_Encode [OF this assms] show
    "\<exists>line. EncodeMatchQueueEntry e = Some line \<and> DecodeMatchQueueEntry line = Inr (entry_fields e)" by auto
qed (simp add: EncodeMatchQueueEntry_def)

text \<open>A damaged line is not taken for an entry. If a line is accepted then no proper prefix of it is
  (a write cut short is noticed), nothing longer that starts with it is (trailing bytes), no line
  with another format version is, and the accepted entry passes the writer's validation, so it can be written
  again.\<close>

lemma damaged_line_is_rejected:
  assumes "DecodeMatchQueueEntry line = Inr e"
  shows "(\<forall>u t. line = u @ t \<and> t \<noteq> [] \<longrightarrow> (\<exists>problem. DecodeMatchQueueEntry u = Inl problem))
       \<and> (\<forall>t. t \<noteq> [] \<longrightarrow> DecodeMatchQueueEntry (line @ t) = Inl TrailingBytes)
       \<and> (\<forall>v. v \<noteq> kSnapshotFormatVersion \<longrightarrow> DecodeMatchQueueEntry (v # tl line) = Inl (UnknownVersion v))
       \<and> ValidateEntry e = None \<and> EncodeMatchQueueEntry e \<noteq> None"
proof (intro conjI allI impI)
  fix u t assume ut: "line = u @ t \<and> t \<noteq> []"
  show "\<exists>problem. DecodeMatchQueueEntry u = Inl problem"
  proof (cases "DecodeMatchQueueEntry u")
    case (Inr e')
    then have "DecodeMatchQueueEntry (u @ t) = Inl TrailingBytes" using ut by (simp add: Decode_append)
    then show ?thesis using ut assms by simp
  qed blast
next
  fix t :: string assume "t \<noteq> []"
  then show "DecodeMatchQueueEntry (line @ t) = Inl TrailingBytes" by (rule Decode_append [OF assms])
next
  fix v assume "v \<noteq> kSnapshotFormatVersion"
  then show "DecodeMatchQueueEntry (v # tl line) = Inl (UnknownVersion v)"
    by (simp add: DecodeMatchQueueEntry_def ReadChar_def)
next
  show "ValidateEntry e = None" by (rule Decode_valid [OF assms])
  then show "EncodeMatchQueueEntry e \<noteq> None" by (simp add: EncodeMatchQueueEntry_def)
qed

end
