(* ===== verification/Match_Queue.thy ===== *)
theory Match_Queue
  imports Match_Codec
begin

text \<open>
  The matchmaking queue: \<^verbatim>\<open>src/match/match_queue.hpp\<close> and \<^verbatim>\<open>src/match/match_queue.cpp\<close>.

  The code runs each operation as a few sections under \<^verbatim>\<open>mutex_\<close> with the remote room allocation
  between them. The model has one definition per section (\<open>EnqueueLocked\<close>, \<open>CancelLocked\<close>,
  \<open>SweepLocked\<close>, \<open>TakePairGroupsLocked\<close>, \<open>CommitGroupLocked\<close>) and composes them into the
  operations as the code does; \<open>Match_Queue_Inv\<close> interleaves the sections of concurrent calls.

  The collaborators are parameters: the room allocator is a function on a state \<^typ>\<open>'srv\<close> of its own
  (the empty string is its failure), and the supply \<open>mq_ids\<close> holds what the injected generator of
  match ids returns, call by call. Time stamps are arguments. The stage timers and the duration of an
  allocation or of a snapshot write are measurements only and are left out.
\<close>

section \<open>Constants and data\<close>

definition kPlayersPerMatch :: nat where "kPlayersPerMatch = 2"
definition kDefaultMatchTimeoutMs :: ms where "kDefaultMatchTimeoutMs = 30 * 1000"
definition kDefaultResultTtlMs :: ms where "kDefaultResultTtlMs = 120 * 1000"
definition kDefaultMaxQueueSize :: nat where "kDefaultMaxQueueSize = 1000"
definition kMaxRequestIdLength :: nat where "kMaxRequestIdLength = 64"
definition kMaxPlayerIdLength :: nat where "kMaxPlayerIdLength = 64"

datatype MatchState = StateIdle | StateQueued | StateMatched | StateTimeout

record MatchStatusSnapshot =
  ms_state :: MatchState
  ms_request_id :: string
  ms_match_id :: string
  ms_room_id :: string
  ms_player_ids :: "string list"
  ms_queued_at_ms :: ms
  ms_queue_size :: nat

datatype EnqueueOutcome = EnqueueShuttingDown | EnqueueQueued | EnqueueAlreadyQueued
  | EnqueueQueueFull | EnqueueInvalidArgument

record MatchRestoreReport =
  rr_scanned :: nat
  rr_queued :: nat
  rr_matched :: nat
  rr_dropped :: nat
  rr_timed_out :: nat
  rr_expired_results :: nat
  rr_load_failed :: bool

record Entry =
  en_state :: MatchState
  en_request_id :: string
  en_match_id :: string
  en_room_id :: string
  en_player_ids :: "string list"
  en_queued_at_ms :: ms
  en_stamp_ms :: ms
  en_allocating :: bool
  en_cancel_requested :: bool

definition fresh_entry :: Entry where
  "fresh_entry = \<lparr>en_state = StateIdle, en_request_id = [], en_match_id = [], en_room_id = [],
     en_player_ids = [], en_queued_at_ms = 0, en_stamp_ms = 0, en_allocating = False,
     en_cancel_requested = False\<rparr>"

record PendingGroup =
  pg_match_id :: string
  pg_player_ids :: "string list"
  pg_request_id :: string

record MatchQueue =
  mq_has_store :: bool
  mq_ids :: "string list"
  mq_match_timeout_ms :: ms
  mq_result_ttl_ms :: ms
  mq_max_queue_size :: nat
  mq_shutting_down :: bool
  mq_snapshot_write_count :: nat
  mq_snapshot_failure_count :: nat
  mq_snapshot_dirty :: bool
  mq_snapshot_dirty_since_ms :: ms
  mq_snapshot_merge_interval_ms :: ms
  mq_last_snapshot_write_ms :: ms
  mq_snapshot_merged_count :: nat
  mq_snapshot_tick_count :: nat
  mq_room_allocate_count :: nat
  mq_room_allocate_failed_count :: nat
  mq_allocation_queue :: "(PendingGroup \<times> ms) list"
  mq_worker_running :: bool
  mq_max_pending_allocations :: nat
  mq_queue :: "string list"
  mq_entries :: "(string, Entry) umap"
  mq_retry_pairing :: bool

type_synonym 'srv RoomAllocator = "string \<Rightarrow> string list \<Rightarrow> string \<Rightarrow> 'srv \<Rightarrow> string \<times> 'srv"

definition MatchQueue_new :: "string list \<Rightarrow> ms \<Rightarrow> ms \<Rightarrow> nat \<Rightarrow> bool \<Rightarrow> MatchQueue" where
  "MatchQueue_new ids match_timeout_ms result_ttl_ms max_queue_size has_store =
     \<lparr>mq_has_store = has_store, mq_ids = ids,
      mq_match_timeout_ms = (if match_timeout_ms > 0 then match_timeout_ms else kDefaultMatchTimeoutMs),
      mq_result_ttl_ms = (if result_ttl_ms > 0 then result_ttl_ms else kDefaultResultTtlMs),
      mq_max_queue_size = (if max_queue_size > 0 then max_queue_size else kDefaultMaxQueueSize),
      mq_shutting_down = False, mq_snapshot_write_count = 0, mq_snapshot_failure_count = 0,
      mq_snapshot_dirty = False, mq_snapshot_dirty_since_ms = 0, mq_snapshot_merge_interval_ms = 100,
      mq_last_snapshot_write_ms = 0, mq_snapshot_merged_count = 0, mq_snapshot_tick_count = 0,
      mq_room_allocate_count = 0, mq_room_allocate_failed_count = 0, mq_allocation_queue = [],
      mq_worker_running = False, mq_max_pending_allocations = 256, mq_queue = [], mq_entries = [],
      mq_retry_pairing = False\<rparr>"

section \<open>Sections under the lock\<close>

definition RemoveFromQueueLocked :: "string \<Rightarrow> MatchQueue \<Rightarrow> MatchQueue" where
  "RemoveFromQueueLocked player_id q = q\<lparr>mq_queue := remove1 player_id (mq_queue q)\<rparr>"

text \<open>\<^verbatim>\<open>SweepLocked\<close>: the overdue players of the queue, then the expired results.\<close>

definition overdue :: "ms \<Rightarrow> MatchQueue \<Rightarrow> string \<Rightarrow> bool" where
  "overdue now_ms q player_id =
     (case map_of (mq_entries q) player_id of
        None \<Rightarrow> True
      | Some e \<Rightarrow> en_state e \<noteq> StateQueued \<or> now_ms - en_queued_at_ms e \<ge> mq_match_timeout_ms q)"

definition time_out :: "ms \<Rightarrow> string \<Rightarrow> MatchQueue \<Rightarrow> MatchQueue" where
  "time_out now_ms player_id q =
     RemoveFromQueueLocked player_id
       (q\<lparr>mq_entries := AList.map_entry player_id
            (\<lambda>e. e\<lparr>en_state := StateTimeout, en_stamp_ms := now_ms\<rparr>) (mq_entries q)\<rparr>)"

definition expired :: "ms \<Rightarrow> MatchQueue \<Rightarrow> Entry \<Rightarrow> bool" where
  "expired now_ms q e \<longleftrightarrow>
     (en_state e = StateMatched \<or> en_state e = StateTimeout) \<and> now_ms - en_stamp_ms e \<ge> mq_result_ttl_ms q"

definition SweepLocked :: "ms \<Rightarrow> MatchQueue \<Rightarrow> bool \<times> MatchQueue" where
  "SweepLocked now_ms q =
     (let timed_out = filter (overdue now_ms q) (mq_queue q);
          q1 = fold (time_out now_ms) timed_out q;
          kept = filter (\<lambda>(_, e). \<not> expired now_ms q1 e) (mq_entries q1)
      in (timed_out \<noteq> [] \<or> length kept \<noteq> length (mq_entries q1), q1\<lparr>mq_entries := kept\<rparr>))"

text \<open>\<^verbatim>\<open>TakePairGroupsLocked\<close>: the inner loop takes the next players still queued, the outer loop
  forms groups until the queue is short or no match id can be had.\<close>

definition is_queued :: "(string, Entry) umap \<Rightarrow> string \<Rightarrow> bool" where
  "is_queued es player_id =
     (case map_of es player_id of None \<Rightarrow> False | Some e \<Rightarrow> en_state e = StateQueued)"

fun take_members :: "(string, Entry) umap \<Rightarrow> string list \<Rightarrow> string list \<Rightarrow> string list \<times> string list" where
  "take_members es grp [] = (grp, [])"
| "take_members es grp (p # queue) =
     (if length grp \<ge> kPlayersPerMatch then (grp, p # queue)
      else if \<not> is_queued es p then take_members es grp queue
      else take_members es (grp @ [p]) queue)"

definition next_match_id :: "MatchQueue \<Rightarrow> string \<times> string list" where
  "next_match_id q = (case mq_ids q of [] \<Rightarrow> ([], []) | i # ids \<Rightarrow> (i, ids))"

definition mark_allocating :: "string \<Rightarrow> string list \<Rightarrow> (string, Entry) umap \<Rightarrow> (string, Entry) umap" where
  "mark_allocating match_id grp es =
     fold (\<lambda>p. AList.map_entry p
             (\<lambda>e. e\<lparr>en_allocating := True, en_match_id := match_id, en_player_ids := grp\<rparr>)) grp es"

definition head_request_id :: "(string, Entry) umap \<Rightarrow> string list \<Rightarrow> string" where
  "head_request_id es grp =
     (case map_of es (hd grp) of None \<Rightarrow> [] | Some e \<Rightarrow> en_request_id e)"

lemma take_members_length:
  "length (fst (take_members es g q)) + length (snd (take_members es g q)) \<le> length g + length q"
  by (induction es g q rule: take_members.induct) auto

lemma take_members_decreases:
  "(grp, rest) = take_members es [] queue \<Longrightarrow> \<not> length grp < kPlayersPerMatch \<Longrightarrow> length rest < length queue"
  using take_members_length [of es "[]" queue] by (auto simp: kPlayersPerMatch_def dest: sym)

function TakePairGroupsLocked :: "MatchQueue \<Rightarrow> PendingGroup list \<times> MatchQueue" where
  "TakePairGroupsLocked q =
     (if length (mq_queue q) < kPlayersPerMatch then ([], q)
      else case take_members (mq_entries q) [] (mq_queue q) of
        (grp, rest) \<Rightarrow>
          if length grp < kPlayersPerMatch then ([], q\<lparr>mq_queue := grp @ rest\<rparr>)
          else case next_match_id q of
            (match_id, ids) \<Rightarrow>
              if match_id = [] then ([], q\<lparr>mq_queue := grp @ rest, mq_ids := ids\<rparr>)
              else case TakePairGroupsLocked
                     (q\<lparr>mq_queue := rest, mq_ids := ids,
                        mq_entries := mark_allocating match_id grp (mq_entries q)\<rparr>) of
                (groups, q') \<Rightarrow>
                  (\<lparr>pg_match_id = match_id, pg_player_ids = grp,
                    pg_request_id = head_request_id (mq_entries q) grp\<rparr> # groups, q'))"
  by pat_completeness auto
termination
  by (relation "measure (length \<circ> mq_queue)") (auto dest: take_members_decreases)

declare TakePairGroupsLocked.simps [simp del]

text \<open>\<^verbatim>\<open>CommitGroupLocked\<close>: the outcome of one allocation; the empty room id is a failure.\<close>

definition cancel_requested :: "(string, Entry) umap \<Rightarrow> string \<Rightarrow> bool" where
  "cancel_requested es p = (case map_of es p of None \<Rightarrow> False | Some e \<Rightarrow> en_cancel_requested e)"

definition put_back :: "string \<Rightarrow> MatchQueue \<Rightarrow> MatchQueue" where
  "put_back p q =
     (case map_of (mq_entries q) p of
        None \<Rightarrow> q
      | Some _ \<Rightarrow>
          q\<lparr>mq_entries := AList.map_entry p
              (\<lambda>e. e\<lparr>en_allocating := False, en_match_id := [], en_player_ids := []\<rparr>) (mq_entries q),
            mq_queue := p # mq_queue q\<rparr>)"

definition CommitGroupLocked :: "PendingGroup \<Rightarrow> string \<Rightarrow> ms \<Rightarrow> MatchQueue \<Rightarrow> MatchQueue" where
  "CommitGroupLocked grp room_id now_ms q =
     (let present = filter (\<lambda>p. map_of (mq_entries q) p \<noteq> None) (pg_player_ids grp);
          cancelled = filter (cancel_requested (mq_entries q)) present;
          requeue = filter (\<lambda>p. \<not> cancel_requested (mq_entries q) p) present
      in if room_id \<noteq> [] \<and> cancelled = [] then
           q\<lparr>mq_entries := fold (\<lambda>p. AList.map_entry p
               (\<lambda>e. e\<lparr>en_state := StateMatched, en_allocating := False, en_room_id := room_id,
                      en_player_ids := pg_player_ids grp, en_stamp_ms := now_ms\<rparr>))
               requeue (mq_entries q)\<rparr>
         else
           foldr put_back requeue
             (q\<lparr>mq_retry_pairing := (mq_retry_pairing q \<or> room_id = []),
                mq_entries := fold AList.delete cancelled (mq_entries q)\<rparr>))"

definition SnapshotLocked :: "string \<Rightarrow> MatchQueue \<Rightarrow> MatchStatusSnapshot" where
  "SnapshotLocked player_id q =
     (case map_of (mq_entries q) player_id of
        None \<Rightarrow> \<lparr>ms_state = StateIdle, ms_request_id = [], ms_match_id = [], ms_room_id = [],
                 ms_player_ids = [], ms_queued_at_ms = 0, ms_queue_size = length (mq_queue q)\<rparr>
      | Some e \<Rightarrow> \<lparr>ms_state = en_state e, ms_request_id = en_request_id e, ms_match_id = en_match_id e,
                   ms_room_id = en_room_id e, ms_player_ids = en_player_ids e,
                   ms_queued_at_ms = en_queued_at_ms e, ms_queue_size = length (mq_queue q)\<rparr>)"

text \<open>The locked section of \<^verbatim>\<open>Enqueue\<close> (its second lock scope) and of \<^verbatim>\<open>Cancel\<close>.\<close>

definition EnqueueLocked :: "string \<Rightarrow> string \<Rightarrow> ms \<Rightarrow> MatchQueue \<Rightarrow> (EnqueueOutcome \<times> bool) \<times> MatchQueue" where
  "EnqueueLocked player_id request_id now_ms q0 =
     (case SweepLocked now_ms q0 of (changed, q) \<Rightarrow>
        (case map_of (mq_entries q) player_id of
           Some e \<Rightarrow>
             if en_state e = StateQueued \<or> en_state e = StateMatched
             then ((EnqueueAlreadyQueued, changed), q)
             else if length (mq_queue q) \<ge> mq_max_queue_size q then ((EnqueueQueueFull, changed), q)
             else ((EnqueueQueued, True),
                   q\<lparr>mq_entries := AList.map_entry player_id
                       (\<lambda>e. e\<lparr>en_state := StateQueued, en_request_id := request_id,
                              en_queued_at_ms := now_ms, en_stamp_ms := now_ms,
                              en_allocating := False, en_cancel_requested := False\<rparr>) (mq_entries q),
                     mq_queue := mq_queue q @ [player_id]\<rparr>)
         | None \<Rightarrow>
             if length (mq_queue q) \<ge> mq_max_queue_size q then ((EnqueueQueueFull, changed), q)
             else ((EnqueueQueued, True),
                   q\<lparr>mq_entries := emplace player_id
                       (fresh_entry\<lparr>en_state := StateQueued, en_request_id := request_id,
                          en_queued_at_ms := now_ms, en_stamp_ms := now_ms\<rparr>) (mq_entries q),
                     mq_queue := mq_queue q @ [player_id]\<rparr>)))"

definition CancelLocked :: "string \<Rightarrow> ms \<Rightarrow> MatchQueue \<Rightarrow> (bool \<times> bool) \<times> MatchQueue" where
  "CancelLocked player_id now_ms q0 =
     (case SweepLocked now_ms q0 of (changed, q) \<Rightarrow>
        (case map_of (mq_entries q) player_id of
           None \<Rightarrow> ((False, changed), q)
         | Some e \<Rightarrow>
             if en_allocating e then
               ((True, True), q\<lparr>mq_entries := AList.map_entry player_id
                  (\<lambda>e. e\<lparr>en_cancel_requested := True\<rparr>) (mq_entries q)\<rparr>)
             else if en_state e \<noteq> StateQueued then ((False, changed), q)
             else ((True, True),
                   RemoveFromQueueLocked player_id
                     (q\<lparr>mq_entries := AList.delete player_id (mq_entries q)\<rparr>))))"

section \<open>Operations\<close>

definition BeginShutdown :: "MatchQueue \<Rightarrow> MatchQueue" where
  "BeginShutdown q = q\<lparr>mq_shutting_down := True\<rparr>"

definition PendingAllocationCount :: "MatchQueue \<Rightarrow> nat" where
  "PendingAllocationCount q = length (mq_allocation_queue q)"

definition AllocatingCount :: "MatchQueue \<Rightarrow> nat" where
  "AllocatingCount q = length (filter (\<lambda>(_, e). en_allocating e) (mq_entries q))"

definition MarkSnapshotDirty :: "ms \<Rightarrow> MatchQueue \<Rightarrow> MatchQueue" where
  "MarkSnapshotDirty now_ms q =
     (if \<not> mq_has_store q then q
      else if mq_snapshot_dirty q
        then q\<lparr>mq_snapshot_merged_count := Suc (mq_snapshot_merged_count q)\<rparr>
      else q\<lparr>mq_snapshot_dirty := True, mq_snapshot_dirty_since_ms := now_ms\<rparr>)"

definition SetSnapshotMergeIntervalMs :: "ms \<Rightarrow> MatchQueue \<Rightarrow> MatchQueue" where
  "SetSnapshotMergeIntervalMs merge_interval_ms q =
     q\<lparr>mq_snapshot_merge_interval_ms := (if merge_interval_ms > 0 then merge_interval_ms else 0)\<rparr>"

definition AllocateRoomFor ::
  "'srv RoomAllocator option \<Rightarrow> PendingGroup \<Rightarrow> MatchQueue \<times> 'srv \<Rightarrow> string \<times> MatchQueue \<times> 'srv" where
  "AllocateRoomFor allocator grp s =
     (case allocator of
        None \<Rightarrow> ([], s)
      | Some allocate \<Rightarrow>
          (case allocate (pg_match_id grp) (pg_player_ids grp) (pg_request_id grp) (snd s) of
             (room_id, srv) \<Rightarrow>
               (room_id,
                (fst s)\<lparr>mq_room_allocate_count := Suc (mq_room_allocate_count (fst s)),
                        mq_room_allocate_failed_count := mq_room_allocate_failed_count (fst s) +
                          (if room_id = [] then 1 else 0)\<rparr>, srv)))"

text \<open>The body of the loop of \<^verbatim>\<open>RunPairingRound\<close>: the allocation outside the lock, the commit under it.\<close>

definition allocate_and_commit ::
  "'srv RoomAllocator option \<Rightarrow> ms \<Rightarrow> PendingGroup \<Rightarrow> MatchQueue \<times> 'srv \<Rightarrow> MatchQueue \<times> 'srv" where
  "allocate_and_commit allocator now_ms grp s =
     (case AllocateRoomFor allocator grp s of
        (room_id, q, srv) \<Rightarrow> (CommitGroupLocked grp room_id now_ms q, srv))"

definition HandOffToWorker :: "PendingGroup list \<Rightarrow> ms \<Rightarrow> MatchQueue \<Rightarrow> MatchQueue" where
  "HandOffToWorker groups now_ms q =
     q\<lparr>mq_allocation_queue := mq_allocation_queue q @ map (\<lambda>g. (g, now_ms)) groups\<rparr>"

definition RunPairingRound ::
  "'srv RoomAllocator option \<Rightarrow> ms \<Rightarrow> MatchQueue \<times> 'srv \<Rightarrow> bool \<times> MatchQueue \<times> 'srv" where
  "RunPairingRound allocator now_ms s =
     (if PendingAllocationCount (fst s) \<ge> mq_max_pending_allocations (fst s) then (False, s)
      else case TakePairGroupsLocked (fst s) of
        (groups, q) \<Rightarrow>
          if groups = [] then (False, q, snd s)
          else if mq_worker_running q \<and> mq_allocation_queue q \<noteq> []
            then (True, HandOffToWorker groups now_ms q, snd s)
          else (True, fold (allocate_and_commit allocator now_ms) groups (q, snd s)))"

text \<open>One turn of \<^verbatim>\<open>AllocationWorkerLoop\<close>; \<open>commit_ms\<close> is the clock the worker reads after the commit.\<close>

definition worker_turn ::
  "'srv RoomAllocator option \<Rightarrow> ms \<Rightarrow> MatchQueue \<times> 'srv \<Rightarrow> MatchQueue \<times> 'srv" where
  "worker_turn allocator commit_ms s =
     (case mq_allocation_queue (fst s) of
        [] \<Rightarrow> s
      | (grp, queued_ms) # rest \<Rightarrow>
          (case allocate_and_commit allocator queued_ms grp
                  ((fst s)\<lparr>mq_allocation_queue := rest\<rparr>, snd s) of
             (q, srv) \<Rightarrow> (MarkSnapshotDirty commit_ms q, srv)))"

definition StartAllocationWorker :: "MatchQueue \<Rightarrow> MatchQueue" where
  "StartAllocationWorker q = q\<lparr>mq_worker_running := True\<rparr>"

text \<open>Stopping lets the worker empty its queue before it exits.\<close>

definition StopAllocationWorker ::
  "'srv RoomAllocator option \<Rightarrow> ms \<Rightarrow> MatchQueue \<times> 'srv \<Rightarrow> MatchQueue \<times> 'srv" where
  "StopAllocationWorker allocator commit_ms s =
     (if \<not> mq_worker_running (fst s) then s
      else apfst (\<lambda>q. q\<lparr>mq_worker_running := False\<rparr>)
             ((worker_turn allocator commit_ms ^^ length (mq_allocation_queue (fst s))) s))"

definition RetryPairingIfNeeded ::
  "'srv RoomAllocator option \<Rightarrow> ms \<Rightarrow> MatchQueue \<times> 'srv \<Rightarrow> bool \<times> MatchQueue \<times> 'srv" where
  "RetryPairingIfNeeded allocator now_ms s =
     (if \<not> mq_retry_pairing (fst s) then (False, s)
      else RunPairingRound allocator now_ms ((fst s)\<lparr>mq_retry_pairing := False\<rparr>, snd s))"

definition mark_if :: "bool \<Rightarrow> ms \<Rightarrow> MatchQueue \<times> 'srv \<Rightarrow> MatchQueue \<times> 'srv" where
  "mark_if changed now_ms s = (if changed then apfst (MarkSnapshotDirty now_ms) s else s)"

definition Enqueue ::
  "'srv RoomAllocator option \<Rightarrow> string \<Rightarrow> string \<Rightarrow> ms \<Rightarrow> MatchQueue \<times> 'srv \<Rightarrow>
   EnqueueOutcome \<times> MatchQueue \<times> 'srv" where
  "Enqueue allocator player_id request_id now_ms s =
     (if player_id = [] \<or> length player_id > kMaxPlayerIdLength \<or> request_id = []
         \<or> length request_id > kMaxRequestIdLength then (EnqueueInvalidArgument, s)
      else if mq_shutting_down (fst s) then (EnqueueShuttingDown, s)
      else case EnqueueLocked player_id request_id now_ms (fst s) of
        ((outcome, state_changed), q) \<Rightarrow>
          (case RunPairingRound allocator now_ms (q, snd s) of
             (paired, s') \<Rightarrow> (outcome, mark_if (state_changed \<or> paired) now_ms s')))"

definition Cancel :: "string \<Rightarrow> ms \<Rightarrow> MatchQueue \<Rightarrow> bool \<times> MatchQueue" where
  "Cancel player_id now_ms q0 =
     (case CancelLocked player_id now_ms q0 of
        ((removed, state_changed), q) \<Rightarrow>
          (removed, if state_changed then MarkSnapshotDirty now_ms q else q))"

definition GetStatus ::
  "'srv RoomAllocator option \<Rightarrow> string \<Rightarrow> ms \<Rightarrow> MatchQueue \<times> 'srv \<Rightarrow>
   MatchStatusSnapshot \<times> MatchQueue \<times> 'srv" where
  "GetStatus allocator player_id now_ms s =
     (case SweepLocked now_ms (fst s) of
        (state_changed, q) \<Rightarrow>
          (case RetryPairingIfNeeded allocator now_ms (q, snd s) of
             (paired, s') \<Rightarrow>
               (SnapshotLocked player_id q, mark_if (state_changed \<or> paired) now_ms s')))"

section \<open>Snapshots\<close>

definition queued_record :: "string \<times> Entry \<Rightarrow> MatchQueueEntry" where
  "queued_record pe = default_entry\<lparr>me_kind := EntryQueued, me_player_id := fst pe,
     me_queued_at_ms := en_queued_at_ms (snd pe)\<rparr>"

definition matched_record :: "Entry \<Rightarrow> MatchQueueEntry" where
  "matched_record e = default_entry\<lparr>me_kind := EntryMatched, me_match_id := en_match_id e,
     me_room_id := en_room_id e, me_player_ids := en_player_ids e, me_stamp_ms := en_stamp_ms e\<rparr>"

definition collect_match :: "string \<times> Entry \<Rightarrow> MatchQueueEntry list \<times> string list \<Rightarrow> MatchQueueEntry list \<times> string list" where
  "collect_match pe acc =
     (if en_state (snd pe) \<noteq> StateMatched \<or> en_match_id (snd pe) \<in> set (snd acc) then acc
      else (fst acc @ [matched_record (snd pe)], snd acc @ [en_match_id (snd pe)]))"

definition MakeSnapshotLocked :: "MatchQueue \<Rightarrow> MatchQueueSnapshot" where
  "MakeSnapshotLocked q =
     \<lparr>sn_queued =
        map (\<lambda>p. queued_record (p, the (map_of (mq_entries q) p)))
          (filter (is_queued (mq_entries q)) (mq_queue q)) @
        map queued_record
          (filter (\<lambda>(p, e). en_state e = StateQueued \<and> en_allocating e \<and> \<not> en_cancel_requested e)
            (mq_entries q)),
      sn_matched = fst (fold collect_match (mq_entries q) ([], []))\<rparr>"

record 'r MatchQueueStore =
  qs_Save :: "MatchQueueSnapshot \<Rightarrow> 'r \<Rightarrow> bool \<times> 'r"
  qs_Load :: "'r \<Rightarrow> MatchQueueSnapshotRow list option \<times> 'r"

definition FlushSnapshotNow ::
  "'r MatchQueueStore option \<Rightarrow> ms \<Rightarrow> MatchQueue \<times> 'r \<Rightarrow> bool \<times> MatchQueue \<times> 'r" where
  "FlushSnapshotNow store now_ms s =
     (case store of
        None \<Rightarrow> (False, s)
      | Some st \<Rightarrow>
          if \<not> mq_snapshot_dirty (fst s) then (False, s)
          else let snapshot = MakeSnapshotLocked (fst s);
                   q = (fst s)\<lparr>mq_snapshot_dirty := False, mq_snapshot_dirty_since_ms := 0\<rparr>
               in case qs_Save st snapshot (snd s) of
                 (ok, r) \<Rightarrow>
                   (True,
                    if ok then q\<lparr>mq_last_snapshot_write_ms := now_ms,
                                 mq_snapshot_write_count := Suc (mq_snapshot_write_count q)\<rparr>
                    else q\<lparr>mq_last_snapshot_write_ms := now_ms,
                           mq_snapshot_failure_count := Suc (mq_snapshot_failure_count q)\<rparr>, r))"

definition MatchQueue_Tick ::
  "'r MatchQueueStore option \<Rightarrow> ms \<Rightarrow> MatchQueue \<times> 'r \<Rightarrow> MatchQueue \<times> 'r" where
  "MatchQueue_Tick store now_ms s0 =
     (let s = apfst (\<lambda>q. q\<lparr>mq_snapshot_tick_count := Suc (mq_snapshot_tick_count q)\<rparr>) s0; q = fst s in
      if store = None then s
      else if \<not> mq_snapshot_dirty q then s
      else if mq_snapshot_merge_interval_ms q > 0 \<and> mq_last_snapshot_write_ms q > 0
        \<and> now_ms - mq_last_snapshot_write_ms q < mq_snapshot_merge_interval_ms q then s
      else snd (FlushSnapshotNow store now_ms s))"

definition SnapshotLagMs :: "ms \<Rightarrow> MatchQueue \<Rightarrow> int" where
  "SnapshotLagMs now_ms q =
     (if \<not> mq_snapshot_dirty q \<or> mq_snapshot_dirty_since_ms q \<le> 0 then 0
      else let lag = now_ms - mq_snapshot_dirty_since_ms q in if lag > 0 then lag else 0)"

section \<open>Restoring a snapshot\<close>

definition empty_restore_report :: MatchRestoreReport where
  "empty_restore_report = \<lparr>rr_scanned = 0, rr_queued = 0, rr_matched = 0, rr_dropped = 0,
     rr_timed_out = 0, rr_expired_results = 0, rr_load_failed = False\<rparr>"

definition restore_queued ::
  "ms \<Rightarrow> MatchQueueEntry \<Rightarrow> MatchRestoreReport \<times> MatchQueue \<Rightarrow> MatchRestoreReport \<times> MatchQueue" where
  "restore_queued now_ms entry s =
     (case s of (report, q) \<Rightarrow>
        if map_of (mq_entries q) (me_player_id entry) \<noteq> None
        then (report\<lparr>rr_dropped := Suc (rr_dropped report)\<rparr>, q)
        else if now_ms - me_queued_at_ms entry \<ge> mq_match_timeout_ms q
        then (report\<lparr>rr_timed_out := Suc (rr_timed_out report)\<rparr>, q)
        else (report\<lparr>rr_queued := Suc (rr_queued report)\<rparr>,
              q\<lparr>mq_entries := emplace (me_player_id entry)
                  (fresh_entry\<lparr>en_state := StateQueued, en_queued_at_ms := me_queued_at_ms entry,
                     en_stamp_ms := me_queued_at_ms entry\<rparr>) (mq_entries q),
                mq_queue := mq_queue q @ [me_player_id entry]\<rparr>))"

definition restored_result :: "MatchQueueEntry \<Rightarrow> Entry" where
  "restored_result entry = fresh_entry\<lparr>en_state := StateMatched, en_match_id := me_match_id entry,
     en_room_id := me_room_id entry, en_player_ids := me_player_ids entry,
     en_stamp_ms := me_stamp_ms entry\<rparr>"

definition restore_matched ::
  "ms \<Rightarrow> MatchQueueEntry \<Rightarrow> MatchRestoreReport \<times> MatchQueue \<Rightarrow> MatchRestoreReport \<times> MatchQueue" where
  "restore_matched now_ms entry s =
     (case s of (report, q) \<Rightarrow>
        if now_ms - me_stamp_ms entry \<ge> mq_result_ttl_ms q
        then (report\<lparr>rr_expired_results := rr_expired_results report + length (me_player_ids entry)\<rparr>, q)
        else if list_ex (\<lambda>p. map_of (mq_entries q) p \<noteq> None) (me_player_ids entry)
        then (report\<lparr>rr_dropped := Suc (rr_dropped report)\<rparr>, q)
        else (report\<lparr>rr_matched := rr_matched report + length (me_player_ids entry)\<rparr>,
              q\<lparr>mq_entries := fold (\<lambda>p. emplace p (restored_result entry)) (me_player_ids entry)
                  (mq_entries q)\<rparr>))"

fun good_rows :: "MatchQueueSnapshotRow list \<Rightarrow> MatchQueueEntry list" where
  "good_rows [] = []"
| "good_rows (Inl _ # rows) = good_rows rows"
| "good_rows (Inr e # rows) = e # good_rows rows"

definition restore_rows ::
  "ms \<Rightarrow> MatchQueueSnapshotRow list \<Rightarrow> MatchQueue \<Rightarrow> MatchRestoreReport \<times> MatchQueue" where
  "restore_rows now_ms rows q =
     (let entries = good_rows rows;
          queued = sort_key me_queued_at_ms (filter (\<lambda>e. me_kind e = EntryQueued) entries);
          matched = filter (\<lambda>e. me_kind e \<noteq> EntryQueued) entries;
          report = empty_restore_report\<lparr>rr_scanned := length rows,
                     rr_dropped := length rows - length entries\<rparr>
      in case fold (restore_matched now_ms) matched (fold (restore_queued now_ms) queued (report, q)) of
           (report', q') \<Rightarrow> (report', snd (SweepLocked now_ms q')))"

definition MatchQueue_Restore ::
  "'r MatchQueueStore option \<Rightarrow> ms \<Rightarrow> MatchQueue \<times> 'r \<Rightarrow> MatchRestoreReport \<times> MatchQueue \<times> 'r" where
  "MatchQueue_Restore store now_ms s =
     (case store of
        None \<Rightarrow> (empty_restore_report, s)
      | Some st \<Rightarrow>
          (case qs_Load st (snd s) of
             (None, r) \<Rightarrow> (empty_restore_report\<lparr>rr_load_failed := True\<rparr>, fst s, r)
           | (Some rows, r) \<Rightarrow>
               (case restore_rows now_ms rows (fst s) of (report, q) \<Rightarrow> (report, q, r))))"

end
