(* ===== verification/Match_Store.thy ===== *)
theory Match_Store
  imports Match_Queue
begin

text \<open>
  Where the queue is saved: the store interface of \<^verbatim>\<open>src/match/match_queue_store.hpp\<close> as a locale
  and its implementation \<^verbatim>\<open>src/match/redis_match_queue_store.cpp\<close> (the snapshot as a Redis list that
  a transaction replaces).

  hiredis and the Redis server are not part of the repository: a connection is a record of functions
  on a state \<^typ>\<open>'r\<close>. A pipeline answers one reply per command or fails as a whole.
\<close>

section \<open>The Redis store\<close>

datatype redis_command = MULTI | DEL string | RPUSH string string | EXEC | LRANGE string

datatype redis_reply = ReplyStatus | ReplyInteger | ReplyError | ReplyString string
  | ReplyArray "redis_reply list"

record 'r RedisConnection =
  rc_EnsureConnected :: "'r \<Rightarrow> bool \<times> 'r"
  rc_pipeline :: "redis_command list \<Rightarrow> 'r \<Rightarrow> redis_reply list option \<times> 'r"
  rc_command :: "redis_command \<Rightarrow> 'r \<Rightarrow> redis_reply option \<times> 'r"
  rc_DiscardConnection :: "'r \<Rightarrow> 'r"

definition encode_lines :: "MatchQueueEntry list \<Rightarrow> string list" where
  "encode_lines entries = List.map_filter EncodeMatchQueueEntry entries"

definition RedisMatchQueueStore_Save ::
  "'r RedisConnection \<Rightarrow> string \<Rightarrow> MatchQueueSnapshot \<Rightarrow> 'r \<Rightarrow> bool \<times> 'r" where
  "RedisMatchQueueStore_Save conn key snapshot r0 =
     (case rc_EnsureConnected conn r0 of
        (False, r) \<Rightarrow> (False, r)
      | (True, r) \<Rightarrow>
          let lines = encode_lines (sn_queued snapshot) @ encode_lines (sn_matched snapshot) in
          (case rc_pipeline conn (MULTI # DEL key # map (RPUSH key) lines @ [EXEC]) r of
             (None, r') \<Rightarrow> (False, rc_DiscardConnection conn r')
           | (Some replies, r') \<Rightarrow> (True, r')))"

definition decode_reply :: "redis_reply \<Rightarrow> MatchQueueSnapshotRow" where
  "decode_reply element =
     (case element of ReplyString line \<Rightarrow> DecodeMatchQueueEntry line | _ \<Rightarrow> Inl NotAString)"

definition RedisMatchQueueStore_Load ::
  "'r RedisConnection \<Rightarrow> string \<Rightarrow> 'r \<Rightarrow> MatchQueueSnapshotRow list option \<times> 'r" where
  "RedisMatchQueueStore_Load conn key r0 =
     (case rc_EnsureConnected conn r0 of
        (False, r) \<Rightarrow> (None, r)
      | (True, r) \<Rightarrow>
          (case rc_command conn (LRANGE key) r of
             (None, r') \<Rightarrow> (None, rc_DiscardConnection conn r')
           | (Some (ReplyArray elements), r') \<Rightarrow> (Some (map decode_reply elements), r')
           | (Some _, r') \<Rightarrow> (None, rc_DiscardConnection conn r')))"

definition redis_queue_store :: "'r RedisConnection \<Rightarrow> string \<Rightarrow> 'r MatchQueueStore" where
  "redis_queue_store conn key = \<lparr>qs_Save = RedisMatchQueueStore_Save conn key,
     qs_Load = RedisMatchQueueStore_Load conn key\<rparr>"

section \<open>The store interface\<close>

text \<open>What a client of \<^verbatim>\<open>MatchQueueStore\<close> relies on: a save that reports success replaces the whole
  content, and a load that succeeds returns the content row by row and changes nothing.\<close>

definition snapshot_rows :: "MatchQueueSnapshot \<Rightarrow> MatchQueueSnapshotRow list" where
  "snapshot_rows snapshot =
     map DecodeMatchQueueEntry (encode_lines (sn_queued snapshot) @ encode_lines (sn_matched snapshot))"

locale queue_store =
  fixes store :: "'r MatchQueueStore" and rows_of :: "'r \<Rightarrow> MatchQueueSnapshotRow list"
    and good :: "'r \<Rightarrow> bool"
  assumes save_ok: "good r \<Longrightarrow> qs_Save store snapshot r = (True, r') \<Longrightarrow> rows_of r' = snapshot_rows snapshot"
    and load_ok: "good r \<Longrightarrow> qs_Load store r = (Some rows, r') \<Longrightarrow> rows = rows_of r"
    and load_keeps: "rows_of (snd (qs_Load store r)) = rows_of r"
    and save_good: "good r \<Longrightarrow> good (snd (qs_Save store snapshot r))"
    and load_good: "good r \<Longrightarrow> good (snd (qs_Load store r))"
begin

lemma load_after_save:
  assumes "good r" "qs_Save store snapshot r = (True, r')" "qs_Load store r' = (Some rows, r'')"
  shows "rows = snapshot_rows snapshot"
  using assms save_ok load_ok save_good by (metis snd_conv)

text \<open>A flush of a dirty queue that the store accepted leaves the current snapshot in it.\<close>

lemma flush_saves:
  assumes "good r" "FlushSnapshotNow (Some store) n (q, r) = (True, q', r')"
    and "mq_snapshot_write_count q' = Suc (mq_snapshot_write_count q)"
  shows "rows_of r' = snapshot_rows (MakeSnapshotLocked q)"
  using assms save_ok [of r "MakeSnapshotLocked q" r']
  by (auto simp: FlushSnapshotNow_def Let_def split: if_splits prod.splits bool.splits)

lemma flush_good:
  "good r \<Longrightarrow> good (snd (snd (FlushSnapshotNow (Some store) n (q, r))))"
  using save_good [of r "MakeSnapshotLocked q"]
  by (auto simp: FlushSnapshotNow_def Let_def split: prod.splits)

text \<open>A restart from the store restores the rows of the last accepted save.\<close>

lemma restore_after_save:
  assumes "good r" "qs_Save store snapshot r = (True, r')"
    and "MatchQueue_Restore (Some store) n (q, r') = (report, q', r'')" "\<not> rr_load_failed report"
  shows "(report, q') = restore_rows n (snapshot_rows snapshot) q"
  using assms load_after_save [OF assms(1,2)]
  by (auto simp: MatchQueue_Restore_def empty_restore_report_def split: option.splits prod.splits)

end

section \<open>A Redis server with one list\<close>

text \<open>The documented behaviour the store relies on, with a schedule of what the server does to each
  round trip: it answers, it cannot be reached, it executes the commands but the reply is lost, or it is
  reachable and refuses writes (out of memory, a read-only replica, a failed background save): then the
  \<^verbatim>\<open>RPUSH\<close> and \<^verbatim>\<open>EXEC\<close> of a transaction are answered with errors and nothing is changed.\<close>

datatype redis_fault = Answers | Unreachable | ReplyLost | RefusesWrites

record redis_server =
  sv_faults :: "redis_fault list"
  sv_list :: "string list"

definition next_fault :: "redis_server \<Rightarrow> redis_fault \<times> redis_server" where
  "next_fault sv = (case sv_faults sv of [] \<Rightarrow> (Answers, sv) | f # fs \<Rightarrow> (f, sv\<lparr>sv_faults := fs\<rparr>))"

fun pushed :: "redis_command list \<Rightarrow> string list" where
  "pushed [] = []"
| "pushed (RPUSH key line # cs) = line # pushed cs"
| "pushed (_ # cs) = pushed cs"

definition server_pipeline :: "redis_command list \<Rightarrow> redis_server \<Rightarrow> redis_reply list option \<times> redis_server" where
  "server_pipeline cs sv =
     (case next_fault sv of
        (Answers, sv') \<Rightarrow> (Some (replicate (length cs) ReplyStatus), sv'\<lparr>sv_list := pushed cs\<rparr>)
      | (Unreachable, sv') \<Rightarrow> (None, sv')
      | (ReplyLost, sv') \<Rightarrow> (None, sv'\<lparr>sv_list := pushed cs\<rparr>)
      | (RefusesWrites, sv') \<Rightarrow> (Some (replicate (length cs) ReplyError), sv'))"

definition server_command :: "redis_command \<Rightarrow> redis_server \<Rightarrow> redis_reply option \<times> redis_server" where
  "server_command c sv =
     (case next_fault sv of
        (Unreachable, sv') \<Rightarrow> (None, sv')
      | (ReplyLost, sv') \<Rightarrow> (None, sv')
      | (_, sv') \<Rightarrow> (Some (ReplyArray (map ReplyString (sv_list sv))), sv'))"

definition redis_connection :: "redis_server RedisConnection" where
  "redis_connection = \<lparr>rc_EnsureConnected = (\<lambda>sv. (True, sv)), rc_pipeline = server_pipeline,
     rc_command = server_command, rc_DiscardConnection = (\<lambda>sv. sv)\<rparr>"

definition server_rows :: "redis_server \<Rightarrow> MatchQueueSnapshotRow list" where
  "server_rows sv = map DecodeMatchQueueEntry (sv_list sv)"

lemma pushed_map: "pushed (map (RPUSH key) lines @ cs) = lines @ pushed cs"
  by (induction lines) simp_all

lemma next_fault_list: "next_fault sv = (f, sv') \<Longrightarrow> sv_list sv' = sv_list sv"
  by (auto simp: next_fault_def split: list.splits)

lemma Save_server:
  "RedisMatchQueueStore_Save redis_connection key snapshot sv =
     (case next_fault sv of
        (Answers, sv') \<Rightarrow> (True, sv'\<lparr>sv_list := encode_lines (sn_queued snapshot) @ encode_lines (sn_matched snapshot)\<rparr>)
      | (Unreachable, sv') \<Rightarrow> (False, sv')
      | (ReplyLost, sv') \<Rightarrow> (False, sv'\<lparr>sv_list := encode_lines (sn_queued snapshot) @ encode_lines (sn_matched snapshot)\<rparr>)
      | (RefusesWrites, sv') \<Rightarrow> (True, sv'))"
  by (simp add: RedisMatchQueueStore_Save_def redis_connection_def server_pipeline_def Let_def
      pushed_map flip: map_append split: prod.splits redis_fault.splits)

lemma decode_ReplyString: "decode_reply \<circ> ReplyString = DecodeMatchQueueEntry"
  by (simp add: decode_reply_def comp_def)

lemma Load_server:
  "RedisMatchQueueStore_Load redis_connection key sv =
     (case next_fault sv of
        (Unreachable, sv') \<Rightarrow> (None, sv')
      | (ReplyLost, sv') \<Rightarrow> (None, sv')
      | (_, sv') \<Rightarrow> (Some (server_rows sv), sv'))"
  by (simp add: RedisMatchQueueStore_Load_def redis_connection_def server_command_def decode_ReplyString
      server_rows_def split: prod.splits redis_fault.splits)

text \<open>A server that never refuses writes keeps the contract, whatever else happens to it.\<close>

definition never_refuses :: "redis_server \<Rightarrow> bool" where
  "never_refuses sv \<longleftrightarrow> RefusesWrites \<notin> set (sv_faults sv)"

lemma never_refuses_next:
  "never_refuses sv \<Longrightarrow> next_fault sv = (f, sv') \<Longrightarrow> f \<noteq> RefusesWrites \<and> never_refuses sv'"
  by (auto simp: never_refuses_def next_fault_def split: list.splits)

interpretation redis: queue_store "redis_queue_store redis_connection key" server_rows never_refuses
  for key
proof
  fix r snapshot r'
  assume "never_refuses r" "qs_Save (redis_queue_store redis_connection key) snapshot r = (True, r')"
  then show "server_rows r' = snapshot_rows snapshot"
    using never_refuses_next [of r]
    by (auto simp: redis_queue_store_def Save_server server_rows_def snapshot_rows_def
        split: prod.splits redis_fault.splits)
next
  fix r rows r'
  assume "never_refuses r" "qs_Load (redis_queue_store redis_connection key) r = (Some rows, r')"
  then show "rows = server_rows r"
    by (auto simp: redis_queue_store_def Load_server split: prod.splits redis_fault.splits)
next
  fix r show "server_rows (snd (qs_Load (redis_queue_store redis_connection key) r)) = server_rows r"
    using next_fault_list [of r]
    by (auto simp: redis_queue_store_def Load_server server_rows_def split: prod.splits redis_fault.splits)
next
  fix r snapshot assume "never_refuses r"
  then show "never_refuses (snd (qs_Save (redis_queue_store redis_connection key) snapshot r))"
    using never_refuses_next [of r]
    by (auto simp: redis_queue_store_def Save_server split: prod.splits redis_fault.splits)
       (simp_all add: never_refuses_def)
next
  fix r assume "never_refuses r"
  then show "never_refuses (snd (qs_Load (redis_queue_store redis_connection key) r))"
    using never_refuses_next [of r]
    by (auto simp: redis_queue_store_def Load_server split: prod.splits redis_fault.splits)
qed

end
