(* ===== verification/Match_Queue_Inv.thy ===== *)
theory Match_Queue_Inv
  imports Match_Queue
begin

text \<open>
  The concurrent behaviour of the queue and its invariant. A state of the step relation
  \<open>mq_step\<close> is the queue and the list of groups in flight: taken from the queue by some call or held
  by the worker, their room not yet committed. Every section under the lock is one step, so every
  interleaving of concurrent calls is a run. \<open>queue_inv\<close> holds along every run; the operations of
  the previous theory, run alone, are runs too.
\<close>

section \<open>Map lemmas\<close>

lemma keys_distinct_map_entry [simp]: "keys_distinct (AList.map_entry k f es) = keys_distinct es"
  by (simp add: keys_distinct_def)

lemma keys_fold_map_entry [simp]: "map fst (fold (\<lambda>p. AList.map_entry p f) ps es) = map fst es"
  by (induction ps arbitrary: es) simp_all

lemma keys_distinct_fold_map_entry [simp]:
  "keys_distinct (fold (\<lambda>p. AList.map_entry p f) ps es) = keys_distinct es"
  by (simp add: keys_distinct_def)

lemma map_of_fold_map_entry:
  "distinct ps \<Longrightarrow> map_of (fold (\<lambda>p. AList.map_entry p f) ps es) x =
     (if x \<in> set ps then map_option f (map_of es x) else map_of es x)"
  by (induction ps arbitrary: es) auto

lemma map_of_fold_delete:
  "map_of (fold AList.delete ps es) x = (if x \<in> set ps then None else map_of es x)"
  by (induction ps arbitrary: es) (auto simp: delete_conv')

lemma keys_distinct_fold_delete: "keys_distinct es \<Longrightarrow> keys_distinct (fold AList.delete ps es)"
  by (induction ps arbitrary: es) (simp_all add: keys_distinct_delete)

lemma fold_remove1: "distinct xs \<Longrightarrow> fold remove1 ys xs = filter (\<lambda>x. x \<notin> set ys) xs"
proof (induction ys arbitrary: xs)
  case (Cons y ys)
  then show ?case
    by (simp add: distinct_remove1_removeAll removeAll_filter_not_eq) (rule filter_cong, auto)
qed simp

section \<open>The invariant\<close>

definition waiting :: "Entry \<Rightarrow> bool" where
  "waiting e \<longleftrightarrow> en_state e = StateQueued \<and> \<not> en_allocating e \<and> \<not> en_cancel_requested e"

definition in_group :: "(string, Entry) umap \<Rightarrow> PendingGroup \<Rightarrow> string \<Rightarrow> bool" where
  "in_group es g p \<longleftrightarrow> (\<exists>e. map_of es p = Some e \<and> en_state e = StateQueued \<and> en_allocating e
     \<and> en_match_id e = pg_match_id g \<and> en_player_ids e = pg_player_ids g)"

definition same_result :: "Entry \<Rightarrow> Entry \<Rightarrow> bool" where
  "same_result e e' \<longleftrightarrow> en_state e' = StateMatched \<and> en_match_id e' = en_match_id e
     \<and> en_room_id e' = en_room_id e \<and> en_player_ids e' = en_player_ids e \<and> en_stamp_ms e' = en_stamp_ms e"

definition shared_result :: "(string, Entry) umap \<Rightarrow> string \<Rightarrow> Entry \<Rightarrow> bool" where
  "shared_result es p e \<longleftrightarrow> en_state e = StateMatched \<and> \<not> en_allocating e \<and> \<not> en_cancel_requested e
     \<and> en_room_id e \<noteq> [] \<and> p \<in> set (en_player_ids e)
     \<and> (\<forall>p' \<in> set (en_player_ids e). \<exists>e'. map_of es p' = Some e' \<and> same_result e e')"

definition entry_ok :: "string list \<Rightarrow> PendingGroup list \<Rightarrow> (string, Entry) umap \<Rightarrow> string \<Rightarrow> Entry \<Rightarrow> bool" where
  "entry_ok queue flight es p e \<longleftrightarrow>
     (waiting e \<and> p \<in> set queue)
     \<or> (en_state e = StateQueued \<and> en_allocating e \<and> (\<exists>g \<in> set flight. p \<in> set (pg_player_ids g)))
     \<or> shared_result es p e
     \<or> (en_state e = StateTimeout \<and> \<not> en_allocating e \<and> \<not> en_cancel_requested e)"

definition group_ok :: "(string, Entry) umap \<Rightarrow> PendingGroup \<Rightarrow> bool" where
  "group_ok es g \<longleftrightarrow> length (pg_player_ids g) = kPlayersPerMatch \<and> pg_match_id g \<noteq> []
     \<and> (\<forall>p \<in> set (pg_player_ids g). in_group es g p)"

definition entries_inv :: "string list \<Rightarrow> PendingGroup list \<Rightarrow> (string, Entry) umap \<Rightarrow> bool" where
  "entries_inv queue flight es \<longleftrightarrow>
     keys_distinct es \<and> distinct queue
     \<and> (\<forall>p \<in> set queue. \<exists>e. map_of es p = Some e \<and> waiting e)
     \<and> (\<forall>p e. map_of es p = Some e \<longrightarrow> entry_ok queue flight es p e)
     \<and> (\<forall>g \<in> set flight. group_ok es g)
     \<and> distinct (concat (map pg_player_ids flight))"

definition queue_inv :: "MatchQueue \<times> PendingGroup list \<Rightarrow> bool" where
  "queue_inv s \<longleftrightarrow> entries_inv (mq_queue (fst s)) (snd s) (mq_entries (fst s))
     \<and> 0 < mq_match_timeout_ms (fst s) \<and> 0 < mq_result_ttl_ms (fst s)
     \<and> mq_allocation_queue (fst s) = []"

lemma queue_inv_new: "queue_inv (MatchQueue_new ids t r n st, [])"
  by (simp add: queue_inv_def entries_inv_def MatchQueue_new_def kDefaultMatchTimeoutMs_def
      kDefaultResultTtlMs_def)

lemma entries_invD:
  assumes "entries_inv queue flight es"
  shows "keys_distinct es" "distinct queue"
    "p \<in> set queue \<Longrightarrow> \<exists>e. map_of es p = Some e \<and> waiting e"
    "map_of es p = Some e \<Longrightarrow> entry_ok queue flight es p e"
    "g \<in> set flight \<Longrightarrow> group_ok es g"
    "distinct (concat (map pg_player_ids flight))"
  using assms by (simp_all add: entries_inv_def)

lemma entries_inv_queued: "entries_inv queue flight es \<Longrightarrow> p \<in> set queue \<Longrightarrow> is_queued es p"
  by (auto dest!: entries_invD(3) simp: is_queued_def waiting_def)

lemma queue_not_in_flight:
  assumes "entries_inv queue flight es" "p \<in> set queue" "g \<in> set flight" "p \<in> set (pg_player_ids g)"
  shows False
proof -
  obtain e where "map_of es p = Some e" "waiting e" using assms(1,2) by (blast dest: entries_invD(3))
  moreover have "in_group es g p" using entries_invD(5) [OF assms(1,3)] assms(4) by (simp add: group_ok_def)
  ultimately show False by (auto simp: in_group_def waiting_def)
qed

text \<open>A new map that keeps the results as they are keeps every shared result.\<close>

lemma shared_result_cong:
  assumes "shared_result es p e" "\<And>x e. map_of es x = Some e \<Longrightarrow> en_state e = StateMatched \<Longrightarrow> map_of es' x = Some e"
  shows "shared_result es' p e"
  using assms unfolding shared_result_def same_result_def by blast

section \<open>Sweeping\<close>

lemma fold_time_out:
  "fold (time_out now_ms) ps q = q\<lparr>mq_queue := fold remove1 ps (mq_queue q),
     mq_entries := fold (\<lambda>p. AList.map_entry p (\<lambda>e. e\<lparr>en_state := StateTimeout, en_stamp_ms := now_ms\<rparr>)) ps
       (mq_entries q)\<rparr>"
  by (induction ps arbitrary: q) (simp_all add: time_out_def RemoveFromQueueLocked_def)

definition swept_entry :: "ms \<Rightarrow> MatchQueue \<Rightarrow> string \<Rightarrow> Entry option" where
  "swept_entry now_ms q p =
     (case map_of (mq_entries q) p of
        None \<Rightarrow> None
      | Some e \<Rightarrow> if p \<in> set (mq_queue q) \<and> overdue now_ms q p
                  then Some (e\<lparr>en_state := StateTimeout, en_stamp_ms := now_ms\<rparr>)
                  else if expired now_ms q e then None else Some e)"

lemma expired_simps [simp]:
  "expired now_ms (q\<lparr>mq_queue := x\<rparr>) e = expired now_ms q e"
  "expired now_ms (q\<lparr>mq_entries := y\<rparr>) e = expired now_ms q e"
  by (simp_all add: expired_def)

lemma Sweep_frame:
  assumes "SweepLocked now_ms q = (ch, q')"
  shows "mq_match_timeout_ms q' = mq_match_timeout_ms q" "mq_result_ttl_ms q' = mq_result_ttl_ms q"
    "mq_allocation_queue q' = mq_allocation_queue q" "mq_ids q' = mq_ids q"
    "mq_retry_pairing q' = mq_retry_pairing q" "mq_max_queue_size q' = mq_max_queue_size q"
    "mq_has_store q' = mq_has_store q" "mq_worker_running q' = mq_worker_running q"
    "mq_max_pending_allocations q' = mq_max_pending_allocations q"
    "mq_snapshot_dirty q' = mq_snapshot_dirty q" "mq_shutting_down q' = mq_shutting_down q"
  using assms by (auto simp: SweepLocked_def Let_def fold_time_out)

lemma Sweep_closed:
  assumes sw: "SweepLocked now_ms q = (ch, q')"
    and kd: "keys_distinct (mq_entries q)" and dq: "distinct (mq_queue q)" and ttl: "0 < mq_result_ttl_ms q"
  shows "mq_queue q' = filter (\<lambda>p. \<not> overdue now_ms q p) (mq_queue q)"
    "map_of (mq_entries q') p = swept_entry now_ms q p" "keys_distinct (mq_entries q')"
proof -
  define ts where "ts = filter (overdue now_ms q) (mq_queue q)"
  define f where "f = (\<lambda>e. e\<lparr>en_state := StateTimeout, en_stamp_ms := now_ms\<rparr> :: Entry)"
  define es1 where "es1 = fold (\<lambda>p. AList.map_entry p f) ts (mq_entries q)"
  have ts: "distinct ts" "\<And>x. x \<in> set ts \<longleftrightarrow> x \<in> set (mq_queue q) \<and> overdue now_ms q x"
    using dq by (auto simp: ts_def)
  have q': "mq_queue q' = fold remove1 ts (mq_queue q)"
      "mq_entries q' = filter (\<lambda>(_, e). \<not> expired now_ms q e) es1"
    using sw by (auto simp: SweepLocked_def Let_def fold_time_out ts_def es1_def f_def)
  have kd1: "keys_distinct es1" using kd by (simp add: es1_def)
  show "mq_queue q' = filter (\<lambda>p. \<not> overdue now_ms q p) (mq_queue q)"
    unfolding q'(1) using fold_remove1 [OF dq, of ts] ts(2) by (auto intro: filter_cong)
  show "keys_distinct (mq_entries q')" using kd1 by (simp add: q'(2) keys_distinct_filter)
  have "map_of es1 p = (if p \<in> set ts then map_option f (map_of (mq_entries q) p) else map_of (mq_entries q) p)"
    using ts(1) by (simp add: es1_def map_of_fold_map_entry)
  then show "map_of (mq_entries q') p = swept_entry now_ms q p"
    using ttl unfolding q'(2) map_of_filter_value [OF kd1]
    by (auto simp: swept_entry_def ts(2) f_def expired_def split: option.splits)
qed

lemma swept_matched:
  "en_state e = StateMatched \<Longrightarrow> entries_inv (mq_queue q) fl (mq_entries q) \<Longrightarrow>
   map_of (mq_entries q) p = Some e \<Longrightarrow> swept_entry now_ms q p = (if expired now_ms q e then None else Some e)"
  by (auto simp: swept_entry_def dest!: entries_invD(3) [of _ _ _ p] simp: waiting_def)

lemma swept_in_flight:
  assumes "entries_inv (mq_queue q) fl (mq_entries q)" "in_group (mq_entries q) g p" "p \<notin> set (mq_queue q)"
  shows "swept_entry now_ms q p = map_of (mq_entries q) p"
  using assms by (auto simp: in_group_def swept_entry_def expired_def)

lemma in_group_cong: "map_of es' p = map_of es p \<Longrightarrow> in_group es' g p = in_group es g p"
  by (simp add: in_group_def)

lemma shared_result_swept:
  assumes inv: "entries_inv (mq_queue q) fl (mq_entries q)"
    and sh: "shared_result (mq_entries q) p e" and ne: "\<not> expired now_ms q e"
    and es': "\<And>x. map_of es' x = swept_entry now_ms q x"
  shows "shared_result es' p e"
proof -
  have "\<exists>e'. map_of es' x = Some e' \<and> same_result e e'" if x: "x \<in> set (en_player_ids e)" for x
  proof -
    from sh x obtain e' where e': "map_of (mq_entries q) x = Some e'" "same_result e e'"
      by (auto simp: shared_result_def)
    then have "\<not> expired now_ms q e'" using ne sh by (auto simp: same_result_def shared_result_def expired_def)
    then have "map_of es' x = Some e'"
      using swept_matched [OF _ inv e'(1), of now_ms] e'(2) es' by (simp add: same_result_def)
    with e'(2) show ?thesis by blast
  qed
  with sh show ?thesis by (simp add: shared_result_def)
qed

lemma entry_ok_swept:
  assumes inv: "entries_inv (mq_queue q) fl (mq_entries q)"
    and es': "\<And>x. map_of es' x = swept_entry now_ms q x" and p: "map_of es' p = Some e"
  shows "entry_ok (filter (\<lambda>p. \<not> overdue now_ms q p) (mq_queue q)) fl es' p e"
proof -
  from p obtain e0 where e0: "map_of (mq_entries q) p = Some e0"
    by (auto simp: es' swept_entry_def split: option.splits)
  note ok = entries_invD(4) [OF inv e0]
  show ?thesis
  proof (cases "p \<in> set (mq_queue q) \<and> overdue now_ms q p")
    case True
    with p e0 have e: "e = e0\<lparr>en_state := StateTimeout, en_stamp_ms := now_ms\<rparr>"
      by (simp add: es' swept_entry_def)
    obtain e1 where "map_of (mq_entries q) p = Some e1" "waiting e1"
      using entries_invD(3) [OF inv] True by blast
    then show ?thesis using e e0 by (simp add: entry_ok_def waiting_def)
  next
    case False
    with p e0 have e: "e = e0" "\<not> expired now_ms q e0"
      by (auto simp: es' swept_entry_def split: if_splits)
    show ?thesis using ok shared_result_swept [OF inv _ e(2) es'] False
      unfolding e(1) entry_ok_def by auto
  qed
qed

lemma entries_inv_Sweep:
  assumes inv: "entries_inv (mq_queue q) fl (mq_entries q)" and ttl: "0 < mq_result_ttl_ms q"
    and sw: "SweepLocked now_ms q = (ch, q')"
  shows "entries_inv (mq_queue q') fl (mq_entries q')"
proof -
  note cl = Sweep_closed [OF sw entries_invD(1,2) [OF inv] ttl]
  have "\<exists>e. map_of (mq_entries q') p = Some e \<and> waiting e"
    if p: "p \<in> set (mq_queue q')" for p
  proof -
    from p have p: "p \<in> set (mq_queue q)" "\<not> overdue now_ms q p" by (auto simp: cl(1))
    obtain e where "map_of (mq_entries q) p = Some e" "waiting e"
      using entries_invD(3) [OF inv p(1)] by blast
    with p(2) show ?thesis unfolding cl(2) by (simp add: swept_entry_def expired_def waiting_def)
  qed
  moreover have "group_ok (mq_entries q') g" if g: "g \<in> set fl" for g
  proof -
    have "in_group (mq_entries q') g p" if p: "p \<in> set (pg_player_ids g)" for p
    proof -
      have ig: "in_group (mq_entries q) g p" using entries_invD(5) [OF inv g] p by (simp add: group_ok_def)
      have nq: "p \<notin> set (mq_queue q)" using queue_not_in_flight [OF inv _ g p] by blast
      have "map_of (mq_entries q') p = map_of (mq_entries q) p"
        unfolding cl(2) by (rule swept_in_flight [OF inv ig nq])
      then show ?thesis using ig in_group_cong by blast
    qed
    with entries_invD(5) [OF inv g] show ?thesis by (simp add: group_ok_def)
  qed
  moreover have "distinct (mq_queue q')" using entries_invD(2) [OF inv] by (simp add: cl(1))
  ultimately show ?thesis
    using entry_ok_swept [OF inv cl(2)] cl(1,3) entries_invD(6) [OF inv]
    by (simp add: entries_inv_def)
qed

lemma queue_inv_Sweep:
  "queue_inv (q, fl) \<Longrightarrow> SweepLocked now_ms q = (ch, q') \<Longrightarrow> queue_inv (q', fl)"
  using entries_inv_Sweep [of q fl now_ms ch q'] by (auto simp: queue_inv_def Sweep_frame)

section \<open>Changing the entries of some players\<close>

text \<open>The common argument of the other sections: the players in \<open>S\<close> change, everybody else keeps his
  entry and his place, groups that lose a member leave the flight.\<close>

lemma entries_inv_update:
  assumes inv: "entries_inv queue fl es"
    and new: "keys_distinct es'" "distinct queue'" "distinct (concat (map pg_player_ids fl'))"
    and out: "\<And>x. x \<notin> S \<Longrightarrow> map_of es' x = map_of es x"
    and qout: "\<And>x. x \<notin> S \<Longrightarrow> x \<in> set queue' \<longleftrightarrow> x \<in> set queue"
    and nm: "\<And>x e. x \<in> S \<Longrightarrow> map_of es x = Some e \<Longrightarrow> en_state e \<noteq> StateMatched"
    and ok: "\<And>x e. x \<in> S \<Longrightarrow> map_of es' x = Some e \<Longrightarrow> entry_ok queue' fl' es' x e"
    and qin: "\<And>x. x \<in> S \<Longrightarrow> x \<in> set queue' \<Longrightarrow> \<exists>e. map_of es' x = Some e \<and> waiting e"
    and old: "\<And>g. g \<in> set fl \<Longrightarrow> g \<in> set fl' \<or> set (pg_player_ids g) \<subseteq> S"
    and grp: "\<And>g. g \<in> set fl' \<Longrightarrow> (g \<in> set fl \<and> set (pg_player_ids g) \<inter> S = {}) \<or> group_ok es' g"
  shows "entries_inv queue' fl' es'"
proof -
  have sh: "shared_result es' x e" if "shared_result es x e" for x e
    using that by (rule shared_result_cong) (metis nm out)
  have "entry_ok queue' fl' es' x e" if e: "map_of es' x = Some e" for x e
  proof (cases "x \<in> S")
    case False
    with e out have e0: "map_of es x = Some e" by simp
    from entries_invD(4) [OF inv e0] show ?thesis
      unfolding entry_ok_def using sh qout [OF False] old False by blast
  qed (use e ok in blast)
  moreover have "\<exists>e. map_of es' x = Some e \<and> waiting e" if x: "x \<in> set queue'" for x
    using qin [of x] x out [of x] qout [of x] entries_invD(3) [OF inv, of x] by (cases "x \<in> S") auto
  moreover have "group_ok es' g" if g: "g \<in> set fl'" for g
    using grp [OF g]
  proof
    assume a: "g \<in> set fl \<and> set (pg_player_ids g) \<inter> S = {}"
    then have "\<forall>x \<in> set (pg_player_ids g). map_of es' x = map_of es x" using out by blast
    with a entries_invD(5) [OF inv, of g] show ?thesis by (simp add: group_ok_def in_group_def)
  qed
  ultimately show ?thesis using new by (simp add: entries_inv_def)
qed

lemma flight_entry:
  "entries_inv queue fl es \<Longrightarrow> g \<in> set fl \<Longrightarrow> p \<in> set (pg_player_ids g) \<Longrightarrow> in_group es g p"
  by (drule entries_invD(5)) (auto simp: group_ok_def)

lemma in_flight_not_matched:
  "entries_inv queue fl es \<Longrightarrow> g \<in> set fl \<Longrightarrow> p \<in> set (pg_player_ids g) \<Longrightarrow> map_of es p = Some e \<Longrightarrow>
   en_state e = StateQueued \<and> en_allocating e"
  by (drule entries_invD(5)) (auto simp: group_ok_def in_group_def)

lemma allocating_in_flight:
  assumes "entries_inv queue fl es" "map_of es p = Some e" "en_allocating e"
  obtains g where "g \<in> set fl" "p \<in> set (pg_player_ids g)"
  using entries_invD(4) [OF assms(1,2)] assms(3)
  by (auto simp: entry_ok_def waiting_def shared_result_def)

lemma entry_state_cases:
  assumes "entries_inv queue fl es" "map_of es p = Some e"
  obtains (queued) "waiting e" "p \<in> set queue" | (allocating) "en_state e = StateQueued" "en_allocating e"
    | (matched) "shared_result es p e" | (timeout) "en_state e = StateTimeout" "\<not> en_allocating e" "\<not> en_cancel_requested e"
  using entries_invD(4) [OF assms] by (auto simp: entry_ok_def)

section \<open>Enqueue and cancel\<close>

lemma entries_inv_append:
  assumes inv: "entries_inv queue fl es" and p: "map_of es p = None \<or> (\<exists>e. map_of es p = Some e \<and> en_state e = StateTimeout)"
    and es': "keys_distinct es'" "map_of es' = (map_of es)(p \<mapsto> e')" and w: "waiting e'"
  shows "entries_inv (queue @ [p]) fl es'"
proof (rule entries_inv_update [OF inv es'(1), where S = "{p}"])
  have nf: "\<And>g. g \<in> set fl \<Longrightarrow> p \<notin> set (pg_player_ids g)"
    using p flight_entry [OF inv, of _ p] by (fastforce simp: in_group_def)
  have "p \<notin> set queue" using p entries_invD(3) [OF inv, of p] by (auto simp: waiting_def)
  then show "distinct (queue @ [p])" using entries_invD(2) [OF inv] by simp
  show "distinct (concat (map pg_player_ids fl))" using entries_invD(6) [OF inv] .
  show "\<And>g. g \<in> set fl \<Longrightarrow> (g \<in> set fl \<and> set (pg_player_ids g) \<inter> {p} = {}) \<or> group_ok es' g"
    using nf by blast
qed (use p w es'(2) in \<open>auto simp: entry_ok_def\<close>)

lemma not_result_of_inv:
  "entries_inv queue fl es \<Longrightarrow> map_of es p = Some e \<Longrightarrow> en_state e \<noteq> StateQueued \<Longrightarrow> en_state e \<noteq> StateMatched \<Longrightarrow>
   en_state e = StateTimeout"
  by (erule (1) entry_state_cases) (auto simp: waiting_def shared_result_def)

lemma queue_inv_EnqueueLocked:
  assumes "queue_inv (q0, fl)" "EnqueueLocked p r now_ms q0 = ((out, ch), q')"
  shows "queue_inv (q', fl)"
proof -
  obtain c q where sw: "SweepLocked now_ms q0 = (c, q)" by fastforce
  have qi: "queue_inv (q, fl)" by (rule queue_inv_Sweep [OF assms(1) sw])
  then have inv: "entries_inv (mq_queue q) fl (mq_entries q)" by (simp add: queue_inv_def)
  note kd = entries_invD(1) [OF inv]
  show ?thesis
  proof (cases "map_of (mq_entries q) p")
    case None
    define e' where "e' = fresh_entry\<lparr>en_state := StateQueued, en_request_id := r,
                          en_queued_at_ms := now_ms, en_stamp_ms := now_ms\<rparr>"
    have "entries_inv (mq_queue q @ [p]) fl (emplace p e' (mq_entries q))"
      using None kd by (intro entries_inv_append [OF inv, of _ _ e'])
        (auto simp: map_of_emplace keys_distinct_emplace e'_def waiting_def fresh_entry_def fun_eq_iff)
    then show ?thesis using assms(2) qi None sw
      by (auto simp: EnqueueLocked_def queue_inv_def e'_def split: if_splits)
  next
    case (Some e)
    define f where "f = (\<lambda>e. e\<lparr>en_state := StateQueued, en_request_id := r, en_queued_at_ms := now_ms,
                          en_stamp_ms := now_ms, en_allocating := False, en_cancel_requested := False\<rparr> :: Entry)"
    show ?thesis
    proof (cases "en_state e = StateQueued \<or> en_state e = StateMatched \<or> length (mq_queue q) \<ge> mq_max_queue_size q")
      case True
      then show ?thesis using assms(2) qi Some sw by (auto simp: EnqueueLocked_def split: if_splits)
    next
      case False
      then have "en_state e = StateTimeout" using not_result_of_inv [OF inv Some] by blast
      then have "entries_inv (mq_queue q @ [p]) fl (AList.map_entry p f (mq_entries q))"
        using Some kd by (intro entries_inv_append [OF inv, of _ _ "f e"]) (auto simp: f_def waiting_def fun_eq_iff)
      then show ?thesis using assms(2) qi Some sw False
        by (auto simp: EnqueueLocked_def queue_inv_def f_def split: if_splits)
    qed
  qed
qed

lemma entries_inv_cancel_allocating:
  assumes inv: "entries_inv queue fl es" and p: "map_of es p = Some e" "en_allocating e"
  shows "entries_inv queue fl (AList.map_entry p (\<lambda>e. e\<lparr>en_cancel_requested := True\<rparr>) es)" (is "entries_inv _ _ ?es'")
proof (rule entries_inv_update [OF inv, where S = "{p}"])
  from allocating_in_flight [OF inv p] obtain g where g: "g \<in> set fl" "p \<in> set (pg_player_ids g)" .
  note st = in_flight_not_matched [OF inv g p(1)]
  have nq: "p \<notin> set queue" using queue_not_in_flight [OF inv _ g] by blast
  show "keys_distinct ?es'" using entries_invD(1) [OF inv] by simp
  show "\<And>x e. x \<in> {p} \<Longrightarrow> map_of es x = Some e \<Longrightarrow> en_state e \<noteq> StateMatched" using p st by auto
  show "\<And>x e. x \<in> {p} \<Longrightarrow> map_of ?es' x = Some e \<Longrightarrow> entry_ok queue fl ?es' x e"
    using p st g by (auto simp: entry_ok_def)
  show "\<And>x. x \<in> {p} \<Longrightarrow> x \<in> set queue \<Longrightarrow> \<exists>e. map_of ?es' x = Some e \<and> waiting e" using nq by simp
  show "(h \<in> set fl \<and> set (pg_player_ids h) \<inter> {p} = {}) \<or> group_ok ?es' h" if h: "h \<in> set fl" for h
  proof (rule disjI2)
    have "group_ok es h" using h by (rule entries_invD(5) [OF inv])
    then show "group_ok ?es' h" by (auto simp: group_ok_def in_group_def)
  qed
qed (use entries_invD(2,6) [OF inv] in auto)

lemma entries_inv_remove:
  assumes inv: "entries_inv queue fl es" and p: "map_of es p = Some e" "waiting e"
  shows "entries_inv (remove1 p queue) fl (AList.delete p es)"
proof (rule entries_inv_update [OF inv, where S = "{p}"])
  have nf: "\<And>g. g \<in> set fl \<Longrightarrow> p \<notin> set (pg_player_ids g)"
    using p in_flight_not_matched [OF inv _ _ p(1)] by (auto simp: waiting_def)
  show "keys_distinct (AList.delete p es)" using entries_invD(1) [OF inv] by (rule keys_distinct_delete)
  show "\<And>g. g \<in> set fl \<Longrightarrow> (g \<in> set fl \<and> set (pg_player_ids g) \<inter> {p} = {}) \<or> group_ok (AList.delete p es) g"
    using nf by blast
  show "distinct (remove1 p queue)" using entries_invD(2) [OF inv] by simp
  show "\<And>x. x \<in> {p} \<Longrightarrow> x \<in> set (remove1 p queue) \<Longrightarrow> \<exists>e. map_of (AList.delete p es) x = Some e \<and> waiting e"
    using entries_invD(2) [OF inv] by simp
qed (use p entries_invD(2,6) [OF inv] in \<open>auto simp: delete_conv' waiting_def\<close>)

lemma queue_inv_CancelLocked:
  assumes "queue_inv (q0, fl)" "CancelLocked p now_ms q0 = ((removed, ch), q')"
  shows "queue_inv (q', fl)"
proof -
  obtain c q where sw: "SweepLocked now_ms q0 = (c, q)" by fastforce
  have qi: "queue_inv (q, fl)" by (rule queue_inv_Sweep [OF assms(1) sw])
  then have inv: "entries_inv (mq_queue q) fl (mq_entries q)" by (simp add: queue_inv_def)
  show ?thesis
  proof (cases "map_of (mq_entries q) p")
    case None
    then show ?thesis using assms(2) qi sw by (simp add: CancelLocked_def)
  next
    case (Some e)
    show ?thesis
    proof (cases "en_allocating e")
      case True
      then show ?thesis using assms(2) qi sw Some entries_inv_cancel_allocating [OF inv Some True]
        by (auto simp: CancelLocked_def queue_inv_def)
    next
      case False
      then have "en_state e = StateQueued \<Longrightarrow> waiting e"
        using entry_state_cases [OF inv Some] by (auto simp: shared_result_def)
      then show ?thesis using assms(2) qi sw Some False entries_inv_remove [OF inv Some]
        by (auto simp: CancelLocked_def queue_inv_def RemoveFromQueueLocked_def split: if_splits)
    qed
  qed
qed

section \<open>Taking groups\<close>

lemma take_two:
  "take_members es [a, b] rest = ([a, b], rest)"
  "is_queued es a \<Longrightarrow> is_queued es b \<Longrightarrow> take_members es [] (a # b # rest) = ([a, b], rest)"
proof -
  show *: "take_members es [a, b] rest = ([a, b], rest)"
    by (cases rest) (simp_all add: kPlayersPerMatch_def)
  show "is_queued es a \<Longrightarrow> is_queued es b \<Longrightarrow> take_members es [] (a # b # rest) = ([a, b], rest)"
    by (simp add: * kPlayersPerMatch_def)
qed

lemma Take_short: "length (mq_queue q) < 2 \<Longrightarrow> TakePairGroupsLocked q = ([], q)"
  by (simp add: TakePairGroupsLocked.simps kPlayersPerMatch_def)

definition pair_taken :: "string \<Rightarrow> string \<Rightarrow> string \<Rightarrow> string list \<Rightarrow> MatchQueue \<Rightarrow> PendingGroup" where
  "pair_taken a b m ids q = \<lparr>pg_match_id = m, pg_player_ids = [a, b],
     pg_request_id = head_request_id (mq_entries q) [a, b]\<rparr>"

definition after_pair :: "string \<Rightarrow> string \<Rightarrow> string list \<Rightarrow> string \<Rightarrow> string list \<Rightarrow> MatchQueue \<Rightarrow> MatchQueue" where
  "after_pair a b rest m ids q = q\<lparr>mq_queue := rest, mq_ids := ids,
     mq_entries := mark_allocating m [a, b] (mq_entries q)\<rparr>"

lemma Take_pair:
  assumes "mq_queue q = a # b # rest" "is_queued (mq_entries q) a" "is_queued (mq_entries q) b"
    "next_match_id q = (m, ids)"
  shows "TakePairGroupsLocked q =
    (if m = [] then ([], q\<lparr>mq_ids := ids\<rparr>)
     else case TakePairGroupsLocked (after_pair a b rest m ids q) of
       (gs, q') \<Rightarrow> (pair_taken a b m ids q # gs, q'))"
proof -
  have "q\<lparr>mq_queue := a # b # rest\<rparr> = q" using assms(1) by (cases q) simp
  then show ?thesis
    using assms(4)
    by (subst TakePairGroupsLocked.simps)
       (simp add: assms(1) take_two(2) [OF assms(2,3)] after_pair_def pair_taken_def kPlayersPerMatch_def
          del: take_members.simps)
qed

lemma map_of_mark_allocating:
  "distinct grp \<Longrightarrow> map_of (mark_allocating m grp es) x =
     (if x \<in> set grp
      then map_option (\<lambda>e. e\<lparr>en_allocating := True, en_match_id := m, en_player_ids := grp\<rparr>) (map_of es x)
      else map_of es x)"
  by (simp add: mark_allocating_def map_of_fold_map_entry)

lemma entries_inv_take:
  assumes inv: "entries_inv (a # b # rest) fl es" and m: "m \<noteq> []" and g: "pg_match_id g = m" "pg_player_ids g = [a, b]"
  shows "entries_inv rest (fl @ [g]) (mark_allocating m [a, b] es)" (is "entries_inv _ _ ?es'")
proof (rule entries_inv_update [OF inv, where S = "{a, b}"])
  have d: "a \<noteq> b" "a \<notin> set rest" "b \<notin> set rest" using entries_invD(2) [OF inv] by auto
  obtain ea eb where e: "map_of es a = Some ea" "waiting ea" "map_of es b = Some eb" "waiting eb"
    using entries_invD(3) [OF inv, of a] entries_invD(3) [OF inv, of b] by auto
  have nf: "\<And>h. h \<in> set fl \<Longrightarrow> a \<notin> set (pg_player_ids h) \<and> b \<notin> set (pg_player_ids h)"
    using queue_not_in_flight [OF inv, of a] queue_not_in_flight [OF inv, of b] by auto
  show "keys_distinct ?es'" using entries_invD(1) [OF inv] by (simp add: mark_allocating_def)
  show "distinct rest" using entries_invD(2) [OF inv] by simp
  show "distinct (concat (map pg_player_ids (fl @ [g])))" using entries_invD(6) [OF inv] d nf g by auto
  show "\<And>x. x \<notin> {a, b} \<Longrightarrow> map_of ?es' x = map_of es x" using d by (simp add: map_of_mark_allocating)
  show "\<And>x e. x \<in> {a, b} \<Longrightarrow> map_of es x = Some e \<Longrightarrow> en_state e \<noteq> StateMatched"
    using e by (auto simp: waiting_def)
  show "\<And>x e. x \<in> {a, b} \<Longrightarrow> map_of ?es' x = Some e \<Longrightarrow> entry_ok rest (fl @ [g]) ?es' x e"
    using e d g by (auto simp: map_of_mark_allocating entry_ok_def waiting_def)
  show "\<And>h. h \<in> set (fl @ [g]) \<Longrightarrow> (h \<in> set fl \<and> set (pg_player_ids h) \<inter> {a, b} = {}) \<or> group_ok ?es' h"
    using nf e d g m
    by (auto simp: group_ok_def in_group_def map_of_mark_allocating waiting_def kPlayersPerMatch_def)
qed (use entries_invD(2) [OF inv] in auto)

lemma queue_inv_after_pair:
  assumes "queue_inv (q, fl)" "mq_queue q = a # b # rest" "m \<noteq> []"
  shows "queue_inv (after_pair a b rest m ids q, fl @ [pair_taken a b m ids q])"
  using assms entries_inv_take [of a b rest fl "mq_entries q" m "pair_taken a b m ids q"]
  by (simp add: queue_inv_def after_pair_def pair_taken_def)

lemma head_request_after_pair:
  "a \<noteq> b \<Longrightarrow> map_option en_request_id (map_of (mq_entries (after_pair a b rest m ids q)) x) =
   map_option en_request_id (map_of (mq_entries q) x)"
  by (auto simp: after_pair_def map_of_mark_allocating option.map_comp comp_def)

definition supplied :: "string list \<Rightarrow> PendingGroup list \<Rightarrow> string list \<Rightarrow> bool" where
  "supplied ids gs rest \<longleftrightarrow> map pg_match_id gs = take (length gs) ids \<and> length gs \<le> length ids
     \<and> (length rest < 2 \<or> drop (length gs) ids = [] \<or> hd (drop (length gs) ids) = [])"

definition head_requests :: "(string, Entry) umap \<Rightarrow> PendingGroup list \<Rightarrow> bool" where
  "head_requests es gs \<longleftrightarrow> (\<forall>g \<in> set gs.
     map_option en_request_id (map_of es (hd (pg_player_ids g))) = Some (pg_request_id g))"

text \<open>What pairing, a failed allocation and putting back leave as it is in an entry.\<close>

definition stable_part :: "Entry \<Rightarrow> MatchState \<times> string \<times> ms \<times> bool" where
  "stable_part e = (en_state e, en_request_id e, en_queued_at_ms e, en_cancel_requested e)"

lemma stable_after_pair:
  "a \<noteq> b \<Longrightarrow> map_option stable_part (map_of (mq_entries (after_pair a b rest m ids q)) x) =
   map_option stable_part (map_of (mq_entries q) x)"
  by (auto simp: after_pair_def map_of_mark_allocating option.map_comp comp_def stable_part_def [abs_def])

lemma Take_spec:
  assumes "queue_inv (q, fl)" "TakePairGroupsLocked q = (gs, q')"
  shows "queue_inv (q', fl @ gs) \<and> concat (map pg_player_ids gs) @ mq_queue q' = mq_queue q
    \<and> supplied (mq_ids q) gs (mq_queue q') \<and> head_requests (mq_entries q) gs
    \<and> mq_retry_pairing q' = mq_retry_pairing q \<and> mq_worker_running q' = mq_worker_running q
    \<and> mq_max_pending_allocations q' = mq_max_pending_allocations q
    \<and> (\<forall>x. x \<notin> set (concat (map pg_player_ids gs)) \<longrightarrow> map_of (mq_entries q') x = map_of (mq_entries q) x)
    \<and> (\<forall>x. map_option stable_part (map_of (mq_entries q') x) = map_option stable_part (map_of (mq_entries q) x))"
  using assms
proof (induction "length (mq_queue q)" arbitrary: q fl gs rule: less_induct)
  case less
  have inv: "entries_inv (mq_queue q) fl (mq_entries q)" using less.prems(1) by (simp add: queue_inv_def)
  show ?case
  proof (cases "length (mq_queue q) < 2")
    case True
    then show ?thesis using less.prems by (auto simp: Take_short supplied_def head_requests_def)
  next
    case False
    then obtain a b rest where r: "mq_queue q = a # b # rest"
      by (cases "mq_queue q" rule: remdups_adj.cases) auto
    obtain m ids where m: "next_match_id q = (m, ids)" by fastforce
    have iq: "is_queued (mq_entries q) a" "is_queued (mq_entries q) b"
      using entries_inv_queued [OF inv] by (simp_all add: r)
    have ab: "a \<noteq> b" using entries_invD(2) [OF inv] by (simp add: r)
    note eq = Take_pair [OF r iq m]
    show ?thesis
    proof (cases "m = []")
      case True
      then show ?thesis using less.prems eq m r
        by (auto simp: supplied_def head_requests_def queue_inv_def next_match_id_def split: list.splits)
    next
      case False
      define q1 where "q1 = after_pair a b rest m ids q"
      obtain gs' where gs: "TakePairGroupsLocked q1 = (gs', q')" "gs = pair_taken a b m ids q # gs'"
        using less.prems(2) eq False by (auto simp: q1_def split: prod.splits)
      have mids: "mq_ids q = m # ids" using m False by (auto simp: next_match_id_def split: list.splits)
      have q1: "mq_queue q1 = rest" "mq_ids q1 = ids" "mq_retry_pairing q1 = mq_retry_pairing q"
          "mq_worker_running q1 = mq_worker_running q"
          "mq_max_pending_allocations q1 = mq_max_pending_allocations q"
        by (simp_all add: q1_def after_pair_def)
      have "length (mq_queue q1) < length (mq_queue q)" using q1 r by simp
      moreover have "queue_inv (q1, fl @ [pair_taken a b m ids q])"
        unfolding q1_def by (rule queue_inv_after_pair [OF less.prems(1) r False])
      ultimately have "queue_inv (q', (fl @ [pair_taken a b m ids q]) @ gs')
        \<and> concat (map pg_player_ids gs') @ mq_queue q' = mq_queue q1
        \<and> supplied (mq_ids q1) gs' (mq_queue q') \<and> head_requests (mq_entries q1) gs'
        \<and> mq_retry_pairing q' = mq_retry_pairing q1 \<and> mq_worker_running q' = mq_worker_running q1
        \<and> mq_max_pending_allocations q' = mq_max_pending_allocations q1
        \<and> (\<forall>x. x \<notin> set (concat (map pg_player_ids gs')) \<longrightarrow> map_of (mq_entries q') x = map_of (mq_entries q1) x)
        \<and> (\<forall>x. map_option stable_part (map_of (mq_entries q') x) = map_option stable_part (map_of (mq_entries q1) x))"
        using gs(1) by (rule less.hyps)
      note IH = this
      obtain ea where ea: "map_of (mq_entries q) a = Some ea"
        using entries_invD(3) [OF inv, of a] r by auto
      have hr: "head_requests (mq_entries q) gs"
        using IH head_request_after_pair [OF ab, of rest m ids q] ea gs(2)
        by (auto simp: head_requests_def q1_def pair_taken_def head_request_id_def)
      show ?thesis
        using IH gs(2) q1 r mids hr ab stable_after_pair [OF ab, of rest m ids q, folded q1_def]
        by (auto simp: supplied_def pair_taken_def q1_def after_pair_def map_of_mark_allocating)
    qed
  qed
qed

section \<open>Committing a group\<close>

definition reset_entry :: "Entry \<Rightarrow> Entry" where
  "reset_entry e = e\<lparr>en_allocating := False, en_match_id := [], en_player_ids := []\<rparr>"

lemma foldr_put_back:
  "distinct ps \<Longrightarrow> \<forall>p \<in> set ps. map_of (mq_entries q) p \<noteq> None \<Longrightarrow>
   foldr put_back ps q = q\<lparr>mq_queue := ps @ mq_queue q, mq_entries := mq_entries (foldr put_back ps q)\<rparr>
   \<and> map fst (mq_entries (foldr put_back ps q)) = map fst (mq_entries q)
   \<and> (\<forall>x. map_of (mq_entries (foldr put_back ps q)) x =
        (if x \<in> set ps then map_option reset_entry (map_of (mq_entries q) x) else map_of (mq_entries q) x))"
proof (induction ps)
  case (Cons p ps)
  define q1 where "q1 = foldr put_back ps q"
  have IH: "q1 = q\<lparr>mq_queue := ps @ mq_queue q, mq_entries := mq_entries q1\<rparr>"
      "map fst (mq_entries q1) = map fst (mq_entries q)"
      "\<And>x. map_of (mq_entries q1) x =
        (if x \<in> set ps then map_option reset_entry (map_of (mq_entries q) x) else map_of (mq_entries q) x)"
    using Cons unfolding q1_def by auto
  obtain e where e: "map_of (mq_entries q1) p = Some e" using Cons.prems IH(3) by auto
  have f: "foldr put_back (p # ps) q = put_back p q1" by (simp add: q1_def)
  have eq: "put_back p q1 = q1\<lparr>mq_entries := AList.map_entry p reset_entry (mq_entries q1), mq_queue := p # mq_queue q1\<rparr>"
    using e by (simp add: put_back_def reset_entry_def [abs_def])
  have qq: "mq_queue q1 = ps @ mq_queue q" by (subst IH(1)) simp
  have "put_back p q1 = q\<lparr>mq_queue := (p # ps) @ mq_queue q, mq_entries := AList.map_entry p reset_entry (mq_entries q1)\<rparr>"
    unfolding eq by (subst (1 2) IH(1)) (simp add: qq)
  then show ?case unfolding f using IH(2,3) Cons.prems(1) by (simp add: eq)
qed simp

definition matched_entry :: "PendingGroup \<Rightarrow> string \<Rightarrow> ms \<Rightarrow> Entry \<Rightarrow> Entry" where
  "matched_entry g room_id now_ms e = e\<lparr>en_state := StateMatched, en_allocating := False,
     en_room_id := room_id, en_player_ids := pg_player_ids g, en_stamp_ms := now_ms\<rparr>"

definition viable :: "(string, Entry) umap \<Rightarrow> PendingGroup \<Rightarrow> string \<Rightarrow> bool" where
  "viable es g room_id \<longleftrightarrow> room_id \<noteq> [] \<and> (\<forall>p \<in> set (pg_player_ids g). \<not> cancel_requested es p)"

definition staying :: "(string, Entry) umap \<Rightarrow> PendingGroup \<Rightarrow> string list" where
  "staying es g = filter (\<lambda>p. \<not> cancel_requested es p) (pg_player_ids g)"

definition committed_entry :: "PendingGroup \<Rightarrow> string \<Rightarrow> ms \<Rightarrow> (string, Entry) umap \<Rightarrow> string \<Rightarrow> Entry option" where
  "committed_entry g room_id now_ms es p =
     (if p \<notin> set (pg_player_ids g) then map_of es p
      else if viable es g room_id then map_option (matched_entry g room_id now_ms) (map_of es p)
      else if cancel_requested es p then None
      else map_option reset_entry (map_of es p))"

lemma Commit_closed:
  fixes q g room_id now_ms
  defines "q' \<equiv> CommitGroupLocked g room_id now_ms q"
  assumes pres: "\<forall>p \<in> set (pg_player_ids g). map_of (mq_entries q) p \<noteq> None"
    and d: "distinct (pg_player_ids g)" and kd: "keys_distinct (mq_entries q)"
  shows "map_of (mq_entries q') p = committed_entry g room_id now_ms (mq_entries q) p"
    "mq_queue q' = (if viable (mq_entries q) g room_id then mq_queue q
       else staying (mq_entries q) g @ mq_queue q)"
    "mq_retry_pairing q' = (mq_retry_pairing q \<or> room_id = [])" "keys_distinct (mq_entries q')"
    "q' = q\<lparr>mq_queue := mq_queue q', mq_entries := mq_entries q', mq_retry_pairing := mq_retry_pairing q'\<rparr>"
proof -
  define es where "es = mq_entries q"
  define cs where "cs = filter (cancel_requested es) (pg_player_ids g)"
  define st where "st = staying es g"
  have pr: "filter (\<lambda>p. map_of es p \<noteq> None) (pg_player_ids g) = pg_player_ids g"
    using pres by (simp add: es_def filter_id_conv)
  have ds: "distinct st" using d by (simp add: st_def staying_def)
  have vi: "viable es g room_id \<longleftrightarrow> room_id \<noteq> [] \<and> cs = []"
    by (auto simp: viable_def cs_def filter_empty_conv)
  have "map_of (mq_entries q') p = committed_entry g room_id now_ms es p \<and>
    mq_queue q' = (if viable es g room_id then mq_queue q else st @ mq_queue q) \<and>
    mq_retry_pairing q' = (mq_retry_pairing q \<or> room_id = []) \<and> keys_distinct (mq_entries q') \<and>
    q' = q\<lparr>mq_queue := mq_queue q', mq_entries := mq_entries q', mq_retry_pairing := mq_retry_pairing q'\<rparr>"
  proof (cases "viable es g room_id")
    case True
    then have all: "st = pg_player_ids g" by (simp add: st_def staying_def viable_def filter_id_conv)
    have q': "q' = q\<lparr>mq_entries := fold (\<lambda>p. AList.map_entry p (matched_entry g room_id now_ms)) st es\<rparr>"
      using True vi unfolding q'_def CommitGroupLocked_def es_def [symmetric] pr
      by (simp add: cs_def st_def staying_def matched_entry_def [abs_def] Let_def)
    then show ?thesis
      using True kd d all vi
      by (simp add: committed_entry_def map_of_fold_map_entry es_def)
  next
    case False
    define q1 where "q1 = q\<lparr>mq_retry_pairing := (mq_retry_pairing q \<or> room_id = []),
        mq_entries := fold AList.delete cs es\<rparr>"
    have q': "q' = foldr put_back st q1"
      using False vi unfolding q'_def CommitGroupLocked_def es_def [symmetric] pr
      by (auto simp: cs_def st_def staying_def q1_def Let_def)
    have m1: "\<And>x. map_of (mq_entries q1) x = (if x \<in> set cs then None else map_of es x)"
      by (simp add: q1_def map_of_fold_delete)
    have "\<forall>p \<in> set st. map_of (mq_entries q1) p \<noteq> None"
      using pres by (auto simp: m1 st_def staying_def cs_def es_def)
    note pb = foldr_put_back [OF ds this]
    have kd1: "keys_distinct (mq_entries q1)" using kd by (simp add: q1_def es_def keys_distinct_fold_delete)
    have keys: "map fst (mq_entries q') = map fst (mq_entries q1)"
      and es1: "\<And>x. map_of (mq_entries q') x = (if x \<in> set st then map_option reset_entry (map_of (mq_entries q1) x)
            else map_of (mq_entries q1) x)"
      and rec: "q' = q1\<lparr>mq_queue := st @ mq_queue q1, mq_entries := mq_entries q'\<rparr>"
      using pb unfolding q' by blast+
    have "keys_distinct (mq_entries q')" using kd1 keys by (simp add: keys_distinct_def)
    moreover have "map_of (mq_entries q') p = committed_entry g room_id now_ms es p"
      using False by (auto simp: es1 m1 committed_entry_def st_def staying_def cs_def)
    moreover have "mq_queue q' = st @ mq_queue q" "mq_retry_pairing q' = (mq_retry_pairing q \<or> room_id = [])"
      by (subst rec, simp add: q1_def)+
    moreover have "q' = q\<lparr>mq_queue := mq_queue q', mq_entries := mq_entries q', mq_retry_pairing := mq_retry_pairing q'\<rparr>"
      using calculation(3,4) by (subst rec) (simp add: q1_def)
    ultimately show ?thesis using False by simp
  qed
  then show "map_of (mq_entries q') p = committed_entry g room_id now_ms (mq_entries q) p"
    "mq_queue q' = (if viable (mq_entries q) g room_id then mq_queue q
       else staying (mq_entries q) g @ mq_queue q)"
    "mq_retry_pairing q' = (mq_retry_pairing q \<or> room_id = [])" "keys_distinct (mq_entries q')"
    "q' = q\<lparr>mq_queue := mq_queue q', mq_entries := mq_entries q', mq_retry_pairing := mq_retry_pairing q'\<rparr>"
    unfolding es_def st_def by blast+
qed

lemma flight_member_facts:
  assumes "entries_inv queue fl es" "g \<in> set fl"
  shows "\<forall>p \<in> set (pg_player_ids g). map_of es p \<noteq> None" "distinct (pg_player_ids g)"
    "\<forall>p \<in> set (pg_player_ids g). in_group es g p"
proof -
  show ig: "\<forall>p \<in> set (pg_player_ids g). in_group es g p" using flight_entry [OF assms] by blast
  then show "\<forall>p \<in> set (pg_player_ids g). map_of es p \<noteq> None" by (auto simp: in_group_def)
  show "distinct (pg_player_ids g)"
    using entries_invD(6) [OF assms(1)] assms(2) by (metis distinct_concat_iff image_eqI list.set_map)
qed

lemma entries_inv_commit:
  assumes inv: "entries_inv queue (xs @ g # ys) es"
    and es': "\<And>p. map_of es' p = committed_entry g room_id now_ms es p" and kd: "keys_distinct es'"
  shows "entries_inv (if viable es g room_id then queue else staying es g @ queue) (xs @ ys) es'"
    (is "entries_inv ?queue' _ _")
proof (rule entries_inv_update [OF inv kd, where S = "set (pg_player_ids g)"])
  have gin: "g \<in> set (xs @ g # ys)" by simp
  note fm = flight_member_facts [OF inv gin]
  have nq: "\<And>p. p \<in> set (pg_player_ids g) \<Longrightarrow> p \<notin> set queue"
    using queue_not_in_flight [OF inv _ gin] by blast
  show "distinct ?queue'"
    using entries_invD(2) [OF inv] fm(2) nq by (auto simp: staying_def)
  show "distinct (concat (map pg_player_ids (xs @ ys)))"
    using entries_invD(6) [OF inv] by auto
  show "\<And>x. x \<notin> set (pg_player_ids g) \<Longrightarrow> map_of es' x = map_of es x"
    by (simp add: es' committed_entry_def)
  show "\<And>x. x \<notin> set (pg_player_ids g) \<Longrightarrow> x \<in> set ?queue' \<longleftrightarrow> x \<in> set queue"
    by (auto simp: staying_def)
  show "\<And>x e. x \<in> set (pg_player_ids g) \<Longrightarrow> map_of es x = Some e \<Longrightarrow> en_state e \<noteq> StateMatched"
    using fm(3) by (force simp: in_group_def)
  show "entry_ok ?queue' (xs @ ys) es' x e" if x: "x \<in> set (pg_player_ids g)" and e: "map_of es' x = Some e" for x e
  proof (cases "viable es g room_id")
    case True
    have me: "\<exists>em. map_of es y = Some em \<and> en_match_id em = pg_match_id g \<and> \<not> en_cancel_requested em
        \<and> map_of es' y = Some (matched_entry g room_id now_ms em)" if y: "y \<in> set (pg_player_ids g)" for y
    proof -
      from fm(3) y obtain em where "map_of es y = Some em" "en_match_id em = pg_match_id g"
        by (auto simp: in_group_def)
      with y True show ?thesis by (auto simp: es' committed_entry_def viable_def cancel_requested_def)
    qed
    obtain em where em: "en_match_id em = pg_match_id g" "\<not> en_cancel_requested em"
        "e = matched_entry g room_id now_ms em" using me [OF x] e by auto
    have "\<exists>e'. map_of es' y = Some e' \<and> same_result e e'" if y: "y \<in> set (pg_player_ids g)" for y
      using me [OF y] em by (auto simp: same_result_def matched_entry_def)
    then have "shared_result es' x e"
      using em x True by (simp add: shared_result_def matched_entry_def viable_def)
    then show ?thesis by (simp add: entry_ok_def)
  next
    case False
    with x e have nc: "\<not> cancel_requested es x" by (auto simp: es' committed_entry_def split: if_splits)
    moreover have "waiting e"
    proof -
      from fm(3) x obtain em where "map_of es x = Some em" "en_state em = StateQueued" by (auto simp: in_group_def)
      with x e False nc show ?thesis
        by (auto simp: es' committed_entry_def reset_entry_def waiting_def cancel_requested_def)
    qed
    ultimately show ?thesis using False x by (simp add: entry_ok_def staying_def)
  qed
  show "\<exists>e. map_of es' x = Some e \<and> waiting e" if x: "x \<in> set (pg_player_ids g)" and q: "x \<in> set ?queue'" for x
  proof -
    have v: "\<not> viable es g room_id" "\<not> cancel_requested es x"
      using q nq [OF x] by (auto simp: staying_def split: if_splits)
    obtain e where e: "map_of es x = Some e" "en_state e = StateQueued" using fm(3) x by (force simp: in_group_def)
    then have "map_of es' x = Some (reset_entry e)" using v x by (simp add: es' committed_entry_def)
    moreover have "waiting (reset_entry e)"
      using e v(2) by (simp add: waiting_def reset_entry_def cancel_requested_def)
    ultimately show ?thesis by blast
  qed
  show "\<And>h. h \<in> set (xs @ g # ys) \<Longrightarrow> h \<in> set (xs @ ys) \<or> set (pg_player_ids h) \<subseteq> set (pg_player_ids g)"
    by auto
  show "(h \<in> set (xs @ g # ys) \<and> set (pg_player_ids h) \<inter> set (pg_player_ids g) = {}) \<or> group_ok es' h"
    if h: "h \<in> set (xs @ ys)" for h
    using entries_invD(6) [OF inv] h by auto
qed

lemma queue_inv_Commit:
  assumes "queue_inv (q, xs @ g # ys)"
  shows "queue_inv (CommitGroupLocked g room_id now_ms q, xs @ ys)"
proof -
  have inv: "entries_inv (mq_queue q) (xs @ g # ys) (mq_entries q)" using assms by (simp add: queue_inv_def)
  have gin: "g \<in> set (xs @ g # ys)" by simp
  note cl = Commit_closed [OF flight_member_facts(1,2) [OF inv gin] entries_invD(1) [OF inv],
      of room_id now_ms]
  have "entries_inv (mq_queue (CommitGroupLocked g room_id now_ms q)) (xs @ ys)
      (mq_entries (CommitGroupLocked g room_id now_ms q))"
    unfolding cl(2) by (rule entries_inv_commit [OF inv cl(1,4)])
  then show ?thesis using assms by (subst cl(5)) (simp add: queue_inv_def)
qed

section \<open>Interleaved calls\<close>

datatype mq_event = EvEnqueue string EnqueueOutcome | EvCancel string bool | EvSweep
  | EvTake "PendingGroup list" | EvCommit PendingGroup string | EvHandOff | EvPick | EvBookkeeping

text \<open>What the invariant reads; everything else (flags, counters, marks, the supply of ids) is
  bookkeeping.\<close>

definition core :: "MatchQueue \<Rightarrow> string list \<times> (string, Entry) umap \<times> (PendingGroup \<times> ms) list \<times> ms \<times> ms" where
  "core q = (mq_queue q, mq_entries q, mq_allocation_queue q, mq_match_timeout_ms q, mq_result_ttl_ms q)"

inductive mq_step :: "MatchQueue \<times> PendingGroup list \<Rightarrow> mq_event \<Rightarrow> MatchQueue \<times> PendingGroup list \<Rightarrow> bool" where
  enqueue: "EnqueueLocked p r now_ms q = ((out, ch), q') \<Longrightarrow> mq_step (q, fl) (EvEnqueue p out) (q', fl)"
| cancel: "CancelLocked p now_ms q = ((removed, ch), q') \<Longrightarrow> mq_step (q, fl) (EvCancel p removed) (q', fl)"
| sweep: "SweepLocked now_ms q = (ch, q') \<Longrightarrow> mq_step (q, fl) EvSweep (q', fl)"
| take: "TakePairGroupsLocked q = (gs, q') \<Longrightarrow> mq_step (q, fl) (EvTake gs) (q', fl @ gs)"
| commit: "mq_step (q, xs @ g # ys) (EvCommit g room_id) (CommitGroupLocked g room_id now_ms q, xs @ ys)"
| hand_off: "mq_worker_running q \<Longrightarrow> mq_allocation_queue q \<noteq> [] \<Longrightarrow>
    mq_step (q, fl @ gs) EvHandOff (HandOffToWorker gs now_ms q, fl)"
| pick: "mq_allocation_queue q = (g, t) # rest \<Longrightarrow>
    mq_step (q, fl) EvPick (q\<lparr>mq_allocation_queue := rest\<rparr>, fl @ [g])"
| bookkeeping: "core q' = core q \<Longrightarrow> mq_step (q, fl) EvBookkeeping (q', fl)"

inductive_cases cancel_stepE: "mq_step s (EvCancel p removed) s'"

inductive mq_run :: "MatchQueue \<times> PendingGroup list \<Rightarrow> mq_event list \<Rightarrow> MatchQueue \<times> PendingGroup list \<Rightarrow> bool" where
  run_refl: "mq_run s [] s"
| run_step: "mq_run s evs s' \<Longrightarrow> mq_step s' ev s'' \<Longrightarrow> mq_run s (evs @ [ev]) s''"

lemma mq_run_trans: "mq_run s' evs' s'' \<Longrightarrow> mq_run s evs s' \<Longrightarrow> mq_run s (evs @ evs') s''"
proof (induction rule: mq_run.induct)
  case (run_step s1 evs1 s2 ev s3)
  then have "mq_run s ((evs @ evs1) @ [ev]) s3" by (blast intro: mq_run.run_step)
  then show ?case by simp
qed simp

lemma mq_run_one: "mq_step s ev s' \<Longrightarrow> mq_run s [ev] s'"
  using mq_run.run_step [OF mq_run.run_refl] by fastforce

lemma queue_inv_step: "mq_step s ev s' \<Longrightarrow> queue_inv s \<Longrightarrow> queue_inv s'"
proof (induction rule: mq_step.induct)
  case (take q gs q' fl) then show ?case by (simp add: Take_spec)
next
  case (bookkeeping q' q fl) then show ?case by (simp add: core_def queue_inv_def)
next
  case (hand_off q fl gs n) then show ?case by (simp add: queue_inv_def)
next
  case (pick q g t rest fl) then show ?case by (simp add: queue_inv_def)
qed (blast intro: queue_inv_EnqueueLocked queue_inv_CancelLocked queue_inv_Sweep queue_inv_Commit)+

lemma queue_inv_run: "mq_run s evs s' \<Longrightarrow> queue_inv s \<Longrightarrow> queue_inv s'"
  by (induction rule: mq_run.induct) (auto intro: queue_inv_step)

section \<open>The operations are runs\<close>

definition run_to :: "MatchQueue \<times> PendingGroup list \<Rightarrow> MatchQueue \<times> PendingGroup list \<Rightarrow> bool" where
  "run_to s s' \<longleftrightarrow> (\<exists>evs. mq_run s evs s')"

lemma run_to_refl [simp]: "run_to s s"
  unfolding run_to_def using run_refl by blast

lemma run_to_trans [trans]: "run_to s s' \<Longrightarrow> run_to s' s'' \<Longrightarrow> run_to s s''"
  unfolding run_to_def using mq_run_trans by blast

lemma run_to_step: "mq_step s ev s' \<Longrightarrow> run_to s s'"
  unfolding run_to_def using mq_run_one by blast

lemma queue_inv_run_to: "run_to s s' \<Longrightarrow> queue_inv s \<Longrightarrow> queue_inv s'"
  unfolding run_to_def using queue_inv_run by blast

lemma run_to_bookkeeping: "core q' = core q \<Longrightarrow> run_to (q, fl) (q', fl)"
  by (rule run_to_step [OF bookkeeping])

lemma core_simps [simp]:
  "core (q\<lparr>mq_shutting_down := a\<rparr>) = core q" "core (q\<lparr>mq_retry_pairing := a\<rparr>) = core q"
  "core (q\<lparr>mq_worker_running := a\<rparr>) = core q" "core (MarkSnapshotDirty n q) = core q"
  "core (q\<lparr>mq_room_allocate_count := b\<rparr>) = core q" "core (q\<lparr>mq_room_allocate_failed_count := b\<rparr>) = core q"
  "core (q\<lparr>mq_snapshot_tick_count := b\<rparr>) = core q"
  "core (SetSnapshotMergeIntervalMs n q) = core q" "core (BeginShutdown q) = core q"
  by (simp_all add: core_def MarkSnapshotDirty_def SetSnapshotMergeIntervalMs_def BeginShutdown_def)

lemma run_to_mark_if: "run_to (fst s, fl) (fst (mark_if b n s), fl)"
  by (rule run_to_bookkeeping) (simp add: mark_if_def)

lemma core_AllocateRoomFor: "AllocateRoomFor a g s = (room, q, srv) \<Longrightarrow> core q = core (fst s)"
  by (auto simp: AllocateRoomFor_def core_def split: option.splits prod.splits)

lemma allocate_and_commit_eq:
  "AllocateRoomFor a g s = (room, q, srv) \<Longrightarrow>
   allocate_and_commit a n g s = (CommitGroupLocked g room n q, srv)"
  by (simp add: allocate_and_commit_def)

lemma run_to_commits_end: "run_to (fst s, fl @ gs) (fst (fold (allocate_and_commit a n) gs s), fl)"
proof (induction gs arbitrary: s)
  case (Cons g gs)
  obtain room q srv where a: "AllocateRoomFor a g s = (room, q, srv)" by (cases "AllocateRoomFor a g s")
  have "run_to (fst s, fl @ g # gs) (q, fl @ g # gs)"
    by (rule run_to_bookkeeping) (rule core_AllocateRoomFor [OF a])
  also have "run_to (q, fl @ g # gs) (CommitGroupLocked g room n q, fl @ gs)"
    by (rule run_to_step [OF commit])
  also have "run_to (CommitGroupLocked g room n q, fl @ gs)
      (fst (fold (allocate_and_commit a n) gs (CommitGroupLocked g room n q, srv)), fl)"
    using Cons.IH [of "(CommitGroupLocked g room n q, srv)"] by simp
  finally show ?case by (simp add: allocate_and_commit_eq [OF a])
qed simp

lemma run_to_RunPairingRound:
  assumes "RunPairingRound a n (q, srv) = (b, q', srv')"
  shows "run_to (q, fl) (q', fl)"
proof -
  obtain gs q1 where t: "TakePairGroupsLocked q = (gs, q1)" by fastforce
  have t': "run_to (q, fl) (q1, fl @ gs)" by (rule run_to_step [OF take [OF t]])
  show ?thesis
  proof (cases "PendingAllocationCount q \<ge> mq_max_pending_allocations q \<or> gs = []")
    case True
    then show ?thesis using assms t t' by (auto simp: RunPairingRound_def split: if_splits)
  next
    case False
    show ?thesis
    proof (cases "mq_worker_running q1 \<and> mq_allocation_queue q1 \<noteq> []")
      case True
      then have "q' = HandOffToWorker gs n q1" using assms t False by (simp add: RunPairingRound_def)
      then show ?thesis using t' run_to_trans run_to_step [OF hand_off] True by blast
    next
      case no: False
      then have "q' = fst (fold (allocate_and_commit a n) gs (q1, srv))"
        using assms t False by (auto simp: RunPairingRound_def)
      then show ?thesis using t' run_to_trans run_to_commits_end [of "(q1, srv)"] by fastforce
    qed
  qed
qed

lemma run_to_Enqueue:
  assumes "Enqueue a p r n (q, srv) = (out, q', srv')"
  shows "run_to (q, fl) (q', fl)"
proof (cases "p = [] \<or> length p > kMaxPlayerIdLength \<or> r = [] \<or> length r > kMaxRequestIdLength \<or> mq_shutting_down q")
  case True
  then show ?thesis using assms by (auto simp: Enqueue_def split: if_splits)
next
  case False
  obtain o' ch q1 where e: "EnqueueLocked p r n q = ((o', ch), q1)" by (metis surj_pair)
  obtain b q2 srv2 where r: "RunPairingRound a n (q1, srv) = (b, q2, srv2)" by (metis surj_pair)
  have q': "q' = fst (mark_if (ch \<or> b) n (q2, srv2))"
    using assms False e r by (auto simp: Enqueue_def)
  have "run_to (q, fl) (q1, fl)" by (rule run_to_step [OF enqueue [OF e]])
  also have "run_to (q1, fl) (q2, fl)" by (rule run_to_RunPairingRound [OF r])
  also have "run_to (q2, fl) (q', fl)" unfolding q' using run_to_mark_if [of "(q2, srv2)"] by simp
  finally show ?thesis .
qed

lemma run_to_Cancel:
  assumes "Cancel p n q = (b, q')"
  shows "run_to (q, fl) (q', fl)"
proof -
  obtain rm ch q1 where c: "CancelLocked p n q = ((rm, ch), q1)" by (metis surj_pair)
  have "run_to (q, fl) (q1, fl)" by (rule run_to_step [OF cancel [OF c]])
  also have "run_to (q1, fl) (q', fl)"
    using assms c by (auto simp: Cancel_def intro!: run_to_bookkeeping)
  finally show ?thesis .
qed

lemma run_to_GetStatus:
  assumes "GetStatus a p n (q, srv) = (snap, q', srv')"
  shows "run_to (q, fl) (q', fl)"
proof -
  obtain ch q1 where s: "SweepLocked n q = (ch, q1)" by fastforce
  obtain b q2 srv2 where r: "RetryPairingIfNeeded a n (q1, srv) = (b, q2, srv2)" by (metis surj_pair)
  have q': "q' = fst (mark_if (ch \<or> b) n (q2, srv2))" using assms s r by (simp add: GetStatus_def)
  have "run_to (q, fl) (q1, fl)" by (rule run_to_step [OF sweep [OF s]])
  also have "run_to (q1, fl) (q2, fl)"
  proof (cases "mq_retry_pairing q1")
    case True
    then have "RunPairingRound a n (q1\<lparr>mq_retry_pairing := False\<rparr>, srv) = (b, q2, srv2)"
      using r by (simp add: RetryPairingIfNeeded_def)
    then have "run_to (q1\<lparr>mq_retry_pairing := False\<rparr>, fl) (q2, fl)" by (rule run_to_RunPairingRound)
    then show ?thesis using run_to_trans run_to_bookkeeping by (metis core_simps(2))
  qed (use r in \<open>simp add: RetryPairingIfNeeded_def\<close>)
  also have "run_to (q2, fl) (q', fl)" unfolding q' using run_to_mark_if [of "(q2, srv2)"] by simp
  finally show ?thesis .
qed

end
