(* ===== verification/Match_Queue_Props.thy ===== *)
theory Match_Queue_Props
  imports Match_Queue_Inv
begin

text \<open>
  What the matchmaking queue guarantees, for every interleaving of concurrent calls where the
  statement is about runs, and for the whole operations otherwise.
\<close>

section \<open>Results are consistent\<close>

lemma shared_resultD:
  assumes "queue_inv (q, fl)" "map_of (mq_entries q) p = Some e" "en_state e = StateMatched"
  shows "shared_result (mq_entries q) p e"
proof -
  have inv: "entries_inv (mq_queue q) fl (mq_entries q)" using assms(1) by (simp add: queue_inv_def)
  show ?thesis using entries_invD(4) [OF inv assms(2)] assms(3) by (auto simp: entry_ok_def waiting_def)
qed

lemma matched_not_elsewhere:
  assumes "queue_inv (q, fl)" "map_of (mq_entries q) p = Some e" "en_state e = StateMatched"
  shows "p \<notin> set (mq_queue q)" "\<forall>g \<in> set fl. p \<notin> set (pg_player_ids g)"
proof -
  have inv: "entries_inv (mq_queue q) fl (mq_entries q)" using assms(1) by (simp add: queue_inv_def)
  show "p \<notin> set (mq_queue q)" using entries_invD(3) [OF inv, of p] assms(2,3) by (auto simp: waiting_def)
  show "\<forall>g \<in> set fl. p \<notin> set (pg_player_ids g)"
    using flight_entry [OF inv, of _ p] assms(2,3) by (force simp: in_group_def)
qed

text \<open>C1: in every interleaving of enqueues, cancellations, polls, pairings and commits, the results are
  consistent. A matched player has a room, is a member of his own match, and every member of it is
  matched with the same match id, room, member list and time; he is neither waiting nor part of a
  group being allocated; and two results that share a member are the same match, so nobody is in
  two matches.\<close>

theorem matches_are_consistent:
  assumes "mq_run (MatchQueue_new ids t ttl n st, []) evs (q, fl)"
    and "map_of (mq_entries q) p = Some e" "en_state e = StateMatched"
  shows "en_room_id e \<noteq> [] \<and> p \<in> set (en_player_ids e)
    \<and> (\<forall>p' \<in> set (en_player_ids e). \<exists>e'. map_of (mq_entries q) p' = Some e' \<and> same_result e e')
    \<and> p \<notin> set (mq_queue q) \<and> (\<forall>g \<in> set fl. p \<notin> set (pg_player_ids g))
    \<and> (\<forall>p2 e2. map_of (mq_entries q) p2 = Some e2 \<and> en_state e2 = StateMatched
         \<and> set (en_player_ids e2) \<inter> set (en_player_ids e) \<noteq> {} \<longrightarrow> same_result e e2)"
proof (intro conjI allI impI)
  have inv: "queue_inv (q, fl)" by (rule queue_inv_run [OF assms(1) queue_inv_new])
  note sh = shared_resultD [OF inv assms(2,3)]
  show "en_room_id e \<noteq> []" "p \<in> set (en_player_ids e)"
    "\<forall>p' \<in> set (en_player_ids e). \<exists>e'. map_of (mq_entries q) p' = Some e' \<and> same_result e e'"
    using sh by (simp_all add: shared_result_def)
  show "p \<notin> set (mq_queue q)" "\<forall>g \<in> set fl. p \<notin> set (pg_player_ids g)"
    using matched_not_elsewhere [OF inv assms(2,3)] by blast+
  fix p2 e2
  assume a: "map_of (mq_entries q) p2 = Some e2 \<and> en_state e2 = StateMatched
    \<and> set (en_player_ids e2) \<inter> set (en_player_ids e) \<noteq> {}"
  then obtain x where x: "x \<in> set (en_player_ids e2)" "x \<in> set (en_player_ids e)" by blast
  have "shared_result (mq_entries q) p2 e2" using shared_resultD [OF inv] a by blast
  with x sh obtain ex where "same_result e ex" "same_result e2 ex"
    unfolding shared_result_def by (metis option.inject)
  with a show "same_result e e2" by (auto simp: same_result_def)
qed

text \<open>The run of the examples: two players enqueue, are taken and get a room.\<close>

definition room_for :: "unit RoomAllocator" where
  "room_for match_id members request_id srv = (''r-'' @ match_id, srv)"

definition no_room :: "unit RoomAllocator" where
  "no_room match_id members request_id srv = ([], srv)"

definition enqueue_all :: "'srv RoomAllocator option \<Rightarrow> (string \<times> ms) list \<Rightarrow> MatchQueue \<times> 'srv \<Rightarrow> MatchQueue \<times> 'srv" where
  "enqueue_all a ps s = fold (\<lambda>(p, n) s. snd (Enqueue a p ''req'' n s)) ps s"

lemma run_to_enqueue_all: "run_to (fst s, fl) (fst (enqueue_all a ps s), fl)"
proof (induction ps arbitrary: s)
  case (Cons pn ps)
  obtain p n where pn: "pn = (p, n)" by fastforce
  obtain out q' srv' where e: "Enqueue a p ''req'' n s = (out, q', srv')" by (metis surj_pair)
  have "run_to (fst s, fl) (q', fl)" using e run_to_Enqueue [of a p "''req''" n "fst s" "snd s"] by simp
  also have "run_to (q', fl) (fst (enqueue_all a ps (q', srv')), fl)" using Cons.IH [of "(q', srv')"] by simp
  finally show ?case by (simp add: enqueue_all_def pn e)
qed (simp add: enqueue_all_def)

definition empty_queue :: MatchQueue where
  "empty_queue = MatchQueue_new [''m1'', ''m2'', ''m3'', ''m4''] 0 0 0 True"

definition paired_queue :: MatchQueue where
  "paired_queue = fst (enqueue_all (Some room_for) [(''ann'', 1000), (''bob'', 2000)] (empty_queue, ()))"

lemmas queue_eval = enqueue_all_def Enqueue_def EnqueueLocked_def SweepLocked_def overdue_def time_out_def
  RemoveFromQueueLocked_def expired_def RunPairingRound_def PendingAllocationCount_def
  TakePairGroupsLocked.simps next_match_id_def mark_allocating_def head_request_id_def is_queued_def
  allocate_and_commit_def AllocateRoomFor_def CommitGroupLocked_def cancel_requested_def put_back_def
  mark_if_def MarkSnapshotDirty_def MatchQueue_new_def empty_queue_def fresh_entry_def emplace_def
  kPlayersPerMatch_def kMaxPlayerIdLength_def kMaxRequestIdLength_def kDefaultMatchTimeoutMs_def
  kDefaultResultTtlMs_def kDefaultMaxQueueSize_def room_for_def no_room_def Let_def

lemma paired_queue_facts:
  "mq_queue paired_queue = []"
  "\<exists>e. map_of (mq_entries paired_queue) ''ann'' = Some e \<and> en_state e = StateMatched
     \<and> en_room_id e = ''r-m1'' \<and> en_player_ids e = [''ann'', ''bob'']"
  by (simp_all add: paired_queue_def queue_eval)

lemma paired_queue_run: "\<exists>evs. mq_run (empty_queue, []) evs (paired_queue, [])"
  using run_to_enqueue_all [of "(empty_queue, ())" "[]"] by (simp add: paired_queue_def run_to_def)

theorem matches_are_consistent_witness:
  "\<exists>e e'. map_of (mq_entries paired_queue) ''ann'' = Some e \<and> en_room_id e = ''r-m1''
     \<and> map_of (mq_entries paired_queue) ''bob'' = Some e' \<and> same_result e e'"
proof -
  obtain evs where r: "mq_run (empty_queue, []) evs (paired_queue, [])" using paired_queue_run by blast
  obtain e where e: "map_of (mq_entries paired_queue) ''ann'' = Some e" "en_state e = StateMatched"
      "en_room_id e = ''r-m1''" "en_player_ids e = [''ann'', ''bob'']"
    using paired_queue_facts(2) by blast
  show ?thesis
    using matches_are_consistent [OF r [unfolded empty_queue_def] e(1,2)] e by auto
qed

section \<open>A cancelled player is left alone\<close>

definition out_of_match :: "(string, Entry) umap \<Rightarrow> string \<Rightarrow> bool" where
  "out_of_match es p = (case map_of es p of None \<Rightarrow> True | Some e \<Rightarrow> en_allocating e \<and> en_cancel_requested e)"

lemma out_of_match_not_queued:
  "entries_inv queue fl es \<Longrightarrow> out_of_match es p \<Longrightarrow> p \<notin> set queue"
  by (auto simp: out_of_match_def waiting_def dest!: entries_invD(3) [of _ _ _ p])

lemma allocating_state:
  "entries_inv queue fl es \<Longrightarrow> map_of es p = Some e \<Longrightarrow> en_allocating e \<Longrightarrow> en_state e = StateQueued"
  by (drule (1) entries_invD(4)) (auto simp: entry_ok_def waiting_def shared_result_def)

lemma Sweep_closed_inv:
  assumes "queue_inv (q, fl)" "SweepLocked n q = (ch, q')"
  shows "mq_queue q' = filter (\<lambda>p. \<not> overdue n q p) (mq_queue q)"
    "map_of (mq_entries q') p = swept_entry n q p"
  using Sweep_closed [OF assms(2)] assms(1) by (simp_all add: queue_inv_def entries_inv_def)

lemma out_of_match_Sweep:
  assumes "queue_inv (q, fl)" "SweepLocked n q = (ch, q')" "out_of_match (mq_entries q) p"
  shows "out_of_match (mq_entries q') p"
proof -
  have inv: "entries_inv (mq_queue q) fl (mq_entries q)" using assms(1) by (simp add: queue_inv_def)
  note nq = out_of_match_not_queued [OF inv assms(3)]
  have "swept_entry n q p = map_of (mq_entries q) p"
    using assms(3) nq allocating_state [OF inv, of p]
    by (auto simp: swept_entry_def out_of_match_def expired_def split: option.splits)
  then show ?thesis using Sweep_closed_inv(2) [OF assms(1,2)] assms(3) by (simp add: out_of_match_def)
qed

lemma out_of_match_EnqueueLocked:
  assumes "queue_inv (q0, fl)" "EnqueueLocked x r n q0 = ((out, ch), q')" "out_of_match (mq_entries q0) p"
    "\<not> (x = p \<and> out = EnqueueQueued)"
  shows "out_of_match (mq_entries q') p"
proof -
  obtain c q where sw: "SweepLocked n q0 = (c, q)" by fastforce
  have om: "out_of_match (mq_entries q) p" by (rule out_of_match_Sweep [OF assms(1) sw assms(3)])
  have "map_of (mq_entries q') p = map_of (mq_entries q) p"
    using assms(2,4) sw by (auto simp: EnqueueLocked_def map_of_emplace split: option.splits if_splits)
  then show ?thesis using om by (simp add: out_of_match_def)
qed

lemma out_of_match_CancelLocked:
  assumes "queue_inv (q0, fl)" "CancelLocked x n q0 = ((removed, ch), q')"
  shows "out_of_match (mq_entries q0) p \<Longrightarrow> out_of_match (mq_entries q') p"
    "removed \<Longrightarrow> out_of_match (mq_entries q') x"
proof -
  obtain c q where sw: "SweepLocked n q0 = (c, q)" by fastforce
  show "removed \<Longrightarrow> out_of_match (mq_entries q') x"
    using assms(2) sw
    by (auto simp: CancelLocked_def out_of_match_def RemoveFromQueueLocked_def delete_conv'
        split: option.splits if_splits)
  assume "out_of_match (mq_entries q0) p"
  then have "out_of_match (mq_entries q) p" by (rule out_of_match_Sweep [OF assms(1) sw])
  then show "out_of_match (mq_entries q') p"
    using assms(2) sw
    by (auto simp: CancelLocked_def out_of_match_def RemoveFromQueueLocked_def delete_conv'
        split: option.splits if_splits)
qed

lemma out_of_match_Commit:
  assumes "queue_inv (q, xs @ g # ys)" "out_of_match (mq_entries q) p"
  shows "out_of_match (mq_entries (CommitGroupLocked g room n q)) p"
proof -
  have inv: "entries_inv (mq_queue q) (xs @ g # ys) (mq_entries q)" using assms(1) by (simp add: queue_inv_def)
  have gin: "g \<in> set (xs @ g # ys)" by simp
  note fm = flight_member_facts [OF inv gin]
  note cl = Commit_closed(1) [OF fm(1,2) entries_invD(1) [OF inv], of room n p]
  show ?thesis
  proof (cases "p \<in> set (pg_player_ids g)")
    case True
    then obtain e where "map_of (mq_entries q) p = Some e" using fm(1) by auto
    then have "cancel_requested (mq_entries q) p" using assms(2) by (simp add: out_of_match_def cancel_requested_def)
    with True show ?thesis unfolding out_of_match_def cl by (auto simp: committed_entry_def viable_def)
  next
    case False
    then show ?thesis using assms(2) unfolding out_of_match_def cl by (simp add: committed_entry_def)
  qed
qed

lemma out_of_match_step:
  assumes "mq_step s ev s'" "queue_inv s" "out_of_match (mq_entries (fst s)) p" "ev \<noteq> EvEnqueue p EnqueueQueued"
  shows "out_of_match (mq_entries (fst s')) p"
  using assms
proof (induction rule: mq_step.induct)
  case (enqueue x r n q out ch q' fl)
  then show ?case using out_of_match_EnqueueLocked [of q fl x r n out ch q' p] by auto
next
  case (cancel x n q removed ch q' fl)
  then show ?case using out_of_match_CancelLocked(1) [of q fl x n removed ch q' p] by simp
next
  case (sweep n q ch q' fl)
  then show ?case using out_of_match_Sweep [of q fl n ch q' p] by simp
next
  case (take q gs q' fl)
  have ts: "concat (map pg_player_ids gs) @ mq_queue q' = mq_queue q"
      "\<forall>x. x \<notin> set (concat (map pg_player_ids gs)) \<longrightarrow> map_of (mq_entries q') x = map_of (mq_entries q) x"
    using Take_spec [OF take(2,1)] by auto
  have "entries_inv (mq_queue q) fl (mq_entries q)" using take(2) by (simp add: queue_inv_def)
  then have "p \<notin> set (mq_queue q)" using take(3) by (auto dest: out_of_match_not_queued)
  then have "p \<notin> set (concat (map pg_player_ids gs))" unfolding ts(1) [symmetric] by simp
  then have "map_of (mq_entries q') p = map_of (mq_entries q) p" using ts(2) by blast
  then show ?case using take(3) by (simp add: out_of_match_def)
next
  case (commit q xs g ys room n)
  then show ?case using out_of_match_Commit [of q xs g ys p room n] by simp
qed (simp_all add: HandOffToWorker_def core_def out_of_match_def)

lemma out_of_match_run:
  "mq_run s evs s' \<Longrightarrow> queue_inv s \<Longrightarrow> out_of_match (mq_entries (fst s)) p \<Longrightarrow>
   EvEnqueue p EnqueueQueued \<notin> set evs \<Longrightarrow> out_of_match (mq_entries (fst s')) p"
  by (induction rule: mq_run.induct) (auto intro: out_of_match_step queue_inv_run)

text \<open>C5: a cancellation is final. Once a cancellation of a player was answered with success, then
  whatever runs concurrently (a room allocation of his group in progress, other players, polls), he is
  never matched and never back in the queue until an enqueue of his is accepted again as a new
  entry. The statement also shows that an enqueue answered "already queued" in between does not bring
  him back: he only waits for his entry to be dropped.\<close>

theorem cancelled_player_is_not_matched:
  assumes "mq_run (MatchQueue_new ids t ttl n st, []) evs0 s0"
    and "mq_step s0 (EvCancel p True) s1" "mq_run s1 evs s2" "EvEnqueue p EnqueueQueued \<notin> set evs"
  shows "p \<notin> set (mq_queue (fst s2))
    \<and> (\<forall>e. map_of (mq_entries (fst s2)) p = Some e \<longrightarrow>
         en_state e = StateQueued \<and> en_allocating e \<and> en_cancel_requested e)
    \<and> ms_state (SnapshotLocked p (fst s2)) \<in> {StateIdle, StateQueued}"
proof -
  have i0: "queue_inv s0" by (rule queue_inv_run [OF assms(1) queue_inv_new])
  have i1: "queue_inv s1" by (rule queue_inv_step [OF assms(2) i0])
  have i2: "queue_inv s2" by (rule queue_inv_run [OF assms(3) i1])
  have "out_of_match (mq_entries (fst s1)) p"
    using assms(2)
  proof (rule cancel_stepE)
    fix n q ch q' fl
    assume "s0 = (q, fl)" "s1 = (q', fl)" "CancelLocked p n q = ((True, ch), q')"
    then show ?thesis using out_of_match_CancelLocked(2) [of q fl p n True ch q'] i0 by simp
  qed
  then have om: "out_of_match (mq_entries (fst s2)) p"
    by (rule out_of_match_run [OF assms(3) i1 _ assms(4)])
  have inv: "entries_inv (mq_queue (fst s2)) (snd s2) (mq_entries (fst s2))" using i2 by (simp add: queue_inv_def)
  have "p \<notin> set (mq_queue (fst s2))" by (rule out_of_match_not_queued [OF inv om])
  moreover have "en_state e = StateQueued \<and> en_allocating e \<and> en_cancel_requested e"
    if "map_of (mq_entries (fst s2)) p = Some e" for e
    using om that allocating_state [OF inv that] by (simp add: out_of_match_def)
  ultimately show ?thesis by (auto simp: SnapshotLocked_def split: option.splits)
qed

text \<open>The example run: Ann and Bob are taken, Ann cancels while their room is allocated, the room arrives.\<close>

definition demo_taken :: "PendingGroup list \<times> MatchQueue" where
  "demo_taken = TakePairGroupsLocked
     (snd (EnqueueLocked ''bob'' ''req'' 2000 (snd (EnqueueLocked ''ann'' ''req'' 1000 empty_queue))))"

definition demo_cancelled :: "(bool \<times> bool) \<times> MatchQueue" where
  "demo_cancelled = CancelLocked ''ann'' 2001 (snd demo_taken)"

definition demo_committed :: MatchQueue where
  "demo_committed = CommitGroupLocked (hd (fst demo_taken)) ''r-m1'' 2002 (snd demo_cancelled)"

lemma demo_facts:
  "length (fst demo_taken) = 1" "fst (fst demo_cancelled)" "mq_queue demo_committed = [''bob'']"
  by (simp_all add: demo_taken_def demo_cancelled_def demo_committed_def CancelLocked_def queue_eval)

lemma demo_run:
  "\<exists>evs. mq_run (empty_queue, []) evs (snd demo_taken, fst demo_taken)"
  "mq_step (snd demo_taken, fst demo_taken) (EvCancel ''ann'' True) (snd demo_cancelled, fst demo_taken)"
  "mq_run (snd demo_cancelled, fst demo_taken) [EvCommit (hd (fst demo_taken)) ''r-m1''] (demo_committed, [])"
proof -
  define q1 where "q1 = snd (EnqueueLocked ''ann'' ''req'' 1000 empty_queue)"
  define q2 where "q2 = snd (EnqueueLocked ''bob'' ''req'' 2000 q1)"
  have st: "run_to (q, fl) (snd (EnqueueLocked p r n q), fl)" for p r n q fl
    by (rule run_to_step [OF enqueue [of p r n q "fst (fst (EnqueueLocked p r n q))" "snd (fst (EnqueueLocked p r n q))"]])
       simp
  have "run_to (empty_queue, []) (q1, [])" unfolding q1_def by (rule st)
  also have "run_to (q1, []) (q2, [])" unfolding q2_def by (rule st)
  also have "run_to (q2, []) (snd demo_taken, [] @ fst demo_taken)"
    by (rule run_to_step [OF take]) (simp add: demo_taken_def q1_def q2_def)
  finally show "\<exists>evs. mq_run (empty_queue, []) evs (snd demo_taken, fst demo_taken)" by (simp add: run_to_def)
  show "mq_step (snd demo_taken, fst demo_taken) (EvCancel ''ann'' True) (snd demo_cancelled, fst demo_taken)"
    by (rule mq_step.cancel [where now_ms = 2001 and ch = "snd (fst demo_cancelled)"])
       (use demo_facts(2) in \<open>simp add: demo_cancelled_def prod_eq_iff\<close>)
  have "fst demo_taken = [] @ hd (fst demo_taken) # []"
    using demo_facts(1) by (cases "fst demo_taken") auto
  then show "mq_run (snd demo_cancelled, fst demo_taken) [EvCommit (hd (fst demo_taken)) ''r-m1''] (demo_committed, [])"
    using mq_run_one [OF commit [of "snd demo_cancelled" "[]" "hd (fst demo_taken)" "[]" "''r-m1''" 2002]]
    by (simp add: demo_committed_def)
qed

theorem cancelled_player_is_not_matched_witness:
  "mq_queue demo_committed = [''bob''] \<and> ms_state (SnapshotLocked ''ann'' demo_committed) \<in> {StateIdle, StateQueued}"
proof -
  obtain evs where r: "mq_run (MatchQueue_new [''m1'', ''m2'', ''m3'', ''m4''] 0 0 0 True, []) evs
      (snd demo_taken, fst demo_taken)" using demo_run(1) by (auto simp: empty_queue_def)
  show ?thesis
    using cancelled_player_is_not_matched [OF r demo_run(2,3)] demo_facts(3) by simp
qed

section \<open>The allocation worker\<close>

lemma no_worker_events: "mq_run s evs s' \<Longrightarrow> queue_inv s \<Longrightarrow> EvHandOff \<notin> set evs \<and> EvPick \<notin> set evs"
proof (induction rule: mq_run.induct)
  case (run_step s evs s' ev s'')
  then have "queue_inv s'" by (blast intro: queue_inv_run)
  with run_step.hyps(2) have "ev \<noteq> EvHandOff \<and> ev \<noteq> EvPick"
    by (induction rule: mq_step.induct) (simp_all add: queue_inv_def)
  then show ?case using run_step by auto
qed simp

text \<open>The allocation worker never gets work. In every run, interleaved with any number of
  pairings and with the worker started or not, its queue is empty, nothing is ever handed to it or picked by
  it, and a turn of it does nothing: a group is handed over only when the queue already holds one
  (\<^verbatim>\<open>worker_busy\<close>), and handing over is the only thing that fills it. Rooms are
  always allocated in the caller's thread.\<close>

lemma allocation_worker_is_idle:
  assumes "mq_run (MatchQueue_new ids t ttl n st, []) evs (q, fl)"
  shows "mq_allocation_queue q = [] \<and> EvHandOff \<notin> set evs \<and> EvPick \<notin> set evs
    \<and> worker_turn allocator commit_ms (q, srv) = (q, srv)"
  using queue_inv_run [OF assms queue_inv_new] no_worker_events [OF assms queue_inv_new]
  by (simp add: queue_inv_def worker_turn_def)

section \<open>Pairing\<close>

text \<open>Players are paired in the order of their arrival. One pairing section takes pairs from the front of
  the queue: the members of the groups, in order, followed by what is left are the queue as it was;
  every group is two different players with the next match id of the generator and the request id of
  the one who waited longest; two players are left waiting only when the generator of ids fails.\<close>

lemma pairs_follow_arrival_order:
  assumes "queue_inv (q, fl)" "TakePairGroupsLocked q = (gs, q')"
  shows "concat (map pg_player_ids gs) @ mq_queue q' = mq_queue q
    \<and> map pg_match_id gs = take (length gs) (mq_ids q)
    \<and> (\<forall>g \<in> set gs. length (pg_player_ids g) = 2 \<and> distinct (pg_player_ids g) \<and> pg_match_id g \<noteq> []
         \<and> map_option en_request_id (map_of (mq_entries q) (hd (pg_player_ids g))) = Some (pg_request_id g))
    \<and> (length (mq_queue q') < 2 \<or> fst (next_match_id (q\<lparr>mq_ids := drop (length gs) (mq_ids q)\<rparr>)) = [])"
proof -
  note ts = Take_spec [OF assms]
  then have inv: "entries_inv (mq_queue q') (fl @ gs) (mq_entries q')" by (simp add: queue_inv_def)
  have "length (pg_player_ids g) = 2 \<and> distinct (pg_player_ids g) \<and> pg_match_id g \<noteq> []" if "g \<in> set gs" for g
    using entries_invD(5) [OF inv, of g] flight_member_facts(2) [OF inv, of g] that
    by (simp add: group_ok_def kPlayersPerMatch_def)
  then show ?thesis
    using ts by (auto simp: supplied_def head_requests_def next_match_id_def split: list.splits)
qed

definition waiting_pair :: MatchQueue where
  "waiting_pair = snd (EnqueueLocked ''bob'' ''req-b'' 2000 (snd (EnqueueLocked ''ann'' ''req-a'' 1000 empty_queue)))"

lemma queue_inv_EnqueueLocked_snd: "queue_inv (q, fl) \<Longrightarrow> queue_inv (snd (EnqueueLocked p r n q), fl)"
  by (metis queue_inv_EnqueueLocked surj_pair snd_conv)

lemma waiting_pair_inv: "queue_inv (waiting_pair, [])"
  unfolding waiting_pair_def empty_queue_def
  by (intro queue_inv_EnqueueLocked_snd queue_inv_new)

lemma waiting_pair_take:
  "fst (TakePairGroupsLocked waiting_pair) =
     [\<lparr>pg_match_id = ''m1'', pg_player_ids = [''ann'', ''bob''], pg_request_id = ''req-a''\<rparr>]"
  by (simp add: waiting_pair_def queue_eval)

section \<open>Rooms are available\<close>

definition gives_rooms :: "'srv RoomAllocator \<Rightarrow> bool" where
  "gives_rooms a \<longleftrightarrow> (\<forall>m ps r srv. fst (a m ps r srv) \<noteq> [])"

definition gives_none :: "'srv RoomAllocator option \<Rightarrow> bool" where
  "gives_none allocator \<longleftrightarrow> (case allocator of None \<Rightarrow> True | Some a \<Rightarrow> \<forall>m ps r srv. fst (a m ps r srv) = [])"

lemma core_queue_inv: "core q' = core q \<Longrightarrow> queue_inv (q', fl) = queue_inv (q, fl)"
  by (auto simp: core_def queue_inv_def)

lemma core_eqD: "core q' = core q \<Longrightarrow> mq_queue q' = mq_queue q \<and> mq_entries q' = mq_entries q"
  by (simp add: core_def)

lemma allocate_frame:
  "AllocateRoomFor a g s = (room, q, srv) \<Longrightarrow> mq_retry_pairing q = mq_retry_pairing (fst s)"
  by (auto simp: AllocateRoomFor_def split: option.splits prod.splits)

lemma group_commit:
  assumes inv: "queue_inv (q, fl @ g # gs)" and a: "AllocateRoomFor a g (q, srv) = (room, q1, srv1)"
  shows "allocate_and_commit a n g (q, srv) = (CommitGroupLocked g room n q1, srv1)"
    "queue_inv (CommitGroupLocked g room n q1, fl @ gs)"
    "map_of (mq_entries (CommitGroupLocked g room n q1)) p = committed_entry g room n (mq_entries q) p"
    "mq_queue (CommitGroupLocked g room n q1) =
      (if viable (mq_entries q) g room then mq_queue q else staying (mq_entries q) g @ mq_queue q)"
    "mq_retry_pairing (CommitGroupLocked g room n q1) = (mq_retry_pairing q \<or> room = [])"
proof -
  have c: "core q1 = core q" using core_AllocateRoomFor [OF a] by simp
  note ce = core_eqD [OF c]
  have i1: "queue_inv (q1, fl @ g # gs)" using inv core_queue_inv [OF c] by simp
  have inv1: "entries_inv (mq_queue q1) (fl @ g # gs) (mq_entries q1)" using i1 by (simp add: queue_inv_def)
  have gin: "g \<in> set (fl @ g # gs)" by simp
  note cl = Commit_closed [OF flight_member_facts(1,2) [OF inv1 gin] entries_invD(1) [OF inv1], of room n]
  show "allocate_and_commit a n g (q, srv) = (CommitGroupLocked g room n q1, srv1)"
    by (rule allocate_and_commit_eq [OF a])
  show "queue_inv (CommitGroupLocked g room n q1, fl @ gs)" by (rule queue_inv_Commit [OF i1])
  show "map_of (mq_entries (CommitGroupLocked g room n q1)) p = committed_entry g room n (mq_entries q) p"
    using cl(1) ce by simp
  show "mq_queue (CommitGroupLocked g room n q1) =
      (if viable (mq_entries q) g room then mq_queue q else staying (mq_entries q) g @ mq_queue q)"
    using cl(2) ce by simp
  show "mq_retry_pairing (CommitGroupLocked g room n q1) = (mq_retry_pairing q \<or> room = [])"
    using cl(3) allocate_frame [OF a] by simp
qed

lemma flight_disjoint:
  assumes "queue_inv (q, fl @ g # gs)" "h \<in> set gs" "p \<in> set (pg_player_ids h)"
  shows "p \<notin> set (pg_player_ids g)"
  using assms by (auto simp: queue_inv_def entries_inv_def)

definition uncancelled :: "MatchQueue \<Rightarrow> PendingGroup list \<Rightarrow> bool" where
  "uncancelled q gs \<longleftrightarrow> (\<forall>g \<in> set gs. \<forall>p \<in> set (pg_player_ids g). \<not> cancel_requested (mq_entries q) p)"

lemma uncancelled_after_commit:
  assumes "queue_inv (q, fl @ g # gs)" "uncancelled q (g # gs)"
    "\<And>p. map_of (mq_entries q') p = committed_entry g room n (mq_entries q) p"
  shows "uncancelled q' gs"
  using assms(2) flight_disjoint [OF assms(1)]
  by (auto simp: uncancelled_def cancel_requested_def assms(3) committed_entry_def)

definition matched_in :: "MatchQueue \<Rightarrow> PendingGroup \<Rightarrow> string \<Rightarrow> bool" where
  "matched_in q g p \<longleftrightarrow> (\<exists>e. map_of (mq_entries q) p = Some e \<and> en_state e = StateMatched
     \<and> en_match_id e = pg_match_id g \<and> en_player_ids e = pg_player_ids g)"

lemma commits_give_rooms:
  fixes n :: ms and srv :: 'srv
  assumes "queue_inv (q, fl @ gs)" "uncancelled q gs" "gives_rooms a"
  defines "q' \<equiv> fst (fold (allocate_and_commit (Some a) n) gs (q, srv))"
  shows "queue_inv (q', fl) \<and> mq_queue q' = mq_queue q
    \<and> (\<forall>g \<in> set gs. \<forall>p \<in> set (pg_player_ids g). matched_in q' g p)
    \<and> (\<forall>p. p \<notin> set (concat (map pg_player_ids gs)) \<longrightarrow> map_of (mq_entries q') p = map_of (mq_entries q) p)"
  using assms(1,2) unfolding q'_def
proof (induction gs arbitrary: q srv)
  case (Cons g gs)
  obtain room q1 srv1 where a: "AllocateRoomFor (Some a) g (q, srv) = (room, q1, srv1)"
    by (cases "AllocateRoomFor (Some a) g (q, srv)")
  define q2 where "q2 = CommitGroupLocked g room n q1"
  note gc = group_commit [OF Cons.prems(1) a, where n = n, folded q2_def]
  have "room = fst (a (pg_match_id g) (pg_player_ids g) (pg_request_id g) srv)"
    using a by (auto simp: AllocateRoomFor_def split: prod.splits)
  then have room: "room \<noteq> []" using assms(3) by (simp add: gives_rooms_def)
  then have v: "viable (mq_entries q) g room" using Cons.prems(2) by (simp add: viable_def uncancelled_def)
  have "uncancelled q2 gs" by (rule uncancelled_after_commit [OF Cons.prems(1,2) gc(3)])
  note IH = Cons.IH [OF gc(2) this, of srv1]
  have f: "fold (allocate_and_commit (Some a) n) (g # gs) (q, srv) = fold (allocate_and_commit (Some a) n) gs (q2, srv1)"
    using gc(1) by simp
  have nin: "p \<notin> set (concat (map pg_player_ids gs))" if "p \<in> set (pg_player_ids g)" for p
    using flight_disjoint [OF Cons.prems(1)] that by auto
  have "matched_in q2 g p" if p: "p \<in> set (pg_player_ids g)" for p
  proof -
    have "in_group (mq_entries q) g p"
      using flight_entry [of "mq_queue q" "fl @ g # gs" "mq_entries q" g p] Cons.prems(1) p
      by (simp add: queue_inv_def)
    then show ?thesis using v p by (auto simp: matched_in_def gc(3) committed_entry_def in_group_def matched_entry_def)
  qed
  then have "\<forall>p \<in> set (pg_player_ids g). matched_in (fst (fold (allocate_and_commit (Some a) n) gs (q2, srv1))) g p"
    using IH nin by (simp add: matched_in_def)
  then show ?case unfolding f using IH v gc(3,4) by (auto simp: committed_entry_def)
qed simp

lemma commits_give_none:
  fixes n :: ms and srv :: 'srv
  assumes "queue_inv (q, fl @ gs)" "uncancelled q gs" "gives_none a"
  defines "q' \<equiv> fst (fold (allocate_and_commit a n) gs (q, srv))"
  shows "queue_inv (q', fl) \<and> mq_queue q' = concat (rev (map pg_player_ids gs)) @ mq_queue q
    \<and> mq_retry_pairing q' = (mq_retry_pairing q \<or> gs \<noteq> [])
    \<and> (\<forall>p. map_option stable_part (map_of (mq_entries q') p) = map_option stable_part (map_of (mq_entries q) p))"
  using assms(1,2) unfolding q'_def
proof (induction gs arbitrary: q srv)
  case (Cons g gs)
  obtain room q1 srv1 where a: "AllocateRoomFor a g (q, srv) = (room, q1, srv1)"
    by (cases "AllocateRoomFor a g (q, srv)")
  define q2 where "q2 = CommitGroupLocked g room n q1"
  note gc = group_commit [OF Cons.prems(1) a, where n = n, folded q2_def]
  have room: "room = []"
    using a assms(3) by (auto simp: AllocateRoomFor_def gives_none_def split: option.splits prod.splits)
      (metis fst_conv)
  have st: "staying (mq_entries q) g = pg_player_ids g"
    using Cons.prems(2) by (simp add: staying_def uncancelled_def filter_id_conv)
  have nv: "\<not> viable (mq_entries q) g room" using room by (simp add: viable_def)
  have "uncancelled q2 gs" by (rule uncancelled_after_commit [OF Cons.prems(1,2) gc(3)])
  note IH = Cons.IH [OF gc(2) this, of srv1]
  have f: "fold (allocate_and_commit a n) (g # gs) (q, srv) = fold (allocate_and_commit a n) gs (q2, srv1)"
    using gc(1) by simp
  have "map_option stable_part (map_of (mq_entries q2) p) = map_option stable_part (map_of (mq_entries q) p)" for p
    using nv Cons.prems(2)
    by (simp add: gc(3) committed_entry_def uncancelled_def option.map_comp comp_def stable_part_def [abs_def]
        reset_entry_def)
  then show ?case unfolding f using IH gc(4,5) nv st room by simp
qed simp

lemma taken_uncancelled:
  assumes "queue_inv (q, fl)" "TakePairGroupsLocked q = (gs, q1)"
  shows "uncancelled q1 gs"
proof -
  note ts = Take_spec [OF assms]
  have inv: "entries_inv (mq_queue q) fl (mq_entries q)" using assms(1) by (simp add: queue_inv_def)
  have "\<not> cancel_requested (mq_entries q1) p" if "g \<in> set gs" "p \<in> set (pg_player_ids g)" for g p
  proof -
    have "concat (map pg_player_ids gs) @ mq_queue q1 = mq_queue q" using ts by blast
    then have "set (concat (map pg_player_ids gs)) \<subseteq> set (mq_queue q)" by (metis set_append Un_upper1)
    moreover have "p \<in> set (concat (map pg_player_ids gs))" using that by auto
    ultimately have "p \<in> set (mq_queue q)" by blast
    then obtain e where e: "map_of (mq_entries q) p = Some e" "waiting e"
      using entries_invD(3) [OF inv] by blast
    have "map_option stable_part (map_of (mq_entries q1) p) = map_option stable_part (map_of (mq_entries q) p)"
      using ts by blast
    then show ?thesis using e by (auto simp: cancel_requested_def stable_part_def waiting_def split: option.splits)
  qed
  then show ?thesis by (simp add: uncancelled_def)
qed

lemma RunPairing_cases:
  assumes "queue_inv (q, fl)" "TakePairGroupsLocked q = (gs, q1)"
    "RunPairingRound a n (q, srv) = (paired, q', srv')" "0 < mq_max_pending_allocations q"
  shows "q' = fst (fold (allocate_and_commit a n) gs (q1, srv))" "paired = (gs \<noteq> [])"
proof -
  have "mq_allocation_queue q = []" using assms(1) by (simp add: queue_inv_def)
  moreover have "mq_allocation_queue q1 = []" using Take_spec [OF assms(1,2)] by (simp add: queue_inv_def)
  ultimately show "q' = fst (fold (allocate_and_commit a n) gs (q1, srv))" "paired = (gs \<noteq> [])"
    using assms(2-4) by (auto simp: RunPairingRound_def PendingAllocationCount_def split: if_splits)
qed

text \<open>C26: while the room service is down nobody loses his place in time. When every allocation of a
  pairing round fails, exactly the players who waited before wait afterwards, each with the time and
  request he enqueued with; with a single pair the queue is unchanged, and the round is marked for a
  retry by the next poll. The order between pairs is not kept, though: every group is
  put back at the front in turn, so with several failed groups the later ones come out first.\<close>

theorem failed_round_puts_players_back:
  assumes "queue_inv (q, fl)" "gives_none a" "TakePairGroupsLocked q = (gs, q1)"
    "RunPairingRound a n (q, srv) = (paired, q', srv')" "0 < mq_max_pending_allocations q"
  shows "mq_queue q' = concat (rev (map pg_player_ids gs)) @ mq_queue q1
    \<and> set (mq_queue q') = set (mq_queue q) \<and> (length gs \<le> 1 \<longrightarrow> mq_queue q' = mq_queue q)
    \<and> mq_retry_pairing q' = (mq_retry_pairing q \<or> gs \<noteq> [])
    \<and> (\<forall>p. map_option stable_part (map_of (mq_entries q') p) = map_option stable_part (map_of (mq_entries q) p))"
proof -
  note ts = Take_spec [OF assms(1,3)]
  note rp = RunPairing_cases [OF assms(1,3,4,5)]
  have "queue_inv (q1, fl @ gs)" using ts by blast
  note cm = commits_give_none [OF this taken_uncancelled [OF assms(1,3)] assms(2), of n srv, folded rp(1)]
  have q: "concat (map pg_player_ids gs) @ mq_queue q1 = mq_queue q" using ts by blast
  have q': "mq_queue q' = concat (rev (map pg_player_ids gs)) @ mq_queue q1" using cm by blast
  have "set (mq_queue q') = set (mq_queue q)" unfolding q' q [symmetric] by simp
  moreover have "length gs \<le> 1 \<Longrightarrow> mq_queue q' = mq_queue q"
    unfolding q' q [symmetric] by (cases gs) auto
  ultimately show ?thesis using cm ts q' by auto
qed

definition four_waiting :: MatchQueue where
  "four_waiting = fold (\<lambda>(p, n) q. snd (EnqueueLocked p ''req'' n q))
     [(''ann'', 1000), (''bob'', 2000), (''cat'', 3000), (''dan'', 4000)] empty_queue"

lemma four_waiting_inv: "queue_inv (four_waiting, [])"
  unfolding four_waiting_def empty_queue_def
  by (simp add: queue_inv_EnqueueLocked_snd queue_inv_new)

lemma four_waiting_facts:
  "mq_queue four_waiting = [''ann'', ''bob'', ''cat'', ''dan'']" "0 < mq_max_pending_allocations four_waiting"
  "map pg_player_ids (fst (TakePairGroupsLocked four_waiting)) = [[''ann'', ''bob''], [''cat'', ''dan'']]"
  "mq_queue (snd (TakePairGroupsLocked four_waiting)) = []"
  by code_simp+

theorem failed_round_puts_players_back_witness:
  "mq_queue four_waiting = [''ann'', ''bob'', ''cat'', ''dan'']
   \<and> mq_queue (fst (snd (RunPairingRound (Some no_room) 5000 (four_waiting, ()))))
       = [''cat'', ''dan'', ''ann'', ''bob'']"
proof -
  obtain gs q1 where t: "TakePairGroupsLocked four_waiting = (gs, q1)" by fastforce
  obtain paired q' srv' where r: "RunPairingRound (Some no_room) 5000 (four_waiting, ()) = (paired, q', srv')"
    by (metis surj_pair)
  have "gives_none (Some no_room)" by (simp add: gives_none_def no_room_def)
  from failed_round_puts_players_back [OF four_waiting_inv this t r four_waiting_facts(2)]
  show ?thesis using four_waiting_facts t r by simp
qed

lemma mark_if_core: "core (fst (mark_if b n s)) = core (fst s)"
  by (simp add: mark_if_def)

lemma no_flight_no_allocating:
  assumes "queue_inv (q, [])"
  shows "AllocatingCount q = 0"
proof -
  have inv: "entries_inv (mq_queue q) [] (mq_entries q)" using assms by (simp add: queue_inv_def)
  have "\<not> en_allocating e" if "(p, e) \<in> set (mq_entries q)" for p e
    using entries_invD(4) [OF inv, of p e] that entries_invD(1) [OF inv]
    by (auto simp: map_of_iff_in_set entry_ok_def waiting_def shared_result_def)
  then show ?thesis by (auto simp: AllocatingCount_def filter_empty_conv)
qed

lemma Enqueue_accepted:
  assumes "Enqueue a p r n (q, srv) = (EnqueueQueued, q', srv')" "queue_inv (q, fl)"
  obtains q1 ch paired q2 where "EnqueueLocked p r n q = ((EnqueueQueued, ch), q1)"
    "mq_queue q1 = filter (\<lambda>x. \<not> overdue n q x) (mq_queue q) @ [p]" "queue_inv (q1, fl)"
    "mq_ids q1 = mq_ids q" "mq_max_pending_allocations q1 = mq_max_pending_allocations q"
    "RunPairingRound a n (q1, srv) = (paired, q2, srv')" "core q' = core q2"
proof -
  obtain o' ch q1 where e: "EnqueueLocked p r n q = ((o', ch), q1)" by (metis surj_pair)
  obtain paired q2 srv2 where rp: "RunPairingRound a n (q1, srv) = (paired, q2, srv2)" by (metis surj_pair)
  have *: "(o', mark_if (ch \<or> paired) n (q2, srv2)) = (EnqueueQueued, q', srv')"
    using assms(1) e rp by (auto simp: Enqueue_def split: if_splits)
  have o': "o' = EnqueueQueued" and q': "q' = fst (mark_if (ch \<or> paired) n (q2, srv2))"
    and s: "srv2 = srv'"
    using * by (auto simp: mark_if_def split: if_splits)
  obtain c q0 where sw: "SweepLocked n q = (c, q0)" by fastforce
  note sc = Sweep_closed_inv(1) [OF assms(2) sw] and sf = Sweep_frame [OF sw]
  have "mq_queue q1 = mq_queue q0 @ [p] \<and> mq_ids q1 = mq_ids q0
      \<and> mq_max_pending_allocations q1 = mq_max_pending_allocations q0"
    using e sw o' by (auto simp: EnqueueLocked_def split: option.splits if_splits)
  then show ?thesis
    using that [of ch q1 paired q2] e o' rp sc sf s queue_inv_EnqueueLocked [OF assms(2) e]
      mark_if_core [of "ch \<or> paired" n "(q2, srv2)"] q' by simp
qed

lemma pairs_length: "\<forall>g \<in> set gs. length (pg_player_ids g) = 2 \<Longrightarrow> length (concat (map pg_player_ids gs)) = 2 * length gs"
  by (induction gs) simp_all

text \<open>C11: while rooms can be had, nobody is kept waiting. When the room service gives a room for every
  request and the generator of match ids works, an accepted enqueue pairs everybody: all players
  who were waiting (and are not overdue) are matched, the only one who may be left in the queue is the
  player who just came, and no player is left in the middle of an allocation.\<close>

theorem waiting_players_are_matched:
  assumes "queue_inv (q, [])" "gives_rooms a" "0 < mq_max_pending_allocations q"
    and "[] \<notin> set (mq_ids q)" "length (mq_queue q) < length (mq_ids q)"
    and "Enqueue (Some a) p r n (q, srv) = (EnqueueQueued, q', srv')"
  shows "(mq_queue q' = [] \<or> mq_queue q' = [p]) \<and> AllocatingCount q' = 0
    \<and> (\<forall>x \<in> set (mq_queue q) \<union> {p} - set (mq_queue q').
         x = p \<or> \<not> overdue n q x \<longrightarrow> ms_state (SnapshotLocked x q') = StateMatched
           \<and> ms_room_id (SnapshotLocked x q') \<noteq> [])"
proof -
  obtain q1 ch paired q2 where e: "mq_queue q1 = filter (\<lambda>x. \<not> overdue n q x) (mq_queue q) @ [p]"
      "queue_inv (q1, [])" "mq_ids q1 = mq_ids q" "mq_max_pending_allocations q1 = mq_max_pending_allocations q"
      "RunPairingRound (Some a) n (q1, srv) = (paired, q2, srv')" "core q' = core q2"
    by (rule Enqueue_accepted [OF assms(6,1)])
  obtain gs qt where t: "TakePairGroupsLocked q1 = (gs, qt)" by fastforce
  note ts = Take_spec [OF e(2) t]
  have "0 < mq_max_pending_allocations q1" using e(4) assms(3) by simp
  note rp = RunPairing_cases(1) [OF e(2) t e(5) this]
  have it: "queue_inv (qt, [] @ gs)" using ts by simp
  note cm = commits_give_rooms [OF it taken_uncancelled [OF e(2) t] assms(2), of n srv, folded rp]
  have q1: "concat (map pg_player_ids gs) @ mq_queue qt = mq_queue q1" using ts by blast
  have i2: "queue_inv (q2, [])" using cm by blast
  have q2: "mq_queue q2 = mq_queue qt" using cm by blast
  have l2: "\<forall>g \<in> set gs. length (pg_player_ids g) = 2"
    using it by (simp add: queue_inv_def entries_inv_def group_ok_def kPlayersPerMatch_def)
  have "length (mq_queue q1) \<le> Suc (length (mq_queue q))" by (simp add: e(1))
  then have "2 * length gs \<le> Suc (length (mq_queue q))"
    using pairs_length [OF l2] q1 [symmetric] by simp
  then have "drop (length gs) (mq_ids q1) \<noteq> []" using assms(5) e(3) by simp
  moreover from this have "hd (drop (length gs) (mq_ids q1)) \<in> set (mq_ids q)"
    using e(3) by (metis hd_in_set in_set_dropD)
  ultimately have short: "length (mq_queue qt) < 2"
    using ts assms(4) by (auto simp: supplied_def)
  have left: "mq_queue q2 = [] \<or> mq_queue q2 = [p]"
  proof (cases "mq_queue qt" rule: rev_cases)
    case (snoc ys y)
    with short have ys: "mq_queue qt = [y]" by (cases ys) simp_all
    then have "last (mq_queue q1) = y" unfolding q1 [symmetric] by simp
    then show ?thesis using ys q2 by (simp add: e(1))
  qed (simp add: q2)
  have ce: "mq_queue q' = mq_queue q2" "mq_entries q' = mq_entries q2" using core_eqD [OF e(6)] by auto
  have i': "queue_inv (q', [])" using i2 core_queue_inv [OF e(6)] by simp
  have "ms_state (SnapshotLocked x q') = StateMatched \<and> ms_room_id (SnapshotLocked x q') \<noteq> []"
    if x: "x \<in> set (mq_queue q) \<union> {p}" "x \<notin> set (mq_queue q')" "x = p \<or> \<not> overdue n q x" for x
  proof -
    have "x \<in> set (mq_queue q1)" using x(1,3) by (auto simp: e(1))
    moreover have "x \<notin> set (mq_queue qt)" using x(2) ce q2 by simp
    ultimately have "x \<in> set (concat (map pg_player_ids gs))" unfolding q1 [symmetric] by auto
    then obtain g where "g \<in> set gs" "x \<in> set (pg_player_ids g)" by auto
    then have "matched_in q2 g x" using cm by blast
    then obtain en where en: "map_of (mq_entries q') x = Some en" "en_state en = StateMatched"
      using ce by (auto simp: matched_in_def)
    then show ?thesis using shared_resultD [OF i' en] by (simp add: SnapshotLocked_def shared_result_def)
  qed
  then show ?thesis using left ce no_flight_no_allocating [OF i'] by auto
qed

definition one_waiting :: MatchQueue where
  "one_waiting = snd (EnqueueLocked ''ann'' ''req-a'' 1000 empty_queue)"

lemma one_waiting_inv: "queue_inv (one_waiting, [])"
  unfolding one_waiting_def empty_queue_def by (intro queue_inv_EnqueueLocked_snd queue_inv_new)

theorem waiting_players_are_matched_witness:
  "\<exists>q'. Enqueue (Some room_for) ''bob'' ''req-b'' 2000 (one_waiting, ()) = (EnqueueQueued, q', ())
     \<and> mq_queue q' = [] \<and> ms_state (SnapshotLocked ''ann'' q') = StateMatched"
proof -
  obtain o' q' where e: "Enqueue (Some room_for) ''bob'' ''req-b'' 2000 (one_waiting, ()) = (o', q', ())"
    by (cases "Enqueue (Some room_for) ''bob'' ''req-b'' 2000 (one_waiting, ())") auto
  have o': "o' = EnqueueQueued"
    using arg_cong [OF e, of fst] by (simp add: one_waiting_def queue_eval)
  have f: "[] \<notin> set (mq_ids one_waiting)" "length (mq_queue one_waiting) < length (mq_ids one_waiting)"
      "0 < mq_max_pending_allocations one_waiting" "mq_queue one_waiting = [''ann'']"
      "\<not> overdue 2000 one_waiting ''ann''"
    by code_simp+
  have gr: "gives_rooms room_for" by (simp add: gives_rooms_def room_for_def)
  have m: "mq_queue (fst (snd (Enqueue (Some room_for) ''bob'' ''req-b'' 2000 (one_waiting, ())))) = []"
    by code_simp
  show ?thesis
    using waiting_players_are_matched [OF one_waiting_inv gr f(3,1,2) e [unfolded o']] f m e o' by auto
qed

section \<open>Time-outs and expiry\<close>

lemma filter_same_length: "length (filter P xs) = length xs \<Longrightarrow> filter P xs = xs"
proof (induction xs)
  case (Cons x xs)
  then show ?case using le_imp_less_Suc [OF length_filter_le [of P xs]] by (auto split: if_splits)
qed simp

lemma Sweep_unchanged: "SweepLocked n q = (False, q') \<Longrightarrow> q' = q"
  by (auto simp: SweepLocked_def Let_def dest!: filter_same_length)

lemma Sweep_nothing:
  assumes "\<forall>p \<in> set (mq_queue q). \<not> overdue n q p" "\<forall>(p, e) \<in> set (mq_entries q). \<not> expired n q e"
  shows "SweepLocked n q = (False, q)"
proof -
  have "filter (overdue n q) (mq_queue q) = []" using assms(1) by (simp add: filter_empty_conv)
  moreover have "filter (\<lambda>(_, e). \<not> expired n q e) (mq_entries q) = mq_entries q"
    using assms(2) by (auto simp: filter_id_conv)
  ultimately show ?thesis by (simp add: SweepLocked_def)
qed

lemma Sweep_result:
  assumes "queue_inv (q, fl)" "SweepLocked n q = (changed, q')"
  shows "(\<forall>p \<in> set (mq_queue q'). \<exists>e. map_of (mq_entries q') p = Some e \<and> waiting e
           \<and> n - en_queued_at_ms e < mq_match_timeout_ms q)
    \<and> (\<forall>p e. map_of (mq_entries q') p = Some e \<and> en_state e \<in> {StateMatched, StateTimeout} \<longrightarrow>
         n - en_stamp_ms e < mq_result_ttl_ms q)
    \<and> (\<forall>p \<in> set (mq_queue q) - set (mq_queue q'). ms_state (SnapshotLocked p q') = StateTimeout)
    \<and> (\<forall>p e. map_of (mq_entries q) p = Some e \<and> \<not> expired n q e \<and> p \<notin> set (mq_queue q) - set (mq_queue q') \<longrightarrow>
         map_of (mq_entries q') p = Some e)
    \<and> (\<not> changed \<longrightarrow> q' = q) \<and> SweepLocked n q' = (False, q')"
proof -
  have inv: "entries_inv (mq_queue q) fl (mq_entries q)" and ttl: "0 < mq_result_ttl_ms q"
    using assms(1) by (simp_all add: queue_inv_def)
  have i': "queue_inv (q', fl)" by (rule queue_inv_Sweep [OF assms])
  then have inv': "entries_inv (mq_queue q') fl (mq_entries q')" by (simp add: queue_inv_def)
  note sc = Sweep_closed_inv [OF assms] and sf = Sweep_frame [OF assms(2)]
  have w: "\<exists>e. map_of (mq_entries q') p = Some e \<and> waiting e \<and> n - en_queued_at_ms e < mq_match_timeout_ms q"
    if p: "p \<in> set (mq_queue q')" for p
  proof -
    obtain e where e: "map_of (mq_entries q') p = Some e" "waiting e"
      using entries_invD(3) [OF inv' p] by blast
    from p have "p \<in> set (mq_queue q)" "\<not> overdue n q p" by (auto simp: sc(1))
    with e show ?thesis
      by (auto simp: sc(2) swept_entry_def overdue_def split: option.splits if_splits)
  qed
  have r: "n - en_stamp_ms e < mq_result_ttl_ms q"
    if "map_of (mq_entries q') p = Some e" "en_state e \<in> {StateMatched, StateTimeout}" for p e
    using that ttl by (auto simp: sc(2) swept_entry_def expired_def split: option.splits if_splits)
  have t: "ms_state (SnapshotLocked p q') = StateTimeout" if "p \<in> set (mq_queue q) - set (mq_queue q')" for p
    using that entries_invD(3) [OF inv, of p]
    by (auto simp: sc SnapshotLocked_def swept_entry_def)
  have k: "map_of (mq_entries q') p = Some e"
    if "map_of (mq_entries q) p = Some e" "\<not> expired n q e" "p \<notin> set (mq_queue q) - set (mq_queue q')" for p e
    using that by (auto simp: sc swept_entry_def)
  have nq: "\<forall>p \<in> set (mq_queue q'). \<not> overdue n q' p"
    using w sf(1) by (fastforce simp: overdue_def waiting_def)
  have ne: "\<forall>(p, e) \<in> set (mq_entries q'). \<not> expired n q' e"
    using r sf(2) map_of_iff_in_set [OF entries_invD(1) [OF inv']] by (fastforce simp: expired_def)
  have s: "\<not> changed \<Longrightarrow> q' = q" using Sweep_unchanged assms(2) by auto
  from w r t k s Sweep_nothing [OF nq ne] show ?thesis by blast
qed

text \<open>A sweep does exactly what is due. Afterwards no waiting player has waited for the time-out or
  longer and no result is older than its retention; exactly the overdue waiting players report a
  time-out; everybody else, players in an allocation in particular, keeps his entry. It reports a change
  whenever it makes one, and a second sweep at the same time does nothing.\<close>

lemma sweep_does_what_is_due:
  assumes "queue_inv (q, fl)" "SweepLocked n q = (changed, q')"
  shows "(\<forall>p \<in> set (mq_queue q'). \<exists>e. map_of (mq_entries q') p = Some e \<and> waiting e
           \<and> n - en_queued_at_ms e < mq_match_timeout_ms q)
    \<and> (\<forall>p e. map_of (mq_entries q') p = Some e \<and> en_state e \<in> {StateMatched, StateTimeout} \<longrightarrow>
         n - en_stamp_ms e < mq_result_ttl_ms q)
    \<and> (\<forall>p \<in> set (mq_queue q) - set (mq_queue q'). ms_state (SnapshotLocked p q') = StateTimeout)
    \<and> (\<forall>p e. map_of (mq_entries q) p = Some e \<and> \<not> expired n q e \<and> p \<notin> set (mq_queue q) - set (mq_queue q') \<longrightarrow>
         map_of (mq_entries q') p = Some e)
    \<and> (\<not> changed \<longrightarrow> q' = q) \<and> SweepLocked n q' = (False, q')"
  using assms by (rule Sweep_result)

section \<open>Results stay until they expire\<close>

lemma commits_outside:
  fixes n :: ms and srv :: 'srv
  assumes "queue_inv (q, fl @ gs)" "p \<notin> set (concat (map pg_player_ids gs))"
  shows "map_of (mq_entries (fst (fold (allocate_and_commit a n) gs (q, srv)))) p = map_of (mq_entries q) p"
  using assms
proof (induction gs arbitrary: q srv)
  case (Cons g gs)
  obtain room q1 srv1 where a: "AllocateRoomFor a g (q, srv) = (room, q1, srv1)"
    by (cases "AllocateRoomFor a g (q, srv)")
  note gc = group_commit [OF Cons.prems(1) a, where n = n]
  show ?case using Cons.IH [OF gc(2)] Cons.prems(2) by (simp add: gc(1,3) committed_entry_def)
qed simp

lemma RunPairing_keeps_result:
  assumes "queue_inv (q, fl)" "RunPairingRound a n (q, srv) = (paired, q', srv')"
    "map_of (mq_entries q) p = Some e" "en_state e = StateMatched"
  shows "map_of (mq_entries q') p = Some e"
proof -
  obtain gs q1 where t: "TakePairGroupsLocked q = (gs, q1)" by fastforce
  note ts = Take_spec [OF assms(1) t]
  have "concat (map pg_player_ids gs) @ mq_queue q1 = mq_queue q" using ts by blast
  then have "p \<notin> set (concat (map pg_player_ids gs))"
    using matched_not_elsewhere(1) [OF assms(1,3,4)] by (metis Un_iff set_append)
  then have "map_of (mq_entries q1) p = Some e" "queue_inv (q1, fl @ gs)"
      "map_of (mq_entries (fst (fold (allocate_and_commit a n) gs (q1, srv)))) p = map_of (mq_entries q1) p"
    using ts assms(3) commits_outside [of q1 fl gs p a n srv] by auto
  then show ?thesis
    using assms t by (auto simp: RunPairingRound_def HandOffToWorker_def split: if_splits)
qed

lemma Sweep_keeps_result:
  assumes "queue_inv (q, fl)" "SweepLocked n q = (ch, q')" "map_of (mq_entries q) p = Some e"
    "en_state e = StateMatched" "\<not> expired n q e"
  shows "map_of (mq_entries q') p = Some e"
  using Sweep_closed_inv(2) [OF assms(1,2), of p] matched_not_elsewhere(1) [OF assms(1,3,4)] assms(3,5)
  by (simp add: swept_entry_def)

text \<open>A match result is not lost before its retention is over. Whatever anybody calls (an enqueue
  or a cancellation of the same player, a poll, with any outcome of the allocations it triggers),
  the player's result is the same afterwards; his own enqueue is answered "already queued" and his
  own cancellation changes nothing.\<close>

lemma results_are_kept:
  assumes "queue_inv (q, fl)" "map_of (mq_entries q) p = Some e" "en_state e = StateMatched" "\<not> expired n q e"
  shows "map_of (mq_entries (fst (snd (Enqueue a p' r n (q, srv))))) p = Some e
    \<and> map_of (mq_entries (snd (Cancel p' n q))) p = Some e
    \<and> map_of (mq_entries (fst (snd (GetStatus a p' n (q, srv))))) p = Some e
    \<and> fst (Enqueue a p r n (q, srv)) \<in> {EnqueueInvalidArgument, EnqueueShuttingDown, EnqueueAlreadyQueued}
    \<and> \<not> fst (Cancel p n q)
    \<and> ms_room_id (fst (GetStatus a p n (q, srv))) = en_room_id e"
proof (intro conjI)
  obtain ch q1 where sw: "SweepLocked n q = (ch, q1)" by fastforce
  have s1: "map_of (mq_entries q1) p = Some e" by (rule Sweep_keeps_result [OF assms(1) sw assms(2-4)])
  have i1: "queue_inv (q1, fl)" by (rule queue_inv_Sweep [OF assms(1) sw])
  have na: "\<not> en_allocating e" using shared_resultD [OF assms(1-3)] by (simp add: shared_result_def)
  obtain out ch2 q2 where e2: "EnqueueLocked p' r n q = ((out, ch2), q2)" by (metis surj_pair)
  have s2: "map_of (mq_entries q2) p = Some e"
    using e2 sw s1 assms(3) by (auto simp: EnqueueLocked_def map_of_emplace split: option.splits if_splits)
  obtain b q3 srv3 where r3: "RunPairingRound a n (q2, srv) = (b, q3, srv3)" by (metis surj_pair)
  have "map_of (mq_entries q3) p = Some e"
    by (rule RunPairing_keeps_result [OF queue_inv_EnqueueLocked [OF assms(1) e2] r3 s2 assms(3)])
  then show "map_of (mq_entries (fst (snd (Enqueue a p' r n (q, srv))))) p = Some e"
    using assms(2) e2 r3 core_eqD [OF mark_if_core [of "ch2 \<or> b" n "(q3, srv3)"]] by (simp add: Enqueue_def)
  show "map_of (mq_entries (snd (Cancel p' n q))) p = Some e"
    using sw s1 na assms(3)
    by (auto simp: Cancel_def CancelLocked_def MarkSnapshotDirty_def RemoveFromQueueLocked_def delete_conv'
        split: option.splits)
  obtain b4 q4 srv4 where r4: "RetryPairingIfNeeded a n (q1, srv) = (b4, q4, srv4)" by (metis surj_pair)
  have "map_of (mq_entries q4) p = Some e"
  proof (cases "mq_retry_pairing q1")
    case True
    then have "RunPairingRound a n (q1\<lparr>mq_retry_pairing := False\<rparr>, srv) = (b4, q4, srv4)"
      using r4 by (simp add: RetryPairingIfNeeded_def)
    then show ?thesis using RunPairing_keeps_result [of "q1\<lparr>mq_retry_pairing := False\<rparr>" fl] i1 s1 assms(3)
      by (simp add: queue_inv_def)
  qed (use r4 s1 in \<open>simp add: RetryPairingIfNeeded_def\<close>)
  then show "map_of (mq_entries (fst (snd (GetStatus a p' n (q, srv))))) p = Some e"
    using sw r4 core_eqD [OF mark_if_core [of "ch \<or> b4" n "(q4, srv4)"]] by (simp add: GetStatus_def)
  obtain out5 ch5 q5 where e5: "EnqueueLocked p r n q = ((out5, ch5), q5)" by (metis surj_pair)
  have "out5 = EnqueueAlreadyQueued" using e5 sw s1 assms(3) by (simp add: EnqueueLocked_def)
  then show "fst (Enqueue a p r n (q, srv)) \<in> {EnqueueInvalidArgument, EnqueueShuttingDown, EnqueueAlreadyQueued}"
    using e5 by (simp add: Enqueue_def split: prod.splits)
  show "\<not> fst (Cancel p n q)" using sw s1 na assms(3) by (simp add: Cancel_def CancelLocked_def)
  show "ms_room_id (fst (GetStatus a p n (q, srv))) = en_room_id e"
    using sw s1 r4 by (simp add: GetStatus_def SnapshotLocked_def)
qed

lemma paired_queue_inv: "queue_inv (paired_queue, [])"
proof -
  obtain evs where "mq_run (empty_queue, []) evs (paired_queue, [])" using paired_queue_run by blast
  then show ?thesis using queue_inv_run queue_inv_new unfolding empty_queue_def by blast
qed

end
