(* ===== verification/Match_Restore.thy ===== *)
theory Match_Restore
  imports Match_Store Match_Queue_Props
begin

text \<open>
  The queue across a restart: what \<^verbatim>\<open>MatchQueue::Restore\<close> makes of the rows of a snapshot. Any
  rows give a consistent queue; the rows of a saved queue give that queue back.
\<close>

section \<open>What the two loops of Restore build\<close>

definition still_waiting :: "ms \<Rightarrow> MatchQueue \<Rightarrow> MatchQueueEntry \<Rightarrow> bool" where
  "still_waiting n q e \<longleftrightarrow> n - me_queued_at_ms e < mq_match_timeout_ms q"

definition still_kept :: "ms \<Rightarrow> MatchQueue \<Rightarrow> MatchQueueEntry \<Rightarrow> bool" where
  "still_kept n q e \<longleftrightarrow> n - me_stamp_ms e < mq_result_ttl_ms q"

definition restored_waiting :: "MatchQueueEntry \<Rightarrow> Entry" where
  "restored_waiting e = fresh_entry\<lparr>en_state := StateQueued, en_queued_at_ms := me_queued_at_ms e,
     en_stamp_ms := me_queued_at_ms e\<rparr>"

definition same_config :: "MatchQueue \<Rightarrow> MatchQueue \<Rightarrow> bool" where
  "same_config q q' \<longleftrightarrow> mq_match_timeout_ms q' = mq_match_timeout_ms q \<and> mq_result_ttl_ms q' = mq_result_ttl_ms q
     \<and> mq_retry_pairing q' = mq_retry_pairing q \<and> mq_allocation_queue q' = mq_allocation_queue q"

lemma same_config_refl [simp]: "same_config q q"
  by (simp add: same_config_def)

lemma same_config_trans: "same_config q q' \<Longrightarrow> same_config q' q'' \<Longrightarrow> same_config q q''"
  by (simp add: same_config_def)

lemma still_cong: "same_config q q' \<Longrightarrow> still_waiting n q' = still_waiting n q"
  "same_config q q' \<Longrightarrow> still_kept n q' = still_kept n q"
  by (simp_all add: same_config_def still_waiting_def still_kept_def fun_eq_iff)

lemma restore_queued_eq:
  "map_of (mq_entries q) (me_player_id e) = None \<Longrightarrow>
   snd (restore_queued n e (rep, q)) =
     (if still_waiting n q e
      then q\<lparr>mq_entries := emplace (me_player_id e) (restored_waiting e) (mq_entries q),
             mq_queue := mq_queue q @ [me_player_id e]\<rparr> else q)"
  by (simp add: restore_queued_def still_waiting_def restored_waiting_def)

lemma restore_queued_known:
  "map_of (mq_entries q) (me_player_id e) \<noteq> None \<Longrightarrow> snd (restore_queued n e (rep, q)) = q"
  by (simp add: restore_queued_def)

lemma restore_queued_loop:
  assumes "distinct (map me_player_id L)" "\<forall>e \<in> set L. map_of (mq_entries q) (me_player_id e) = None"
    "fold (restore_queued n) L (rep, q) = (rep', q')"
  shows "same_config q q' \<and> mq_queue q' = mq_queue q @ map me_player_id (filter (still_waiting n q) L)
    \<and> (\<forall>e \<in> set L. still_waiting n q e \<longrightarrow> map_of (mq_entries q') (me_player_id e) = Some (restored_waiting e))
    \<and> (\<forall>x. x \<notin> me_player_id ` set (filter (still_waiting n q) L) \<longrightarrow> map_of (mq_entries q') x = map_of (mq_entries q) x)"
  using assms
proof (induction L arbitrary: rep q)
  case (Cons e L)
  obtain rep1 q1 where s: "restore_queued n e (rep, q) = (rep1, q1)" by fastforce
  have q1: "q1 = (if still_waiting n q e
      then q\<lparr>mq_entries := emplace (me_player_id e) (restored_waiting e) (mq_entries q),
             mq_queue := mq_queue q @ [me_player_id e]\<rparr> else q)"
    using restore_queued_eq [of q e n rep] Cons.prems(2) s by simp
  have c: "same_config q q1" by (simp add: q1 same_config_def)
  have "me_player_id e' \<noteq> me_player_id e" if "e' \<in> set L" for e'
    using Cons.prems(1) imageI [OF that, of me_player_id] by auto
  then have new: "\<forall>e' \<in> set L. map_of (mq_entries q1) (me_player_id e') = None"
    using Cons.prems(2) by (simp add: q1 map_of_emplace)
  have f: "fold (restore_queued n) L (rep1, q1) = (rep', q')" using Cons.prems(3) s by simp
  note IH = Cons.IH [OF _ new f, unfolded still_cong [OF c]]
  show ?case
    using IH Cons.prems(1,2) same_config_trans [OF c, of q']
    by (auto simp: q1 map_of_emplace)
qed simp

lemma map_of_fold_emplace:
  "map_of (fold (\<lambda>p. emplace p v) ps es) x = (if x \<in> set ps \<and> map_of es x = None then Some v else map_of es x)"
  by (induction ps arbitrary: es) (auto simp: map_of_emplace)

lemma keys_distinct_fold_emplace: "keys_distinct es \<Longrightarrow> keys_distinct (fold (\<lambda>p. emplace p v) ps es)"
  by (induction ps arbitrary: es) (simp_all add: keys_distinct_emplace)

lemma restore_matched_eq:
  "snd (restore_matched n e (rep, q)) =
     (if still_kept n q e \<and> (\<forall>p \<in> set (me_player_ids e). map_of (mq_entries q) p = None)
      then q\<lparr>mq_entries := fold (\<lambda>p. emplace p (restored_result e)) (me_player_ids e) (mq_entries q)\<rparr> else q)"
  by (auto simp: restore_matched_def still_kept_def list_ex_iff)

definition disjoint_members :: "MatchQueueEntry list \<Rightarrow> bool" where
  "disjoint_members M \<longleftrightarrow> sorted_wrt (\<lambda>e e'. set (me_player_ids e) \<inter> set (me_player_ids e') = {}) M"

lemma restore_matched_loop:
  assumes "disjoint_members M"
    "\<forall>e \<in> set M. still_kept n q e \<longrightarrow> (\<forall>p \<in> set (me_player_ids e). map_of (mq_entries q) p = None)"
    "fold (restore_matched n) M (rep, q) = (rep', q')"
  shows "same_config q q' \<and> mq_queue q' = mq_queue q
    \<and> (\<forall>e \<in> set M. still_kept n q e \<longrightarrow>
         (\<forall>p \<in> set (me_player_ids e). map_of (mq_entries q') p = Some (restored_result e)))
    \<and> (\<forall>x. (\<forall>e \<in> set M. still_kept n q e \<longrightarrow> x \<notin> set (me_player_ids e)) \<longrightarrow>
         map_of (mq_entries q') x = map_of (mq_entries q) x)"
  using assms
proof (induction M arbitrary: rep q)
  case (Cons e M)
  obtain rep1 q1 where s: "restore_matched n e (rep, q) = (rep1, q1)" by fastforce
  have q1: "q1 = (if still_kept n q e
      then q\<lparr>mq_entries := fold (\<lambda>p. emplace p (restored_result e)) (me_player_ids e) (mq_entries q)\<rparr> else q)"
    using restore_matched_eq [of n e rep q] Cons.prems(2) s by auto
  have c: "same_config q q1" by (simp add: q1 same_config_def)
  have d: "\<forall>e' \<in> set M. set (me_player_ids e) \<inter> set (me_player_ids e') = {}" "disjoint_members M"
    using Cons.prems(1) by (auto simp: disjoint_members_def)
  have new: "\<forall>e' \<in> set M. still_kept n q1 e' \<longrightarrow> (\<forall>p \<in> set (me_player_ids e'). map_of (mq_entries q1) p = None)"
    using Cons.prems(2) d(1) unfolding still_cong [OF c] by (auto simp: q1 map_of_fold_emplace)
  have f: "fold (restore_matched n) M (rep1, q1) = (rep', q')" using Cons.prems(3) s by simp
  note IH = Cons.IH [OF d(2) new f, unfolded still_cong [OF c]]
  have first: "map_of (mq_entries q') p = Some (restored_result e)"
    if "still_kept n q e" "p \<in> set (me_player_ids e)" for p
  proof -
    have "map_of (mq_entries q') p = map_of (mq_entries q1) p" using IH d(1) that(2) by blast
    then show ?thesis using that Cons.prems(2) by (simp add: q1 map_of_fold_emplace)
  qed
  have outside: "map_of (mq_entries q') x = map_of (mq_entries q) x"
    if "\<forall>e' \<in> set (e # M). still_kept n q e' \<longrightarrow> x \<notin> set (me_player_ids e')" for x
  proof -
    have "map_of (mq_entries q') x = map_of (mq_entries q1) x" using IH that by auto
    then show ?thesis using that by (simp add: q1 map_of_fold_emplace)
  qed
  have "same_config q q'" using IH same_config_trans [OF c] by blast
  moreover have "mq_queue q' = mq_queue q" using IH by (simp add: q1)
  ultimately show ?case using IH first outside by auto
qed simp

section \<open>Any snapshot restores a consistent queue\<close>

lemma queue_inv_restore_queued:
  assumes "queue_inv (q, [])"
  shows "queue_inv (snd (restore_queued n e (rep, q)), [])"
proof (cases "map_of (mq_entries q) (me_player_id e) = None \<and> still_waiting n q e")
  case True
  have inv: "entries_inv (mq_queue q) [] (mq_entries q)" using assms by (simp add: queue_inv_def)
  have "entries_inv (mq_queue q @ [me_player_id e]) []
      (emplace (me_player_id e) (restored_waiting e) (mq_entries q))"
    using True entries_invD(1) [OF inv]
    by (intro entries_inv_append [OF inv, of _ _ "restored_waiting e"])
       (auto simp: map_of_emplace keys_distinct_emplace waiting_def restored_waiting_def fresh_entry_def fun_eq_iff)
  then show ?thesis using True assms by (simp add: restore_queued_eq queue_inv_def)
next
  case False
  then have "snd (restore_queued n e (rep, q)) = q"
    by (auto simp: restore_queued_def still_waiting_def)
  then show ?thesis using assms by simp
qed

lemma queue_inv_restore_matched:
  assumes "queue_inv (q, [])" "me_kind e \<noteq> EntryQueued" "ValidateEntry e = None"
  shows "queue_inv (snd (restore_matched n e (rep, q)), [])"
proof (cases "still_kept n q e \<and> (\<forall>p \<in> set (me_player_ids e). map_of (mq_entries q) p = None)")
  case True
  define es' where "es' = fold (\<lambda>p. emplace p (restored_result e)) (me_player_ids e) (mq_entries q)"
  have inv: "entries_inv (mq_queue q) [] (mq_entries q)" using assms(1) by (simp add: queue_inv_def)
  have room: "me_room_id e \<noteq> []"
    using assms(2,3) by (auto simp: ValidateEntry_def ValidIdentifier_def split: if_splits)
  have map': "map_of es' x = (if x \<in> set (me_player_ids e) then Some (restored_result e) else map_of (mq_entries q) x)" for x
    using True by (simp add: es'_def map_of_fold_emplace)
  have "entries_inv (mq_queue q) [] es'"
  proof (rule entries_inv_update [OF inv, where S = "set (me_player_ids e)"])
    show "keys_distinct es'" using entries_invD(1) [OF inv] unfolding es'_def by (rule keys_distinct_fold_emplace)
    show "\<And>x en. x \<in> set (me_player_ids e) \<Longrightarrow> map_of es' x = Some en \<Longrightarrow> entry_ok (mq_queue q) [] es' x en"
      using room by (auto simp: map' entry_ok_def shared_result_def same_result_def restored_result_def fresh_entry_def)
    show "\<And>x. x \<in> set (me_player_ids e) \<Longrightarrow> x \<in> set (mq_queue q) \<Longrightarrow> \<exists>en. map_of es' x = Some en \<and> waiting en"
      using True entries_invD(3) [OF inv] by fastforce
  qed (use entries_invD(2) [OF inv] True map' in auto)
  then show ?thesis using True assms(1) by (simp add: restore_matched_eq queue_inv_def es'_def)
next
  case False
  then have "snd (restore_matched n e (rep, q)) = q" unfolding restore_matched_eq by (rule if_not_P)
  then show ?thesis using assms(1) by simp
qed

lemma queue_inv_fold_queued: "queue_inv (snd s, []) \<Longrightarrow> queue_inv (snd (fold (restore_queued n) L s), [])"
proof (induction L arbitrary: s)
  case (Cons e L)
  have "queue_inv (snd (restore_queued n e s), [])"
    using queue_inv_restore_queued [of "snd s" n e "fst s"] Cons.prems by simp
  from Cons.IH [OF this] show ?case by simp
qed simp

lemma queue_inv_fold_matched:
  "queue_inv (snd s, []) \<Longrightarrow> \<forall>e \<in> set M. me_kind e \<noteq> EntryQueued \<and> ValidateEntry e = None \<Longrightarrow>
   queue_inv (snd (fold (restore_matched n) M s), [])"
proof (induction M arbitrary: s)
  case (Cons e M)
  have "queue_inv (snd (restore_matched n e s), [])"
    using queue_inv_restore_matched [of "snd s" e n "fst s"] Cons.prems by simp
  from Cons.IH [OF this] Cons.prems(2) show ?case by simp
qed simp

lemma good_rows_valid: "e \<in> set (good_rows (map decode_reply rs)) \<Longrightarrow> ValidateEntry e = None"
proof (induction rs)
  case (Cons r rs)
  then show ?case
    by (cases "decode_reply r") (auto simp: decode_reply_def dest: Decode_valid split: redis_reply.splits)
qed simp

lemma restore_queued_config: "same_config (snd s) (snd (fold (restore_queued n) L s))"
proof (induction L arbitrary: s)
  case (Cons e L)
  have "same_config (snd s) (snd (restore_queued n e s))"
    by (cases s) (auto simp: restore_queued_def same_config_def)
  from same_config_trans [OF this Cons.IH] show ?case by simp
qed simp

lemma restore_matched_config: "same_config (snd s) (snd (fold (restore_matched n) M s))"
proof (induction M arbitrary: s)
  case (Cons e M)
  have "same_config (snd s) (snd (restore_matched n e s))"
    by (cases s) (auto simp: restore_matched_def same_config_def)
  from same_config_trans [OF this Cons.IH] show ?case by simp
qed simp

lemma restore_rows_swept:
  assumes "queue_inv (q, [])" "\<forall>e \<in> set (good_rows rows). ValidateEntry e = None"
  obtains q1 where "queue_inv (q1, [])" "same_config q q1" "snd (restore_rows n rows q) = snd (SweepLocked n q1)"
proof -
  define L where "L = sort_key me_queued_at_ms (filter (\<lambda>e. me_kind e = EntryQueued) (good_rows rows))"
  define M where "M = filter (\<lambda>e. me_kind e \<noteq> EntryQueued) (good_rows rows)"
  define rep where "rep = empty_restore_report\<lparr>rr_scanned := length rows,
                     rr_dropped := length rows - length (good_rows rows)\<rparr>"
  define s where "s = fold (restore_matched n) M (fold (restore_queued n) L (rep, q))"
  have r: "restore_rows n rows q = (fst s, snd (SweepLocked n (snd s)))"
    by (simp add: restore_rows_def Let_def s_def M_def L_def rep_def split: prod.split)
  have "\<forall>e \<in> set M. me_kind e \<noteq> EntryQueued \<and> ValidateEntry e = None" using assms(2) by (auto simp: M_def)
  then have "queue_inv (snd s, [])"
    unfolding s_def using queue_inv_fold_matched queue_inv_fold_queued assms(1) by simp
  moreover have "same_config q (snd s)"
    using same_config_trans [OF restore_queued_config [of "(rep, q)" n L]
        restore_matched_config [of "fold (restore_queued n) L (rep, q)" n M]] by (simp add: s_def)
  ultimately show ?thesis using that r by simp
qed

lemma restored_facts:
  fixes n :: ms
  assumes "queue_inv (q, [])" "\<forall>e \<in> set (good_rows rows). ValidateEntry e = None"
  defines "q' \<equiv> snd (restore_rows n rows q)"
  shows "queue_inv (q', [])" "mq_retry_pairing q' = mq_retry_pairing q" "SweepLocked n q' = (False, q')"
proof -
  obtain q1 where q1: "queue_inv (q1, [])" "same_config q q1" "q' = snd (SweepLocked n q1)"
    unfolding q'_def by (rule restore_rows_swept [OF assms(1,2)])
  then obtain ch where sw: "SweepLocked n q1 = (ch, q')" by (metis prod.collapse)
  show "queue_inv (q', [])" by (rule queue_inv_Sweep [OF q1(1) sw])
  show "mq_retry_pairing q' = mq_retry_pairing q" using Sweep_frame(5) [OF sw] q1(2) by (simp add: same_config_def)
  show "SweepLocked n q' = (False, q')" using Sweep_result [OF q1(1) sw] by blast
qed

text \<open>Restoring is safe whatever the Redis list holds. From any list of replies (damaged lines, foreign
  elements, duplicated players, results that overlap), at any time, the queue after the restore
  satisfies the invariant of the running service: no player is in two results or both waiting and
  matched, every result is shared by all its members, and nothing overdue or expired is left.\<close>

lemma any_snapshot_restores_consistently:
  "queue_inv (snd (restore_rows n (map decode_reply replies) (MatchQueue_new ids t ttl m st)), [])
   \<and> SweepLocked n (snd (restore_rows n (map decode_reply replies) (MatchQueue_new ids t ttl m st)))
     = (False, snd (restore_rows n (map decode_reply replies) (MatchQueue_new ids t ttl m st)))"
proof -
  have "\<forall>e \<in> set (good_rows (map decode_reply replies)). ValidateEntry e = None"
    using good_rows_valid by blast
  from restored_facts [OF queue_inv_new this] show ?thesis by blast
qed

section \<open>Restored players are not paired by polling\<close>

definition poll_all :: "'srv RoomAllocator option \<Rightarrow> (string \<times> ms) list \<Rightarrow> MatchQueue \<times> 'srv \<Rightarrow> MatchQueue \<times> 'srv" where
  "poll_all a polls s = fold (\<lambda>(p, n) s. snd (GetStatus a p n s)) polls s"

lemma poll_without_retry:
  assumes "\<not> mq_retry_pairing q" "queue_inv (q, fl)" "GetStatus a p n (q, srv) = (snap, q', srv')"
  shows "srv' = srv \<and> \<not> mq_retry_pairing q' \<and> queue_inv (q', fl)
    \<and> (\<forall>x e. map_of (mq_entries q') x = Some e \<and> en_state e = StateMatched \<longrightarrow> map_of (mq_entries q) x = Some e)"
proof -
  obtain ch q1 where sw: "SweepLocked n q = (ch, q1)" by fastforce
  have q': "q' = fst (mark_if ch n (q1, srv))" and s: "srv' = srv"
    using assms(1,3) sw Sweep_frame(5) [OF sw]
    by (auto simp: GetStatus_def RetryPairingIfNeeded_def mark_if_def split: if_splits)
  have "core q' = core q1" unfolding q' by (simp add: mark_if_core)
  note ce = core_eqD [OF this] and ci = core_queue_inv [OF this]
  have "\<not> mq_retry_pairing q'"
    using assms(1) Sweep_frame(5) [OF sw] by (simp add: q' mark_if_def MarkSnapshotDirty_def)
  moreover have "map_of (mq_entries q) x = Some e"
    if "map_of (mq_entries q') x = Some e" "en_state e = StateMatched" for x e
    using that ce Sweep_closed_inv(2) [OF assms(2) sw, of x]
    by (auto simp: swept_entry_def split: option.splits if_splits)
  ultimately show ?thesis using s ci queue_inv_Sweep [OF assms(2) sw] by blast
qed

lemma polls_without_retry:
  assumes "\<not> mq_retry_pairing (fst s)" "queue_inv (fst s, fl)"
  shows "snd (poll_all a polls s) = snd s
    \<and> (\<forall>x e. map_of (mq_entries (fst (poll_all a polls s))) x = Some e \<and> en_state e = StateMatched \<longrightarrow>
         map_of (mq_entries (fst s)) x = Some e)"
  using assms
proof (induction polls arbitrary: s)
  case (Cons pn polls)
  obtain p n where pn: "pn = (p, n)" by fastforce
  obtain snap q' srv' where g: "GetStatus a p n (fst s, snd s) = (snap, q', srv')" by (metis surj_pair)
  note pw = poll_without_retry [OF Cons.prems g]
  then have "\<not> mq_retry_pairing (fst (q', srv'))" "queue_inv (fst (q', srv'), fl)" by auto
  note IH = Cons.IH [OF this]
  have "poll_all a (pn # polls) s = poll_all a polls (q', srv')" using g by (simp add: poll_all_def pn)
  then show ?case using IH pw by auto
qed (simp add: poll_all_def)

text \<open>After a restart polling alone never pairs anybody. Whatever was restored and whoever polls how
  often, no room is asked for, and a player is matched only if his result was restored: the flag
  that makes a poll retry the pairing is not set by the restore, so two restored players wait for a
  newcomer to enqueue (or time out).\<close>

lemma restored_players_wait_for_a_newcomer:
  fixes a :: "'srv RoomAllocator option" and srv :: 'srv and n :: ms
    and replies :: "redis_reply list" and ids :: "string list" and t ttl :: ms and m :: nat and st :: bool
  defines "q0 \<equiv> snd (restore_rows n (map decode_reply replies) (MatchQueue_new ids t ttl m st))"
  shows "snd (poll_all a polls (q0, srv)) = srv
    \<and> (\<forall>x e. map_of (mq_entries (fst (poll_all a polls (q0, srv)))) x = Some e \<and> en_state e = StateMatched \<longrightarrow>
         map_of (mq_entries q0) x = Some e)"
proof -
  have "\<forall>e \<in> set (good_rows (map decode_reply replies)). ValidateEntry e = None"
    using good_rows_valid by blast
  moreover have "queue_inv (MatchQueue_new ids t ttl m st, [])" by (rule queue_inv_new)
  ultimately have rf: "queue_inv (q0, [])" "mq_retry_pairing q0 = mq_retry_pairing (MatchQueue_new ids t ttl m st)"
    unfolding q0_def by (rule restored_facts(1,2) [rotated])+
  have "\<not> mq_retry_pairing q0" using rf(2) by (simp add: MatchQueue_new_def)
  then show ?thesis using polls_without_retry [of "(q0, srv)" "[]" a polls] rf(1) by simp
qed

section \<open>What a snapshot holds\<close>

lemma snapshot_queued:
  assumes "entries_inv (mq_queue q) fl (mq_entries q)"
  defines "L \<equiv> sn_queued (MakeSnapshotLocked q)"
  shows "map_of (mq_entries q) x = Some e \<Longrightarrow> en_state e = StateQueued \<Longrightarrow> \<not> en_cancel_requested e \<Longrightarrow>
      queued_record (x, e) \<in> set L"
    "r \<in> set L \<Longrightarrow> \<exists>x e. r = queued_record (x, e) \<and> map_of (mq_entries q) x = Some e
       \<and> en_state e = StateQueued \<and> \<not> en_cancel_requested e"
    "distinct (map me_player_id L)"
    "map me_player_id L = mq_queue q @ map fst (filter (\<lambda>(p, e). en_state e = StateQueued \<and> en_allocating e
       \<and> \<not> en_cancel_requested e) (mq_entries q))"
proof -
  define A where "A = filter (\<lambda>(p, e). en_state e = StateQueued \<and> en_allocating e \<and> \<not> en_cancel_requested e) (mq_entries q)"
  have fq: "filter (is_queued (mq_entries q)) (mq_queue q) = mq_queue q"
    using entries_inv_queued [OF assms(1)] by (simp add: filter_id_conv)
  have L: "L = map (\<lambda>p. queued_record (p, the (map_of (mq_entries q) p))) (mq_queue q) @ map queued_record A"
    by (simp add: L_def MakeSnapshotLocked_def fq A_def)
  note kd = entries_invD(1) [OF assms(1)]
  show ids: "map me_player_id L = mq_queue q @ map fst A"
    by (simp add: L queued_record_def comp_def)
  have "set (mq_queue q) \<inter> set (map fst A) = {}"
  proof -
    have "\<not> (x \<in> set (mq_queue q) \<and> (x, e) \<in> set A)" for x e
      using entries_invD(3) [OF assms(1), of x] map_of_iff_in_set [OF kd, of x e]
      by (auto simp: A_def waiting_def)
    then show ?thesis by auto
  qed
  moreover have "distinct (map fst A)" using kd by (simp add: A_def keys_distinct_def distinct_map_filter)
  ultimately show "distinct (map me_player_id L)"
    unfolding ids using entries_invD(2) [OF assms(1)] by simp
  show "\<exists>x e. r = queued_record (x, e) \<and> map_of (mq_entries q) x = Some e
       \<and> en_state e = StateQueued \<and> \<not> en_cancel_requested e" if r: "r \<in> set L"
  proof -
    from r consider p where "p \<in> set (mq_queue q)" "r = queued_record (p, the (map_of (mq_entries q) p))"
      | p e where "(p, e) \<in> set A" "r = queued_record (p, e)" by (auto simp: L)
    then show ?thesis
    proof cases
      case (1 p)
      obtain e where "map_of (mq_entries q) p = Some e" "waiting e"
        using entries_invD(3) [OF assms(1) 1(1)] by blast
      with 1(2) show ?thesis by (intro exI [of _ p] exI [of _ e]) (simp add: waiting_def)
    next
      case (2 p e)
      with kd show ?thesis by (intro exI [of _ p] exI [of _ e]) (auto simp: A_def map_of_iff_in_set)
    qed
  qed
  show "queued_record (x, e) \<in> set L"
    if "map_of (mq_entries q) x = Some e" "en_state e = StateQueued" "\<not> en_cancel_requested e"
  proof (cases "en_allocating e")
    case True
    with that kd show ?thesis by (auto simp: L A_def map_of_iff_in_set)
  next
    case False
    then have "x \<in> set (mq_queue q)"
      using entries_invD(4) [OF assms(1) that(1)] that(2) by (auto simp: entry_ok_def shared_result_def)
    with that(1) show ?thesis by (force simp: L)
  qed
qed

lemma collect_match_spec:
  assumes "distinct (map me_match_id M)" "fold collect_match es (M, map me_match_id M) = (M', seen)"
  shows "seen = map me_match_id M' \<and> distinct (map me_match_id M') \<and> set M \<subseteq> set M'
    \<and> (\<forall>r \<in> set M'. r \<in> set M \<or> (\<exists>(p, e) \<in> set es. en_state e = StateMatched \<and> r = matched_record e))
    \<and> (\<forall>(p, e) \<in> set es. en_state e = StateMatched \<longrightarrow> en_match_id e \<in> me_match_id ` set M')"
  using assms
proof (induction es arbitrary: M)
  case (Cons pe es)
  define M1 where "M1 = fst (collect_match pe (M, map me_match_id M))"
  have mm: "\<And>e. me_match_id (matched_record e) = en_match_id e" by (simp add: matched_record_def)
  have c: "collect_match pe (M, map me_match_id M) = (M1, map me_match_id M1)"
      "distinct (map me_match_id M1)"
      "set M \<subseteq> set M1" "\<forall>r \<in> set M1. r \<in> set M \<or> (en_state (snd pe) = StateMatched \<and> r = matched_record (snd pe))"
      "en_state (snd pe) = StateMatched \<longrightarrow> en_match_id (snd pe) \<in> me_match_id ` set M1"
    using Cons.prems(1) by (auto simp: M1_def collect_match_def mm)
  have "fold collect_match es (M1, map me_match_id M1) = (M', seen)" using Cons.prems(2) c(1) by simp
  note IH = Cons.IH [OF c(2) this]
  have "set M \<subseteq> set M'" using IH c(3) by blast
  moreover have "r \<in> set M \<or> (\<exists>(p, e) \<in> set (pe # es). en_state e = StateMatched \<and> r = matched_record e)"
    if r: "r \<in> set M'" for r
  proof -
    from IH r have "r \<in> set M1 \<or> (\<exists>(p, e) \<in> set es. en_state e = StateMatched \<and> r = matched_record e)" by blast
    with c(4) show ?thesis by (cases pe) auto
  qed
  moreover have "\<forall>(p, e) \<in> set (pe # es). en_state e = StateMatched \<longrightarrow> en_match_id e \<in> me_match_id ` set M'"
  proof -
    have "me_match_id ` set M1 \<subseteq> me_match_id ` set M'" using IH by blast
    with c(5) IH show ?thesis by (cases pe) auto
  qed
  ultimately show ?case using IH by blast
qed simp

lemma snapshot_matched:
  fixes q fl
  assumes "entries_inv (mq_queue q) fl (mq_entries q)"
  defines "M \<equiv> sn_matched (MakeSnapshotLocked q)"
  shows "r \<in> set M \<Longrightarrow> \<exists>x e. r = matched_record e \<and> map_of (mq_entries q) x = Some e \<and> en_state e = StateMatched"
    "map_of (mq_entries q) x = Some e \<Longrightarrow> en_state e = StateMatched \<Longrightarrow> \<exists>r \<in> set M. me_match_id r = en_match_id e"
    "distinct (map me_match_id M)"
proof -
  obtain seen where f: "fold collect_match (mq_entries q) ([], map me_match_id ([] :: MatchQueueEntry list)) = (M, seen)"
    by (simp add: M_def MakeSnapshotLocked_def prod_eq_iff)
  have d: "distinct (map me_match_id ([] :: MatchQueueEntry list))" by simp
  note cs = collect_match_spec [OF d f]
  note kd = entries_invD(1) [OF assms(1)]
  show "\<exists>x e. r = matched_record e \<and> map_of (mq_entries q) x = Some e \<and> en_state e = StateMatched" if "r \<in> set M"
    using cs that kd by (fastforce simp: map_of_iff_in_set)
  show "\<exists>r \<in> set M. me_match_id r = en_match_id e"
    if "map_of (mq_entries q) x = Some e" "en_state e = StateMatched"
    using cs that kd by (fastforce simp: map_of_iff_in_set)
  show "distinct (map me_match_id M)" using cs by blast
qed

lemma snapshot_disjoint:
  assumes inv: "queue_inv (q, fl)"
  shows "disjoint_members (sn_matched (MakeSnapshotLocked q))"
proof -
  define M where "M = sn_matched (MakeSnapshotLocked q)"
  have ei: "entries_inv (mq_queue q) fl (mq_entries q)" using inv by (simp add: queue_inv_def)
  note sm = snapshot_matched [OF ei, folded M_def]
  have one: "me_match_id r = me_match_id r'"
    if r: "r \<in> set M" "r' \<in> set M" "x \<in> set (me_player_ids r)" "x \<in> set (me_player_ids r')" for r r' x
  proof -
    have *: "\<exists>e. map_of (mq_entries q) x = Some e \<and> en_match_id e = me_match_id h"
      if h: "h \<in> set M" "x \<in> set (me_player_ids h)" for h
    proof -
      obtain y e where "h = matched_record e" "map_of (mq_entries q) y = Some e" "en_state e = StateMatched"
        using sm(1) [OF h(1)] by blast
      then show ?thesis
        using shared_resultD [OF inv, of y e] h(2)
        by (auto simp: shared_result_def same_result_def matched_record_def)
    qed
    show ?thesis using * [OF r(1,3)] * [OF r(2,4)] by auto
  qed
  have "sorted_wrt (\<lambda>r r'. set (me_player_ids r) \<inter> set (me_player_ids r') = {}) N"
    if "set N \<subseteq> set M" "distinct (map me_match_id N)" for N
    using that
  proof (induction N)
    case (Cons h N)
    have "set (me_player_ids h) \<inter> set (me_player_ids r) = {}" if "r \<in> set N" for r
    proof -
      have "me_match_id h \<noteq> me_match_id r" using Cons.prems(2) imageI [OF that, of me_match_id] by auto
      then show ?thesis using one [of h r] Cons.prems(1) that by auto
    qed
    with Cons show ?case by simp
  qed simp
  with sm(3) show ?thesis unfolding disjoint_members_def M_def [symmetric] by blast
qed

section \<open>The round trip of a restart\<close>

definition saveable :: "MatchQueue \<Rightarrow> bool" where
  "saveable q \<longleftrightarrow> list_all (\<lambda>r. ValidateEntry r = None \<and> entry_in_range r)
     (sn_queued (MakeSnapshotLocked q) @ sn_matched (MakeSnapshotLocked q))"

definition ids_not_reused :: "MatchQueue \<Rightarrow> bool" where
  "ids_not_reused q \<longleftrightarrow> (\<forall>(p, e) \<in> set (mq_entries q). \<forall>(p', e') \<in> set (mq_entries q).
     en_state e = StateMatched \<and> en_state e' = StateMatched \<and> en_match_id e' = en_match_id e \<longrightarrow> same_result e e')"

lemma good_rows_append: "good_rows (xs @ ys) = good_rows xs @ good_rows ys"
  by (induction xs rule: good_rows.induct) simp_all

lemma good_rows_saved:
  "\<forall>r \<in> set rs. ValidateEntry r = None \<and> entry_in_range r \<and> entry_fields r = r \<Longrightarrow>
   good_rows (map DecodeMatchQueueEntry (encode_lines rs)) = rs"
proof (induction rs)
  case (Cons r rs)
  then obtain line where l: "EncodeMatchQueueEntry r = Some line" by (auto simp: EncodeMatchQueueEntry_def)
  have "DecodeMatchQueueEntry line = Inr r" using Decode_Encode [OF l] Cons.prems by simp
  then show ?case using Cons l by (simp add: encode_lines_def List.map_filter_simps)
qed (simp add: encode_lines_def List.map_filter_simps)

lemma snapshot_good_rows:
  assumes "queue_inv (q, fl)" "saveable q"
  shows "good_rows (snapshot_rows (MakeSnapshotLocked q)) =
      sn_queued (MakeSnapshotLocked q) @ sn_matched (MakeSnapshotLocked q)"
    "\<forall>r \<in> set (sn_queued (MakeSnapshotLocked q)). me_kind r = EntryQueued"
    "\<forall>r \<in> set (sn_matched (MakeSnapshotLocked q)). me_kind r \<noteq> EntryQueued \<and> ValidateEntry r = None"
proof -
  have ei: "entries_inv (mq_queue q) fl (mq_entries q)" using assms(1) by (simp add: queue_inv_def)
  have f: "\<And>x. entry_fields (queued_record x) = queued_record x \<and> me_kind (queued_record x) = EntryQueued"
    "\<And>e. entry_fields (matched_record e) = matched_record e \<and> me_kind (matched_record e) = EntryMatched"
    by (simp_all add: entry_fields_def queued_record_def matched_record_def default_entry_def)
  have q: "\<forall>r \<in> set (sn_queued (MakeSnapshotLocked q)). entry_fields r = r \<and> me_kind r = EntryQueued"
    using snapshot_queued(2) [OF ei] f(1) by blast
  have m: "\<forall>r \<in> set (sn_matched (MakeSnapshotLocked q)). entry_fields r = r \<and> me_kind r = EntryMatched"
    using snapshot_matched(1) [OF ei] f(2) by blast
  have v: "\<forall>r \<in> set (sn_queued (MakeSnapshotLocked q)) \<union> set (sn_matched (MakeSnapshotLocked q)).
      ValidateEntry r = None \<and> entry_in_range r"
    using assms(2) by (auto simp: saveable_def list_all_iff)
  show "good_rows (snapshot_rows (MakeSnapshotLocked q)) =
      sn_queued (MakeSnapshotLocked q) @ sn_matched (MakeSnapshotLocked q)"
    unfolding snapshot_rows_def map_append good_rows_append using q m v by (simp add: good_rows_saved)
  show "\<forall>r \<in> set (sn_queued (MakeSnapshotLocked q)). me_kind r = EntryQueued" using q by blast
  show "\<forall>r \<in> set (sn_matched (MakeSnapshotLocked q)). me_kind r \<noteq> EntryQueued \<and> ValidateEntry r = None"
    using m v by auto
qed

definition blank_for :: "MatchQueue \<Rightarrow> MatchQueue \<Rightarrow> bool" where
  "blank_for q q0 \<longleftrightarrow> queue_inv (q0, []) \<and> mq_queue q0 = [] \<and> mq_entries q0 = []
     \<and> mq_match_timeout_ms q0 = mq_match_timeout_ms q \<and> mq_result_ttl_ms q0 = mq_result_ttl_ms q"

lemma restore_snapshot:
  fixes n :: ms and q q0 :: MatchQueue
  assumes inv: "queue_inv (q, fl)" and sv: "saveable q" and b: "blank_for q q0"
  defines "L \<equiv> sn_queued (MakeSnapshotLocked q)" and "M \<equiv> sn_matched (MakeSnapshotLocked q)"
    and "q' \<equiv> snd (restore_rows n (snapshot_rows (MakeSnapshotLocked q)) q0)"
  shows "mq_queue q' = map me_player_id (filter (still_waiting n q) (sort_key me_queued_at_ms L))"
    "r \<in> set L \<Longrightarrow> still_waiting n q r \<Longrightarrow> map_of (mq_entries q') (me_player_id r) = Some (restored_waiting r)"
    "r \<in> set M \<Longrightarrow> still_kept n q r \<Longrightarrow> x \<in> set (me_player_ids r) \<Longrightarrow>
      map_of (mq_entries q') x = Some (restored_result r)"
    "map_of (mq_entries q') x = Some e' \<Longrightarrow>
      (\<exists>r \<in> set L. still_waiting n q r \<and> x = me_player_id r \<and> e' = restored_waiting r)
      \<or> (\<exists>r \<in> set M. still_kept n q r \<and> x \<in> set (me_player_ids r) \<and> e' = restored_result r)"
proof -
  define S where "S = sort_key me_queued_at_ms L"
  have ei: "entries_inv (mq_queue q) fl (mq_entries q)" using inv by (simp add: queue_inv_def)
  note gr = snapshot_good_rows [OF inv sv, folded L_def M_def]
  note sq = snapshot_queued [OF ei, folded L_def] and sm = snapshot_matched [OF ei, folded M_def]
  have setS: "set S = set L" by (simp add: S_def)
  have dS: "distinct (map me_player_id S)" using sq(3) by (simp add: S_def distinct_map)
  have fl: "filter (\<lambda>e. me_kind e = EntryQueued) (L @ M) = L" "filter (\<lambda>e. me_kind e \<noteq> EntryQueued) (L @ M) = M"
    using gr(2,3) by (auto simp: filter_id_conv filter_empty_conv)
  define rep where "rep = empty_restore_report\<lparr>rr_scanned := length (snapshot_rows (MakeSnapshotLocked q)),
      rr_dropped := length (snapshot_rows (MakeSnapshotLocked q)) - length (L @ M)\<rparr>"
  have q'S: "q' = snd (SweepLocked n (snd (fold (restore_matched n) M (fold (restore_queued n) S (rep, q0)))))"
    unfolding q'_def restore_rows_def Let_def gr(1) fl S_def rep_def by (simp add: case_prod_beta)
  obtain rep1 q1 where f1: "fold (restore_queued n) S (rep, q0) = (rep1, q1)" by fastforce
  obtain rep2 q2 where f2: "fold (restore_matched n) M (rep1, q1) = (rep2, q2)" by fastforce
  have q'2: "q' = snd (SweepLocked n q2)" using q'S f1 f2 by simp
  have e0: "mq_entries q0 = []" "mq_queue q0 = []" "queue_inv (q0, [])" using b by (simp_all add: blank_for_def)
  have "\<forall>e \<in> set S. map_of (mq_entries q0) (me_player_id e) = None" by (simp add: e0)
  note l1 = restore_queued_loop [OF dS this f1]
  have sw0: "still_waiting n q0 = still_waiting n q" "still_kept n q0 = still_kept n q"
    using b by (simp_all add: blank_for_def still_waiting_def still_kept_def fun_eq_iff)
  have c1: "same_config q0 q1" using l1 by blast
  have new: "\<forall>r \<in> set M. still_kept n q1 r \<longrightarrow> (\<forall>p \<in> set (me_player_ids r). map_of (mq_entries q1) p = None)"
  proof (intro ballI impI)
    fix r p assume r: "r \<in> set M" "p \<in> set (me_player_ids r)"
    obtain y e where e: "r = matched_record e" "map_of (mq_entries q) y = Some e" "en_state e = StateMatched"
      using sm(1) [OF r(1)] by blast
    then obtain ep where ep: "map_of (mq_entries q) p = Some ep" "en_state ep = StateMatched"
      using shared_resultD [OF inv e(2,3)] r(2) by (auto simp: shared_result_def same_result_def matched_record_def)
    have "p \<notin> me_player_id ` set S"
    proof
      assume "p \<in> me_player_id ` set S"
      then obtain r' where "r' \<in> set L" "p = me_player_id r'" by (auto simp: setS)
      then show False using sq(2) [of r'] ep by (auto simp: queued_record_def default_entry_def)
    qed
    then show "map_of (mq_entries q1) p = None" using l1 by (auto simp: e0)
  qed
  note l2 = restore_matched_loop [OF snapshot_disjoint [OF inv, folded M_def] new f2]
  have k1: "still_kept n q1 = still_kept n q" using still_cong(2) [OF c1] sw0(2) by simp
  have c2: "same_config q0 q2" using l2 same_config_trans [OF c1] by blast
  have i2: "queue_inv (q2, [])"
  proof -
    have "queue_inv (q1, [])" using queue_inv_fold_queued [of "(rep, q0)" n S] f1 e0(3) by simp
    then show ?thesis using queue_inv_fold_matched [of "(rep1, q1)" M n] f2 gr(3) by simp
  qed
  have ents: "(\<exists>r \<in> set L. still_waiting n q r \<and> x = me_player_id r \<and> e' = restored_waiting r)
      \<or> (\<exists>r \<in> set M. still_kept n q r \<and> x \<in> set (me_player_ids r) \<and> e' = restored_result r)"
    if x: "map_of (mq_entries q2) x = Some e'" for x e'
  proof (cases "\<exists>r \<in> set M. still_kept n q r \<and> x \<in> set (me_player_ids r)")
    case True
    then show ?thesis using l2 x unfolding k1 by auto
  next
    case False
    then have "map_of (mq_entries q1) x = Some e'" using l2 x unfolding k1 by auto
    then have "x \<in> me_player_id ` set (filter (still_waiting n q) S)"
      using l1 unfolding sw0 by (metis e0(1) map_of.simps(1) option.distinct(1))
    then obtain r where r: "r \<in> set L" "still_waiting n q r" "x = me_player_id r" by (auto simp: setS)
    then have "map_of (mq_entries q1) x = Some (restored_waiting r)" using l1 unfolding sw0 setS by blast
    with \<open>map_of (mq_entries q1) x = Some e'\<close> r show ?thesis by auto
  qed
  have wq: "r \<in> set L \<Longrightarrow> still_waiting n q r \<Longrightarrow> map_of (mq_entries q2) (me_player_id r) = Some (restored_waiting r)" for r
  proof -
    assume r: "r \<in> set L" "still_waiting n q r"
    then have "map_of (mq_entries q1) (me_player_id r) = Some (restored_waiting r)" using l1 unfolding sw0 setS by blast
    moreover from this have "\<forall>h \<in> set M. still_kept n q1 h \<longrightarrow> me_player_id r \<notin> set (me_player_ids h)"
      using new by auto
    ultimately show ?thesis using l2 by simp
  qed
  have queue2: "mq_queue q2 = map me_player_id (filter (still_waiting n q) S)"
    using l1 l2 sw0 e0 by simp
  have sweep: "SweepLocked n q2 = (False, q2)"
  proof (rule Sweep_nothing)
    show "\<forall>p \<in> set (mq_queue q2). \<not> overdue n q2 p"
      using wq c2 b by (auto simp: queue2 setS overdue_def restored_waiting_def still_waiting_def same_config_def blank_for_def)
    have "keys_distinct (mq_entries q2)" using i2 by (simp add: queue_inv_def entries_inv_def)
    then show "\<forall>(p, e) \<in> set (mq_entries q2). \<not> expired n q2 e"
      using ents c2 b
      by (fastforce simp: map_of_iff_in_set [symmetric] expired_def restored_waiting_def restored_result_def
          still_kept_def same_config_def blank_for_def)
  qed
  have q': "q' = q2" using q'2 sweep by simp
  show "mq_queue q' = map me_player_id (filter (still_waiting n q) (sort_key me_queued_at_ms L))"
    using q' queue2 S_def by simp
  show "r \<in> set L \<Longrightarrow> still_waiting n q r \<Longrightarrow> map_of (mq_entries q') (me_player_id r) = Some (restored_waiting r)"
    using q' wq by simp
  show "r \<in> set M \<Longrightarrow> still_kept n q r \<Longrightarrow> x \<in> set (me_player_ids r) \<Longrightarrow>
      map_of (mq_entries q') x = Some (restored_result r)"
    using q' l2 k1 by simp
  show "map_of (mq_entries q') x = Some e' \<Longrightarrow>
      (\<exists>r \<in> set L. still_waiting n q r \<and> x = me_player_id r \<and> e' = restored_waiting r)
      \<or> (\<exists>r \<in> set M. still_kept n q r \<and> x \<in> set (me_player_ids r) \<and> e' = restored_result r)"
    using q' ents by simp
qed

lemma restored_result_same:
  assumes "same_result e e2" "en_state e = StateMatched"
  shows "same_result e (restored_result (matched_record e2))"
  using assms by (simp add: same_result_def restored_result_def matched_record_def fresh_entry_def)

text \<open>C6: a restart keeps the queue. A queue saved in any reachable state, while allocations may be in
  progress, and restored into a fresh process with the same time-outs, has again: every player who was
  waiting or whose room was being allocated, if he had not cancelled and is not overdue, waiting with
  his original time; every result that is not past its retention, with the same match, room, members
  and time; and nothing else. The queue is in the order of the enqueue times, so without allocations in
  progress and with monotone times it is exactly the old queue without the overdue players.\<close>

theorem restart_keeps_the_queue:
  fixes n :: ms
  assumes inv: "queue_inv (q, fl)" and sv: "saveable q" and u: "ids_not_reused q" and b: "blank_for q q0"
  defines "q' \<equiv> snd (restore_rows n (snapshot_rows (MakeSnapshotLocked q)) q0)"
  shows "(\<forall>x e. map_of (mq_entries q) x = Some e \<and> en_state e = StateQueued \<and> \<not> en_cancel_requested e
             \<and> n - en_queued_at_ms e < mq_match_timeout_ms q \<longrightarrow>
           x \<in> set (mq_queue q') \<and> (\<exists>e'. map_of (mq_entries q') x = Some e' \<and> waiting e'
             \<and> en_queued_at_ms e' = en_queued_at_ms e))
    \<and> (\<forall>x e. map_of (mq_entries q) x = Some e \<and> en_state e = StateMatched \<and> \<not> expired n q e \<longrightarrow>
           (\<exists>e'. map_of (mq_entries q') x = Some e' \<and> same_result e e'))
    \<and> dom (map_of (mq_entries q')) \<subseteq> dom (map_of (mq_entries q))
    \<and> (fl = [] \<and> sorted (map (\<lambda>p. en_queued_at_ms (the (map_of (mq_entries q) p))) (mq_queue q)) \<longrightarrow>
           mq_queue q' = filter (\<lambda>p. \<not> overdue n q p) (mq_queue q))"
proof (intro conjI allI impI)
  have ei: "entries_inv (mq_queue q) fl (mq_entries q)" using inv by (simp add: queue_inv_def)
  note rs = restore_snapshot [OF inv sv b, where n = n, folded q'_def]
  note sq = snapshot_queued [OF ei] and sm = snapshot_matched [OF ei]
  let ?L = "sn_queued (MakeSnapshotLocked q)" and ?M = "sn_matched (MakeSnapshotLocked q)"
  {
    fix x e
    assume a: "map_of (mq_entries q) x = Some e \<and> en_state e = StateQueued \<and> \<not> en_cancel_requested e
             \<and> n - en_queued_at_ms e < mq_match_timeout_ms q"
    have r: "queued_record (x, e) \<in> set ?L" using sq(1) a by blast
    have w: "still_waiting n q (queued_record (x, e))" using a by (simp add: still_waiting_def queued_record_def)
    have "map_of (mq_entries q') x = Some (restored_waiting (queued_record (x, e)))"
      using rs(2) [OF r w] by (simp add: queued_record_def)
    then show "\<exists>e'. map_of (mq_entries q') x = Some e' \<and> waiting e' \<and> en_queued_at_ms e' = en_queued_at_ms e"
      by (simp add: restored_waiting_def waiting_def fresh_entry_def queued_record_def)
    have "me_player_id (queued_record (x, e)) \<in> set (mq_queue q')" using rs(1) r w by simp
    then show "x \<in> set (mq_queue q')" by (simp add: queued_record_def)
  }
  {
    fix x e
    assume a: "map_of (mq_entries q) x = Some e \<and> en_state e = StateMatched \<and> \<not> expired n q e"
    then obtain r where r: "r \<in> set ?M" "me_match_id r = en_match_id e" using sm(2) by blast
    obtain y e2 where e2: "r = matched_record e2" "map_of (mq_entries q) y = Some e2" "en_state e2 = StateMatched"
      using sm(1) [OF r(1)] by blast
    have kd: "keys_distinct (mq_entries q)" using entries_invD(1) [OF ei] .
    have "(x, e) \<in> set (mq_entries q)" "(y, e2) \<in> set (mq_entries q)"
      using a e2(2) kd by (simp_all add: map_of_iff_in_set)
    then have same: "same_result e e2"
      using u a e2 r(2) unfolding ids_not_reused_def by (fastforce simp: matched_record_def)
    then have "still_kept n q r" "x \<in> set (me_player_ids r)"
      using a e2(1) shared_resultD [OF inv, of x e]
      by (auto simp: still_kept_def expired_def same_result_def matched_record_def shared_result_def)
    from rs(3) [OF r(1) this] restored_result_same [OF same] a e2(1)
    show "\<exists>e'. map_of (mq_entries q') x = Some e' \<and> same_result e e'" by auto
  }
  show "dom (map_of (mq_entries q')) \<subseteq> dom (map_of (mq_entries q))"
  proof
    fix x assume "x \<in> dom (map_of (mq_entries q'))"
    then obtain e' where "map_of (mq_entries q') x = Some e'" by blast
    from rs(4) [OF this] show "x \<in> dom (map_of (mq_entries q))"
    proof
      assume "\<exists>r \<in> set ?L. still_waiting n q r \<and> x = me_player_id r \<and> e' = restored_waiting r"
      then show ?thesis using sq(2) by (force simp: queued_record_def)
    next
      assume "\<exists>r \<in> set ?M. still_kept n q r \<and> x \<in> set (me_player_ids r) \<and> e' = restored_result r"
      then obtain r where r: "r \<in> set ?M" "x \<in> set (me_player_ids r)" by blast
      obtain y e2 where "r = matched_record e2" "map_of (mq_entries q) y = Some e2" "en_state e2 = StateMatched"
        using sm(1) [OF r(1)] by blast
      then show ?thesis using shared_resultD [OF inv, of y e2] r(2)
        by (auto simp: shared_result_def matched_record_def)
    qed
  qed
  assume o: "fl = [] \<and> sorted (map (\<lambda>p. en_queued_at_ms (the (map_of (mq_entries q) p))) (mq_queue q))"
  have "AllocatingCount q = 0" using no_flight_no_allocating inv o by blast
  then have "filter (\<lambda>(p, e). en_state e = StateQueued \<and> en_allocating e \<and> \<not> en_cancel_requested e) (mq_entries q) = []"
    by (auto simp: AllocatingCount_def filter_empty_conv)
  then have L: "?L = map (\<lambda>p. queued_record (p, the (map_of (mq_entries q) p))) (mq_queue q)"
    using entries_inv_queued [OF ei] by (simp add: MakeSnapshotLocked_def filter_id_conv)
  have "sorted (map me_queued_at_ms ?L)" using o by (simp add: L queued_record_def comp_def)
  then have "mq_queue q' = map me_player_id (filter (still_waiting n q) ?L)"
    using rs(1) by (simp add: sorted_sort_id sort_key_id_if_sorted)
  moreover have "overdue n q p = (\<not> still_waiting n q (queued_record (p, the (map_of (mq_entries q) p))))"
    if "p \<in> set (mq_queue q)" for p
    using entries_invD(3) [OF ei that]
    by (auto simp: overdue_def still_waiting_def queued_record_def waiting_def)
  ultimately show "mq_queue q' = filter (\<lambda>p. \<not> overdue n q p) (mq_queue q)"
    by (simp add: L filter_map comp_def queued_record_def cong: filter_cong)
qed

lemma waiting_pair_eval:
  "mq_queue waiting_pair = [''ann'', ''bob'']" "mq_match_timeout_ms waiting_pair = 30000"
  "mq_result_ttl_ms waiting_pair = 120000"
  "mq_entries waiting_pair =
     [(''ann'', fresh_entry\<lparr>en_state := StateQueued, en_request_id := ''req-a'', en_queued_at_ms := 1000, en_stamp_ms := 1000\<rparr>),
      (''bob'', fresh_entry\<lparr>en_state := StateQueued, en_request_id := ''req-b'', en_queued_at_ms := 2000, en_stamp_ms := 2000\<rparr>)]"
  by code_simp+

lemma waiting_pair_snapshot:
  "MakeSnapshotLocked waiting_pair =
     \<lparr>sn_queued = [default_entry\<lparr>me_player_id := ''ann'', me_queued_at_ms := 1000\<rparr>,
                   default_entry\<lparr>me_player_id := ''bob'', me_queued_at_ms := 2000\<rparr>], sn_matched = []\<rparr>"
  by (simp add: MakeSnapshotLocked_def waiting_pair_eval is_queued_def queued_record_def fresh_entry_def
      collect_match_def default_entry_def)

lemma waiting_pair_saved:
  "saveable waiting_pair" "ids_not_reused waiting_pair" "blank_for waiting_pair empty_queue"
proof -
  show "saveable waiting_pair"
    by (simp add: saveable_def waiting_pair_snapshot ValidateEntry_def ValidIdentifier_def
        kMaxFieldLength_def default_entry_def entry_in_range_def in_int64_def)
  show "ids_not_reused waiting_pair" by (simp add: ids_not_reused_def waiting_pair_eval fresh_entry_def)
  have "queue_inv (empty_queue, [])" unfolding empty_queue_def by (rule queue_inv_new)
  then show "blank_for waiting_pair empty_queue"
    by (simp add: blank_for_def waiting_pair_eval, simp add: empty_queue_def MatchQueue_new_def
        kDefaultMatchTimeoutMs_def kDefaultResultTtlMs_def)
qed

theorem restart_keeps_the_queue_witness:
  "mq_queue (snd (restore_rows 3000 (snapshot_rows (MakeSnapshotLocked waiting_pair)) empty_queue))
     = [''ann'', ''bob'']"
proof -
  have st: "sorted (map (\<lambda>p. en_queued_at_ms (the (map_of (mq_entries waiting_pair) p))) (mq_queue waiting_pair))"
    by (simp add: waiting_pair_eval)
  have od: "filter (\<lambda>p. \<not> overdue 3000 waiting_pair p) (mq_queue waiting_pair) = [''ann'', ''bob'']"
    by (simp add: waiting_pair_eval overdue_def fresh_entry_def)
  from restart_keeps_the_queue [OF waiting_pair_inv waiting_pair_saved, where n = 3000] st od show ?thesis by simp
qed

definition two_lines :: "redis_reply list" where
  "two_lines = map ReplyString (encode_lines (sn_queued (MakeSnapshotLocked waiting_pair)))"

definition restored_pair :: MatchQueue where
  "restored_pair = snd (restore_rows 3000 (map decode_reply two_lines)
     (MatchQueue_new [''m1'', ''m2'', ''m3'', ''m4''] 0 0 0 True))"

lemma restored_pair_facts:
  "mq_queue restored_pair = [''ann'', ''bob'']"
  "map_option en_state (map_of (mq_entries restored_pair) ''ann'') = Some StateQueued"
proof -
  have rows: "map decode_reply two_lines = snapshot_rows (MakeSnapshotLocked waiting_pair)"
    by (simp add: two_lines_def snapshot_rows_def decode_ReplyString waiting_pair_snapshot encode_lines_def
        List.map_filter_simps)
  have q: "restored_pair = snd (restore_rows 3000 (snapshot_rows (MakeSnapshotLocked waiting_pair)) empty_queue)"
    by (simp add: restored_pair_def rows empty_queue_def)
  note rs = restore_snapshot [OF waiting_pair_inv waiting_pair_saved(1,3), where n = 3000, folded q]
  show "mq_queue restored_pair = [''ann'', ''bob'']"
    by (simp add: rs(1) waiting_pair_snapshot still_waiting_def waiting_pair_eval default_entry_def)
  have "map_of (mq_entries restored_pair) ''ann'' =
      Some (restored_waiting (default_entry\<lparr>me_player_id := ''ann'', me_queued_at_ms := 1000\<rparr>))"
    using rs(2) [of "default_entry\<lparr>me_player_id := ''ann'', me_queued_at_ms := 1000\<rparr>"]
    by (simp add: waiting_pair_snapshot still_waiting_def waiting_pair_eval default_entry_def)
  then show "map_option en_state (map_of (mq_entries restored_pair) ''ann'') = Some StateQueued"
    by (simp add: restored_waiting_def)
qed

end
