(* ===== verification/Match_Persist.thy ===== *)
theory Match_Persist
  imports Match_Restore
begin

text \<open>
  How the queue gets to its store: the dirty mark that every change sets, the merged write of
  \<^verbatim>\<open>Tick\<close> and \<^verbatim>\<open>FlushSnapshotNow\<close>, over the Redis store and its contract.
\<close>

section \<open>What changes nothing leaves the snapshot alone\<close>

definition content :: "MatchQueue \<Rightarrow> string list \<times> (string, Entry) umap" where
  "content q = (mq_queue q, mq_entries q)"

lemma content_snapshot: "content q' = content q \<Longrightarrow> MakeSnapshotLocked q' = MakeSnapshotLocked q"
  by (simp add: content_def MakeSnapshotLocked_def)

text \<open>A section either leaves the queue and the entries as they are or is reported as a change.\<close>

lemma EnqueueLocked_unchanged:
  "EnqueueLocked p r n q = ((out, False), q') \<Longrightarrow> q' = q"
  by (auto simp: EnqueueLocked_def Sweep_unchanged split: prod.splits option.splits if_splits)

lemma CancelLocked_unchanged:
  "CancelLocked p n q = ((b, False), q') \<Longrightarrow> q' = q"
  by (auto simp: CancelLocked_def Sweep_unchanged split: prod.splits option.splits if_splits)

text \<open>The store configuration and the count of failed writes, which only a write changes.\<close>

definition persist_part :: "MatchQueue \<Rightarrow> bool \<times> nat" where
  "persist_part q = (mq_has_store q, mq_snapshot_failure_count q)"

lemma persist_part_simps [simp]:
  "persist_part (q\<lparr>mq_queue := x1\<rparr>) = persist_part q"
  "persist_part (q\<lparr>mq_entries := x2\<rparr>) = persist_part q"
  "persist_part (q\<lparr>mq_ids := x3\<rparr>) = persist_part q"
  "persist_part (q\<lparr>mq_retry_pairing := x4\<rparr>) = persist_part q"
  "persist_part (q\<lparr>mq_allocation_queue := x5\<rparr>) = persist_part q"
  "persist_part (q\<lparr>mq_room_allocate_count := x6\<rparr>) = persist_part q"
  "persist_part (q\<lparr>mq_room_allocate_failed_count := x7\<rparr>) = persist_part q"
  "persist_part (q\<lparr>mq_snapshot_tick_count := x8\<rparr>) = persist_part q"
  "persist_part (q\<lparr>mq_snapshot_merged_count := x9\<rparr>) = persist_part q"
  "persist_part (q\<lparr>mq_snapshot_dirty := x10, mq_snapshot_dirty_since_ms := x11\<rparr>) = persist_part q"
  by (simp_all add: persist_part_def)

lemma persist_part_Sweep: "persist_part (snd (SweepLocked n q)) = persist_part q"
  by (simp add: SweepLocked_def Let_def fold_time_out)

lemma persist_part_put_back [simp]: "persist_part (put_back p q) = persist_part q"
  by (simp add: put_back_def split: option.split)

lemma persist_part_put_backs [simp]: "persist_part (foldr put_back ps q) = persist_part q"
  by (induction ps) simp_all

lemma persist_part_Commit [simp]: "persist_part (CommitGroupLocked g room n q) = persist_part q"
  by (simp add: CommitGroupLocked_def Let_def)

lemma persist_part_commits:
  "persist_part (fst (fold (allocate_and_commit a n) gs s)) = persist_part (fst s)"
  by (induction gs arbitrary: s)
     (auto simp: allocate_and_commit_def AllocateRoomFor_def split: option.splits prod.splits)

lemma persist_part_Take: "persist_part (snd (TakePairGroupsLocked q)) = persist_part q"
proof (induction q rule: TakePairGroupsLocked.induct)
  case (1 q)
  then show ?case by (subst TakePairGroupsLocked.simps) (auto split: prod.splits)
qed

lemma persist_part_RunPairing: "persist_part (fst (snd (RunPairingRound a n s))) = persist_part (fst s)"
  using persist_part_Take [of "fst s"] persist_part_commits [of a n _ "(_, snd s)"]
  by (auto simp: RunPairingRound_def HandOffToWorker_def split: prod.splits)

lemma persist_part_EnqueueLocked: "persist_part (snd (EnqueueLocked p r n q)) = persist_part q"
  using persist_part_Sweep [of n q] by (auto simp: EnqueueLocked_def split: prod.splits option.splits)

lemma persist_part_CancelLocked: "persist_part (snd (CancelLocked p n q)) = persist_part q"
  using persist_part_Sweep [of n q]
  by (auto simp: CancelLocked_def RemoveFromQueueLocked_def split: prod.splits option.splits)

lemma persist_part_Mark [simp]: "persist_part (MarkSnapshotDirty n q) = persist_part q"
  by (simp add: MarkSnapshotDirty_def)

section \<open>Every call marks its changes\<close>

text \<open>A pairing round that takes no group changes neither the content nor the mark.\<close>

definition same_content :: "MatchQueue \<Rightarrow> MatchQueue \<Rightarrow> bool" where
  "same_content q q' \<longleftrightarrow> content q' = content q \<and> mq_snapshot_dirty q' = mq_snapshot_dirty q"

lemma same_content_refl [simp]: "same_content q q"
  by (simp add: same_content_def)

lemma Take_nothing:
  assumes "queue_inv (q, fl)" "TakePairGroupsLocked q = ([], q')"
  shows "same_content q q'"
proof -
  have "mq_queue q' = mq_queue q" using Take_spec [OF assms] by simp
  moreover have "mq_entries q' = mq_entries q \<and> mq_snapshot_dirty q' = mq_snapshot_dirty q"
    using assms(2) by (subst (asm) TakePairGroupsLocked.simps) (auto split: if_splits prod.splits)
  ultimately show ?thesis by (simp add: content_def same_content_def)
qed

lemma RunPairing_unchanged:
  assumes "queue_inv (q, fl)" "RunPairingRound a n (q, srv) = (False, q', srv')"
  shows "same_content q q'"
proof -
  obtain gs q1 where t: "TakePairGroupsLocked q = (gs, q1)" by fastforce
  have "q' = q \<or> (gs = [] \<and> q' = q1)" using assms(2) t by (auto simp: RunPairingRound_def split: if_splits)
  then show ?thesis using Take_nothing [OF assms(1), of q1] t by auto
qed

text \<open>The summary of one call: with a store, the queue is dirty afterwards or its content is what it was.\<close>

definition marked :: "MatchQueue \<Rightarrow> MatchQueue \<Rightarrow> bool" where
  "marked q q' \<longleftrightarrow> persist_part q' = persist_part q
     \<and> (mq_has_store q \<longrightarrow> mq_snapshot_dirty q' \<or> same_content q q')"

lemma marked_refl [simp]: "marked q q"
  by (simp add: marked_def)

lemma marked_by_mark:
  assumes "persist_part (fst s) = persist_part q" "\<not> changed \<Longrightarrow> same_content q (fst s)"
  shows "marked q (fst (mark_if changed n s))"
  using assms by (auto simp: marked_def mark_if_def MarkSnapshotDirty_def persist_part_def)

lemma marked_Enqueue:
  assumes "queue_inv (q, fl)" "Enqueue a p r n (q, srv) = (out, q', srv')"
  shows "marked q q'"
proof (cases "p = [] \<or> length p > kMaxPlayerIdLength \<or> r = [] \<or> length r > kMaxRequestIdLength \<or> mq_shutting_down q")
  case True
  then show ?thesis using assms(2) by (auto simp: Enqueue_def split: if_splits)
next
  case False
  obtain o' ch q1 where e: "EnqueueLocked p r n q = ((o', ch), q1)" by (metis surj_pair)
  obtain b q2 srv2 where rp: "RunPairingRound a n (q1, srv) = (b, q2, srv2)" by (metis surj_pair)
  have q': "q' = fst (mark_if (ch \<or> b) n (q2, srv2))" using assms(2) False e rp by (auto simp: Enqueue_def)
  have "persist_part q2 = persist_part q"
    using persist_part_EnqueueLocked [of p r n q] persist_part_RunPairing [of a n "(q1, srv)"] e rp by simp
  moreover have "same_content q q2" if "\<not> (ch \<or> b)"
  proof -
    have "q1 = q" using EnqueueLocked_unchanged e that by auto
    then show ?thesis using RunPairing_unchanged [OF assms(1)] rp that by auto
  qed
  ultimately show ?thesis unfolding q' by (intro marked_by_mark) simp_all
qed

lemma marked_Cancel:
  assumes "Cancel p n q = (b, q')"
  shows "marked q q'"
proof -
  obtain rm ch q1 where c: "CancelLocked p n q = ((rm, ch), q1)" by (metis surj_pair)
  have "q' = fst (mark_if ch n (q1, ()))" using assms c by (auto simp: Cancel_def mark_if_def)
  moreover have "persist_part q1 = persist_part q" using persist_part_CancelLocked [of p n q] c by simp
  moreover have "\<not> ch \<Longrightarrow> q1 = q" using CancelLocked_unchanged c by auto
  ultimately show ?thesis using marked_by_mark [of "(q1, ())" q ch n] by simp
qed

lemma marked_GetStatus:
  assumes "queue_inv (q, fl)" "GetStatus a p n (q, srv) = (snap, q', srv')"
  shows "marked q q'"
proof -
  obtain ch q1 where s: "SweepLocked n q = (ch, q1)" by fastforce
  obtain b q2 srv2 where rt: "RetryPairingIfNeeded a n (q1, srv) = (b, q2, srv2)" by (metis surj_pair)
  have q': "q' = fst (mark_if (ch \<or> b) n (q2, srv2))" using assms(2) s rt by (simp add: GetStatus_def)
  let ?q0 = "q1\<lparr>mq_retry_pairing := False\<rparr>"
  have i0: "queue_inv (?q0, fl)" using queue_inv_Sweep [OF assms(1) s] by (simp add: queue_inv_def)
  have "persist_part q2 = persist_part q"
    using rt persist_part_Sweep [of n q] s persist_part_RunPairing [of a n "(?q0, srv)"]
    by (auto simp: RetryPairingIfNeeded_def split: if_splits)
  moreover have "same_content q q2" if nc: "\<not> (ch \<or> b)"
  proof -
    have "q1 = q" using Sweep_unchanged s nc by auto
    then show ?thesis using rt nc RunPairing_unchanged [OF i0, of a n srv q2 srv2]
      by (auto simp: RetryPairingIfNeeded_def same_content_def content_def split: if_splits)
  qed
  ultimately show ?thesis unfolding q' by (intro marked_by_mark) simp_all
qed

section \<open>The queue with its store\<close>

datatype queue_call = CallEnqueue string string ms | CallCancel string ms | CallGetStatus string ms
  | CallTick ms | CallFlush ms

text \<open>One call of the service or of the main loop's timer, on the queue, the rooms service behind the
  allocator and the Redis server.\<close>

fun run_call :: "'srv RoomAllocator option \<Rightarrow> string \<Rightarrow> queue_call \<Rightarrow>
    MatchQueue \<times> 'srv \<times> redis_server \<Rightarrow> MatchQueue \<times> 'srv \<times> redis_server" where
  "run_call a key (CallEnqueue p r n) (q, srv, sv) =
     (case Enqueue a p r n (q, srv) of (_, q', srv') \<Rightarrow> (q', srv', sv))"
| "run_call a key (CallCancel p n) (q, srv, sv) = (case Cancel p n q of (_, q') \<Rightarrow> (q', srv, sv))"
| "run_call a key (CallGetStatus p n) (q, srv, sv) =
     (case GetStatus a p n (q, srv) of (_, q', srv') \<Rightarrow> (q', srv', sv))"
| "run_call a key (CallTick n) (q, srv, sv) =
     (case MatchQueue_Tick (Some (redis_queue_store redis_connection key)) n (q, sv) of
        (q', sv') \<Rightarrow> (q', srv, sv'))"
| "run_call a key (CallFlush n) (q, srv, sv) =
     (case FlushSnapshotNow (Some (redis_queue_store redis_connection key)) n (q, sv) of
        (_, q', sv') \<Rightarrow> (q', srv, sv'))"

definition run_calls :: "'srv RoomAllocator option \<Rightarrow> string \<Rightarrow> queue_call list \<Rightarrow>
    MatchQueue \<times> 'srv \<times> redis_server \<Rightarrow> MatchQueue \<times> 'srv \<times> redis_server" where
  "run_calls a key calls s = fold (run_call a key) calls s"

text \<open>What the store is known to hold: everything, unless a change is still marked or a write failed
  after the count \<open>c\<close>.\<close>

definition saved_or_marked :: "nat \<Rightarrow> MatchQueue \<times> redis_server \<Rightarrow> bool" where
  "saved_or_marked c s \<longleftrightarrow> mq_snapshot_dirty (fst s) \<or> mq_snapshot_failure_count (fst s) > c
     \<or> server_rows (snd s) = snapshot_rows (MakeSnapshotLocked (fst s))"

definition store_inv :: "nat \<Rightarrow> MatchQueue \<times> 'srv \<times> redis_server \<Rightarrow> bool" where
  "store_inv c s = (case s of (q, srv, sv) \<Rightarrow> queue_inv (q, []) \<and> mq_has_store q \<and> never_refuses sv
     \<and> c \<le> mq_snapshot_failure_count q \<and> saved_or_marked c (q, sv))"

lemma store_inv_marked:
  assumes "store_inv c (q, srv, sv)" "marked q q'" "queue_inv (q', [])"
  shows "store_inv c (q', srv', sv)"
  using assms content_snapshot [of q' q]
  by (auto simp: store_inv_def saved_or_marked_def marked_def persist_part_def same_content_def)

lemma queue_inv_bookkeeping: "core q' = core q \<Longrightarrow> queue_inv (q, fl) \<Longrightarrow> queue_inv (q', fl)"
  using queue_inv_run_to [OF run_to_bookkeeping] by blast

text \<open>The outcome of a write of a dirty queue.\<close>

lemma flush_outcome:
  assumes "mq_snapshot_dirty q"
  obtains ok sv' where
    "qs_Save (redis_queue_store redis_connection key) (MakeSnapshotLocked q) sv = (ok, sv')"
    "FlushSnapshotNow (Some (redis_queue_store redis_connection key)) n (q, sv) =
       (True, q\<lparr>mq_snapshot_dirty := False, mq_snapshot_dirty_since_ms := 0, mq_last_snapshot_write_ms := n,
          mq_snapshot_write_count := mq_snapshot_write_count q + (if ok then 1 else 0),
          mq_snapshot_failure_count := mq_snapshot_failure_count q + (if ok then 0 else 1)\<rparr>, sv')"
proof -
  obtain ok sv' where s: "qs_Save (redis_queue_store redis_connection key) (MakeSnapshotLocked q) sv = (ok, sv')"
    by fastforce
  show thesis by (rule that [OF s]) (use assms s in \<open>simp add: FlushSnapshotNow_def Let_def\<close>)
qed

lemma store_inv_Flush:
  assumes "store_inv c (q, srv, sv)"
    and "FlushSnapshotNow (Some (redis_queue_store redis_connection key)) n (q, sv) = (b, q', sv')"
  shows "store_inv c (q', srv, sv')"
proof (cases "mq_snapshot_dirty q")
  case False
  then show ?thesis using assms by (simp add: FlushSnapshotNow_def)
next
  case True
  have g: "never_refuses sv" "queue_inv (q, [])" using assms(1) by (simp_all add: store_inv_def)
  obtain ok sv1 where s: "qs_Save (redis_queue_store redis_connection key) (MakeSnapshotLocked q) sv = (ok, sv1)"
    and f: "FlushSnapshotNow (Some (redis_queue_store redis_connection key)) n (q, sv) =
       (True, q\<lparr>mq_snapshot_dirty := False, mq_snapshot_dirty_since_ms := 0, mq_last_snapshot_write_ms := n,
          mq_snapshot_write_count := mq_snapshot_write_count q + (if ok then 1 else 0),
          mq_snapshot_failure_count := mq_snapshot_failure_count q + (if ok then 0 else 1)\<rparr>, sv1)"
    by (rule flush_outcome [OF True])
  have q': "sv' = sv1" "content q' = content q" "persist_part q' = (mq_has_store q, mq_snapshot_failure_count q + (if ok then 0 else 1))"
      "core q' = core q"
    using assms(2) f by (auto simp: content_def persist_part_def core_def)
  have "never_refuses sv1" using redis.save_good [OF g(1)] s by (metis snd_conv)
  moreover have "ok \<Longrightarrow> server_rows sv1 = snapshot_rows (MakeSnapshotLocked q')"
    using redis.save_ok [OF g(1)] s content_snapshot [OF q'(2)] by metis
  ultimately show ?thesis
    using assms(1) q' queue_inv_bookkeeping [OF q'(4) g(2)]
    by (cases ok) (auto simp: store_inv_def saved_or_marked_def persist_part_def)
qed

lemma store_inv_Tick:
  assumes "store_inv c (q, srv, sv)"
    and "MatchQueue_Tick (Some (redis_queue_store redis_connection key)) n (q, sv) = (q', sv')"
  shows "store_inv c (q', srv, sv')"
proof -
  let ?q = "q\<lparr>mq_snapshot_tick_count := Suc (mq_snapshot_tick_count q)\<rparr>"
  have "core ?q = core q" by (simp add: core_def)
  then have i: "store_inv c (?q, srv, sv)"
    using assms(1) queue_inv_bookkeeping [of ?q q] content_snapshot [of ?q q]
    by (auto simp: store_inv_def saved_or_marked_def content_def)
  obtain b q2 sv2 where f: "FlushSnapshotNow (Some (redis_queue_store redis_connection key)) n (?q, sv) = (b, q2, sv2)"
    by (metis surj_pair)
  have "(q', sv') = (?q, sv) \<or> (q', sv') = (q2, sv2)"
    using assms(2) f by (auto simp: MatchQueue_Tick_def Let_def split: if_splits)
  then show ?thesis using i store_inv_Flush [OF i f] by auto
qed

lemma store_inv_call:
  assumes "store_inv c s"
  shows "store_inv c (run_call a key call s)"
proof -
  obtain q srv sv where s: "s = (q, srv, sv)" by (metis surj_pair)
  note inv = assms [unfolded s]
  have qi: "queue_inv (q, [])" using inv by (simp add: store_inv_def)
  show ?thesis
  proof (cases call)
    case (CallEnqueue p r n)
    obtain out q' srv' where e: "Enqueue a p r n (q, srv) = (out, q', srv')" by (metis surj_pair)
    show ?thesis
      using store_inv_marked [OF inv marked_Enqueue [OF qi e] queue_inv_run_to [OF run_to_Enqueue [OF e] qi]]
      by (simp add: s CallEnqueue e)
  next
    case (CallCancel p n)
    obtain b q' where e: "Cancel p n q = (b, q')" by fastforce
    show ?thesis
      using store_inv_marked [OF inv marked_Cancel [OF e] queue_inv_run_to [OF run_to_Cancel [OF e] qi]]
      by (simp add: s CallCancel e)
  next
    case (CallGetStatus p n)
    obtain snap q' srv' where e: "GetStatus a p n (q, srv) = (snap, q', srv')" by (metis surj_pair)
    show ?thesis
      using store_inv_marked [OF inv marked_GetStatus [OF qi e] queue_inv_run_to [OF run_to_GetStatus [OF e] qi]]
      by (simp add: s CallGetStatus e)
  next
    case (CallTick n)
    then show ?thesis using store_inv_Tick [OF inv] by (auto simp: s split: prod.split)
  next
    case (CallFlush n)
    then show ?thesis using store_inv_Flush [OF inv] by (auto simp: s split: prod.split)
  qed
qed

lemma store_inv_calls: "store_inv c s \<Longrightarrow> store_inv c (run_calls a key calls s)"
  unfolding run_calls_def by (induction calls arbitrary: s) (simp_all add: store_inv_call)

section \<open>Properties\<close>


definition empty_server :: redis_server where
  "empty_server = \<lparr>sv_faults = [], sv_list = []\<rparr>"

definition dirty_queue :: MatchQueue where
  "dirty_queue = fst (run_call None ''k'' (CallEnqueue ''ann'' ''req-a'' 1000)
     (MatchQueue_new [] 0 0 0 True, (), empty_server))"

lemma dirty_queue_facts:
  "mq_snapshot_dirty dirty_queue" "mq_snapshot_failure_count dirty_queue = 0" "mq_last_snapshot_write_ms dirty_queue = 0"
  "snd (run_call None ''k'' (CallEnqueue ''ann'' ''req-a'' 1000) (MatchQueue_new [] 0 0 0 True, (), empty_server))
     = ((), empty_server)"
  by code_simp+

lemma dirty_queue_run:
  "run_calls None ''k'' [CallEnqueue ''ann'' ''req-a'' 1000, CallFlush 1050]
      (MatchQueue_new [] 0 0 0 True, (), empty_server) =
    (dirty_queue\<lparr>mq_snapshot_dirty := False, mq_snapshot_dirty_since_ms := 0, mq_last_snapshot_write_ms := 1050,
       mq_snapshot_write_count := Suc (mq_snapshot_write_count dirty_queue)\<rparr>, (),
     empty_server\<lparr>sv_list := encode_lines (sn_queued (MakeSnapshotLocked dirty_queue))
        @ encode_lines (sn_matched (MakeSnapshotLocked dirty_queue))\<rparr>)"
proof -
  have c: "run_call None ''k'' (CallEnqueue ''ann'' ''req-a'' 1000) (MatchQueue_new [] 0 0 0 True, (), empty_server)
      = (dirty_queue, (), empty_server)"
    using dirty_queue_facts(4) dirty_queue_def by (metis prod.collapse)
  have f: "run_call None ''k'' (CallFlush 1050) (dirty_queue, (), empty_server) =
    (dirty_queue\<lparr>mq_snapshot_dirty := False, mq_snapshot_dirty_since_ms := 0, mq_last_snapshot_write_ms := 1050,
       mq_snapshot_write_count := Suc (mq_snapshot_write_count dirty_queue)\<rparr>, (),
     empty_server\<lparr>sv_list := encode_lines (sn_queued (MakeSnapshotLocked dirty_queue))
        @ encode_lines (sn_matched (MakeSnapshotLocked dirty_queue))\<rparr>)"
    by (simp add: FlushSnapshotNow_def dirty_queue_facts(1) redis_queue_store_def Save_server Let_def
        empty_server_def next_fault_def)
  show ?thesis by (simp only: run_calls_def fold_simps c f)
qed


text \<open>A marked queue is written. Once the merge interval has passed since the last write, the next
  tick against a server that answers writes the snapshot: the mark and the lag are gone, the write is
  counted and Redis holds the queue of this moment.\<close>

lemma tick_writes_a_marked_queue:
  assumes "mq_snapshot_dirty q" "next_fault sv = (Answers, sv1)"
    and "mq_last_snapshot_write_ms q \<le> 0 \<or> mq_snapshot_merge_interval_ms q \<le> n - mq_last_snapshot_write_ms q"
    and "MatchQueue_Tick (Some (redis_queue_store redis_connection key)) n (q, sv) = (q', sv')"
  shows "\<not> mq_snapshot_dirty q' \<and> SnapshotLagMs n q' = 0 \<and> mq_last_snapshot_write_ms q' = n
    \<and> mq_snapshot_write_count q' = Suc (mq_snapshot_write_count q)
    \<and> mq_queue q' = mq_queue q \<and> mq_entries q' = mq_entries q
    \<and> server_rows sv' = snapshot_rows (MakeSnapshotLocked q')"
proof -
  let ?st = "redis_queue_store redis_connection key"
  let ?q = "q\<lparr>mq_snapshot_tick_count := Suc (mq_snapshot_tick_count q)\<rparr>"
  have d: "mq_snapshot_dirty ?q" using assms(1) by simp
  have "(q', sv') = snd (FlushSnapshotNow (Some ?st) n (?q, sv))"
    using assms by (auto simp: MatchQueue_Tick_def Let_def)
  moreover have "qs_Save ?st (MakeSnapshotLocked ?q) sv =
      (True, sv1\<lparr>sv_list := encode_lines (sn_queued (MakeSnapshotLocked q)) @ encode_lines (sn_matched (MakeSnapshotLocked q))\<rparr>)"
    using assms(2) content_snapshot [of ?q q] by (simp add: redis_queue_store_def Save_server content_def)
  ultimately show ?thesis using d content_snapshot [of q' q]
    by (simp add: FlushSnapshotNow_def Let_def SnapshotLagMs_def server_rows_def snapshot_rows_def content_def)
qed

text \<open>A refused write looks like a saved one. A reachable server that refuses the transaction
  (out of memory, a read-only replica) answers every command with an error; the store looks only at
  whether replies came back, so the flush counts a successful write, clears the mark and keeps the
  old list: nothing shows that the queue would be lost by a restart, and no later tick writes it again
  before the next change.\<close>

lemma refused_save_is_reported_as_success:
  assumes "mq_snapshot_dirty q" "sv_faults sv = RefusesWrites # fs"
    and "FlushSnapshotNow (Some (redis_queue_store redis_connection key)) n (q, sv) = (b, q', sv')"
  shows "mq_snapshot_write_count q' = Suc (mq_snapshot_write_count q)
    \<and> mq_snapshot_failure_count q' = mq_snapshot_failure_count q
    \<and> \<not> mq_snapshot_dirty q' \<and> server_rows sv' = server_rows sv
    \<and> snd (MatchQueue_Tick (Some (redis_queue_store redis_connection key)) n' (q', sv')) = sv'"
proof -
  let ?st = "redis_queue_store redis_connection key"
  have "qs_Save ?st (MakeSnapshotLocked q) sv = (True, sv\<lparr>sv_faults := fs\<rparr>)"
    using assms(2) by (simp add: redis_queue_store_def Save_server next_fault_def)
  then have f: "q' = q\<lparr>mq_snapshot_dirty := False, mq_snapshot_dirty_since_ms := 0, mq_last_snapshot_write_ms := n,
      mq_snapshot_write_count := Suc (mq_snapshot_write_count q)\<rparr>" "sv' = sv\<lparr>sv_faults := fs\<rparr>"
    using assms(1,3) by (auto simp: FlushSnapshotNow_def Let_def)
  then show ?thesis by (simp add: server_rows_def MatchQueue_Tick_def Let_def)
qed

end
