(* ===== verification/Match_Drain.thy ===== *)
theory Match_Drain
  imports Match_Persist
begin

text \<open>
  How the match process ends, \<^verbatim>\<open>src/match/match_main.cpp\<close> after its signal: no new players, a period of
  grace with the timer going on, the allocation worker stopped, the last write of the queue, and only then
  the server. The calls of the request threads run in between at every step.
\<close>

section \<open>The sequence\<close>

text \<open>One round of the period of grace: what the request threads did while the main thread slept, and
  the clock of the tick that follows.\<close>

type_synonym grace_round = "queue_call list \<times> ms"

definition kTickIntervalMs :: int where "kTickIntervalMs = 20"

fun grace_loop :: "'srv RoomAllocator option \<Rightarrow> string \<Rightarrow> int \<Rightarrow> int \<Rightarrow> grace_round list \<Rightarrow>
    MatchQueue \<times> 'srv \<times> redis_server \<Rightarrow> MatchQueue \<times> 'srv \<times> redis_server" where
  "grace_loop a key grace_ms elapsed [] s = s"
| "grace_loop a key grace_ms elapsed ((calls, now_ms) # rounds) s =
     (if elapsed < grace_ms
      then grace_loop a key grace_ms (elapsed + kTickIntervalMs) rounds (run_call a key (CallTick now_ms) (run_calls a key calls s))
      else s)"

text \<open>\<open>before\<close> are the calls of the request threads until the worker is stopped, \<open>late\<close> those until the last write.\<close>

definition match_drain :: "'srv RoomAllocator option \<Rightarrow> string \<Rightarrow> int \<Rightarrow> grace_round list \<Rightarrow> queue_call list \<Rightarrow> queue_call list \<Rightarrow> ms \<Rightarrow> ms \<Rightarrow>
    MatchQueue \<times> 'srv \<times> redis_server \<Rightarrow> bool \<times> MatchQueue \<times> 'srv \<times> redis_server" where
  "match_drain a key shutdown_grace_ms rounds before late commit_ms flush_ms s =
     (let grace_ms = (if shutdown_grace_ms > 0 then shutdown_grace_ms else 0) in
      case run_calls a key before (grace_loop a key grace_ms 0 rounds (BeginShutdown (fst s), snd s)) of
        (q, srv, sv) \<Rightarrow>
          case StopAllocationWorker a commit_ms (q, srv) of (q, srv) \<Rightarrow>
            case run_calls a key late (q, srv, sv) of (q, srv, sv) \<Rightarrow>
              case FlushSnapshotNow (Some (redis_queue_store redis_connection key)) flush_ms (q, sv) of
                (flushed, q, sv) \<Rightarrow> (flushed, q, srv, sv))"

section \<open>The last write holds the queue\<close>

lemma store_inv_shutdown: "store_inv c (q, srv, sv) \<Longrightarrow> store_inv c (BeginShutdown q, srv, sv)"
  using content_snapshot [of "BeginShutdown q" q] queue_inv_bookkeeping [of "BeginShutdown q" q "[]"]
  by (auto simp: store_inv_def saved_or_marked_def BeginShutdown_def content_def core_def)

lemma store_inv_grace: "store_inv c s \<Longrightarrow> store_inv c (grace_loop a key g e rounds s)"
  by (induction a key g e rounds s rule: grace_loop.induct) (simp_all add: store_inv_call store_inv_calls)

lemma store_inv_Stop:
  assumes "store_inv c (q, srv, sv)" "StopAllocationWorker a n (q, srv) = (q', srv')"
  shows "store_inv c (q', srv', sv)"
proof -
  have "mq_allocation_queue q = []" using assms(1) by (simp add: store_inv_def queue_inv_def)
  then have "q' = q \<or> q' = q\<lparr>mq_worker_running := False\<rparr>" "srv' = srv"
    using assms(2) by (auto simp: StopAllocationWorker_def split: if_splits)
  moreover have "store_inv c (q\<lparr>mq_worker_running := False\<rparr>, srv, sv)"
    using assms(1) content_snapshot [of "q\<lparr>mq_worker_running := False\<rparr>" q]
      queue_inv_bookkeeping [of "q\<lparr>mq_worker_running := False\<rparr>" q "[]"]
    by (auto simp: store_inv_def saved_or_marked_def content_def core_def)
  ultimately show ?thesis using assms(1) by auto
qed

lemma Flush_clears: "FlushSnapshotNow (Some st) n (q, r) = (b, q', r') \<Longrightarrow> \<not> mq_snapshot_dirty q'"
  by (auto simp: FlushSnapshotNow_def Let_def split: if_splits prod.splits)

text \<open>What is refused while the process drains.\<close>

lemma Enqueue_draining: "mq_shutting_down q \<Longrightarrow> Enqueue a p r n (q, srv) = (EnqueueShuttingDown, q, srv)
    \<or> Enqueue a p r n (q, srv) = (EnqueueInvalidArgument, q, srv)"
  by (auto simp: Enqueue_def)



text \<open>The request threads run until the server stops, after the last write: a cancellation that succeeds
  then is marked for a write that never comes.\<close>

lemma cancel_after_the_last_write_is_lost:
  "case match_drain None ''k'' 20 [([], 1020)] [] [] 1040 1040 (dirty_queue, (), empty_server) of
     (flushed, q, srv, sv) \<Rightarrow> mq_queue q = [''ann''] \<and>
       (case Cancel ''ann'' 1050 q of (removed, q2) \<Rightarrow> removed \<and> mq_queue q2 = [] \<and> mq_snapshot_dirty q2)"
  by code_simp

end
