(* ===== verification/Room_Service.thy ===== *)
theory Room_Service
  imports Room_Manager
begin

text \<open>
  The RPC surface of the room service, \<^verbatim>\<open>src/room/room_service.cpp\<close>: the messages of
  \<^verbatim>\<open>api/proto/room.proto\<close> as records and one definition per handler. A handler gets the request's
  fields and the service's manager (\<^term>\<open>None\<close> for a null pointer) and returns the response and the
  manager. The human-readable message of an error is left out; code, reason and request id are kept.
  Log lines and the registration of the gauges are left out.
\<close>

section \<open>Messages\<close>

datatype ProtoRoomState = ROOM_STATE_UNSPECIFIED | ROOM_STATE_CREATED | ROOM_STATE_WAITING
  | ROOM_STATE_PLAYING | ROOM_STATE_FINISHING | ROOM_STATE_FINISHED | ROOM_STATE_ABORTED

datatype ProtoFinishReason = FINISH_REASON_UNSPECIFIED | FINISH_REASON_HP_ZERO
  | FINISH_REASON_TIMEOUT | FINISH_REASON_ABORTED | FINISH_REASON_DISCONNECT

datatype RoomErrorCode = ROOM_ERROR_CODE_UNSPECIFIED | ROOM_INVALID_ARGUMENT | ROOM_NOT_FOUND
  | ROOM_ALREADY_FINISHED | ROOM_RESULT_PENDING | ROOM_STORE_UNAVAILABLE | ROOM_INTERNAL
  | ROOM_NOT_A_MEMBER | ROOM_NOT_PLAYING | ROOM_SHUTTING_DOWN

datatype ProtoInputKind = KIND_UNSPECIFIED | KIND_ATTACK

datatype ProtoWindowStatus = SNAPSHOT_WINDOW_STATUS_UNSPECIFIED | SNAPSHOTS_READY
  | SNAPSHOTS_INCOMPLETE | SNAPSHOTS_AHEAD

record RoomError =
  re_code :: RoomErrorCode
  re_reason :: string
  re_request_id :: string

record ProtoPlayerState =
  pp_player_id :: string
  pp_hp :: int
  pp_connected :: bool
  pp_online :: bool

record ProtoRoomSnapshot =
  pb_room_id :: string
  pb_match_id :: string
  pb_state :: ProtoRoomState
  pb_frame :: int
  pb_players :: "ProtoPlayerState list"
  pb_finish_reason :: ProtoFinishReason
  pb_winner_id :: string
  pb_started_at_ms :: int
  pb_finished_at_ms :: int

record ProtoMatchResult =
  pm_match_id :: string
  pm_room_id :: string
  pm_winner_id :: string
  pm_player_count :: int
  pm_started_at_ms :: int
  pm_finished_at_ms :: int

text \<open>Every response has an optional error and an optional room; the calls add their own fields.\<close>

record RoomResponse =
  resp_error :: "RoomError option"
  resp_room :: "ProtoRoomSnapshot option"

record CreateRoomResponse = RoomResponse +
  cr_room_id :: string

record SubmitInputResponse = RoomResponse +
  si_accepted :: bool

record GetMatchResultResponse = RoomResponse +
  gr_result :: "ProtoMatchResult option"

record GetRoomSnapshotsSinceResponse =
  gs_error :: "RoomError option"
  gs_status :: ProtoWindowStatus
  gs_snapshots :: "ProtoRoomSnapshot list"
  gs_oldest_frame :: int
  gs_latest_frame :: int

section \<open>Conversions\<close>

fun ToProtoState :: "RoomPhase \<Rightarrow> ProtoRoomState" where
  "ToProtoState kCreated = ROOM_STATE_CREATED"
| "ToProtoState kWaiting = ROOM_STATE_WAITING"
| "ToProtoState kPlaying = ROOM_STATE_PLAYING"
| "ToProtoState kFinishing = ROOM_STATE_FINISHING"
| "ToProtoState kFinished = ROOM_STATE_FINISHED"
| "ToProtoState kAborted = ROOM_STATE_ABORTED"

fun ToProtoFinishReason :: "FinishReason \<Rightarrow> ProtoFinishReason" where
  "ToProtoFinishReason kHpZero = FINISH_REASON_HP_ZERO"
| "ToProtoFinishReason kTimeout = FINISH_REASON_TIMEOUT"
| "ToProtoFinishReason kAbortedReason = FINISH_REASON_ABORTED"
| "ToProtoFinishReason kDisconnect = FINISH_REASON_DISCONNECT"
| "ToProtoFinishReason kNone = FINISH_REASON_UNSPECIFIED"

definition FillPlayer :: "PlayerSnapshot \<Rightarrow> ProtoPlayerState" where
  "FillPlayer p = \<lparr>pp_player_id = ps_player_id p, pp_hp = ps_hp p, pp_connected = ps_connected p,
     pp_online = ps_online p\<rparr>"

definition FillSnapshot :: "RoomSnapshot \<Rightarrow> ProtoRoomSnapshot" where
  "FillSnapshot s =
     \<lparr>pb_room_id = rs_room_id s, pb_match_id = rs_match_id s, pb_state = ToProtoState (rs_phase s),
      pb_frame = rs_frame s, pb_players = map FillPlayer (rs_players s),
      pb_finish_reason = ToProtoFinishReason (rs_finish_reason s), pb_winner_id = rs_winner_id s,
      pb_started_at_ms = rs_started_at_ms s, pb_finished_at_ms = rs_finished_at_ms s\<rparr>"

definition FillResult :: "MatchResultRecord \<Rightarrow> ProtoMatchResult" where
  "FillResult r =
     \<lparr>pm_match_id = mr_match_id r, pm_room_id = mr_room_id r, pm_winner_id = mr_winner_id r,
      pm_player_count = mr_player_count r, pm_started_at_ms = mr_started_at_ms r,
      pm_finished_at_ms = mr_finished_at_ms r\<rparr>"

fun ToInputKind :: "ProtoInputKind \<Rightarrow> InputKind option" where
  "ToInputKind KIND_ATTACK = Some kAttack"
| "ToInputKind KIND_UNSPECIFIED = None"

definition SetError :: "RoomErrorCode \<Rightarrow> string \<Rightarrow> string \<Rightarrow> RoomError option" where
  "SetError code reason request_id = Some \<lparr>re_code = code, re_reason = reason, re_request_id = request_id\<rparr>"

section \<open>Handlers\<close>

definition RoomService_CreateRoom ::
  "string \<Rightarrow> string \<Rightarrow> string list \<Rightarrow> ms \<Rightarrow> string \<Rightarrow> RoomManager option \<Rightarrow>
   CreateRoomResponse \<times> RoomManager option" where
  "RoomService_CreateRoom request_id match_id player_ids now_ms new_id manager =
     (case manager of
        None \<Rightarrow> (\<lparr>resp_error = SetError ROOM_INTERNAL ''room_internal'' request_id,
                  resp_room = None, cr_room_id = []\<rparr>, None)
      | Some m \<Rightarrow>
          (case RoomManager_Create match_id player_ids now_ms new_id m of ((outcome, out), m') \<Rightarrow>
            (case outcome of
               CreateOk \<Rightarrow> \<lparr>resp_error = None, resp_room = map_option (FillSnapshot \<circ> snd) out,
                            cr_room_id = (case out of Some (rid, _) \<Rightarrow> rid | None \<Rightarrow> [])\<rparr>
             | CreateInvalidArgument \<Rightarrow>
                 \<lparr>resp_error = SetError ROOM_INVALID_ARGUMENT ''invalid_argument'' request_id,
                  resp_room = None, cr_room_id = []\<rparr>
             | CreateShuttingDown \<Rightarrow>
                 \<lparr>resp_error = SetError ROOM_SHUTTING_DOWN ''shutting_down'' request_id,
                  resp_room = None, cr_room_id = []\<rparr>
             | CreateInternal \<Rightarrow>
                 \<lparr>resp_error = SetError ROOM_INTERNAL ''room_internal'' request_id,
                  resp_room = None, cr_room_id = []\<rparr>,
             Some m')))"

definition RoomService_JoinRoom ::
  "string \<Rightarrow> string \<Rightarrow> string \<Rightarrow> ms \<Rightarrow> RoomManager option \<Rightarrow> RoomResponse \<times> RoomManager option" where
  "RoomService_JoinRoom request_id room_id player_id now_ms manager =
     (case manager of
        None \<Rightarrow> (\<lparr>resp_error = SetError ROOM_INTERNAL ''room_internal'' request_id, resp_room = None\<rparr>, None)
      | Some m \<Rightarrow>
          (case RoomManager_Join room_id player_id now_ms m of
             (None, m') \<Rightarrow>
               (\<lparr>resp_error = SetError ROOM_NOT_FOUND ''room_not_found'' request_id, resp_room = None\<rparr>, Some m')
           | (Some (outcome, snapshot), m') \<Rightarrow>
               (case outcome of
                  JoinOk \<Rightarrow> \<lparr>resp_error = None, resp_room = Some (FillSnapshot snapshot)\<rparr>
                | JoinNotAMember \<Rightarrow>
                    \<lparr>resp_error = SetError ROOM_NOT_A_MEMBER ''not_a_member'' request_id, resp_room = None\<rparr>
                | JoinAlreadyFinished \<Rightarrow>
                    \<lparr>resp_error = SetError ROOM_ALREADY_FINISHED ''room_already_finished'' request_id, resp_room = None\<rparr>
                | JoinInvalidArgument \<Rightarrow>
                    \<lparr>resp_error = SetError ROOM_INVALID_ARGUMENT ''invalid_argument'' request_id, resp_room = None\<rparr>,
                Some m')))"

definition RoomService_SubmitInput ::
  "string \<Rightarrow> string \<Rightarrow> string \<Rightarrow> ProtoInputKind \<Rightarrow> RoomManager option \<Rightarrow>
   SubmitInputResponse \<times> RoomManager option" where
  "RoomService_SubmitInput request_id room_id player_id proto_kind manager =
     (case manager of
        None \<Rightarrow> (\<lparr>resp_error = SetError ROOM_INTERNAL ''room_internal'' request_id, resp_room = None,
                  si_accepted = False\<rparr>, None)
      | Some m \<Rightarrow>
          (case ToInputKind proto_kind of
             None \<Rightarrow> (\<lparr>resp_error = SetError ROOM_INVALID_ARGUMENT ''invalid_input'' request_id,
                       resp_room = None, si_accepted = False\<rparr>, Some m)
           | Some kind \<Rightarrow>
               (case RoomManager_SubmitInput room_id player_id kind m of
                  (None, m') \<Rightarrow> (\<lparr>resp_error = SetError ROOM_NOT_FOUND ''room_not_found'' request_id,
                       resp_room = None, si_accepted = False\<rparr>, Some m')
                | (Some (outcome, snapshot), m') \<Rightarrow>
                    (let room = Some (FillSnapshot snapshot) in
                     case outcome of
                       SubmitAccepted \<Rightarrow> \<lparr>resp_error = None, resp_room = room, si_accepted = True\<rparr>
                     | SubmitNotPlaying \<Rightarrow>
                         \<lparr>resp_error = SetError ROOM_NOT_PLAYING ''room_not_playing'' request_id,
                          resp_room = room, si_accepted = False\<rparr>
                     | SubmitNotInRoom \<Rightarrow>
                         \<lparr>resp_error = SetError ROOM_NOT_A_MEMBER ''not_a_member'' request_id,
                          resp_room = room, si_accepted = False\<rparr>
                     | SubmitAlreadyFinished \<Rightarrow>
                         \<lparr>resp_error = SetError ROOM_ALREADY_FINISHED ''room_already_finished'' request_id,
                          resp_room = room, si_accepted = False\<rparr>
                     | SubmitInvalidArgument \<Rightarrow>
                         \<lparr>resp_error = SetError ROOM_INVALID_ARGUMENT ''invalid_argument'' request_id,
                          resp_room = room, si_accepted = False\<rparr>,
                     Some m'))))"

definition RoomService_GetRoomSnapshotsSince ::
  "string \<Rightarrow> string \<Rightarrow> frame_no \<Rightarrow> ms \<Rightarrow> RoomManager option \<Rightarrow>
   GetRoomSnapshotsSinceResponse \<times> RoomManager option" where
  "RoomService_GetRoomSnapshotsSince request_id room_id since_frame now_ms manager =
     (case manager of
        None \<Rightarrow> (\<lparr>gs_error = SetError ROOM_INTERNAL ''room_internal'' request_id,
                  gs_status = SNAPSHOT_WINDOW_STATUS_UNSPECIFIED, gs_snapshots = [],
                  gs_oldest_frame = 0, gs_latest_frame = 0\<rparr>, None)
      | Some m \<Rightarrow>
          (case RoomManager_GetSnapshotsSince room_id since_frame now_ms m of (window, m') \<Rightarrow>
            (if sg_outcome window = RangeNotFound
             then \<lparr>gs_error = SetError ROOM_NOT_FOUND ''room_not_found'' request_id,
                   gs_status = SNAPSHOT_WINDOW_STATUS_UNSPECIFIED, gs_snapshots = [],
                   gs_oldest_frame = sg_oldest_frame window, gs_latest_frame = sg_latest_frame window\<rparr>
             else \<lparr>gs_error = None,
                   gs_status = (case sg_outcome window of
                       RangeOk \<Rightarrow> SNAPSHOTS_READY | RangeIncomplete \<Rightarrow> SNAPSHOTS_INCOMPLETE
                     | RangeAhead \<Rightarrow> SNAPSHOTS_AHEAD
                     | RangeNotFound \<Rightarrow> SNAPSHOT_WINDOW_STATUS_UNSPECIFIED),
                   gs_snapshots = map FillSnapshot (sg_snapshots window),
                   gs_oldest_frame = sg_oldest_frame window, gs_latest_frame = sg_latest_frame window\<rparr>,
             Some m')))"

definition RoomService_SetPlayerPresence ::
  "string \<Rightarrow> string \<Rightarrow> string \<Rightarrow> bool \<Rightarrow> ms \<Rightarrow> RoomManager option \<Rightarrow>
   RoomResponse \<times> RoomManager option" where
  "RoomService_SetPlayerPresence request_id room_id player_id connected now_ms manager =
     (case manager of
        None \<Rightarrow> (\<lparr>resp_error = SetError ROOM_INTERNAL ''room_internal'' request_id, resp_room = None\<rparr>, None)
      | Some m \<Rightarrow>
          (case RoomManager_SetPresence room_id player_id connected now_ms m of
             (None, m') \<Rightarrow>
               (\<lparr>resp_error = SetError ROOM_NOT_FOUND ''room_not_found'' request_id, resp_room = None\<rparr>, Some m')
           | (Some (outcome, snapshot), m') \<Rightarrow>
               (case outcome of
                  PresenceOk \<Rightarrow> \<lparr>resp_error = None, resp_room = Some (FillSnapshot snapshot)\<rparr>
                | PresenceNotAMember \<Rightarrow>
                    \<lparr>resp_error = SetError ROOM_NOT_A_MEMBER ''not_a_member'' request_id, resp_room = None\<rparr>
                | PresenceAlreadyFinished \<Rightarrow>
                    \<lparr>resp_error = SetError ROOM_ALREADY_FINISHED ''room_already_finished'' request_id,
                     resp_room = Some (FillSnapshot snapshot)\<rparr>
                | PresenceInvalidArgument \<Rightarrow>
                    \<lparr>resp_error = SetError ROOM_INVALID_ARGUMENT ''invalid_input'' request_id, resp_room = None\<rparr>,
                Some m')))"

definition RoomService_GetRoomState ::
  "string \<Rightarrow> string \<Rightarrow> ms \<Rightarrow> RoomManager option \<Rightarrow> RoomResponse \<times> RoomManager option" where
  "RoomService_GetRoomState request_id room_id now_ms manager =
     (case manager of
        None \<Rightarrow> (\<lparr>resp_error = SetError ROOM_INTERNAL ''room_internal'' request_id, resp_room = None\<rparr>, None)
      | Some m \<Rightarrow>
          (case RoomManager_GetState room_id now_ms m of
             (None, m') \<Rightarrow>
               (\<lparr>resp_error = SetError ROOM_NOT_FOUND ''room_not_found'' request_id, resp_room = None\<rparr>, Some m')
           | (Some snapshot, m') \<Rightarrow> (\<lparr>resp_error = None, resp_room = Some (FillSnapshot snapshot)\<rparr>, Some m')))"

text \<open>A pending result comes with the room; \<^verbatim>\<open>FillSnapshot\<close> of a snapshot the manager did not set
  is the default one.\<close>

definition RoomService_GetMatchResult ::
  "'db MatchResultWriter option \<Rightarrow> string \<Rightarrow> string \<Rightarrow> ms \<Rightarrow> RoomManager option \<times> 'db \<Rightarrow>
   GetMatchResultResponse \<times> RoomManager option \<times> 'db" where
  "RoomService_GetMatchResult writer request_id match_id now_ms s =
     (case s of
        (None, db) \<Rightarrow> (\<lparr>resp_error = SetError ROOM_INTERNAL ''room_internal'' request_id, resp_room = None,
                  gr_result = None\<rparr>, None, db)
      | (Some m, db) \<Rightarrow>
          (case RoomManager_GetResult writer match_id now_ms (m, db) of ((outcome, record, snapshot), m', db') \<Rightarrow>
            (case outcome of
               ResultOk \<Rightarrow> \<lparr>resp_error = None, resp_room = None, gr_result = map_option FillResult record\<rparr>
             | ResultPending \<Rightarrow>
                 \<lparr>resp_error = SetError ROOM_RESULT_PENDING ''result_pending'' request_id,
                  resp_room = Some (FillSnapshot (case snapshot of Some sn \<Rightarrow> sn | None \<Rightarrow> default_room_snapshot)),
                  gr_result = None\<rparr>
             | ResultUnavailable \<Rightarrow>
                 \<lparr>resp_error = SetError ROOM_STORE_UNAVAILABLE ''result_store_unavailable'' request_id,
                  resp_room = None, gr_result = None\<rparr>
             | ResultNotFound \<Rightarrow>
                 \<lparr>resp_error = SetError ROOM_NOT_FOUND ''result_not_found'' request_id,
                  resp_room = None, gr_result = None\<rparr>,
             Some m', db')))"

end
