(* ===== verification/Room_Client.thy ===== *)
theory Room_Client
  imports Room_Service Room_Manager_Props
begin

text \<open>
  The callers of the room service: \<^verbatim>\<open>src/gateway/brpc_room_client.cpp\<close> (the gateway's view of a
  room, \<^verbatim>\<open>room_client.hpp\<close>) and \<^verbatim>\<open>src/match/brpc_room_allocator.cpp\<close>. A call goes through \<open>rpc\<close>: both
  clients configure the channel with no retries, so a call is executed at most once, and a failed
  controller means that the request or the reply was lost. The call counters of the gateway
  (\<^verbatim>\<open>RecordRpcCall\<close>) are part of the client's state.
\<close>

section \<open>The transport\<close>

datatype delivery = Delivered | LostRequest | LostReply

definition rpc :: "delivery \<Rightarrow> ('s \<Rightarrow> 'resp \<times> 's) \<Rightarrow> 's \<Rightarrow> 'resp option \<times> 's" where
  "rpc d handler s =
     (case d of Delivered \<Rightarrow> apfst Some (handler s) | LostRequest \<Rightarrow> (None, s)
      | LostReply \<Rightarrow> (None, snd (handler s)))"

section \<open>The gateway's view\<close>

datatype GwRoomState = GwCreated | GwWaiting | GwPlaying | GwFinishing | GwFinished | GwAborted

record RoomPlayerSnapshot =
  gp_player_id :: string
  gp_hp :: int
  gp_connected :: bool
  gp_online :: bool

record GwRoomSnapshot =
  gw_room_id :: string
  gw_match_id :: string
  gw_state :: GwRoomState
  gw_frame :: int
  gw_players :: "RoomPlayerSnapshot list"
  gw_finish_reason :: string
  gw_winner_id :: string
  gw_started_at_ms :: int
  gw_finished_at_ms :: int

record MatchResultView =
  mv_result :: "ProtoMatchResult option"
  mv_room :: "GwRoomSnapshot option"

datatype RoomCallStatus = CallOk | CallUnavailable | CallInvalidArgument | CallNotAMember
  | CallNotPlaying | CallNotFound | CallShuttingDown | CallAlreadyFinished | CallResultPending
  | CallStoreUnavailable | CallInternal

datatype GwWindowStatus = WindowReady | WindowIncomplete | WindowAhead

record GwSnapshotRange =
  gr_status :: GwWindowStatus
  gr_snapshots :: "GwRoomSnapshot list"
  gr_oldest_frame :: int
  gr_latest_frame :: int

fun ToState :: "ProtoRoomState \<Rightarrow> GwRoomState" where
  "ToState ROOM_STATE_WAITING = GwWaiting"
| "ToState ROOM_STATE_PLAYING = GwPlaying"
| "ToState ROOM_STATE_FINISHING = GwFinishing"
| "ToState ROOM_STATE_FINISHED = GwFinished"
| "ToState ROOM_STATE_ABORTED = GwAborted"
| "ToState ROOM_STATE_CREATED = GwCreated"
| "ToState ROOM_STATE_UNSPECIFIED = GwCreated"

fun ToFinishReasonString :: "ProtoFinishReason \<Rightarrow> string" where
  "ToFinishReasonString FINISH_REASON_HP_ZERO = ''hp_zero''"
| "ToFinishReasonString FINISH_REASON_TIMEOUT = ''timeout''"
| "ToFinishReasonString FINISH_REASON_ABORTED = ''aborted''"
| "ToFinishReasonString FINISH_REASON_DISCONNECT = ''disconnect''"
| "ToFinishReasonString FINISH_REASON_UNSPECIFIED = ''none''"

definition ToPlayer :: "ProtoPlayerState \<Rightarrow> RoomPlayerSnapshot" where
  "ToPlayer p = \<lparr>gp_player_id = pp_player_id p, gp_hp = pp_hp p, gp_connected = pp_connected p,
     gp_online = pp_online p\<rparr>"

definition ToSnapshot :: "ProtoRoomSnapshot \<Rightarrow> GwRoomSnapshot" where
  "ToSnapshot s =
     \<lparr>gw_room_id = pb_room_id s, gw_match_id = pb_match_id s, gw_state = ToState (pb_state s),
      gw_frame = pb_frame s, gw_players = map ToPlayer (pb_players s),
      gw_finish_reason = ToFinishReasonString (pb_finish_reason s), gw_winner_id = pb_winner_id s,
      gw_started_at_ms = pb_started_at_ms s, gw_finished_at_ms = pb_finished_at_ms s\<rparr>"

fun ToWindowStatus :: "ProtoWindowStatus \<Rightarrow> GwWindowStatus" where
  "ToWindowStatus SNAPSHOTS_READY = WindowReady"
| "ToWindowStatus SNAPSHOTS_AHEAD = WindowAhead"
| "ToWindowStatus SNAPSHOTS_INCOMPLETE = WindowIncomplete"
| "ToWindowStatus SNAPSHOT_WINDOW_STATUS_UNSPECIFIED = WindowIncomplete"

section \<open>Call status and call counters\<close>

record RpcCounters =
  rpc_ok :: nat
  rpc_failed :: nat

definition RecordRpcCall :: "bool \<Rightarrow> RpcCounters \<Rightarrow> RpcCounters" where
  "RecordRpcCall ok c =
     (if ok then c\<lparr>rpc_ok := Suc (rpc_ok c)\<rparr> else c\<lparr>rpc_failed := Suc (rpc_failed c)\<rparr>)"

fun ToCallStatus :: "RoomErrorCode \<Rightarrow> RpcCounters \<Rightarrow> RoomCallStatus \<times> RpcCounters" where
  "ToCallStatus ROOM_ERROR_CODE_UNSPECIFIED c = (CallOk, RecordRpcCall True c)"
| "ToCallStatus ROOM_INVALID_ARGUMENT c = (CallInvalidArgument, RecordRpcCall False c)"
| "ToCallStatus ROOM_NOT_A_MEMBER c = (CallNotAMember, RecordRpcCall False c)"
| "ToCallStatus ROOM_NOT_PLAYING c = (CallNotPlaying, RecordRpcCall False c)"
| "ToCallStatus ROOM_NOT_FOUND c = (CallNotFound, RecordRpcCall False c)"
| "ToCallStatus ROOM_ALREADY_FINISHED c = (CallAlreadyFinished, RecordRpcCall False c)"
| "ToCallStatus ROOM_RESULT_PENDING c = (CallResultPending, RecordRpcCall False c)"
| "ToCallStatus ROOM_STORE_UNAVAILABLE c = (CallStoreUnavailable, RecordRpcCall False c)"
| "ToCallStatus ROOM_SHUTTING_DOWN c = (CallShuttingDown, c)"
| "ToCallStatus ROOM_INTERNAL c = (CallInternal, RecordRpcCall False c)"

text \<open>\<^verbatim>\<open>response.error().code()\<close> and \<^verbatim>\<open>response.room()\<close>: the default when the field is not set.\<close>

definition error_code :: "RoomError option \<Rightarrow> RoomErrorCode" where
  "error_code e = (case e of None \<Rightarrow> ROOM_ERROR_CODE_UNSPECIFIED | Some x \<Rightarrow> re_code x)"

definition default_proto_snapshot :: ProtoRoomSnapshot where
  "default_proto_snapshot =
     \<lparr>pb_room_id = [], pb_match_id = [], pb_state = ROOM_STATE_UNSPECIFIED, pb_frame = 0, pb_players = [],
      pb_finish_reason = FINISH_REASON_UNSPECIFIED, pb_winner_id = [], pb_started_at_ms = 0,
      pb_finished_at_ms = 0\<rparr>"

definition room_or_default :: "ProtoRoomSnapshot option \<Rightarrow> ProtoRoomSnapshot" where
  "room_or_default r = (case r of None \<Rightarrow> default_proto_snapshot | Some x \<Rightarrow> x)"

section \<open>The client's calls\<close>

text \<open>The common end of \<^verbatim>\<open>Join\<close>, \<^verbatim>\<open>SubmitAttack\<close>, \<^verbatim>\<open>SetPresence\<close> and \<^verbatim>\<open>GetState\<close>: a failed controller
  is \<^verbatim>\<open>kUnavailable\<close> and leaves the output alone, otherwise the room is converted and the code mapped.\<close>

definition finish_call ::
  "('a RoomResponse_scheme) option \<Rightarrow> RpcCounters \<Rightarrow> (RoomCallStatus \<times> GwRoomSnapshot option) \<times> RpcCounters" where
  "finish_call reply c =
     (case reply of
        None \<Rightarrow> ((CallUnavailable, None), RecordRpcCall False c)
      | Some response \<Rightarrow>
          (case ToCallStatus (error_code (resp_error response)) c of (status, c') \<Rightarrow>
            ((status, Some (ToSnapshot (room_or_default (resp_room response)))), c')))"

definition RoomClient_Join ::
  "delivery \<Rightarrow> string \<Rightarrow> string \<Rightarrow> string \<Rightarrow> ms \<Rightarrow> RoomManager option \<times> RpcCounters \<Rightarrow>
   (RoomCallStatus \<times> GwRoomSnapshot option) \<times> RoomManager option \<times> RpcCounters" where
  "RoomClient_Join d room_id player_id request_id now_ms s =
     (case rpc d (RoomService_JoinRoom request_id room_id player_id now_ms) (fst s) of (reply, m') \<Rightarrow>
        (case finish_call reply (snd s) of (res, c') \<Rightarrow> (res, m', c')))"

definition RoomClient_SubmitAttack ::
  "delivery \<Rightarrow> string \<Rightarrow> string \<Rightarrow> string \<Rightarrow> RoomManager option \<times> RpcCounters \<Rightarrow>
   (RoomCallStatus \<times> GwRoomSnapshot option) \<times> RoomManager option \<times> RpcCounters" where
  "RoomClient_SubmitAttack d room_id player_id request_id s =
     (case rpc d (RoomService_SubmitInput request_id room_id player_id KIND_ATTACK) (fst s) of (reply, m') \<Rightarrow>
        (case finish_call reply (snd s) of (res, c') \<Rightarrow> (res, m', c')))"

definition RoomClient_SetPresence ::
  "delivery \<Rightarrow> string \<Rightarrow> string \<Rightarrow> bool \<Rightarrow> string \<Rightarrow> ms \<Rightarrow> RoomManager option \<times> RpcCounters \<Rightarrow>
   (RoomCallStatus \<times> GwRoomSnapshot option) \<times> RoomManager option \<times> RpcCounters" where
  "RoomClient_SetPresence d room_id player_id online request_id now_ms s =
     (case rpc d (RoomService_SetPlayerPresence request_id room_id player_id online now_ms) (fst s) of (reply, m') \<Rightarrow>
        (case finish_call reply (snd s) of (res, c') \<Rightarrow> (res, m', c')))"

definition RoomClient_GetState ::
  "delivery \<Rightarrow> string \<Rightarrow> string \<Rightarrow> ms \<Rightarrow> RoomManager option \<times> RpcCounters \<Rightarrow>
   (RoomCallStatus \<times> GwRoomSnapshot option) \<times> RoomManager option \<times> RpcCounters" where
  "RoomClient_GetState d room_id request_id now_ms s =
     (case rpc d (RoomService_GetRoomState request_id room_id now_ms) (fst s) of (reply, m') \<Rightarrow>
        (case finish_call reply (snd s) of (res, c') \<Rightarrow> (res, m', c')))"

definition RoomClient_GetResult ::
  "delivery \<Rightarrow> 'db MatchResultWriter option \<Rightarrow> string \<Rightarrow> string \<Rightarrow> ms \<Rightarrow>
   (RoomManager option \<times> 'db) \<times> RpcCounters \<Rightarrow>
   (RoomCallStatus \<times> MatchResultView option) \<times> (RoomManager option \<times> 'db) \<times> RpcCounters" where
  "RoomClient_GetResult d writer match_id request_id now_ms s =
     (case rpc d (RoomService_GetMatchResult writer request_id match_id now_ms) (fst s) of (reply, m') \<Rightarrow>
        (case reply of
           None \<Rightarrow> ((CallUnavailable, None), m', RecordRpcCall False (snd s))
         | Some response \<Rightarrow>
             (case ToCallStatus (error_code (resp_error response)) (snd s) of (status, c') \<Rightarrow>
               ((status, Some \<lparr>mv_result = gr_result response,
                               mv_room = map_option ToSnapshot (resp_room response)\<rparr>), m', c'))))"

definition RoomClient_GetSnapshotsSince ::
  "delivery \<Rightarrow> string \<Rightarrow> frame_no \<Rightarrow> string \<Rightarrow> ms \<Rightarrow> RoomManager option \<times> RpcCounters \<Rightarrow>
   (RoomCallStatus \<times> GwSnapshotRange option) \<times> RoomManager option \<times> RpcCounters" where
  "RoomClient_GetSnapshotsSince d room_id since_frame request_id now_ms s =
     (case rpc d (RoomService_GetRoomSnapshotsSince request_id room_id since_frame now_ms) (fst s) of (reply, m') \<Rightarrow>
        (case reply of
           None \<Rightarrow> ((CallUnavailable, None), m', RecordRpcCall False (snd s))
         | Some response \<Rightarrow>
             (case ToCallStatus (error_code (gs_error response)) (snd s) of (status, c') \<Rightarrow>
               if status \<noteq> CallOk then ((status, None), m', c')
               else ((CallOk, Some \<lparr>gr_status = ToWindowStatus (gs_status response),
                       gr_snapshots = map ToSnapshot (gs_snapshots response),
                       gr_oldest_frame = gs_oldest_frame response,
                       gr_latest_frame = gs_latest_frame response\<rparr>), m', RecordRpcCall True c'))))"

section \<open>The match service's allocator\<close>

definition BrpcRoomAllocator_Allocate ::
  "delivery \<Rightarrow> string \<Rightarrow> string list \<Rightarrow> string \<Rightarrow> ms \<Rightarrow> string \<Rightarrow> RoomManager option \<Rightarrow>
   string \<times> RoomManager option" where
  "BrpcRoomAllocator_Allocate d match_id members request_id now_ms new_id manager =
     (if match_id = [] \<or> members = [] then ([], manager)
      else case rpc d (RoomService_CreateRoom request_id match_id members now_ms new_id) manager of
             (None, m') \<Rightarrow> ([], m')
           | (Some response, m') \<Rightarrow>
               (if error_code (resp_error response) \<noteq> ROOM_ERROR_CODE_UNSPECIFIED then []
                else cr_room_id response, m'))"

section \<open>What the caller learns\<close>

fun view_state :: "RoomPhase \<Rightarrow> GwRoomState" where
  "view_state kCreated = GwCreated" | "view_state kWaiting = GwWaiting"
| "view_state kPlaying = GwPlaying" | "view_state kFinishing = GwFinishing"
| "view_state kFinished = GwFinished" | "view_state kAborted = GwAborted"

definition view :: "RoomSnapshot \<Rightarrow> GwRoomSnapshot" where
  "view s =
     \<lparr>gw_room_id = rs_room_id s, gw_match_id = rs_match_id s, gw_state = view_state (rs_phase s),
      gw_frame = rs_frame s,
      gw_players = map (\<lambda>p. \<lparr>gp_player_id = ps_player_id p, gp_hp = ps_hp p, gp_connected = ps_connected p,
         gp_online = ps_online p\<rparr>) (rs_players s),
      gw_finish_reason = reason_ToString (rs_finish_reason s), gw_winner_id = rs_winner_id s,
      gw_started_at_ms = rs_started_at_ms s, gw_finished_at_ms = rs_finished_at_ms s\<rparr>"

lemma ToSnapshot_FillSnapshot: "ToSnapshot (FillSnapshot s) = view s"
proof -
  have "ToState (ToProtoState p) = view_state p" for p by (cases p) simp_all
  moreover have "ToFinishReasonString (ToProtoFinishReason r) = reason_ToString r" for r by (cases r) simp_all
  ultimately show ?thesis
    by (simp add: ToSnapshot_def FillSnapshot_def view_def ToPlayer_def FillPlayer_def comp_def)
qed

text \<open>The status a delivered call must have, per outcome of the manager.\<close>

fun join_status :: "(JoinOutcome \<times> RoomSnapshot) option \<Rightarrow> RoomCallStatus" where
  "join_status None = CallNotFound"
| "join_status (Some (JoinOk, _)) = CallOk"
| "join_status (Some (JoinNotAMember, _)) = CallNotAMember"
| "join_status (Some (JoinAlreadyFinished, _)) = CallAlreadyFinished"
| "join_status (Some (JoinInvalidArgument, _)) = CallInvalidArgument"

fun submit_status :: "(SubmitOutcome \<times> RoomSnapshot) option \<Rightarrow> RoomCallStatus" where
  "submit_status None = CallNotFound"
| "submit_status (Some (SubmitAccepted, _)) = CallOk"
| "submit_status (Some (SubmitNotInRoom, _)) = CallNotAMember"
| "submit_status (Some (SubmitNotPlaying, _)) = CallNotPlaying"
| "submit_status (Some (SubmitAlreadyFinished, _)) = CallAlreadyFinished"
| "submit_status (Some (SubmitInvalidArgument, _)) = CallInvalidArgument"

fun presence_status :: "(PresenceOutcome \<times> RoomSnapshot) option \<Rightarrow> RoomCallStatus" where
  "presence_status None = CallNotFound"
| "presence_status (Some (PresenceOk, _)) = CallOk"
| "presence_status (Some (PresenceNotAMember, _)) = CallNotAMember"
| "presence_status (Some (PresenceAlreadyFinished, _)) = CallAlreadyFinished"
| "presence_status (Some (PresenceInvalidArgument, _)) = CallInvalidArgument"

lemmas client_defs = RoomClient_Join_def RoomClient_SubmitAttack_def RoomClient_SetPresence_def
  RoomService_JoinRoom_def RoomService_SubmitInput_def RoomService_SetPlayerPresence_def
  rpc_def finish_call_def error_code_def SetError_def room_or_default_def Let_def apfst_def map_prod_def



definition total_calls :: "RpcCounters \<Rightarrow> nat" where
  "total_calls c = rpc_ok c + rpc_failed c"

lemma total_RecordRpcCall [simp]: "total_calls (RecordRpcCall b c) = Suc (total_calls c)"
  by (simp add: total_calls_def RecordRpcCall_def)

lemma total_ToCallStatus:
  "code \<noteq> ROOM_SHUTTING_DOWN \<Longrightarrow> total_calls (snd (ToCallStatus code c)) = Suc (total_calls c)"
  by (cases code) simp_all

lemma total_finish_call:
  "(\<And>x. reply = Some x \<Longrightarrow> error_code (resp_error x) \<noteq> ROOM_SHUTTING_DOWN) \<Longrightarrow>
   total_calls (snd (finish_call reply c)) = Suc (total_calls c)"
  using total_ToCallStatus [of "error_code (resp_error (the reply))" c]
  by (cases reply) (auto simp: finish_call_def split: prod.splits)

lemma rpc_Some: "rpc d h s = (Some x, s') \<Longrightarrow> x = fst (h s)"
  by (cases d) (auto simp: rpc_def apfst_def map_prod_def split: prod.splits)

lemma rpc_counted:
  assumes "\<And>st. error_code (resp_error (fst (h st))) \<noteq> ROOM_SHUTTING_DOWN"
  shows "total_calls (snd (snd (case rpc d h st of (reply, m') \<Rightarrow>
    case finish_call reply c of (res, c') \<Rightarrow> (res, m', c')))) = total_calls c + 1"
proof -
  obtain reply m' where r: "rpc d h st = (reply, m')" by (metis prod.exhaust)
  have "total_calls (snd (finish_call reply c)) = Suc (total_calls c)"
    using assms rpc_Some [of d h st _ m'] r by (intro total_finish_call) auto
  then show ?thesis by (simp add: r case_prod_beta)
qed

lemma service_codes:
  "error_code (resp_error (fst (RoomService_JoinRoom req rid pid t mgr))) \<noteq> ROOM_SHUTTING_DOWN"
  "error_code (resp_error (fst (RoomService_SubmitInput req rid pid k mgr))) \<noteq> ROOM_SHUTTING_DOWN"
  "error_code (resp_error (fst (RoomService_SetPlayerPresence req rid pid b t mgr))) \<noteq> ROOM_SHUTTING_DOWN"
  "error_code (resp_error (fst (RoomService_GetRoomState req rid t mgr))) \<noteq> ROOM_SHUTTING_DOWN"
  "error_code (gs_error (fst (RoomService_GetRoomSnapshotsSince req rid f t mgr))) \<noteq> ROOM_SHUTTING_DOWN"
  by (auto simp: RoomService_JoinRoom_def RoomService_SubmitInput_def RoomService_SetPlayerPresence_def
      RoomService_GetRoomState_def RoomService_GetRoomSnapshotsSince_def error_code_def SetError_def Let_def
      split: option.splits prod.splits JoinOutcome.splits SubmitOutcome.splits PresenceOutcome.splits)

lemma ToCallStatus_ok: "fst (ToCallStatus code c) = CallOk \<longleftrightarrow> code = ROOM_ERROR_CODE_UNSPECIFIED"
  by (cases code) simp_all

text \<open>The call counters of the gateway. Joins, attacks, presence reports and state queries are
  counted exactly once, delivered or not. A history query is counted twice when it succeeds: the
  mapping of the status has already counted it.\<close>

lemma calls_are_counted_once_but_history_twice:
  "total_calls (snd (snd (RoomClient_Join d rid pid req t s))) = total_calls (snd s) + 1 \<and>
   total_calls (snd (snd (RoomClient_SubmitAttack d rid pid req s))) = total_calls (snd s) + 1 \<and>
   total_calls (snd (snd (RoomClient_SetPresence d rid pid b req t s))) = total_calls (snd s) + 1 \<and>
   total_calls (snd (snd (RoomClient_GetState d rid req t s))) = total_calls (snd s) + 1 \<and>
   total_calls (snd (snd (RoomClient_GetSnapshotsSince d rid f req t s))) =
     total_calls (snd s) +
     (if fst (fst (RoomClient_GetSnapshotsSince d rid f req t s)) = CallOk then 2 else 1)"
proof (intro conjI)
  show "total_calls (snd (snd (RoomClient_Join d rid pid req t s))) = total_calls (snd s) + 1"
    unfolding RoomClient_Join_def by (rule rpc_counted [OF service_codes(1)])
  show "total_calls (snd (snd (RoomClient_SubmitAttack d rid pid req s))) = total_calls (snd s) + 1"
    unfolding RoomClient_SubmitAttack_def by (rule rpc_counted [OF service_codes(2)])
  show "total_calls (snd (snd (RoomClient_SetPresence d rid pid b req t s))) = total_calls (snd s) + 1"
    unfolding RoomClient_SetPresence_def by (rule rpc_counted [OF service_codes(3)])
  show "total_calls (snd (snd (RoomClient_GetState d rid req t s))) = total_calls (snd s) + 1"
    unfolding RoomClient_GetState_def by (rule rpc_counted [OF service_codes(4)])
  obtain reply m' where r: "rpc d (RoomService_GetRoomSnapshotsSince req rid f t) (fst s) = (reply, m')"
    by (metis prod.exhaust)
  show "total_calls (snd (snd (RoomClient_GetSnapshotsSince d rid f req t s))) = total_calls (snd s) +
     (if fst (fst (RoomClient_GetSnapshotsSince d rid f req t s)) = CallOk then 2 else 1)"
  proof (cases reply)
    case (Some x)
    have "error_code (gs_error x) \<noteq> ROOM_SHUTTING_DOWN"
      using rpc_Some [OF r [unfolded Some]] service_codes(5) by simp
    from total_ToCallStatus [OF this, of "snd s"] show ?thesis
      by (auto simp: RoomClient_GetSnapshotsSince_def r Some split: prod.splits)
  qed (simp add: RoomClient_GetSnapshotsSince_def r)
qed

text \<open>The gateway never takes a missing result for a draw. A result query that reaches the service
  has a result in its answer exactly when its status is \<open>ok\<close>, the result is then the row of the
  result table, and a match that is decided but not yet durable is answered as pending together
  with its room.\<close>

lemma remote_result_is_the_stored_row:
  assumes "(manager_step (mysql_writer to_ts) (mysql_snapshot_writer to_ts) mysql_stored)\<^sup>*\<^sup>*
      (empty_manager, db0) (m, db)"
    and "RoomClient_GetResult Delivered (Some (mysql_writer to_ts)) mid req t ((Some m, db), c) = ((status, mv), s')"
    and "\<not> bad_id mid"
  shows "\<exists>mr. mv = Some mr \<and> (mv_result mr \<noteq> None \<longleftrightarrow> status = CallOk) \<and>
    (status = CallOk \<longrightarrow> mv_result mr = map_option FillResult (mysql_stored db mid)) \<and>
    (status = CallResultPending \<longleftrightarrow> (\<exists>r. live m t mid r \<and> br_phase r = kFinishing)) \<and>
    (\<forall>r. live m t mid r \<and> br_phase r = kFinishing \<longrightarrow> mv_room mr = Some (view (Snapshot r)))"
proof -
  obtain outcome rec snap m2 db2 where g:
    "RoomManager_GetResult (Some (mysql_writer to_ts)) mid t (m, db) = ((outcome, rec, snap), m2, db2)"
    by (metis prod.exhaust)
  note d = reported_results [OF assms(1) g assms(3)]
  have st: "status = (case outcome of ResultOk \<Rightarrow> CallOk | ResultPending \<Rightarrow> CallResultPending
      | ResultUnavailable \<Rightarrow> CallStoreUnavailable | ResultNotFound \<Rightarrow> CallNotFound)"
    and mv: "\<exists>mr. mv = Some mr \<and> mv_result mr = (if outcome = ResultOk then map_option FillResult rec else None) \<and>
      (outcome = ResultPending \<longrightarrow>
        mv_room mr = Some (ToSnapshot (FillSnapshot (case snap of Some sn \<Rightarrow> sn | None \<Rightarrow> default_room_snapshot))))"
    using assms(2)
    by (auto simp: RoomClient_GetResult_def rpc_def apfst_def map_prod_def RoomService_GetMatchResult_def g
        error_code_def SetError_def split: ResultOutcome.splits)
  from mv obtain mr where mr: "mv = Some mr"
    "mv_result mr = (if outcome = ResultOk then map_option FillResult rec else None)"
    "outcome = ResultPending \<Longrightarrow>
      mv_room mr = Some (ToSnapshot (FillSnapshot (case snap of Some sn \<Rightarrow> sn | None \<Rightarrow> default_room_snapshot)))"
    by blast
  have room: "mv_room mr = Some (view (Snapshot r))" if r: "live m t mid r" "br_phase r = kFinishing" for r
  proof -
    have "outcome = ResultPending" "snap = Some (Snapshot r)" using d r by blast+
    then show ?thesis using mr(3) by (simp add: ToSnapshot_FillSnapshot)
  qed
  show ?thesis
    using d mr(1,2) room by (intro exI [of _ mr]) (cases outcome; auto simp: st)
qed

end
