(* ===== verification/Sse_Format.thy ===== *)
theory Sse_Format
  imports Room_Client
begin

text \<open>
  What the gateway writes to a push connection: the JSON and SSE texts of
  \<^verbatim>\<open>src/gateway/stream_hub.cpp\<close>. A \<^verbatim>\<open>std::string\<close> is a list of bytes; \<open>quoted\<close> and \<open>field\<close> stand for the
  literal quotes and colons between the pieces the code appends.
\<close>

section \<open>JSON\<close>

definition dquote :: char where "dquote = CHR 0x22"
definition backslash :: char where "backslash = CHR 0x5C"

text \<open>The default case of the switch escapes control characters as \<^verbatim>\<open>\u%04x\<close>.\<close>

definition escape_char :: "char \<Rightarrow> string" where
  "escape_char ch =
     (if ch = dquote then [backslash, dquote]
      else if ch = backslash then [backslash, backslash]
      else if ch = CHR 0x0A then [backslash, CHR ''n'']
      else if ch = CHR 0x0D then [backslash, CHR ''r'']
      else if ch = CHR 0x09 then [backslash, CHR ''t'']
      else if (of_char ch :: nat) < 32 then
        [backslash, CHR ''u'', CHR ''0'', CHR ''0'', hex_digit (of_char ch div 16), hex_digit (of_char ch mod 16)]
      else [ch])"

definition JsonEscape :: "string \<Rightarrow> string" where
  "JsonEscape value = concat (map escape_char value)"

definition quoted :: "string \<Rightarrow> string" where
  "quoted s = dquote # s @ [dquote]"

definition field :: "string \<Rightarrow> string \<Rightarrow> string" where
  "field name value = quoted name @ '':'' @ value"

definition json_bool :: "bool \<Rightarrow> string" where
  "json_bool b = (if b then ''true'' else ''false'')"

fun RoomStateName :: "GwRoomState \<Rightarrow> string" where
  "RoomStateName GwWaiting = ''waiting''"
| "RoomStateName GwPlaying = ''playing''"
| "RoomStateName GwFinishing = ''finishing''"
| "RoomStateName GwFinished = ''finished''"
| "RoomStateName GwAborted = ''aborted''"
| "RoomStateName GwCreated = ''created''"

definition kEnvelopeVersion :: int where "kEnvelopeVersion = 1"

definition Envelope :: "string \<Rightarrow> int \<Rightarrow> ms \<Rightarrow> string \<Rightarrow> string" where
  "Envelope type sequence now_ms payload =
     ''{'' @ field ''version'' (to_string kEnvelopeVersion) @ '','' @ field ''type'' (quoted type) @ '',''
       @ field ''sequence'' (to_string sequence) @ '','' @ field ''timestamp_ms'' (to_string now_ms) @ '',''
       @ field ''payload'' payload @ ''}''"

definition player_json :: "RoomPlayerSnapshot \<Rightarrow> string" where
  "player_json p =
     ''{'' @ field ''player_id'' (quoted (JsonEscape (gp_player_id p))) @ '','' @ field ''hp'' (to_string (gp_hp p))
       @ '','' @ field ''connected'' (json_bool (gp_connected p)) @ '',''
       @ field ''online'' (json_bool (gp_online p)) @ ''}''"

fun separated :: "string list \<Rightarrow> string" where
  "separated [] = []"
| "separated [x] = x"
| "separated (x # xs) = x @ '','' @ separated xs"

definition PlayersJson :: "RoomPlayerSnapshot list \<Rightarrow> string" where
  "PlayersJson players = ''['' @ separated (map player_json players) @ '']''"

definition RoomPayload :: "GwRoomSnapshot \<Rightarrow> string" where
  "RoomPayload s =
     ''{'' @ field ''room_id'' (quoted (JsonEscape (gw_room_id s))) @ '',''
       @ field ''match_id'' (quoted (JsonEscape (gw_match_id s))) @ '',''
       @ field ''state'' (quoted (RoomStateName (gw_state s))) @ '',''
       @ field ''frame'' (to_string (gw_frame s)) @ '',''
       @ field ''players'' (PlayersJson (gw_players s)) @ '',''
       @ field ''finish_reason'' (quoted (JsonEscape (gw_finish_reason s))) @ '',''
       @ field ''winner_id'' (quoted (JsonEscape (gw_winner_id s))) @ '',''
       @ field ''started_at_ms'' (to_string (gw_started_at_ms s)) @ '',''
       @ field ''finished_at_ms'' (to_string (gw_finished_at_ms s)) @ ''}''"

definition SessionReadyJson :: "string \<Rightarrow> string \<Rightarrow> ms \<Rightarrow> string" where
  "SessionReadyJson player_id room_id now_ms = Envelope ''session.ready'' 0 now_ms
     (''{'' @ field ''player_id'' (quoted (JsonEscape player_id)) @ '',''
        @ field ''room_id'' (quoted (JsonEscape room_id)) @ '',''
        @ field ''server_time_ms'' (to_string now_ms) @ ''}'')"

definition RoomStateJson :: "GwRoomSnapshot \<Rightarrow> ms \<Rightarrow> string" where
  "RoomStateJson s now_ms = Envelope ''room.state'' (gw_frame s) now_ms (RoomPayload s)"

definition RoomFinishedJson :: "GwRoomSnapshot \<Rightarrow> ms \<Rightarrow> string" where
  "RoomFinishedJson s now_ms = Envelope ''room.finished'' (gw_frame s) now_ms (RoomPayload s)"

definition StreamClosedJson :: "string \<Rightarrow> ms \<Rightarrow> string" where
  "StreamClosedJson reason now_ms = Envelope ''stream.closed'' 0 now_ms
     (''{'' @ field ''reason'' (quoted (JsonEscape reason)) @ '','' @ field ''server_time_ms'' (to_string now_ms) @ ''}'')"

definition StreamResetJson :: "string \<Rightarrow> GwRoomSnapshot \<Rightarrow> ms \<Rightarrow> string" where
  "StreamResetJson reason s now_ms = Envelope ''stream.reset'' (gw_frame s) now_ms
     (''{'' @ field ''reason'' (quoted (JsonEscape reason)) @ '','' @ field ''room'' (RoomPayload s) @ ''}'')"

section \<open>Server-sent events\<close>

definition newline :: char where "newline = CHR 0x0A"

definition kHeartbeat :: string where "kHeartbeat = '': ping'' @ [newline, newline]"

definition SseEvent :: "string \<Rightarrow> string \<Rightarrow> int option \<Rightarrow> string" where
  "SseEvent event data frame_id =
     (case frame_id of Some i \<Rightarrow> ''id: '' @ to_string i @ [newline] | None \<Rightarrow> [])
       @ ''event: '' @ event @ newline # ''data: '' @ data @ [newline, newline]"

section \<open>No field can break out of its event\<close>

text \<open>A line of JSON: no control character in it, whatever the fields hold.\<close>

definition single_line :: "string \<Rightarrow> bool" where
  "single_line s \<longleftrightarrow> (\<forall>c \<in> set s. (32::nat) \<le> of_char c)"

lemma single_line_simps [simp]:
  "single_line []" "single_line (c # s) \<longleftrightarrow> (32::nat) \<le> of_char c \<and> single_line s"
  "single_line (s @ t) \<longleftrightarrow> single_line s \<and> single_line t"
  by (auto simp: single_line_def)

lemma hex_digit_printable: "d < 16 \<Longrightarrow> (32::nat) \<le> of_char (hex_digit d)"
  by (auto simp: hex_digit_def)

lemma single_line_escape_char: "single_line (escape_char c)"
  by (auto simp: escape_char_def dquote_def backslash_def hex_digit_printable)

lemma single_line_escape [simp]: "single_line (JsonEscape s)"
  by (induction s) (simp_all add: JsonEscape_def single_line_escape_char)

lemma digit_printable: "is_digit c \<Longrightarrow> (32::nat) \<le> of_char c"
  by (simp add: is_digit_def)

lemma single_line_to_string [simp]: "single_line (to_string i)"
  using nat_digits_props(1) digit_printable by (auto simp: to_string_def single_line_def list_all_iff)

lemma single_line_quoted [simp]: "single_line (quoted s) \<longleftrightarrow> single_line s"
  by (simp add: quoted_def dquote_def)

lemma single_line_field [simp]: "single_line (field name value) \<longleftrightarrow> single_line name \<and> single_line value"
  by (simp add: field_def)

lemma single_line_state [simp]: "single_line (RoomStateName st)"
  by (cases st) simp_all

lemma single_line_separated [simp]: "single_line (separated xs) \<longleftrightarrow> (\<forall>x \<in> set xs. single_line x)"
  by (induction xs rule: separated.induct) auto

lemma single_line_payload [simp]: "single_line (RoomPayload s)"
  by (simp add: RoomPayload_def PlayersJson_def player_json_def json_bool_def)

lemma single_line_Envelope [simp]: "single_line (Envelope ty sq n p) \<longleftrightarrow> single_line ty \<and> single_line p"
  by (simp add: Envelope_def)

lemma single_line_events [simp]:
  "single_line (RoomStateJson s n)" "single_line (RoomFinishedJson s n)" "single_line (SessionReadyJson p r n)"
  "single_line (StreamClosedJson reason n)" "single_line (StreamResetJson reason s n)"
  by (simp_all add: RoomStateJson_def RoomFinishedJson_def SessionReadyJson_def StreamClosedJson_def StreamResetJson_def)

section \<open>The client's side\<close>

text \<open>How an event stream is read: lines end with a newline, a field is a name, a colon and a space.\<close>

fun split_lines :: "string \<Rightarrow> string list" where
  "split_lines [] = []"
| "split_lines (c # s) =
     (if c = newline then [] # split_lines s
      else case split_lines s of [] \<Rightarrow> [[c]] | l # ls \<Rightarrow> (c # l) # ls)"

definition field_of :: "string \<Rightarrow> string list \<Rightarrow> string option" where
  "field_of name ls = map_option (\<lambda>l. drop (length name + 2) l) (find (\<lambda>l. take (length name + 2) l = name @ '': '') ls)"

fun unescape :: "string \<Rightarrow> string" where
  "unescape [] = []"
| "unescape (c # s) =
     (if c \<noteq> backslash then c # unescape s
      else case s of
        [] \<Rightarrow> []
      | d # t \<Rightarrow>
          if d = CHR ''u'' then (case t of _ # _ # x # y # r \<Rightarrow>
              char_of (16 * (if of_char x < (58::nat) then of_char x - 48 else of_char x - (87::nat))
                 + (if of_char y < (58::nat) then of_char y - 48 else of_char y - (87::nat))) # unescape r | _ \<Rightarrow> [])
          else (if d = CHR ''n'' then CHR 0x0A else if d = CHR ''r'' then CHR 0x0D
                else if d = CHR ''t'' then CHR 0x09 else d) # unescape t)"

lemma split_line: "newline \<notin> set l \<Longrightarrow> split_lines (l @ newline # s) = l # split_lines s"
  by (induction l) auto

lemma single_line_no_newline: "single_line s \<Longrightarrow> newline \<notin> set s"
  by (auto simp: single_line_def newline_def)

lemma split_SseEvent:
  assumes "single_line e" "single_line d"
  shows "split_lines (SseEvent e d i) =
    (case i of Some n \<Rightarrow> [''id: '' @ to_string n] | None \<Rightarrow> []) @ [''event: '' @ e, ''data: '' @ d, []]"
proof -
  have body: "split_lines (''event: '' @ e @ newline # ''data: '' @ d @ [newline, newline])
      = [''event: '' @ e, ''data: '' @ d, []]"
  proof -
    have nl: "newline \<notin> set (''event: '' @ e)" "newline \<notin> set (''data: '' @ d)"
      by (rule single_line_no_newline, use assms in simp)+
    show ?thesis
      using split_line [OF nl(1), of "(''data: '' @ d) @ newline # [newline]"] split_line [OF nl(2), of "[newline]"]
      by simp
  qed
  have nl: "newline \<notin> set (''id: '' @ to_string n)" for n
    by (rule single_line_no_newline) simp
  show ?thesis
    using split_line [OF nl] body by (cases i) (simp_all add: SseEvent_def)
qed

lemma unescape_char: "unescape (escape_char c @ s) = c # unescape s"
proof -
  consider "c \<in> {dquote, backslash, CHR 0x0A, CHR 0x0D, CHR 0x09}" | "\<not> (of_char c :: nat) < 32" "c \<noteq> dquote" "c \<noteq> backslash"
    | "(of_char c :: nat) < 32" "c \<notin> {dquote, backslash, CHR 0x0A, CHR 0x0D, CHR 0x09}" by blast
  then show ?thesis
  proof cases
    case 1
    then show ?thesis by (auto simp: escape_char_def dquote_def backslash_def)
  next
    case 2
    then have "escape_char c = [c]" by (auto simp: escape_char_def)
    then show ?thesis using 2 by simp
  next
    case 3
    define k :: nat where "k = of_char c"
    have c: "c = char_of k" "k < 32" using 3 by (simp_all add: k_def)
    have h: "(if of_char (hex_digit d) < (58::nat) then of_char (hex_digit d) - 48 else of_char (hex_digit d) - (87::nat)) = d"
      if "d < 16" for d using that by (auto simp: hex_digit_def)
    have e: "escape_char c = [backslash, CHR ''u'', CHR ''0'', CHR ''0'', hex_digit (k div 16), hex_digit (k mod 16)]"
      using 3 by (simp add: escape_char_def k_def)
    have "unescape (escape_char c @ s) = char_of (16 * (k div 16) + k mod 16) # unescape s"
      unfolding e using h [of "k div 16"] h [of "k mod 16"] c(2) by simp
    then show ?thesis using c(1) by simp
  qed
qed

lemma unescape_JsonEscape: "unescape (JsonEscape s) = s"
  by (induction s) (simp_all add: JsonEscape_def unescape_char)

end
