(* ===== verification/Stream_Hub.thy ===== *)
theory Stream_Hub
  imports Sse_Format
begin

text \<open>
  The push hub of the gateway, \<^verbatim>\<open>src/gateway/stream_hub.hpp\<close> and \<^verbatim>\<open>src/gateway/stream_hub.cpp\<close>: the table
  of subscriptions and \<^verbatim>\<open>Tick\<close>, which replays what a reconnecting client missed, polls every
  subscribed room once and pushes what changed.

  The room client and the event sinks are parameters on a state \<^typ>\<open>'w\<close>: a sink is a number, writing
  reports whether the connection is alive. The model iterates a hash map in the order of its list.
  \<^verbatim>\<open>Subscribe\<close> never registers a null sink, so a subscription always has one. The background thread
  that calls \<^verbatim>\<open>Tick\<close> and log lines are left out.
\<close>

section \<open>Collaborators\<close>

record 'w RoomClient =
  rcl_Join :: "string \<Rightarrow> string \<Rightarrow> string \<Rightarrow> 'w \<Rightarrow> (RoomCallStatus \<times> GwRoomSnapshot option) \<times> 'w"
  rcl_SubmitAttack :: "string \<Rightarrow> string \<Rightarrow> string \<Rightarrow> 'w \<Rightarrow> (RoomCallStatus \<times> GwRoomSnapshot option) \<times> 'w"
  rcl_GetState :: "string \<Rightarrow> string \<Rightarrow> 'w \<Rightarrow> (RoomCallStatus \<times> GwRoomSnapshot option) \<times> 'w"
  rcl_GetResult :: "string \<Rightarrow> string \<Rightarrow> 'w \<Rightarrow> (RoomCallStatus \<times> MatchResultView option) \<times> 'w"
  rcl_GetSnapshotsSince :: "string \<Rightarrow> int \<Rightarrow> string \<Rightarrow> 'w \<Rightarrow> (RoomCallStatus \<times> GwSnapshotRange option) \<times> 'w"
  rcl_SetPresence :: "string \<Rightarrow> string \<Rightarrow> bool \<Rightarrow> string \<Rightarrow> 'w \<Rightarrow> (RoomCallStatus \<times> GwRoomSnapshot option) \<times> 'w"

record 'w hub_env =
  he_room :: "'w RoomClient option"
  he_Write :: "nat \<Rightarrow> string \<Rightarrow> 'w \<Rightarrow> bool \<times> 'w"
  he_Close :: "nat \<Rightarrow> 'w \<Rightarrow> 'w"
  he_SystemNowMs :: "'w \<Rightarrow> ms"

text \<open>A call that answers \<^verbatim>\<open>kOk\<close> has filled its output.\<close>

definition ok_output :: "RoomCallStatus \<times> 'a option \<Rightarrow> 'a option" where
  "ok_output r = (if fst r = CallOk then snd r else None)"

section \<open>Data\<close>

record SubscribeOptions =
  so_last_event_id :: "int option"
  so_last_event_id_malformed :: bool
  so_request_id :: string

record SubscriptionReport =
  sr_id :: nat
  sr_reset_sent :: bool
  sr_reset_reason :: string
  sr_backfilled_frames :: nat
  sr_backfill_done :: bool

record Subscription =
  sb_id :: nat
  sb_player_id :: string
  sb_room_id :: string
  sb_request_id :: string
  sb_sink :: nat
  sb_last_heartbeat_ms :: ms
  sb_created_ms :: ms
  sb_ready_sent :: bool
  sb_backfill_pending :: bool
  sb_backfill_from :: "int option"
  sb_backfill_malformed :: bool
  sb_backfill_done :: bool
  sb_reset_sent :: bool
  sb_reset_reason :: string
  sb_backfilled_frames :: nat

record BackfillOutcome =
  bo_attempted :: bool
  bo_frames :: nat
  bo_write_failed :: bool
  bo_reset_sent :: bool
  bo_reset_reason :: string

record StreamHub =
  sh_heartbeat_interval_ms :: ms
  sh_subscriptions :: "(nat, Subscription) umap"
  sh_next_id :: nat
  sh_room_poll_count :: nat
  sh_backfilled_frame_count :: nat
  sh_reset_counts :: "(string, nat) umap"
  sh_last_pushed_state :: "(string, string) umap"
  sh_draining :: bool
  sh_created_total :: nat
  sh_closed_write_failed_total :: nat
  sh_closed_other_total :: nat
  sh_skipped_no_write_total :: nat

definition StreamHub_new :: "ms \<Rightarrow> StreamHub" where
  "StreamHub_new heartbeat_interval_ms =
     \<lparr>sh_heartbeat_interval_ms = heartbeat_interval_ms, sh_subscriptions = [], sh_next_id = 1,
      sh_room_poll_count = 0, sh_backfilled_frame_count = 0, sh_reset_counts = [], sh_last_pushed_state = [],
      sh_draining = False, sh_created_total = 0, sh_closed_write_failed_total = 0,
      sh_closed_other_total = 0, sh_skipped_no_write_total = 0\<rparr>"

definition empty_report :: SubscriptionReport where
  "empty_report = \<lparr>sr_id = 0, sr_reset_sent = False, sr_reset_reason = [], sr_backfilled_frames = 0,
     sr_backfill_done = False\<rparr>"

definition PollRequestId :: "string \<Rightarrow> string \<Rightarrow> string" where
  "PollRequestId subscription_request_id room_id =
     (if subscription_request_id = [] then ''room:'' @ room_id else subscription_request_id @ '':poll'')"

fun room_state_int :: "GwRoomState \<Rightarrow> int" where
  "room_state_int GwCreated = 0" | "room_state_int GwWaiting = 1" | "room_state_int GwPlaying = 2"
| "room_state_int GwFinishing = 3" | "room_state_int GwFinished = 4" | "room_state_int GwAborted = 5"

definition StateSignature :: "GwRoomSnapshot \<Rightarrow> string" where
  "StateSignature s =
     to_string (gw_frame s) @ ''|'' @ to_string (room_state_int (gw_state s))
       @ concat (map (\<lambda>p. ''|'' @ gp_player_id p @ '':'' @ to_string (gp_hp p)
           @ (if gp_online p then ''1'' else ''0'')) (gw_players s))"

definition terminal :: "GwRoomSnapshot \<Rightarrow> bool" where
  "terminal s \<longleftrightarrow> gw_state s = GwFinished \<or> gw_state s = GwAborted"

section \<open>Subscribing\<close>

definition ReportPresence ::
  "'w hub_env \<Rightarrow> string \<Rightarrow> string \<Rightarrow> bool \<Rightarrow> string \<Rightarrow> 'w \<Rightarrow> 'w" where
  "ReportPresence env room_id player_id online request_id w =
     (case he_room env of None \<Rightarrow> w
      | Some rc \<Rightarrow> snd (rcl_SetPresence rc room_id player_id online request_id w))"

definition Subscribe ::
  "'w hub_env \<Rightarrow> string \<Rightarrow> string \<Rightarrow> nat option \<Rightarrow> SubscribeOptions \<Rightarrow> StreamHub \<times> 'w \<Rightarrow>
   SubscriptionReport \<times> StreamHub \<times> 'w" where
  "Subscribe env player_id room_id sink options s =
     (case s of (h, w) \<Rightarrow>
        case sink of None \<Rightarrow> (empty_report, h, w)
        | Some snk \<Rightarrow>
            if sh_draining h then (empty_report, h, w)
            else
              let i = sh_next_id h;
                  sub = \<lparr>sb_id = i, sb_player_id = player_id, sb_room_id = room_id,
                    sb_request_id = so_request_id options, sb_sink = snk, sb_last_heartbeat_ms = 0,
                    sb_created_ms = 0, sb_ready_sent = False, sb_backfill_pending = True,
                    sb_backfill_from = so_last_event_id options,
                    sb_backfill_malformed = so_last_event_id_malformed options,
                    sb_backfill_done = False, sb_reset_sent = False, sb_reset_reason = [],
                    sb_backfilled_frames = 0\<rparr>
              in (empty_report\<lparr>sr_id := i\<rparr>,
                  h\<lparr>sh_next_id := Suc i, sh_created_total := Suc (sh_created_total h),
                    sh_last_pushed_state := AList.delete room_id (sh_last_pushed_state h),
                    sh_subscriptions := emplace i sub (sh_subscriptions h)\<rparr>,
                  ReportPresence env room_id player_id True (so_request_id options) w))"

definition SubscribeReport :: "nat \<Rightarrow> StreamHub \<Rightarrow> SubscriptionReport" where
  "SubscribeReport i h =
     (case map_of (sh_subscriptions h) i of
        None \<Rightarrow> empty_report
      | Some sub \<Rightarrow> \<lparr>sr_id = i, sr_reset_sent = sb_reset_sent sub, sr_reset_reason = sb_reset_reason sub,
          sr_backfilled_frames = sb_backfilled_frames sub, sr_backfill_done = sb_backfill_done sub\<rparr>)"

definition Unsubscribe :: "'w hub_env \<Rightarrow> nat \<Rightarrow> StreamHub \<times> 'w \<Rightarrow> StreamHub \<times> 'w" where
  "Unsubscribe env i s =
     (case s of (h, w) \<Rightarrow>
        case map_of (sh_subscriptions h) i of None \<Rightarrow> (h, w)
        | Some sub \<Rightarrow>
            (h\<lparr>sh_subscriptions := AList.delete i (sh_subscriptions h),
               sh_closed_other_total := Suc (sh_closed_other_total h)\<rparr>,
             he_Close env (sb_sink sub)
               (ReportPresence env (sb_room_id sub) (sb_player_id sub) False (sb_request_id sub) w)))"

section \<open>Replaying what a client missed\<close>

definition SetLastPushedState :: "string \<Rightarrow> GwRoomSnapshot \<Rightarrow> bool \<Rightarrow> StreamHub \<Rightarrow> StreamHub" where
  "SetLastPushedState room_id snapshot is_terminal h =
     h\<lparr>sh_last_pushed_state :=
         (if is_terminal then AList.delete room_id (sh_last_pushed_state h)
          else AList.update room_id (StateSignature snapshot) (sh_last_pushed_state h))\<rparr>"

definition nothing_done :: BackfillOutcome where
  "nothing_done = \<lparr>bo_attempted = False, bo_frames = 0, bo_write_failed = False, bo_reset_sent = False,
     bo_reset_reason = []\<rparr>"

text \<open>The lambda \<^verbatim>\<open>send_reset\<close>; it keeps the other members of the outcome.\<close>

definition send_reset ::
  "'w hub_env \<Rightarrow> Subscription \<Rightarrow> string \<Rightarrow> GwRoomSnapshot \<Rightarrow> BackfillOutcome \<Rightarrow> StreamHub \<times> 'w \<Rightarrow>
   BackfillOutcome \<times> StreamHub \<times> 'w" where
  "send_reset env target reason payload outcome s =
     (case s of (h, w) \<Rightarrow>
        case he_Write env (sb_sink target)
               (SseEvent ''stream.reset'' (StreamResetJson reason payload (he_SystemNowMs env w)) (Some (gw_frame payload))) w of
          (ok, w') \<Rightarrow>
            (outcome\<lparr>bo_write_failed := \<not> ok, bo_reset_sent := ok, bo_reset_reason := reason\<rparr>,
             SetLastPushedState (sb_room_id target) payload False h, w'))"

definition room_event :: "GwRoomSnapshot \<Rightarrow> ms \<Rightarrow> string" where
  "room_event snapshot now_ms =
     (if terminal snapshot
      then SseEvent ''room.finished'' (RoomFinishedJson snapshot now_ms) (Some (gw_frame snapshot))
      else SseEvent ''room.state'' (RoomStateJson snapshot now_ms) (Some (gw_frame snapshot)))"

text \<open>The loop over the replayed snapshots; the flag tells whether every write succeeded.\<close>

fun replay :: "'w hub_env \<Rightarrow> Subscription \<Rightarrow> GwRoomSnapshot list \<Rightarrow> StreamHub \<times> 'w \<Rightarrow>
    bool \<times> StreamHub \<times> 'w" where
  "replay env target [] s = (True, s)"
| "replay env target (snapshot # rest) (h, w) =
     (case he_Write env (sb_sink target) (room_event snapshot (he_SystemNowMs env w)) w of
        (ok, w') \<Rightarrow>
          if \<not> ok then (False, h, w')
          else replay env target rest
                 (SetLastPushedState (sb_room_id target) snapshot (terminal snapshot) h, w'))"

definition window_reset_reason :: "GwSnapshotRange \<Rightarrow> string option" where
  "window_reset_reason rng =
     (case gr_status rng of
        WindowAhead \<Rightarrow> Some ''id_ahead''
      | WindowIncomplete \<Rightarrow> Some ''id_out_of_window''
      | WindowReady \<Rightarrow> (if gr_snapshots rng = [] then Some ''id_current'' else None))"

definition BackfillSubscription ::
  "'w hub_env \<Rightarrow> Subscription \<Rightarrow> StreamHub \<times> 'w \<Rightarrow> BackfillOutcome \<times> StreamHub \<times> 'w" where
  "BackfillSubscription env target s =
     (case s of (h, w) \<Rightarrow>
      case he_room env of None \<Rightarrow> (nothing_done, h, w)
      | Some rc \<Rightarrow>
        let poll_id = PollRequestId (sb_request_id target) (sb_room_id target) in
        if sb_backfill_malformed target then
          (case rcl_GetState rc (sb_room_id target) poll_id w of (r, w1) \<Rightarrow>
            case ok_output r of None \<Rightarrow> (nothing_done, h, w1)
            | Some current \<Rightarrow>
                send_reset env target ''id_malformed'' current (nothing_done\<lparr>bo_attempted := True\<rparr>) (h, w1))
        else case sb_backfill_from target of None \<Rightarrow> (nothing_done, h, w)
        | Some since_frame \<Rightarrow>
          (case rcl_GetSnapshotsSince rc (sb_room_id target) since_frame poll_id w of (r, w1) \<Rightarrow>
            case ok_output r of None \<Rightarrow> (nothing_done, h, w1)
            | Some rng \<Rightarrow>
              (case window_reset_reason rng of
                 Some reason \<Rightarrow>
                   (case rcl_GetState rc (sb_room_id target) poll_id w1 of (r2, w2) \<Rightarrow>
                     case ok_output r2 of None \<Rightarrow> (nothing_done, h, w2)
                     | Some current \<Rightarrow> send_reset env target reason current nothing_done (h, w2))
               | None \<Rightarrow>
                   (case replay env target (gr_snapshots rng) (h, w1) of (ok, s2) \<Rightarrow>
                     (if \<not> ok then nothing_done\<lparr>bo_write_failed := True\<rparr>
                      else nothing_done\<lparr>bo_attempted := True, bo_frames := length (gr_snapshots rng)\<rparr>, s2)))))"

section \<open>Polling a room\<close>

type_synonym SinkRef = "nat \<times> nat"

text \<open>Write one text to a list of sinks; the ids of those that failed.\<close>

fun write_all :: "'w hub_env \<Rightarrow> string \<Rightarrow> SinkRef list \<Rightarrow> 'w \<Rightarrow> nat list \<times> 'w" where
  "write_all env data [] w = ([], w)"
| "write_all env data ((i, sink) # targets) w =
     (case he_Write env sink data w of (ok, w1) \<Rightarrow>
       (case write_all env data targets w1 of (failed, w2) \<Rightarrow> (if ok then failed else i # failed, w2)))"

definition TickRoom ::
  "'w hub_env \<Rightarrow> string \<Rightarrow> SinkRef list \<Rightarrow> string \<Rightarrow> ms \<Rightarrow> StreamHub \<times> 'w \<Rightarrow> nat list \<times> StreamHub \<times> 'w" where
  "TickRoom env room_id sinks request_id now_ms s =
     (case s of (h0, w) \<Rightarrow>
      let h = h0\<lparr>sh_room_poll_count := Suc (sh_room_poll_count h0)\<rparr> in
      case he_room env of None \<Rightarrow> ([], h, w)
      | Some rc \<Rightarrow>
        if sinks = [] then ([], h, w)
        else case rcl_GetState rc room_id request_id w of (r, w1) \<Rightarrow>
          case ok_output r of None \<Rightarrow> ([], h, w1)
          | Some snapshot \<Rightarrow>
            let current = StateSignature snapshot;
                previous = (case map_of (sh_last_pushed_state h) room_id of None \<Rightarrow> [] | Some p \<Rightarrow> p)
            in if \<not> (current \<noteq> previous \<or> terminal snapshot) then ([], h, w1)
               else
                 let h1 = SetLastPushedState room_id snapshot (terminal snapshot) h in
                 case write_all env (room_event snapshot now_ms) sinks w1 of (failed, w2) \<Rightarrow>
                   (if terminal snapshot then map fst sinks else failed, h1, w2))"

section \<open>The tick\<close>

definition should_backfill :: "Subscription \<Rightarrow> bool" where
  "should_backfill sub \<longleftrightarrow> sb_backfill_pending sub \<and> (sb_backfill_from sub \<noteq> None \<or> sb_backfill_malformed sub)"

definition heartbeat_due :: "StreamHub \<Rightarrow> ms \<Rightarrow> Subscription \<Rightarrow> bool" where
  "heartbeat_due h now_ms sub \<longleftrightarrow> now_ms - sb_last_heartbeat_ms sub \<ge> sh_heartbeat_interval_ms h"

definition stamp_created :: "ms \<Rightarrow> Subscription \<Rightarrow> Subscription" where
  "stamp_created now_ms sub =
     (if sb_created_ms sub = 0 then sub\<lparr>sb_created_ms := now_ms, sb_last_heartbeat_ms := now_ms\<rparr> else sub)"

text \<open>Phase one, under the lock: the subscriptions to replay, to poll, to greet and to ping.\<close>

record tick_plan =
  tp_backfill :: "Subscription list"
  tp_live :: "Subscription list"
  tp_ready :: "Subscription list"
  tp_heartbeat :: "Subscription list"

definition collect_tick :: "ms \<Rightarrow> StreamHub \<Rightarrow> tick_plan \<times> StreamHub" where
  "collect_tick now_ms h =
     (let subs = map_values (stamp_created now_ms) (sh_subscriptions h);
          all = map snd subs;
          polled = filter (\<lambda>s. \<not> should_backfill s) all
      in (\<lparr>tp_backfill = filter should_backfill all, tp_live = polled,
           tp_ready = filter (\<lambda>s. \<not> sb_ready_sent s) polled,
           tp_heartbeat = filter (\<lambda>s. (should_backfill s \<or> sb_ready_sent s) \<and> heartbeat_due h now_ms s) all\<rparr>,
          h\<lparr>sh_subscriptions := subs,
            sh_skipped_no_write_total := sh_skipped_no_write_total h +
              length (filter (\<lambda>s. should_backfill s \<and> \<not> heartbeat_due h now_ms s) all)\<rparr>))"

text \<open>\<^verbatim>\<open>by_room\<close>: the rooms in the order of their first subscription, each with its sinks; the request id
  of a room is the one of its last subscription.\<close>

definition rooms_of :: "Subscription list \<Rightarrow> string list" where
  "rooms_of polled = rev (remdups (rev (map sb_room_id polled)))"

definition sinks_of :: "string \<Rightarrow> Subscription list \<Rightarrow> SinkRef list" where
  "sinks_of room_id polled = map (\<lambda>s. (sb_id s, sb_sink s)) (filter (\<lambda>s. sb_room_id s = room_id) polled)"

definition room_request_id :: "string \<Rightarrow> Subscription list \<Rightarrow> string" where
  "room_request_id room_id polled =
     (case filter (\<lambda>s. sb_room_id s = room_id) (rev polled) of [] \<Rightarrow> [] | s # _ \<Rightarrow> sb_request_id s)"

text \<open>Phases two and three: the I/O without the lock.\<close>

record tick_results =
  tr_failed :: "nat list"
  tr_backfilled :: "(nat \<times> nat) list"
  tr_kept :: "nat list"
  tr_resets :: "(nat \<times> string) list"

definition no_results :: tick_results where
  "no_results = \<lparr>tr_failed = [], tr_backfilled = [], tr_kept = [], tr_resets = []\<rparr>"

definition backfill_one ::
  "'w hub_env \<Rightarrow> Subscription \<Rightarrow> tick_results \<times> StreamHub \<times> 'w \<Rightarrow> tick_results \<times> StreamHub \<times> 'w" where
  "backfill_one env target acc =
     (case acc of (res, s) \<Rightarrow>
        case BackfillSubscription env target s of (outcome, s') \<Rightarrow>
          (if bo_write_failed outcome then res\<lparr>tr_failed := tr_failed res @ [sb_id target]\<rparr>
           else
             let res1 = (if bo_attempted outcome
                   then res\<lparr>tr_backfilled := tr_backfilled res @ [(sb_id target, bo_frames outcome)]\<rparr>
                   else res\<lparr>tr_kept := tr_kept res @ [sb_id target]\<rparr>)
             in if bo_reset_sent outcome
                then res1\<lparr>tr_resets := tr_resets res1 @ [(sb_id target, bo_reset_reason outcome)]\<rparr>
                else res1, s'))"

definition poll_room ::
  "'w hub_env \<Rightarrow> ms \<Rightarrow> Subscription list \<Rightarrow> string \<Rightarrow> nat list \<times> StreamHub \<times> 'w \<Rightarrow> nat list \<times> StreamHub \<times> 'w" where
  "poll_room env now_ms polled room_id acc =
     (case acc of (failed, s) \<Rightarrow>
        case TickRoom env room_id (sinks_of room_id polled)
               (PollRequestId (room_request_id room_id polled) room_id) now_ms s of
          (failed', s') \<Rightarrow> (failed @ failed', s'))"

fun write_ready :: "'w hub_env \<Rightarrow> ms \<Rightarrow> Subscription list \<Rightarrow> 'w \<Rightarrow> nat list \<times> 'w" where
  "write_ready env now_ms [] w = ([], w)"
| "write_ready env now_ms (sub # subs) w =
     (case he_Write env (sb_sink sub)
             (SseEvent ''session.ready'' (SessionReadyJson (sb_player_id sub) (sb_room_id sub) now_ms) None) w of
        (ok, w1) \<Rightarrow> (case write_ready env now_ms subs w1 of (failed, w2) \<Rightarrow>
          (if ok then failed else sb_id sub # failed, w2)))"

text \<open>Phase four, under the lock: the results are written back and the failed subscriptions removed.\<close>

definition backfill_finished :: "ms \<Rightarrow> nat \<times> nat \<Rightarrow> (nat, Subscription) umap \<Rightarrow> (nat, Subscription) umap" where
  "backfill_finished now_ms entry = AList.map_entry (fst entry)
     (\<lambda>s. s\<lparr>sb_backfill_pending := False, sb_backfill_from := None, sb_backfill_done := True,
            sb_backfilled_frames := snd entry, sb_last_heartbeat_ms := now_ms\<rparr>)"

definition note_reset :: "nat \<times> string \<Rightarrow> (nat, Subscription) umap \<Rightarrow> (nat, Subscription) umap" where
  "note_reset entry = AList.map_entry (fst entry) (\<lambda>s. s\<lparr>sb_reset_sent := True, sb_reset_reason := snd entry\<rparr>)"

definition touch_heartbeat :: "ms \<Rightarrow> nat \<Rightarrow> (nat, Subscription) umap \<Rightarrow> (nat, Subscription) umap" where
  "touch_heartbeat now_ms i = AList.map_entry i (\<lambda>s. s\<lparr>sb_last_heartbeat_ms := now_ms\<rparr>)"

definition note_ready :: "ms \<Rightarrow> nat \<Rightarrow> (nat, Subscription) umap \<Rightarrow> (nat, Subscription) umap" where
  "note_ready now_ms i = AList.map_entry i (\<lambda>s. s\<lparr>sb_ready_sent := True, sb_last_heartbeat_ms := now_ms\<rparr>)"

definition count_reset :: "string \<Rightarrow> (string, nat) umap \<Rightarrow> (string, nat) umap" where
  "count_reset reason m = AList.update reason (Suc (case map_of m reason of None \<Rightarrow> 0 | Some n \<Rightarrow> n)) m"

text \<open>Removing the failed subscriptions closes their sinks; the removed ones are reported afterwards.\<close>

fun remove_failed :: "'w hub_env \<Rightarrow> nat list \<Rightarrow> StreamHub \<times> 'w \<Rightarrow> Subscription list \<times> StreamHub \<times> 'w" where
  "remove_failed env [] s = ([], s)"
| "remove_failed env (i # is) (h, w) =
     (case map_of (sh_subscriptions h) i of
        None \<Rightarrow> remove_failed env is (h, w)
      | Some sub \<Rightarrow>
          (case remove_failed env is
                  (h\<lparr>sh_subscriptions := AList.delete i (sh_subscriptions h),
                     sh_closed_write_failed_total := Suc (sh_closed_write_failed_total h)\<rparr>,
                   he_Close env (sb_sink sub) w) of
             (gone, s') \<Rightarrow> (sub # gone, s')))"

definition report_gone :: "'w hub_env \<Rightarrow> Subscription list \<Rightarrow> 'w \<Rightarrow> 'w" where
  "report_gone env gone w =
     fold (\<lambda>sub. ReportPresence env (sb_room_id sub) (sb_player_id sub) False (sb_request_id sub)) gone w"

definition commit_tick :: "ms \<Rightarrow> tick_plan \<Rightarrow> tick_results \<Rightarrow> StreamHub \<Rightarrow> StreamHub" where
  "commit_tick now_ms plan res h =
     h\<lparr>sh_subscriptions :=
         fold (touch_heartbeat now_ms) (map sb_id (tp_heartbeat plan))
         (fold (note_ready now_ms) (map sb_id (tp_ready plan))
         (fold (touch_heartbeat now_ms) (tr_kept res)
         (fold note_reset (tr_resets res)
         (fold (backfill_finished now_ms) (tr_backfilled res) (sh_subscriptions h))))),
       sh_backfilled_frame_count := sh_backfilled_frame_count h + sum_list (map snd (tr_backfilled res)),
       sh_reset_counts := fold count_reset (map snd (tr_resets res)) (sh_reset_counts h)\<rparr>"

definition StreamHub_Tick :: "'w hub_env \<Rightarrow> ms \<Rightarrow> StreamHub \<times> 'w \<Rightarrow> StreamHub \<times> 'w" where
  "StreamHub_Tick env now_ms s0 =
     (case collect_tick now_ms (fst s0) of (plan, h0) \<Rightarrow>
      case fold (backfill_one env) (tp_backfill plan) (no_results, h0, snd s0) of (res, s1) \<Rightarrow>
      case fold (poll_room env now_ms (tp_live plan)) (rooms_of (tp_live plan)) (tr_failed res, s1) of
        (failed1, h2, w2) \<Rightarrow>
      case write_ready env now_ms (tp_ready plan) w2 of (failed2, w3) \<Rightarrow>
      case write_all env kHeartbeat (map (\<lambda>s. (sb_id s, sb_sink s)) (tp_heartbeat plan)) w3 of (failed3, w4) \<Rightarrow>
      case remove_failed env (failed1 @ failed2 @ failed3) (commit_tick now_ms plan res h2, w4) of
        (gone, h5, w5) \<Rightarrow> (h5, report_gone env gone w5))"

section \<open>Closing\<close>

definition take_all :: "StreamHub \<Rightarrow> StreamHub" where
  "take_all h = h\<lparr>sh_subscriptions := [], sh_last_pushed_state := []\<rparr>"

definition close_one :: "'w hub_env \<Rightarrow> Subscription \<Rightarrow> 'w \<Rightarrow> 'w" where
  "close_one env sub w =
     he_Close env (sb_sink sub)
       (ReportPresence env (sb_room_id sub) (sb_player_id sub) False (sb_request_id sub) w)"

definition CloseAll :: "'w hub_env \<Rightarrow> StreamHub \<times> 'w \<Rightarrow> StreamHub \<times> 'w" where
  "CloseAll env s =
     (take_all (fst s), fold (close_one env) (map snd (sh_subscriptions (fst s))) (snd s))"

definition StreamHub_BeginShutdown :: "StreamHub \<Rightarrow> StreamHub" where
  "StreamHub_BeginShutdown h = h\<lparr>sh_draining := True\<rparr>"

definition CloseAllWithEvent :: "'w hub_env \<Rightarrow> string \<Rightarrow> StreamHub \<times> 'w \<Rightarrow> nat \<times> StreamHub \<times> 'w" where
  "CloseAllWithEvent env reason s =
     (let taken = map snd (sh_subscriptions (fst s)); h = take_all (fst s) in
      if taken = [] then (0, h, snd s)
      else
        let w1 = fold (\<lambda>sub w. snd (he_Write env (sb_sink sub)
                (SseEvent ''stream.closed'' (StreamClosedJson reason (he_SystemNowMs env w)) (Some 0)) w)) taken (snd s)
        in (length taken, h, fold (close_one env) taken w1))"

section \<open>Counters\<close>

definition OldestSubscriptionAgeMs :: "ms \<Rightarrow> StreamHub \<Rightarrow> ms" where
  "OldestSubscriptionAgeMs now_ms h =
     (case filter (\<lambda>t. t \<noteq> 0) (map (sb_created_ms \<circ> snd) (sh_subscriptions h)) of
        [] \<Rightarrow> 0 | t # ts \<Rightarrow> now_ms - fold min ts t)"

definition ConnectionCount :: "StreamHub \<Rightarrow> nat" where
  "ConnectionCount h = length (sh_subscriptions h)"

definition SubscribedRoomCount :: "StreamHub \<Rightarrow> nat" where
  "SubscribedRoomCount h = card (set (map (sb_room_id \<circ> snd) (sh_subscriptions h)))"

definition ResetEventCount :: "string \<Rightarrow> StreamHub \<Rightarrow> nat" where
  "ResetEventCount reason h = (case map_of (sh_reset_counts h) reason of None \<Rightarrow> 0 | Some n \<Rightarrow> n)"

end
