(* ===== verification/Token.thy ===== *)
theory Token
  imports RGB_Prelude
begin

unbundle bit_operations_syntax

text \<open>
  Session tokens, \<^verbatim>\<open>src/common/token.cpp\<close>. The engine \<^verbatim>\<open>std::mt19937_64\<close> is a parameter: the sequence
  of 64-bit numbers it gives for a seed. \<^verbatim>\<open>std::random_device\<close> yields one 32-bit number, the seed.
\<close>

section \<open>Generation and format\<close>

definition kCharsPerDraw :: nat where "kCharsPerDraw = 6"
definition kDrawMask :: "64 word" where "kDrawMask = push_bit kCharsPerDraw 1 - 1"
definition kMinLength :: nat where "kMinLength = 1"
definition kMaxLength :: nat where "kMaxLength = 256"
definition kDefaultTokenLength :: nat where "kDefaultTokenLength = 32"

definition kTokenAlphabet :: string where
  "kTokenAlphabet = ''ABCDEFGHIJKLMNOPQRSTUVWXYZabcdefghijklmnopqrstuvwxyz0123456789-_''"

lemmas token_consts = kCharsPerDraw_def kDrawMask_def kMinLength_def kMaxLength_def kDefaultTokenLength_def

type_synonym engine = "32 word \<Rightarrow> nat \<Rightarrow> 64 word"

text \<open>The inner loop: six bits of one draw at a time, from the lowest.\<close>

function push_chars :: "64 word \<Rightarrow> nat \<Rightarrow> nat \<Rightarrow> string \<Rightarrow> string" where
  "push_chars draw target offset token =
     (if offset < 64 \<and> length token < target
      then push_chars draw target (offset + kCharsPerDraw)
             (token @ [kTokenAlphabet ! unat (drop_bit offset draw AND kDrawMask)])
      else token)"
  by pat_completeness auto
termination by (relation "measure (\<lambda>(_, _, offset, _). 64 - offset)") (auto simp: kCharsPerDraw_def)

declare push_chars.simps [simp del]

lemma push_chars_grows:
  "length token < target \<Longrightarrow> offset < 64 \<Longrightarrow> length token < length (push_chars draw target offset token)"
proof (induction draw target offset token rule: push_chars.induct)
  case (1 draw target offset token)
  show ?case
  proof (cases "length token + 1 < target \<and> offset + kCharsPerDraw < 64")
    case True
    then show ?thesis using 1 by (subst push_chars.simps) (auto dest: Suc_lessD)
  next
    case False
    then show ?thesis using 1 by (subst push_chars.simps, subst push_chars.simps) auto
  qed
qed

text \<open>The outer loop draws until the token is long enough.\<close>

function generate_from :: "(nat \<Rightarrow> 64 word) \<Rightarrow> nat \<Rightarrow> nat \<Rightarrow> string \<Rightarrow> string" where
  "generate_from draws target i token =
     (if length token < target
      then generate_from draws target (Suc i) (push_chars (draws i) target 0 token)
      else token)"
  by pat_completeness auto
termination
  by (relation "measure (\<lambda>(_, target, _, token). target - length token)")
     (use push_chars_grows in \<open>auto intro!: diff_less_mono2\<close>)

declare generate_from.simps [simp del]

definition GenerateToken :: "engine \<Rightarrow> 32 word \<Rightarrow> nat \<Rightarrow> string" where
  "GenerateToken engine seed n = generate_from (engine seed) (max kMinLength (min n kMaxLength)) 0 []"

definition IsValidTokenFormat :: "string \<Rightarrow> bool" where
  "IsValidTokenFormat token \<longleftrightarrow> kMinLength \<le> length token \<and> length token \<le> kMaxLength \<and>
     list_all (\<lambda>c. c \<in> set kTokenAlphabet) token"

section \<open>Every character of a token\<close>

definition token_char :: "(nat \<Rightarrow> 64 word) \<Rightarrow> nat \<Rightarrow> char" where
  "token_char draws k = kTokenAlphabet ! unat (drop_bit (kCharsPerDraw * (k mod 11)) (draws (k div 11)) AND kDrawMask)"

lemma push_chars_tokens:
  "j \<le> 11 \<Longrightarrow> 11 * i + j \<le> target \<Longrightarrow>
   push_chars (draws i) target (kCharsPerDraw * j) (map (token_char draws) [0..<11 * i + j]) =
     map (token_char draws) [0..<min (11 * Suc i) target]"
proof (induction "11 - j" arbitrary: j)
  case 0
  then show ?case by (subst push_chars.simps) (simp add: kCharsPerDraw_def add.commute)
next
  case (Suc d)
  show ?case
  proof (cases "11 * i + j < target")
    case True
    have "token_char draws (11 * i + j) = kTokenAlphabet ! unat (drop_bit (kCharsPerDraw * j) (draws i) AND kDrawMask)"
      using Suc.hyps(2) by (simp add: token_char_def)
    moreover have "kCharsPerDraw * j < 64" using Suc.hyps(2) by (simp add: kCharsPerDraw_def)
    ultimately have "push_chars (draws i) target (kCharsPerDraw * j) (map (token_char draws) [0..<11 * i + j]) =
      push_chars (draws i) target (kCharsPerDraw * Suc j) (map (token_char draws) [0..<11 * i + Suc j])"
      using True by (subst push_chars.simps) (simp add: add.commute)
    then show ?thesis using Suc.hyps(1) [of "Suc j"] Suc.hyps(2) Suc.prems True by simp
  next
    case False
    then show ?thesis using Suc.prems Suc.hyps(2) by (subst push_chars.simps) (simp add: min_def)
  qed
qed

lemma generate_tokens:
  "generate_from draws target i (map (token_char draws) [0..<min (11 * i) target]) = map (token_char draws) [0..<target]"
proof (induction "target - 11 * i" arbitrary: i rule: less_induct)
  case less
  show ?case
  proof (cases "11 * i < target")
    case True
    have "push_chars (draws i) target 0 (map (token_char draws) [0..<11 * i]) =
        map (token_char draws) [0..<min (11 * Suc i) target]"
      using push_chars_tokens [of 0 i target draws] True by simp
    then show ?thesis using less [of "Suc i"] True by (subst generate_from.simps) simp
  next
    case False
    then show ?thesis by (subst generate_from.simps) simp
  qed
qed

lemma GenerateToken_chars:
  "GenerateToken engine seed n = map (token_char (engine seed)) [0..<max kMinLength (min n kMaxLength)]"
  using generate_tokens [of "engine seed" _ 0] by (simp add: GenerateToken_def)

lemma kDrawMask_mask: "kDrawMask = mask 6"
  by (simp add: token_consts mask_eq_exp_minus_1 push_bit_eq_mult)

lemma draw_index: "unat (x AND kDrawMask) < 64"
  using take_bit_nat_less_exp [of 6 "unat x"]
  by (simp add: kDrawMask_mask unsigned_take_bit_eq flip: take_bit_eq_mask)

lemma last_draw_index: "unat (drop_bit 60 (d :: 64 word) AND kDrawMask) < 16"
proof -
  have "unat d < 2 ^ 64" using unsigned_less [of d] by simp
  then have "unat d div 2 ^ 60 < 16" by (simp add: less_mult_imp_div_less)
  then have "unat (drop_bit 60 d) < 16" by (simp only: unat_drop_bit_eq) (simp only: drop_bit_eq_div)
  moreover have "unat (drop_bit 60 d AND kDrawMask) \<le> unat (drop_bit 60 d)"
    by (simp add: kDrawMask_mask unsigned_take_bit_eq flip: take_bit_eq_mask)
  ultimately show ?thesis by linarith
qed

lemma length_alphabet: "length kTokenAlphabet = 64"
  by (simp add: kTokenAlphabet_def)

lemma token_char_alphabet: "token_char draws k \<in> set kTokenAlphabet"
  unfolding token_char_def by (rule nth_mem) (simp only: length_alphabet draw_index)

lemma token_char_last: "k mod 11 = 10 \<Longrightarrow> token_char draws k \<in> set (take 16 kTokenAlphabet)"
  using last_draw_index [of "draws (k div 11)"]
  by (auto simp: token_char_def kCharsPerDraw_def length_alphabet in_set_conv_nth)

lemma GenerateToken_valid: "IsValidTokenFormat (GenerateToken engine seed n)"
  by (auto simp: IsValidTokenFormat_def GenerateToken_chars list_all_iff token_char_alphabet token_consts)

text \<open>C38: every token has the format the service checks. Generation ends after one draw per eleven
  characters, whatever the engine yields, and gives a token of the requested length (between 1 and 256)
  over the alphabet. All tokens come from one 32-bit seed, so there are at most \<open>2\<^sup>3\<^sup>2\<close> of each length,
  and every eleventh character is one of the first 16 letters.\<close>

theorem tokens_are_well_formed_but_few:
  "IsValidTokenFormat (GenerateToken engine seed n) \<and>
   length (GenerateToken engine seed n) = max 1 (min n 256) \<and>
   (\<forall>k \<in> {k. k mod 11 = 10 \<and> k < length (GenerateToken engine seed n)}.
      GenerateToken engine seed n ! k \<in> set ''ABCDEFGHIJKLMNOP'') \<and>
   card (range (\<lambda>seed. GenerateToken engine seed n)) \<le> 2 ^ 32"
proof (intro conjI ballI)
  show l: "length (GenerateToken engine seed n) = max 1 (min n 256)"
    by (simp add: GenerateToken_chars token_consts)
  show "IsValidTokenFormat (GenerateToken engine seed n)" by (rule GenerateToken_valid)
  show "GenerateToken engine seed n ! k \<in> set ''ABCDEFGHIJKLMNOP''"
    if "k \<in> {k. k mod 11 = 10 \<and> k < length (GenerateToken engine seed n)}" for k
    using that token_char_last [of k "engine seed"] l
    by (simp add: GenerateToken_chars token_consts kTokenAlphabet_def)
  show "card (range (\<lambda>seed. GenerateToken engine seed n)) \<le> 2 ^ 32"
    using card_image_le [of "UNIV :: 32 word set" "\<lambda>seed. GenerateToken engine seed n"] by (simp add: card_word)
qed

theorem tokens_are_well_formed_but_few_witness:
  "length (GenerateToken (\<lambda>seed i. word_of_nat (i * 977)) 7 32) = 32 \<and>
   GenerateToken (\<lambda>seed i. word_of_nat (i * 977)) 7 32 ! 10 \<in> set ''ABCDEFGHIJKLMNOP''"
  using tokens_are_well_formed_but_few [of "\<lambda>seed i. word_of_nat (i * 977)" 7 32]
  by (elim conjE) (drule bspec [where x = 10], simp_all)

end
