(* ===== verification/Session_Store.thy ===== *)
theory Session_Store
  imports Token Decimal Room_Client
begin

text \<open>
  Login sessions: the interface of \<^verbatim>\<open>src/gateway/session_store.hpp\<close> and its Redis implementation
  \<^verbatim>\<open>src/gateway/redis_session_store.cpp\<close>.

  hiredis and the server are not part of the repository: a connection is a record of functions on a
  state \<^typ>\<open>'r\<close> that answers a command with a reply or not at all. The fresh token and the clock reading of
  \<^verbatim>\<open>CreateSession\<close> are arguments. A command's arguments are passed as C strings. The member
  \<^verbatim>\<open>created_at_unix\<close> of a session, which nothing reads, is written but not read back.
\<close>

section \<open>The interface\<close>

datatype StoreStatus = StoreOk | StoreNotFound | StoreUnavailable

record SessionRecord =
  se_token :: string
  se_player_id :: string
  se_client_type :: string

record 'w SessionStore =
  ss_CreateSession :: "string \<Rightarrow> string \<Rightarrow> string \<Rightarrow> int \<Rightarrow> 'w \<Rightarrow> (StoreStatus \<times> string option) \<times> 'w"
  ss_GetSession :: "string \<Rightarrow> 'w \<Rightarrow> (StoreStatus \<times> SessionRecord option) \<times> 'w"
  ss_DeleteSession :: "string \<Rightarrow> 'w \<Rightarrow> StoreStatus \<times> 'w"

section \<open>The Redis store\<close>

datatype session_command = CmdGet string | CmdHset string "(string \<times> string) list" | CmdExpire string int
  | CmdSetNx string string int | CmdHmget string "string list" | CmdExists string | CmdDel string

datatype session_reply = RepString string | RepStatus string | RepNil | RepInteger int | RepError
  | RepArray "session_reply list"

record 'r SessionConnection =
  sc_EnsureConnected :: "'r \<Rightarrow> bool \<times> 'r"
  sc_Command :: "session_command \<Rightarrow> 'r \<Rightarrow> session_reply option \<times> 'r"
  sc_Discard :: "'r \<Rightarrow> 'r"

definition kIdempotencyTtlSeconds :: int where "kIdempotencyTtlSeconds = 7 * 24 * 60 * 60"

definition c_str :: "string \<Rightarrow> string" where
  "c_str s = takeWhile (\<lambda>c. c \<noteq> CHR 0x00) s"

definition ReplyAsString :: "session_reply \<Rightarrow> string option" where
  "ReplyAsString reply = (case reply of RepString s \<Rightarrow> Some s | RepStatus s \<Rightarrow> Some s | _ \<Rightarrow> None)"

definition KeyForSession :: "string \<Rightarrow> string \<Rightarrow> string" where
  "KeyForSession env_prefix token = env_prefix @ '':gateway:session:'' @ token"

definition KeyForLoginIdempotency :: "string \<Rightarrow> string \<Rightarrow> string" where
  "KeyForLoginIdempotency env_prefix request_id = env_prefix @ '':gateway:idem:login:'' @ request_id"

definition ExecuteCommand :: "'r SessionConnection \<Rightarrow> session_command \<Rightarrow> 'r \<Rightarrow> session_reply option \<times> 'r" where
  "ExecuteCommand conn cmd r0 =
     (case sc_EnsureConnected conn r0 of
        (False, r) \<Rightarrow> (None, r)
      | (True, r) \<Rightarrow>
          (case sc_Command conn cmd r of
             (None, r') \<Rightarrow> (None, sc_Discard conn r')
           | (Some reply, r') \<Rightarrow> (Some reply, r')))"

text \<open>After a lost race: the token of the winner; the session just written is removed.\<close>

definition take_winner :: "'r SessionConnection \<Rightarrow> string \<Rightarrow> string \<Rightarrow> 'r \<Rightarrow> (StoreStatus \<times> string option) \<times> 'r" where
  "take_winner conn idem_key session_key r0 =
     (case ExecuteCommand conn (CmdGet idem_key) r0 of
        (None, r) \<Rightarrow> ((StoreUnavailable, None), r)
      | (Some reply, r) \<Rightarrow>
          (case ReplyAsString reply of
             Some winner \<Rightarrow>
               if winner \<noteq> [] then ((StoreOk, Some winner), snd (ExecuteCommand conn (CmdDel session_key) r))
               else ((StoreUnavailable, None), r)
           | None \<Rightarrow> ((StoreUnavailable, None), r)))"

text \<open>The second and third step of \<^verbatim>\<open>CreateSession\<close>: write the session, limit its life, write the
  idempotency mapping.\<close>

definition write_session ::
  "'r SessionConnection \<Rightarrow> string \<Rightarrow> string \<Rightarrow> int \<Rightarrow> string \<Rightarrow> string \<Rightarrow> string \<Rightarrow> int \<Rightarrow> 'r \<Rightarrow>
   (StoreStatus \<times> string option) \<times> 'r" where
  "write_session conn env_prefix token now_unix idem_key player_id client_type ttl r0 =
     (let session_key = c_str (KeyForSession env_prefix token) in
      case ExecuteCommand conn (CmdHset session_key
             [(''token'', c_str token), (''player_id'', c_str player_id), (''client_type'', c_str client_type),
              (''created_at'', to_string now_unix)]) r0 of
        (None, r1) \<Rightarrow> ((StoreUnavailable, None), r1)
      | (Some _, r1) \<Rightarrow>
          (case ExecuteCommand conn (CmdExpire session_key ttl) r1 of
             (None, r2) \<Rightarrow> ((StoreUnavailable, None), r2)
           | (Some _, r2) \<Rightarrow>
               (case ExecuteCommand conn (CmdSetNx idem_key (c_str token)
                       (if ttl < kIdempotencyTtlSeconds then ttl else kIdempotencyTtlSeconds)) r2 of
                  (None, r3) \<Rightarrow> ((StoreUnavailable, None), r3)
                | (Some (RepStatus _), r3) \<Rightarrow> ((StoreOk, Some token), r3)
                | (Some _, r3) \<Rightarrow> take_winner conn idem_key session_key r3)))"

definition RedisSessionStore_CreateSession ::
  "'r SessionConnection \<Rightarrow> string \<Rightarrow> int \<Rightarrow> string \<Rightarrow> int \<Rightarrow> string \<Rightarrow> string \<Rightarrow> string \<Rightarrow> int \<Rightarrow> 'r \<Rightarrow>
   (StoreStatus \<times> string option) \<times> 'r" where
  "RedisSessionStore_CreateSession conn env_prefix default_ttl token now_unix request_id player_id client_type ttl_seconds r0 =
     (let ttl = (if ttl_seconds > 0 then ttl_seconds else default_ttl);
          idem_key = c_str (KeyForLoginIdempotency env_prefix request_id)
      in case ExecuteCommand conn (CmdGet idem_key) r0 of
           (None, r) \<Rightarrow> ((StoreUnavailable, None), r)
         | (Some reply, r) \<Rightarrow>
             (case ReplyAsString reply of
                Some existing \<Rightarrow>
                  if existing \<noteq> [] then ((StoreOk, Some existing), r)
                  else write_session conn env_prefix token now_unix idem_key player_id client_type ttl r
              | None \<Rightarrow> write_session conn env_prefix token now_unix idem_key player_id client_type ttl r))"

fun session_of_reply :: "session_reply option \<Rightarrow> StoreStatus \<times> SessionRecord option" where
  "session_of_reply (Some (RepArray [t, p, c, created_at])) =
     (if t = RepNil then (StoreNotFound, None)
      else case (ReplyAsString t, ReplyAsString p, ReplyAsString c) of
        (Some token, Some player, Some client) \<Rightarrow>
          (StoreOk, Some \<lparr>se_token = token, se_player_id = player, se_client_type = client\<rparr>)
      | _ \<Rightarrow> (StoreUnavailable, None))"
| "session_of_reply _ = (StoreUnavailable, None)"

definition RedisSessionStore_GetSession ::
  "'r SessionConnection \<Rightarrow> string \<Rightarrow> string \<Rightarrow> 'r \<Rightarrow> (StoreStatus \<times> SessionRecord option) \<times> 'r" where
  "RedisSessionStore_GetSession conn env_prefix token r =
     apfst session_of_reply
       (ExecuteCommand conn (CmdHmget (c_str (KeyForSession env_prefix token))
          [''token'', ''player_id'', ''client_type'', ''created_at'']) r)"

definition RedisSessionStore_DeleteSession ::
  "'r SessionConnection \<Rightarrow> string \<Rightarrow> string \<Rightarrow> 'r \<Rightarrow> StoreStatus \<times> 'r" where
  "RedisSessionStore_DeleteSession conn env_prefix token r0 =
     (let session_key = c_str (KeyForSession env_prefix token) in
      case ExecuteCommand conn (CmdExists session_key) r0 of
        (None, r) \<Rightarrow> (StoreUnavailable, r)
      | (Some exists, r) \<Rightarrow>
          (case ExecuteCommand conn (CmdDel session_key) r of
             (None, r') \<Rightarrow> (StoreUnavailable, r')
           | (Some _, r') \<Rightarrow> (if exists = RepInteger 1 then StoreOk else StoreNotFound, r')))"

section \<open>The contract\<close>

text \<open>What the service relies on: whose session a token is, as the store knows it at that moment.\<close>

locale session_store =
  fixes store :: "'w SessionStore" and player_of :: "'w \<Rightarrow> string \<Rightarrow> string option"
  assumes get_found: "ss_GetSession store t w = ((StoreOk, Some rec), w') \<Longrightarrow> player_of w t = Some (se_player_id rec)"
    and get_missing: "ss_GetSession store t w = ((StoreNotFound, x), w') \<Longrightarrow> player_of w t = None"
    and get_keeps: "player_of (snd (ss_GetSession store t w)) = player_of w"
    and get_ok: "fst (ss_GetSession store t w) = (StoreOk, x) \<Longrightarrow> x \<noteq> None"
    and deleted: "ss_DeleteSession store t w = (st, w') \<Longrightarrow> st \<noteq> StoreUnavailable \<Longrightarrow> player_of w' t = None"
    and created: "fst (ss_CreateSession store q p c ttl w) = (StoreOk, y) \<Longrightarrow> y \<noteq> None"

section \<open>A Redis server\<close>

text \<open>The documented behaviour of the seven commands on keys that hold a string or a hash and may expire,
  with a schedule of what becomes of the next commands.\<close>

datatype redis_value = RedisString string | RedisHash "(string, string) umap"

record redis_keys =
  rk_keys :: "(string, redis_value \<times> int option) umap"
  rk_now :: int
  rk_net :: "delivery list"

definition key_value :: "string \<Rightarrow> 'z redis_keys_scheme \<Rightarrow> (redis_value \<times> int option) option" where
  "key_value k sv =
     (case map_of (rk_keys sv) k of
        Some (v, Some t) \<Rightarrow> if rk_now sv < t then Some (v, Some t) else None
      | x \<Rightarrow> x)"

definition set_key :: "string \<Rightarrow> redis_value \<times> int option \<Rightarrow> 'z redis_keys_scheme \<Rightarrow> 'z redis_keys_scheme" where
  "set_key k v sv = sv\<lparr>rk_keys := AList.update k v (rk_keys sv)\<rparr>"

fun run_command :: "session_command \<Rightarrow> 'z redis_keys_scheme \<Rightarrow> session_reply \<times> 'z redis_keys_scheme" where
  "run_command (CmdGet k) sv =
     ((case key_value k sv of None \<Rightarrow> RepNil | Some (RedisString s, _) \<Rightarrow> RepString s | Some (RedisHash _, _) \<Rightarrow> RepError), sv)"
| "run_command (CmdHset k fs) sv =
     (case key_value k sv of
        None \<Rightarrow> (RepInteger (int (length fs)), set_key k (RedisHash (fold (\<lambda>(f, v). AList.update f v) fs []), None) sv)
      | Some (RedisHash h, e) \<Rightarrow>
          (RepInteger 0, set_key k (RedisHash (fold (\<lambda>(f, v). AList.update f v) fs h), e) sv)
      | Some (RedisString _, _) \<Rightarrow> (RepError, sv))"
| "run_command (CmdExpire k ttl) sv =
     (case key_value k sv of
        None \<Rightarrow> (RepInteger 0, sv)
      | Some (v, _) \<Rightarrow> (RepInteger 1, set_key k (v, Some (rk_now sv + ttl)) sv))"
| "run_command (CmdSetNx k v ttl) sv =
     (if ttl \<le> 0 then (RepError, sv)
      else case key_value k sv of
        None \<Rightarrow> (RepStatus ''OK'', set_key k (RedisString v, Some (rk_now sv + ttl)) sv)
      | Some _ \<Rightarrow> (RepNil, sv))"
| "run_command (CmdHmget k fs) sv =
     (case key_value k sv of
        None \<Rightarrow> (RepArray (map (\<lambda>_. RepNil) fs), sv)
      | Some (RedisHash h, _) \<Rightarrow>
          (RepArray (map (\<lambda>f. case map_of h f of None \<Rightarrow> RepNil | Some v \<Rightarrow> RepString v) fs), sv)
      | Some (RedisString _, _) \<Rightarrow> (RepError, sv))"
| "run_command (CmdExists k) sv = (RepInteger (if key_value k sv = None then 0 else 1), sv)"
| "run_command (CmdDel k) sv =
     (RepInteger (if key_value k sv = None then 0 else 1), sv\<lparr>rk_keys := AList.delete k (rk_keys sv)\<rparr>)"

definition redis_connection :: "'z redis_keys_scheme SessionConnection" where
  "redis_connection =
     \<lparr>sc_EnsureConnected = \<lambda>sv. (True, sv),
      sc_Command = \<lambda>cmd sv. rpc (case rk_net sv of [] \<Rightarrow> Delivered | d # _ \<Rightarrow> d) (run_command cmd)
        (sv\<lparr>rk_net := tl (rk_net sv)\<rparr>),
      sc_Discard = \<lambda>sv. sv\<rparr>"

text \<open>The store as one client sees it; the seeds of the tokens to come are part of the world.\<close>

record session_world = redis_keys +
  sw_seeds :: "32 word list"

definition fresh_token :: "engine \<Rightarrow> 'z session_world_scheme \<Rightarrow> string" where
  "fresh_token engine w = GenerateToken engine (case sw_seeds w of [] \<Rightarrow> 0 | s # _ \<Rightarrow> s) kDefaultTokenLength"

definition redis_session_store :: "engine \<Rightarrow> string \<Rightarrow> int \<Rightarrow> 'z session_world_scheme SessionStore" where
  "redis_session_store engine env_prefix default_ttl =
     \<lparr>ss_CreateSession = \<lambda>q p c ttl w.
        RedisSessionStore_CreateSession redis_connection env_prefix default_ttl (fresh_token engine w) (rk_now w) q p c ttl
          (w\<lparr>sw_seeds := tl (sw_seeds w)\<rparr>),
      ss_GetSession = RedisSessionStore_GetSession redis_connection env_prefix,
      ss_DeleteSession = RedisSessionStore_DeleteSession redis_connection env_prefix\<rparr>"

definition session_player :: "string \<Rightarrow> 'z redis_keys_scheme \<Rightarrow> string \<Rightarrow> string option" where
  "session_player env_prefix sv token =
     (case key_value (c_str (KeyForSession env_prefix token)) sv of
        Some (RedisHash h, _) \<Rightarrow> if map_of h ''token'' = None then None else map_of h ''player_id''
      | _ \<Rightarrow> None)"

section \<open>The contract holds\<close>

lemma key_value_frame [simp]:
  "key_value k (sv\<lparr>rk_net := ds\<rparr>) = key_value k sv" "key_value k (w\<lparr>sw_seeds := ss\<rparr>) = key_value k w"
  by (simp_all add: key_value_def split: option.split)

lemma key_value_set [simp]:
  "(case e of None \<Rightarrow> True | Some t \<Rightarrow> rk_now sv < t) \<Longrightarrow>
   key_value k (set_key k' (v, e) sv) = (if k = k' then Some (v, e) else key_value k sv)"
  by (auto simp: key_value_def set_key_def update_conv' split: option.splits)

lemma key_value_delete [simp]:
  "key_value k (sv\<lparr>rk_keys := AList.delete k' (rk_keys sv)\<rparr>) = (if k = k' then None else key_value k sv)"
  by (auto simp: key_value_def delete_conv' split: option.splits)

lemma set_key_now [simp]: "rk_now (set_key k v sv) = rk_now sv" "rk_net (set_key k v sv) = rk_net sv"
  by (simp_all add: set_key_def)

lemma Execute_Some:
  assumes "ExecuteCommand redis_connection cmd sv = (Some reply, sv')"
  shows "run_command cmd (sv\<lparr>rk_net := tl (rk_net sv)\<rparr>) = (reply, sv')"
  using assms
  by (auto simp: ExecuteCommand_def redis_connection_def rpc_def apfst_def map_prod_def case_prod_beta
      split: option.splits delivery.splits list.splits)

lemma Execute_world:
  "snd (ExecuteCommand redis_connection cmd sv) \<in>
     {sv\<lparr>rk_net := tl (rk_net sv)\<rparr>, snd (run_command cmd (sv\<lparr>rk_net := tl (rk_net sv)\<rparr>))}"
  by (auto simp: ExecuteCommand_def redis_connection_def rpc_def case_prod_beta
      split: option.splits delivery.splits list.splits)

text \<open>What the four fields of a session's key read as.\<close>

definition stored_session :: "string \<Rightarrow> 'z redis_keys_scheme \<Rightarrow> string \<Rightarrow> session_reply" where
  "stored_session p sv t = fst (run_command (CmdHmget (c_str (KeyForSession p t))
     [''token'', ''player_id'', ''client_type'', ''created_at'']) sv)"

lemma stored_session_player:
  shows "session_of_reply (Some (stored_session p sv t)) = (StoreOk, x) \<Longrightarrow>
     \<exists>s. x = Some s \<and> session_player p sv t = Some (se_player_id s)"
    "session_of_reply (Some (stored_session p sv t)) = (StoreNotFound, x) \<Longrightarrow> session_player p sv t = None"
proof -
  let ?k = "c_str (KeyForSession p t)"
  consider "key_value ?k sv = None" | z e where "key_value ?k sv = Some (RedisString z, e)"
    | h e where "key_value ?k sv = Some (RedisHash h, e)"
    by (metis option.exhaust redis_value.exhaust surj_pair)
  note cases = this
  show "session_of_reply (Some (stored_session p sv t)) = (StoreOk, x) \<Longrightarrow>
     \<exists>s. x = Some s \<and> session_player p sv t = Some (se_player_id s)"
    by (rule cases)
       (auto simp: stored_session_def session_player_def ReplyAsString_def split: option.splits)
  show "session_of_reply (Some (stored_session p sv t)) = (StoreNotFound, x) \<Longrightarrow> session_player p sv t = None"
    by (rule cases)
       (auto simp: stored_session_def session_player_def ReplyAsString_def split: option.splits)
qed

lemma GetSession_reads:
  "RedisSessionStore_GetSession redis_connection p t sv \<in>
     {((StoreUnavailable, None), sv\<lparr>rk_net := tl (rk_net sv)\<rparr>),
      (session_of_reply (Some (stored_session p sv t)), sv\<lparr>rk_net := tl (rk_net sv)\<rparr>)}"
proof -
  let ?cmd = "CmdHmget (c_str (KeyForSession p t)) [''token'', ''player_id'', ''client_type'', ''created_at'']"
  have run: "run_command ?cmd (sv\<lparr>rk_net := ds\<rparr>) = (stored_session p sv t, sv\<lparr>rk_net := ds\<rparr>)" for ds
    by (auto simp: stored_session_def split: option.splits redis_value.splits)
  obtain r sv1 where e: "ExecuteCommand redis_connection ?cmd sv = (r, sv1)" by (metis surj_pair)
  have w: "sv1 = sv\<lparr>rk_net := tl (rk_net sv)\<rparr>" using Execute_world [of ?cmd sv] by (simp only: e run snd_conv insert_iff empty_iff simp_thms)
  show ?thesis
  proof (cases r)
    case None
    then show ?thesis using w by (simp add: RedisSessionStore_GetSession_def e)
  next
    case (Some reply)
    then have "reply = stored_session p sv t" using Execute_Some [of ?cmd sv reply sv1] e by (simp only: run) simp
    then show ?thesis using w Some by (simp add: RedisSessionStore_GetSession_def e)
  qed
qed

lemma GetSession_replies:
  assumes "RedisSessionStore_GetSession redis_connection p t sv = ((st, x), sv')"
  shows "st = StoreOk \<Longrightarrow> \<exists>s. x = Some s \<and> session_player p sv t = Some (se_player_id s)"
    "st = StoreNotFound \<Longrightarrow> session_player p sv t = None"
proof -
  have "(st, x) = (StoreUnavailable, None) \<or> session_of_reply (Some (stored_session p sv t)) = (st, x)"
    using GetSession_reads [of p t sv] unfolding assms
    by (metis (no_types, lifting) Pair_inject empty_iff insert_iff)
  then show "st = StoreOk \<Longrightarrow> \<exists>s. x = Some s \<and> session_player p sv t = Some (se_player_id s)"
    "st = StoreNotFound \<Longrightarrow> session_player p sv t = None"
    using stored_session_player [of p sv t x] by (elim disjE; simp)+
qed

lemma GetSession_keeps: "session_player p (snd (RedisSessionStore_GetSession redis_connection p' t sv)) = session_player p sv"
  using GetSession_reads [of p' t sv] by (auto simp: fun_eq_iff session_player_def)

lemma DeleteSession_deletes:
  assumes "RedisSessionStore_DeleteSession redis_connection p t sv = (st, sv')" "st \<noteq> StoreUnavailable"
  shows "session_player p sv' t = None"
proof -
  let ?k = "c_str (KeyForSession p t)"
  obtain r1 sv1 where e: "ExecuteCommand redis_connection (CmdExists ?k) sv = (r1, sv1)" by (metis surj_pair)
  obtain r2 sv2 where d: "ExecuteCommand redis_connection (CmdDel ?k) sv1 = (r2, sv2)" by (metis surj_pair)
  have r: "r2 \<noteq> None" "sv' = sv2"
    using assms e d by (auto simp: RedisSessionStore_DeleteSession_def Let_def split: option.splits prod.splits)
  then obtain reply where "ExecuteCommand redis_connection (CmdDel ?k) sv1 = (Some reply, sv2)" using d by auto
  from Execute_Some [OF this] have "sv2 = (sv1\<lparr>rk_net := tl (rk_net sv1)\<rparr>)
      \<lparr>rk_keys := AList.delete ?k (rk_keys (sv1\<lparr>rk_net := tl (rk_net sv1)\<rparr>))\<rparr>" by simp
  then have "key_value ?k sv2 = None" by (simp only: key_value_delete simp_thms if_True)
  then show ?thesis using r(2) by (simp add: session_player_def)
qed

lemma take_winner_ok: "fst (take_winner conn i k r) = (StoreOk, y) \<Longrightarrow> y \<noteq> None"
  by (auto simp: take_winner_def split: option.splits prod.splits if_splits dest: sym)

lemma CreateSession_ok:
  "fst (RedisSessionStore_CreateSession conn p d t n q pl c ttl r) = (StoreOk, y) \<Longrightarrow> y \<noteq> None"
  by (auto simp: RedisSessionStore_CreateSession_def write_session_def Let_def
      split: option.splits prod.splits if_splits session_reply.splits dest: take_winner_ok sym)

interpretation redis_sessions: session_store "redis_session_store engine env_prefix default_ttl :: 'z session_world_scheme SessionStore"
  "session_player env_prefix" for engine env_prefix default_ttl
proof
  fix t x rec q p c ttl y st and w w' :: "'z session_world_scheme"
  let ?s = "redis_session_store engine env_prefix default_ttl :: 'z session_world_scheme SessionStore"
  show "ss_GetSession ?s t w = ((StoreOk, Some rec), w') \<Longrightarrow> session_player env_prefix w t = Some (se_player_id rec)"
    using GetSession_replies(1) by (fastforce simp: redis_session_store_def)
  show "ss_GetSession ?s t w = ((StoreNotFound, x), w') \<Longrightarrow> session_player env_prefix w t = None"
    using GetSession_replies(2) by (fastforce simp: redis_session_store_def)
  show "session_player env_prefix (snd (ss_GetSession ?s t w)) = session_player env_prefix w"
    by (simp add: redis_session_store_def GetSession_keeps)
  show "fst (ss_GetSession ?s t w) = (StoreOk, x) \<Longrightarrow> x \<noteq> None"
    by (cases "ss_GetSession ?s t w") (use GetSession_replies(1) in \<open>fastforce simp: redis_session_store_def\<close>)
  show "ss_DeleteSession ?s t w = (st, w') \<Longrightarrow> st \<noteq> StoreUnavailable \<Longrightarrow> session_player env_prefix w' t = None"
    using DeleteSession_deletes by (fastforce simp: redis_session_store_def)
  show "fst (ss_CreateSession ?s q p c ttl w) = (StoreOk, y) \<Longrightarrow> y \<noteq> None"
    using CreateSession_ok by (fastforce simp: redis_session_store_def)
qed

section \<open>Logging in\<close>

lemma c_str_append: "CHR 0x00 \<notin> set p \<Longrightarrow> c_str (p @ s) = p @ c_str s"
  unfolding c_str_def by (rule takeWhile_append2) auto

lemma session_keys:
  assumes "CHR 0x00 \<notin> set p"
  shows "c_str (KeyForSession p t) \<noteq> c_str (KeyForLoginIdempotency p q)"
    "c_str (KeyForSession p t) = c_str (KeyForSession p t') \<longleftrightarrow> c_str t = c_str t'"
  using assms c_str_append [of "'':gateway:session:''" t] c_str_append [of "'':gateway:session:''" t']
    c_str_append [of "'':gateway:idem:login:''" q]
  by (simp_all add: KeyForSession_def KeyForLoginIdempotency_def c_str_append)

lemma no_net: "rk_net sv = [] \<Longrightarrow> sv\<lparr>rk_net := []\<rparr> = sv"
  by (cases sv) simp

lemma Execute_calm: "rk_net sv = [] \<Longrightarrow> ExecuteCommand redis_connection cmd sv = apfst Some (run_command cmd sv)"
  by (simp add: ExecuteCommand_def redis_connection_def rpc_def case_prod_beta prod_eq_iff no_net)

text \<open>A request id seen before gets the token stored under it, whoever logs in.\<close>

lemma CreateSession_known:
  assumes "key_value (c_str (KeyForLoginIdempotency p q)) w = Some (RedisString t, e)" "t \<noteq> []"
    and "RedisSessionStore_CreateSession redis_connection p d tok n q pl c ttl w = ((st, y), w')"
  shows "w' = w\<lparr>rk_net := tl (rk_net w)\<rparr>" "st = StoreOk \<Longrightarrow> y = Some t" "rk_net w = [] \<Longrightarrow> st = StoreOk"
proof -
  let ?cmd = "CmdGet (c_str (KeyForLoginIdempotency p q))"
  have run: "run_command ?cmd (w\<lparr>rk_net := ds\<rparr>) = (RepString t, w\<lparr>rk_net := ds\<rparr>)" for ds
    using assms(1) by simp
  obtain r w1 where e: "ExecuteCommand redis_connection ?cmd w = (r, w1)" by (metis surj_pair)
  have w1: "w1 = w\<lparr>rk_net := tl (rk_net w)\<rparr>"
    using Execute_world [of ?cmd w] by (simp only: e run snd_conv insert_iff empty_iff simp_thms)
  have r: "r = None \<or> r = Some (RepString t)"
    using Execute_Some [of ?cmd w _ w1] e by (cases r) (simp_all only: run, simp_all)
  then show "w' = w\<lparr>rk_net := tl (rk_net w)\<rparr>" "st = StoreOk \<Longrightarrow> y = Some t"
    using assms(2,3) w1 by (auto simp: RedisSessionStore_CreateSession_def Let_def e ReplyAsString_def)
  show "rk_net w = [] \<Longrightarrow> st = StoreOk"
    using assms r e Execute_calm [of w ?cmd] by (auto simp: RedisSessionStore_CreateSession_def Let_def ReplyAsString_def)
qed

text \<open>Without network trouble a lookup reads what is stored.\<close>

lemma GetSession_calm:
  assumes "rk_net w = []"
  shows "RedisSessionStore_GetSession redis_connection p t w = (session_of_reply (Some (stored_session p w t)), w)"
  using assms by (auto simp: RedisSessionStore_GetSession_def Execute_calm stored_session_def apfst_def map_prod_def
      split: option.split redis_value.split)

lemma stored_session_hash:
  "key_value (c_str (KeyForSession p t)) w = Some (RedisHash h, e) \<Longrightarrow> map_of h ''token'' = Some tok \<Longrightarrow>
   map_of h ''player_id'' = Some pl \<Longrightarrow> map_of h ''client_type'' = Some cl \<Longrightarrow>
   session_of_reply (Some (stored_session p w t)) =
     (StoreOk, Some \<lparr>se_token = tok, se_player_id = pl, se_client_type = cl\<rparr>)"
  by (simp add: stored_session_def ReplyAsString_def)

lemma stored_session_none:
  "key_value (c_str (KeyForSession p t)) w = None \<Longrightarrow> session_of_reply (Some (stored_session p w t)) = (StoreNotFound, None)"
  by (simp add: stored_session_def)

lemma DeleteSession_calm:
  assumes "rk_net w = []"
  shows "RedisSessionStore_DeleteSession redis_connection p t w =
    (if key_value (c_str (KeyForSession p t)) w = None then StoreNotFound else StoreOk,
     w\<lparr>rk_keys := AList.delete (c_str (KeyForSession p t)) (rk_keys w)\<rparr>)"
  using assms by (simp add: RedisSessionStore_DeleteSession_def Let_def Execute_calm)

text \<open>A new request id gets a session of its own, which ends after its time to live.\<close>

lemma CreateSession_new:
  assumes nul: "CHR 0x00 \<notin> set p"
    and fresh: "key_value (c_str (KeyForLoginIdempotency p q)) w = None" "key_value (c_str (KeyForSession p tok)) w = None"
    and c: "RedisSessionStore_CreateSession redis_connection p d tok n q pl cl ttl w = ((StoreOk, y), w')"
    and t: "ttl > 0"
  shows "y = Some tok" "rk_now w' = rk_now w"
    "\<exists>h. key_value (c_str (KeyForSession p tok)) w' = Some (RedisHash h, Some (rk_now w + ttl)) \<and>
       map_of h ''token'' = Some (c_str tok) \<and> map_of h ''player_id'' = Some (c_str pl) \<and>
       map_of h ''client_type'' = Some (c_str cl)"
    "key_value (c_str (KeyForLoginIdempotency p q)) w' = Some (RedisString (c_str tok),
       Some (rk_now w + min ttl kIdempotencyTtlSeconds))"
    "k \<noteq> c_str (KeyForSession p tok) \<Longrightarrow> k \<noteq> c_str (KeyForLoginIdempotency p q) \<Longrightarrow> key_value k w' = key_value k w"
proof -
  let ?I = "c_str (KeyForLoginIdempotency p q)" and ?K = "c_str (KeyForSession p tok)"
  let ?fields = "[(''token'', c_str tok), (''player_id'', c_str pl), (''client_type'', c_str cl), (''created_at'', to_string n)]"
  let ?h = "fold (\<lambda>(f, v). AList.update f v) ?fields []" and ?ttl = "min ttl kIdempotencyTtlSeconds"
  note ne = session_keys(1) [OF nul, of tok q]
  let ?net = "\<lambda>w. w\<lparr>rk_net := tl (rk_net w)\<rparr>"
  obtain r0 w0 where e0: "ExecuteCommand redis_connection (CmdGet ?I) w = (r0, w0)" by (metis surj_pair)
  obtain r1 w1 where e1: "ExecuteCommand redis_connection (CmdHset ?K ?fields) w0 = (r1, w1)" by (metis surj_pair)
  obtain r2 w2 where e2: "ExecuteCommand redis_connection (CmdExpire ?K ttl) w1 = (r2, w2)" by (metis surj_pair)
  obtain r3 w3 where e3: "ExecuteCommand redis_connection (CmdSetNx ?I (c_str tok) ?ttl) w2 = (r3, w3)" by (metis surj_pair)
  note C = c [unfolded RedisSessionStore_CreateSession_def Let_def] e0 t
  obtain a0 where a0: "r0 = Some a0" using C by (cases r0) auto
  then have s0: "a0 = RepNil" "w0 = ?net w" using Execute_Some [of "CmdGet ?I" w a0 w0] e0 fresh(1) by auto
  have W: "write_session redis_connection p tok n ?I pl cl ttl w0 = ((StoreOk, y), w')"
    using C a0 s0 by (simp add: ReplyAsString_def)
  have ttl: "(if ttl < kIdempotencyTtlSeconds then ttl else kIdempotencyTtlSeconds) = ?ttl" "?ttl > 0"
    using t by (simp_all add: min_def kIdempotencyTtlSeconds_def)
  note W = W [unfolded write_session_def Let_def ttl(1)] e1 e2 e3
  obtain a1 where a1: "r1 = Some a1" using W by (cases r1) auto
  then have s1: "w1 = set_key ?K (RedisHash ?h, None) (?net w0)"
    using Execute_Some [of "CmdHset ?K ?fields" w0 a1 w1] e1 fresh(2) s0 by auto
  obtain a2 where a2: "r2 = Some a2" using W a1 by (cases r2) auto
  then have s2: "w2 = set_key ?K (RedisHash ?h, Some (rk_now w + ttl)) (?net w1)"
    using Execute_Some [of "CmdExpire ?K ttl" w1 a2 w2] e2 s1 s0 by auto
  obtain a3 where a3: "r3 = Some a3" using W a1 a2 by (cases r3) auto
  then have s3: "a3 = RepStatus ''OK''" "w3 = set_key ?I (RedisString (c_str tok), Some (rk_now w + ?ttl)) (?net w2)"
    using Execute_Some [of "CmdSetNx ?I (c_str tok) ?ttl" w2 a3 w3] e3 s2 s1 s0 ne fresh(1) ttl(2) t by auto
  have fin: "y = Some tok" "w' = w3" using W a1 a2 a3 s3(1) by auto
  show "y = Some tok" "rk_now w' = rk_now w" using fin s3 s2 s1 s0 by simp_all
  show "key_value ?I w' = Some (RedisString (c_str tok), Some (rk_now w + ?ttl))"
    using fin s3 s2 s1 s0 ttl(2) by simp
  have "key_value ?K w' = Some (RedisHash ?h, Some (rk_now w + ttl))"
    using fin s3 s2 s1 s0 ttl(2) ne t by simp
  then show "\<exists>h. key_value ?K w' = Some (RedisHash h, Some (rk_now w + ttl)) \<and>
       map_of h ''token'' = Some (c_str tok) \<and> map_of h ''player_id'' = Some (c_str pl) \<and>
       map_of h ''client_type'' = Some (c_str cl)" by auto
  show "k \<noteq> ?K \<Longrightarrow> k \<noteq> ?I \<Longrightarrow> key_value k w' = key_value k w"
    using fin s3 s2 s1 s0 ttl(2) t by simp
qed

text \<open>It succeeds without network trouble.\<close>

lemma CreateSession_calm:
  assumes nul: "CHR 0x00 \<notin> set p" and net: "rk_net w = []"
    and fresh: "key_value (c_str (KeyForLoginIdempotency p q)) w = None" "key_value (c_str (KeyForSession p tok)) w = None"
    and c: "RedisSessionStore_CreateSession redis_connection p d tok n q pl cl ttl w = ((st, y), w')"
    and t: "ttl > 0"
  shows "st = StoreOk" "rk_net w' = []"
proof -
  let ?I = "c_str (KeyForLoginIdempotency p q)" and ?K = "c_str (KeyForSession p tok)"
  have ttl: "(if ttl < kIdempotencyTtlSeconds then ttl else kIdempotencyTtlSeconds) > 0"
    using t by (simp add: kIdempotencyTtlSeconds_def)
  have "st = StoreOk \<and> rk_net w' = []"
    using c t ttl session_keys(1) [OF nul, of tok q] fresh net
    by (auto simp: RedisSessionStore_CreateSession_def write_session_def Let_def Execute_calm ReplyAsString_def split: if_splits)
  then show "st = StoreOk" "rk_net w' = []" by simp_all
qed

text \<open>A login that fails at the wrong moment leaves a session that never ends. When the command that
  limits the life of the new session is lost, the login is refused, but the session stays under its
  token without an expiry, at whatever later time it is asked for.\<close>

lemma failed_expire_leaves_an_eternal_session:
  assumes "CHR 0x00 \<notin> set p" "rk_net w = [Delivered, Delivered, LostRequest]"
    and "key_value (c_str (KeyForLoginIdempotency p q)) w = None" "key_value (c_str (KeyForSession p tok)) w = None"
    and "RedisSessionStore_CreateSession redis_connection p d tok n q pl cl ttl w = (r, w')"
  shows "r = (StoreUnavailable, None) \<and> session_player p (w'\<lparr>rk_now := later\<rparr>) tok = Some (c_str pl)"
proof -
  let ?I = "c_str (KeyForLoginIdempotency p q)" and ?K = "c_str (KeyForSession p tok)"
  let ?fields = "[(''token'', c_str tok), (''player_id'', c_str pl), (''client_type'', c_str cl), (''created_at'', to_string n)]"
  let ?h = "fold (\<lambda>(f, v). AList.update f v) ?fields []"
  let ?w2 = "set_key ?K (RedisHash ?h, None) (w\<lparr>rk_net := [LostRequest]\<rparr>)"
  have "ExecuteCommand redis_connection (CmdGet ?I) w = (Some RepNil, w\<lparr>rk_net := [Delivered, LostRequest]\<rparr>)"
    using assms(2,3) by (simp add: ExecuteCommand_def redis_connection_def rpc_def)
  moreover have "ExecuteCommand redis_connection (CmdHset ?K ?fields) (w\<lparr>rk_net := [Delivered, LostRequest]\<rparr>) =
      (Some (RepInteger 4), ?w2)"
    using assms(4) by (simp add: ExecuteCommand_def redis_connection_def rpc_def)
  moreover have "ExecuteCommand redis_connection (CmdExpire ?K m) ?w2 = (None, ?w2\<lparr>rk_net := []\<rparr>)" for m
    by (simp add: ExecuteCommand_def redis_connection_def rpc_def set_key_def)
  ultimately have "r = (StoreUnavailable, None)" "w' = ?w2\<lparr>rk_net := []\<rparr>"
    using assms(5) by (auto simp: RedisSessionStore_CreateSession_def write_session_def Let_def ReplyAsString_def)
  then show ?thesis by (simp add: session_player_def key_value_def set_key_def update_conv')
qed

definition new_world :: "delivery list \<Rightarrow> session_world" where
  "new_world ds = \<lparr>rk_keys = [], rk_now = 1000, rk_net = ds, sw_seeds = []\<rparr>"

lemma key_value_new [simp]: "key_value k (new_world ds) = None"
  by (simp add: key_value_def new_world_def)

end
