(* ===== verification/Player_Directory.thy ===== *)
theory Player_Directory
  imports Room_Storage
begin

text \<open>
  Who may log in: the test credentials of \<^verbatim>\<open>src/gateway/test_credentials.cpp\<close>, the password digest of
  \<^verbatim>\<open>password_hash.cpp\<close>, and the two directories of players, \<^verbatim>\<open>in_memory_player_directory.cpp\<close> and
  \<^verbatim>\<open>database_player_directory.cpp\<close> over \<^verbatim>\<open>mysql_player_reader.cpp\<close>.

  OpenSSL's SHA-256 is a parameter: it gives the bytes of the digest or fails. So is the connection's
  \<^verbatim>\<open>Query\<close>, for the two SQL texts of the reader.
\<close>

unbundle bit_operations_syntax

section \<open>Passwords\<close>

definition kDigestLength :: nat where "kDigestLength = 32"

definition kHexDigits :: string where "kHexDigits = ''0123456789abcdef''"

type_synonym digest = "string \<Rightarrow> 8 word list option"

definition hex_byte :: "8 word \<Rightarrow> string" where
  "hex_byte b = [kHexDigits ! unat (drop_bit 4 b), kHexDigits ! unat (b AND 0x0F)]"

definition HashPassword :: "digest \<Rightarrow> string \<Rightarrow> string" where
  "HashPassword sha256 password =
     (case sha256 password of
        None \<Rightarrow> []
      | Some bytes \<Rightarrow>
          if length bytes \<noteq> kDigestLength then []
          else concat (map hex_byte bytes))"

definition byte_of :: "char \<Rightarrow> 8 word" where
  "byte_of c = word_of_nat (of_char c)"

definition ConstantTimeEquals :: "string \<Rightarrow> string \<Rightarrow> bool" where
  "ConstantTimeEquals lhs rhs =
     (if length lhs \<noteq> length rhs then False
      else fold (\<lambda>(a, b) diff. diff OR (byte_of a XOR byte_of b)) (zip lhs rhs) 0 = 0)"

section \<open>Test credentials\<close>

record TestCredential =
  tc_account :: string
  tc_password_hash :: string

definition kBuiltinAccounts :: "(string \<times> string) list" where
  "kBuiltinAccounts = [(''alice'', ''alice_dev_pw''), (''bob'', ''bob_dev_pw''), (''carol'', ''carol_dev_pw''),
     (''dave'', ''dave_dev_pw'')]"

definition kSyntheticBenchPassword :: string where "kSyntheticBenchPassword = ''bench_dev_pw''"
definition kSyntheticBenchPrefix :: string where "kSyntheticBenchPrefix = ''bench-''"
definition kSyntheticBenchDigits :: nat where "kSyntheticBenchDigits = 5"

definition IsSyntheticBenchAccount :: "string \<Rightarrow> bool" where
  "IsSyntheticBenchAccount account \<longleftrightarrow>
     length account = length kSyntheticBenchPrefix + kSyntheticBenchDigits \<and>
     take (length kSyntheticBenchPrefix) account = kSyntheticBenchPrefix \<and>
     list_all is_digit (drop (length kSyntheticBenchPrefix) account)"

definition BuiltinTestCredentials :: "digest \<Rightarrow> TestCredential list" where
  "BuiltinTestCredentials sha256 =
     map (\<lambda>(account, password). \<lparr>tc_account = account, tc_password_hash = HashPassword sha256 password\<rparr>) kBuiltinAccounts"

definition FindTestPasswordHash :: "digest \<Rightarrow> bool \<Rightarrow> string \<Rightarrow> string" where
  "FindTestPasswordHash sha256 bench_enabled account =
     (case find (\<lambda>c. tc_account c = account) (BuiltinTestCredentials sha256) of
        Some c \<Rightarrow> tc_password_hash c
      | None \<Rightarrow>
          if bench_enabled \<and> IsSyntheticBenchAccount account then HashPassword sha256 kSyntheticBenchPassword else [])"

section \<open>Interfaces\<close>

datatype CredentialStatus = CredentialOk | InvalidCredential | AccountDisabled | CredentialUnavailable

record PlayerInfo =
  pi_player_id :: string
  pi_display_name :: string
  pi_status :: string

record 'w PlayerDirectory =
  pd_Authenticate :: "string \<Rightarrow> string \<Rightarrow> 'w \<Rightarrow> (CredentialStatus \<times> PlayerInfo option) \<times> 'w"
  pd_FindByPlayerId :: "string \<Rightarrow> 'w \<Rightarrow> PlayerInfo option \<times> 'w"

record PlayerRecord =
  pl_player_id :: string
  pl_account :: string
  pl_display_name :: string
  pl_status :: string

datatype ReaderStatus = ReaderOk | ReaderNotFound | ReaderUnavailable

record 'db PlayerReader =
  rd_FindByAccount :: "string \<Rightarrow> 'db \<Rightarrow> (ReaderStatus \<times> PlayerRecord option) \<times> 'db"
  rd_FindByPlayerId :: "string \<Rightarrow> 'db \<Rightarrow> (ReaderStatus \<times> PlayerRecord option) \<times> 'db"

section \<open>Directories\<close>

record DirectoryEntry =
  de_account :: string
  de_password_hash :: string
  de_player_id :: string
  de_display_name :: string
  de_status :: string

definition entry_info :: "DirectoryEntry \<Rightarrow> PlayerInfo" where
  "entry_info e = \<lparr>pi_player_id = de_player_id e, pi_display_name = de_display_name e, pi_status = de_status e\<rparr>"

definition InMemoryPlayerDirectory_Authenticate ::
  "digest \<Rightarrow> DirectoryEntry list \<Rightarrow> string \<Rightarrow> string \<Rightarrow> CredentialStatus \<times> PlayerInfo option" where
  "InMemoryPlayerDirectory_Authenticate sha256 entries account password =
     (case find (\<lambda>e. de_account e = account) entries of
        None \<Rightarrow> (InvalidCredential, None)
      | Some e \<Rightarrow>
          if \<not> ConstantTimeEquals (HashPassword sha256 password) (de_password_hash e) then (InvalidCredential, None)
          else if de_status e \<noteq> ''active'' then (AccountDisabled, None)
          else (CredentialOk, Some (entry_info e)))"

definition InMemoryPlayerDirectory_FindByPlayerId :: "DirectoryEntry list \<Rightarrow> string \<Rightarrow> PlayerInfo option" where
  "InMemoryPlayerDirectory_FindByPlayerId entries player_id =
     map_option entry_info (find (\<lambda>e. de_player_id e = player_id) entries)"

definition kBuiltinProfiles :: "(string \<times> string \<times> string \<times> string) list" where
  "kBuiltinProfiles = [(''alice'', ''p-0001'', ''Alice'', ''active''), (''bob'', ''p-0002'', ''Bob'', ''active''),
     (''carol'', ''p-0003'', ''Carol'', ''disabled'')]"

definition WithBuiltinAccounts :: "digest \<Rightarrow> bool \<Rightarrow> DirectoryEntry list" where
  "WithBuiltinAccounts sha256 bench_enabled =
     map (\<lambda>(account, player_id, display_name, status).
       \<lparr>de_account = account, de_password_hash = FindTestPasswordHash sha256 bench_enabled account,
        de_player_id = player_id, de_display_name = display_name, de_status = status\<rparr>) kBuiltinProfiles"

definition in_memory_directory :: "digest \<Rightarrow> DirectoryEntry list \<Rightarrow> 'w PlayerDirectory" where
  "in_memory_directory sha256 entries =
     \<lparr>pd_Authenticate = \<lambda>account password w. (InMemoryPlayerDirectory_Authenticate sha256 entries account password, w),
      pd_FindByPlayerId = \<lambda>player_id w. (InMemoryPlayerDirectory_FindByPlayerId entries player_id, w)\<rparr>"

datatype PlayerStatement = SelectByAccount | SelectByPlayerId

type_synonym 'db PlayerQuery = "PlayerStatement \<Rightarrow> string list \<Rightarrow> 'db \<Rightarrow> SqlRow list option \<times> 'db"

definition player_row :: "SqlRow \<Rightarrow> ReaderStatus \<times> PlayerRecord option" where
  "player_row row =
     (case row of
        [Some player_id, Some account, Some display_name, Some status] \<Rightarrow>
          (ReaderOk, Some \<lparr>pl_player_id = player_id, pl_account = account, pl_display_name = display_name,
             pl_status = status\<rparr>)
      | _ \<Rightarrow> (ReaderUnavailable, None))"

definition MysqlPlayerReader_QueryOne ::
  "'db PlayerQuery option \<Rightarrow> PlayerStatement \<Rightarrow> string \<Rightarrow> 'db \<Rightarrow> (ReaderStatus \<times> PlayerRecord option) \<times> 'db" where
  "MysqlPlayerReader_QueryOne conn sql param db =
     (case conn of None \<Rightarrow> ((ReaderUnavailable, None), db)
      | Some query \<Rightarrow>
          (case query sql [param] db of
             (None, db') \<Rightarrow> ((ReaderUnavailable, None), db')
           | (Some [], db') \<Rightarrow> ((ReaderNotFound, None), db')
           | (Some (row # _), db') \<Rightarrow> (player_row row, db')))"

definition mysql_player_reader :: "'db PlayerQuery option \<Rightarrow> 'db PlayerReader" where
  "mysql_player_reader conn = \<lparr>rd_FindByAccount = MysqlPlayerReader_QueryOne conn SelectByAccount,
     rd_FindByPlayerId = MysqlPlayerReader_QueryOne conn SelectByPlayerId\<rparr>"

definition ToPlayerInfo :: "PlayerRecord \<Rightarrow> PlayerInfo" where
  "ToPlayerInfo r = \<lparr>pi_player_id = pl_player_id r, pi_display_name = pl_display_name r, pi_status = pl_status r\<rparr>"

definition DatabasePlayerDirectory_Authenticate ::
  "digest \<Rightarrow> bool \<Rightarrow> 'db PlayerReader option \<Rightarrow> string \<Rightarrow> string \<Rightarrow> 'db \<Rightarrow> (CredentialStatus \<times> PlayerInfo option) \<times> 'db" where
  "DatabasePlayerDirectory_Authenticate sha256 bench_enabled reader account password db =
     (case reader of None \<Rightarrow> ((CredentialUnavailable, None), db)
      | Some rd \<Rightarrow>
          (case rd_FindByAccount rd account db of
             ((status, record), db') \<Rightarrow>
               (if status = ReaderUnavailable then (CredentialUnavailable, None)
                else case record of
                  None \<Rightarrow> (InvalidCredential, None)
                | Some r \<Rightarrow>
                    if status = ReaderNotFound then (InvalidCredential, None)
                    else
                      let expected_hash = FindTestPasswordHash sha256 bench_enabled account in
                      if expected_hash = [] then (InvalidCredential, None)
                      else if \<not> ConstantTimeEquals (HashPassword sha256 password) expected_hash then (InvalidCredential, None)
                      else if pl_status r \<noteq> ''active'' then (AccountDisabled, None)
                      else (CredentialOk, Some (ToPlayerInfo r)), db')))"

definition DatabasePlayerDirectory_FindByPlayerId ::
  "'db PlayerReader option \<Rightarrow> string \<Rightarrow> 'db \<Rightarrow> PlayerInfo option \<times> 'db" where
  "DatabasePlayerDirectory_FindByPlayerId reader player_id db =
     (case reader of None \<Rightarrow> (None, db)
      | Some rd \<Rightarrow>
          (case rd_FindByPlayerId rd player_id db of
             ((status, record), db') \<Rightarrow> (if status \<noteq> ReaderOk then None else map_option ToPlayerInfo record, db')))"

definition database_directory :: "digest \<Rightarrow> bool \<Rightarrow> 'db PlayerReader option \<Rightarrow> 'db PlayerDirectory" where
  "database_directory sha256 bench_enabled reader =
     \<lparr>pd_Authenticate = DatabasePlayerDirectory_Authenticate sha256 bench_enabled reader,
      pd_FindByPlayerId = DatabasePlayerDirectory_FindByPlayerId reader\<rparr>"

section \<open>What the comparison and the digest give\<close>

lemma fold_or_zero:
  "fold (\<lambda>(a, b) d. d OR f a b) xs d = 0 \<longleftrightarrow> d = (0 :: 8 word) \<and> (\<forall>(a, b) \<in> set xs. f a b = 0)"
  by (induction xs arbitrary: d) (auto simp: or_eq_0_iff)

lemma byte_of_eq [simp]: "byte_of a = byte_of b \<longleftrightarrow> a = b"
  by (simp add: byte_of_def word_of_nat_eq_iff take_bit_eq_mod)

lemma xor_zero: "a XOR b = 0 \<longleftrightarrow> a = (b :: 8 word)"
  by (metis bit.xor_self bit.xor_left_self xor.right_neutral)

lemma ConstantTimeEquals_eq [simp]: "ConstantTimeEquals a b \<longleftrightarrow> a = b"
proof (cases "length a = length b")
  case True
  then show ?thesis
    unfolding ConstantTimeEquals_def fold_or_zero xor_zero
    by (auto simp: list_eq_iff_nth_eq set_zip)
qed (auto simp: ConstantTimeEquals_def)

lemma nibbles: "unat (drop_bit 4 b) = unat b div 16" "unat (b AND 0x0F) = unat b mod 16" for b :: "8 word"
proof -
  show "unat (drop_bit 4 b) = unat b div 16" by (simp only: unat_drop_bit_eq) (simp add: drop_bit_eq_div)
  have "b AND 0x0F = take_bit 4 b" by (simp add: take_bit_eq_mask mask_eq_exp_minus_1)
  then have "unat (b AND 0x0F) = take_bit 4 (unat b)" by (simp only: unsigned_take_bit_eq)
  then show "unat (b AND 0x0F) = unat b mod 16" by (simp only: take_bit_eq_mod) simp
qed

lemma hex_byte_inj: "hex_byte a = hex_byte b \<longleftrightarrow> a = b"
proof
  assume h: "hex_byte a = hex_byte b"
  have "unat c < 256" for c :: "8 word" using unsigned_less [of c] by simp
  then have "unat c div 16 < 16" "unat c mod 16 < 16" for c :: "8 word"
    using less_mult_imp_div_less [of "unat c" 16 16] by simp_all
  moreover have "distinct kHexDigits" "length kHexDigits = 16" by (simp_all add: kHexDigits_def)
  ultimately have "unat a div 16 = unat b div 16" "unat a mod 16 = unat b mod 16"
    using h by (simp_all add: hex_byte_def nibbles nth_eq_iff_index_eq)
  then have "unat a = unat b" by (metis div_mult_mod_eq)
  then show "a = b" by (simp add: word_unat_eq_iff)
qed simp

lemma concat_hex_inj: "length xs = length ys \<Longrightarrow> concat (map hex_byte xs) = concat (map hex_byte ys) \<longleftrightarrow> xs = ys"
proof (induction xs ys rule: list_induct2)
  case (Cons x xs y ys)
  have "length (hex_byte x) = length (hex_byte y)" by (simp add: hex_byte_def)
  then show ?case using Cons.IH by (simp add: hex_byte_inj)
qed simp

definition good_digest :: "digest \<Rightarrow> bool" where
  "good_digest sha256 \<longleftrightarrow> (\<forall>pw. case sha256 pw of None \<Rightarrow> False | Some bytes \<Rightarrow> length bytes = kDigestLength)"

lemma HashPassword_good:
  assumes "good_digest sha256"
  shows "HashPassword sha256 a = HashPassword sha256 b \<longleftrightarrow> sha256 a = sha256 b" "HashPassword sha256 a \<noteq> []"
proof -
  obtain x where x: "sha256 a = Some x" "length x = kDigestLength"
    using assms unfolding good_digest_def by (cases "sha256 a") (force dest: spec [of _ a])+
  obtain y where y: "sha256 b = Some y" "length y = kDigestLength"
    using assms unfolding good_digest_def by (cases "sha256 b") (force dest: spec [of _ b])+
  have e: "HashPassword sha256 a = concat (map hex_byte x)" "HashPassword sha256 b = concat (map hex_byte y)"
    using x y by (simp_all add: HashPassword_def)
  show "HashPassword sha256 a = HashPassword sha256 b \<longleftrightarrow> sha256 a = sha256 b"
    using x y by (simp add: e concat_hex_inj)
  show "HashPassword sha256 a \<noteq> []" using x by (cases x) (simp_all add: e hex_byte_def kDigestLength_def)
qed

section \<open>Logging in\<close>

text \<open>The password of an account.\<close>

definition credential_password :: "bool \<Rightarrow> string \<Rightarrow> string option" where
  "credential_password bench_enabled account =
     (case map_of kBuiltinAccounts account of
        Some password \<Rightarrow> Some password
      | None \<Rightarrow> if bench_enabled \<and> IsSyntheticBenchAccount account then Some kSyntheticBenchPassword else None)"

lemma FindTestPasswordHash_password:
  "FindTestPasswordHash sha256 bench_enabled account =
     (case credential_password bench_enabled account of None \<Rightarrow> [] | Some pw \<Rightarrow> HashPassword sha256 pw)"
  by (simp add: FindTestPasswordHash_def credential_password_def BuiltinTestCredentials_def kBuiltinAccounts_def)


definition one_player :: "string \<Rightarrow> string PlayerReader" where
  "one_player status = \<lparr>rd_FindByAccount = \<lambda>a w. ((ReaderOk, Some \<lparr>pl_player_id = ''p-0001'', pl_account = a, pl_display_name = w,
     pl_status = status\<rparr>), w), rd_FindByPlayerId = \<lambda>_ w. ((ReaderNotFound, None), w)\<rparr>"


text \<open>The directory in memory lets everybody in when the digest does not work.\<close>

lemma in_memory_fails_open:
  assumes "sha256 = (\<lambda>_. None)"
  shows "fst (InMemoryPlayerDirectory_Authenticate sha256 (WithBuiltinAccounts sha256 b) ''alice'' password) = CredentialOk"
  by (simp add: assms InMemoryPlayerDirectory_Authenticate_def WithBuiltinAccounts_def kBuiltinProfiles_def
      FindTestPasswordHash_password credential_password_def kBuiltinAccounts_def HashPassword_def)

end
