(* ===== verification/Match_Service.thy ===== *)
theory Match_Service
  imports Match_Persist
begin

text \<open>
  The RPC surface of the match service, \<^verbatim>\<open>src/match/match_service.cpp\<close>, and the placeholder room
  allocator of \<^verbatim>\<open>src/match/room_allocator.cpp\<close>. A handler gets the request's fields, the clock
  reading and the service's queue; the counters of the four events are part of the state. The
  human-readable message of an error, log lines and the registration of the gauges are left out.
\<close>

section \<open>Messages\<close>

datatype ProtoMatchState = MATCH_STATE_UNSPECIFIED | MATCH_STATE_IDLE | MATCH_STATE_QUEUED
  | MATCH_STATE_MATCHED | MATCH_STATE_TIMEOUT

datatype MatchErrorCode = MATCH_ERROR_CODE_UNSPECIFIED | MATCH_INVALID_ARGUMENT | MATCH_ALREADY_QUEUED
  | MATCH_QUEUE_FULL | MATCH_INTERNAL | MATCH_SHUTTING_DOWN

record MatchError =
  er_code :: MatchErrorCode
  er_reason :: string
  er_request_id :: string

record MatchStatus =
  st_state :: ProtoMatchState
  st_request_id :: string
  st_match_id :: string
  st_room_id :: string
  st_player_ids :: "string list"
  st_queued_at_ms :: int
  st_queue_size :: int

record MatchResponse =
  mr_error :: "MatchError option"
  mr_status :: "MatchStatus option"

section \<open>Conversions\<close>

fun match_ToProtoState :: "MatchState \<Rightarrow> ProtoMatchState" where
  "match_ToProtoState StateIdle = MATCH_STATE_IDLE"
| "match_ToProtoState StateQueued = MATCH_STATE_QUEUED"
| "match_ToProtoState StateMatched = MATCH_STATE_MATCHED"
| "match_ToProtoState StateTimeout = MATCH_STATE_TIMEOUT"

text \<open>\<^verbatim>\<open>static_cast<std::int32_t>\<close> of a size.\<close>

definition size_to_int32 :: "nat \<Rightarrow> int" where
  "size_to_int32 n = sint (word_of_nat n :: 32 word)"

definition FillError :: "MatchErrorCode \<Rightarrow> string \<Rightarrow> string \<Rightarrow> MatchError option" where
  "FillError code reason request_id =
     Some \<lparr>er_code = code, er_reason = reason, er_request_id = request_id\<rparr>"

definition FillStatus :: "MatchStatusSnapshot \<Rightarrow> MatchStatus" where
  "FillStatus snapshot =
     \<lparr>st_state = match_ToProtoState (ms_state snapshot), st_request_id = ms_request_id snapshot,
      st_match_id = ms_match_id snapshot, st_room_id = ms_room_id snapshot,
      st_player_ids = ms_player_ids snapshot, st_queued_at_ms = ms_queued_at_ms snapshot,
      st_queue_size = size_to_int32 (ms_queue_size snapshot)\<rparr>"

section \<open>Handlers\<close>

record MatchServiceImpl =
  event_enqueued :: nat
  event_rejected :: nat
  event_paired :: nat
  event_canceled :: nat

type_synonym 'srv match_state = "MatchQueue \<times> 'srv"

text \<open>The accounting of \<^verbatim>\<open>EnqueueMatch\<close>; for a queued player it asks the queue once itself.\<close>

definition count_enqueue ::
  "'srv RoomAllocator option \<Rightarrow> string \<Rightarrow> ms \<Rightarrow> EnqueueOutcome \<Rightarrow>
   MatchServiceImpl \<times> 'srv match_state \<Rightarrow> MatchServiceImpl \<times> 'srv match_state" where
  "count_enqueue allocator player_id now_ms outcome s =
     (let c = (fst s)\<lparr>event_enqueued := Suc (event_enqueued (fst s))\<rparr> in
      case outcome of
        EnqueueQueued \<Rightarrow>
          (case GetStatus allocator player_id now_ms (snd s) of (snapshot, s') \<Rightarrow>
            (if ms_state snapshot = StateMatched then c\<lparr>event_paired := Suc (event_paired c)\<rparr> else c, s'))
      | _ \<Rightarrow> (c\<lparr>event_rejected := Suc (event_rejected c)\<rparr>, snd s))"

definition MatchService_EnqueueMatch ::
  "'srv RoomAllocator option \<Rightarrow> string \<Rightarrow> string \<Rightarrow> ms \<Rightarrow>
   MatchServiceImpl \<times> 'srv match_state \<Rightarrow> MatchResponse \<times> MatchServiceImpl \<times> 'srv match_state" where
  "MatchService_EnqueueMatch allocator request_id player_id now_ms s0 =
     (case Enqueue allocator player_id request_id now_ms (snd s0) of
        (outcome, ms1) \<Rightarrow>
          (case count_enqueue allocator player_id now_ms outcome (fst s0, ms1) of
             (c, ms2) \<Rightarrow>
               (case outcome of
                  EnqueueQueued \<Rightarrow>
                    (case GetStatus allocator player_id now_ms ms2 of (snapshot, ms3) \<Rightarrow>
                      (\<lparr>mr_error = None, mr_status = Some (FillStatus snapshot)\<rparr>, c, ms3))
                | EnqueueAlreadyQueued \<Rightarrow>
                    (case GetStatus allocator player_id now_ms ms2 of (snapshot, ms3) \<Rightarrow>
                      (\<lparr>mr_error = FillError MATCH_ALREADY_QUEUED ''already_queued'' request_id,
                        mr_status = Some (FillStatus snapshot)\<rparr>, c, ms3))
                | EnqueueQueueFull \<Rightarrow>
                    (\<lparr>mr_error = FillError MATCH_QUEUE_FULL ''queue_full'' request_id, mr_status = None\<rparr>, c, ms2)
                | EnqueueShuttingDown \<Rightarrow>
                    (\<lparr>mr_error = FillError MATCH_SHUTTING_DOWN ''shutting_down'' request_id, mr_status = None\<rparr>, c, ms2)
                | EnqueueInvalidArgument \<Rightarrow>
                    (\<lparr>mr_error = FillError MATCH_INVALID_ARGUMENT ''invalid_argument'' request_id,
                      mr_status = None\<rparr>, c, ms2))))"

definition MatchService_GetMatchStatus ::
  "'srv RoomAllocator option \<Rightarrow> string \<Rightarrow> ms \<Rightarrow>
   MatchServiceImpl \<times> 'srv match_state \<Rightarrow> MatchResponse \<times> MatchServiceImpl \<times> 'srv match_state" where
  "MatchService_GetMatchStatus allocator player_id now_ms s =
     (case GetStatus allocator player_id now_ms (snd s) of (snapshot, ms') \<Rightarrow>
       (\<lparr>mr_error = None, mr_status = Some (FillStatus snapshot)\<rparr>, fst s, ms'))"

definition MatchService_CancelMatch ::
  "'srv RoomAllocator option \<Rightarrow> string \<Rightarrow> ms \<Rightarrow>
   MatchServiceImpl \<times> 'srv match_state \<Rightarrow> MatchResponse \<times> MatchServiceImpl \<times> 'srv match_state" where
  "MatchService_CancelMatch allocator player_id now_ms s =
     (case s of (c, q, srv) \<Rightarrow>
        (case Cancel player_id now_ms q of (canceled, q1) \<Rightarrow>
          (let c' = (if canceled then c\<lparr>event_canceled := Suc (event_canceled c)\<rparr> else c) in
           case GetStatus allocator player_id now_ms (q1, srv) of (snapshot, ms') \<Rightarrow>
             (\<lparr>mr_error = None, mr_status = Some (FillStatus snapshot)\<rparr>, c', ms'))))"

datatype service_call = RpcEnqueue string string ms | RpcStatus string ms | RpcCancel string ms

fun serve :: "'srv RoomAllocator option \<Rightarrow> service_call \<Rightarrow>
    MatchServiceImpl \<times> 'srv match_state \<Rightarrow> MatchResponse \<times> MatchServiceImpl \<times> 'srv match_state" where
  "serve a (RpcEnqueue r p n) s = MatchService_EnqueueMatch a r p n s"
| "serve a (RpcStatus p n) s = MatchService_GetMatchStatus a p n s"
| "serve a (RpcCancel p n) s = MatchService_CancelMatch a p n s"

fun called_player :: "service_call \<Rightarrow> string" where
  "called_player (RpcEnqueue r p n) = p"
| "called_player (RpcStatus p n) = p"
| "called_player (RpcCancel p n) = p"

primrec serve_all :: "'srv RoomAllocator option \<Rightarrow> service_call list \<Rightarrow>
    MatchServiceImpl \<times> 'srv match_state \<Rightarrow> MatchResponse list \<times> MatchServiceImpl \<times> 'srv match_state" where
  "serve_all a [] s = ([], s)"
| "serve_all a (call # calls) s =
     (case serve a call s of (r, s') \<Rightarrow> (case serve_all a calls s' of (rs, s'') \<Rightarrow> (r # rs, s'')))"

definition DerivedRoomAllocator_Allocate :: "'srv RoomAllocator" where
  "DerivedRoomAllocator_Allocate match_id player_ids request_id srv =
     (if match_id = [] then [] else ''room-'' @ match_id, srv)"

section \<open>The size field\<close>

lemma size_to_int32_exact: "n < 2 ^ 31 \<Longrightarrow> size_to_int32 n = int n"
  unfolding size_to_int32_def
  by (simp add: sint_uint unsigned_of_nat take_bit_nat_eq_self flip: of_nat_take_bit)
     (simp add: signed_take_bit_int_eq_self)

text \<open>The length of the queue through the sections, when no group is in flight between the calls.\<close>

lemma length_put_back: "length (mq_queue (put_back p q)) \<le> Suc (length (mq_queue q))"
  by (simp add: put_back_def split: option.split)

lemma length_put_backs: "length (mq_queue (foldr put_back ps q)) \<le> length ps + length (mq_queue q)"
proof (induction ps)
  case (Cons p ps)
  then show ?case using length_put_back [of p "foldr put_back ps q"] by simp
qed simp

lemma length_Commit:
  "length (mq_queue (CommitGroupLocked g room n q)) \<le> length (pg_player_ids g) + length (mq_queue q)"
proof -
  have "length (mq_queue (foldr put_back (filter P (filter R (pg_player_ids g))) q'))
      \<le> length (pg_player_ids g) + length (mq_queue q')" for P R q'
    using length_put_backs [of "filter P (filter R (pg_player_ids g))" q'] length_filter_le [of P "filter R (pg_player_ids g)"]
      length_filter_le [of R "pg_player_ids g"] by linarith
  note bound = this [of "\<lambda>p. \<not> cancel_requested (mq_entries q) p" "\<lambda>p. map_of (mq_entries q) p \<noteq> None"]
  show ?thesis unfolding CommitGroupLocked_def Let_def
    by (cases "room \<noteq> [] \<and> filter (cancel_requested (mq_entries q))
          (filter (\<lambda>p. map_of (mq_entries q) p \<noteq> None) (pg_player_ids g)) = []")
       (simp, simp only: if_False, rule le_trans [OF bound], simp)
qed

lemma length_commits:
  "length (mq_queue (fst (fold (allocate_and_commit a n) gs s)))
     \<le> length (concat (map pg_player_ids gs)) + length (mq_queue (fst s))"
proof (induction gs arbitrary: s)
  case (Cons g gs)
  obtain room q srv where al: "AllocateRoomFor a g s = (room, q, srv)" by (metis surj_pair)
  have "mq_queue q = mq_queue (fst s)" using core_AllocateRoomFor [OF al] by (simp add: core_def)
  then show ?case
    using Cons.IH [of "(CommitGroupLocked g room n q, srv)"] length_Commit [of g room n q]
    by (simp add: allocate_and_commit_def al)
qed simp

text \<open>The configured maximum never changes.\<close>

lemma max_size_put_backs [simp]: "mq_max_queue_size (foldr put_back ps q) = mq_max_queue_size q"
  by (induction ps) (simp_all add: put_back_def split: option.split)

lemma max_size_commits:
  "mq_max_queue_size (fst (fold (allocate_and_commit a n) gs s)) = mq_max_queue_size (fst s)"
  by (induction gs arbitrary: s)
     (auto simp: allocate_and_commit_def AllocateRoomFor_def CommitGroupLocked_def Let_def
       split: option.splits prod.splits)

lemma max_size_Take: "mq_max_queue_size (snd (TakePairGroupsLocked q)) = mq_max_queue_size q"
proof (induction q rule: TakePairGroupsLocked.induct)
  case (1 q)
  then show ?case by (subst TakePairGroupsLocked.simps) (auto split: prod.splits)
qed

definition within :: "nat \<Rightarrow> MatchQueue \<Rightarrow> bool" where
  "within m q \<longleftrightarrow> queue_inv (q, []) \<and> length (mq_queue q) \<le> m \<and> mq_max_queue_size q = m"

lemma within_Sweep:
  assumes "within m q" "SweepLocked n q = (ch, q')"
  shows "within m q'"
proof -
  have i: "queue_inv (q, [])" using assms(1) by (simp add: within_def)
  then have "mq_queue q' = filter (\<lambda>p. \<not> overdue n q p) (mq_queue q)"
    using Sweep_closed(1) [OF assms(2)] by (simp add: queue_inv_def entries_inv_def)
  then have "length (mq_queue q') \<le> length (mq_queue q)" by simp
  then show ?thesis
    using assms(1) queue_inv_Sweep [OF i assms(2)] Sweep_frame(6) [OF assms(2)] by (simp add: within_def)
qed

lemma within_RunPairing:
  assumes "within m q" "RunPairingRound a n (q, srv) = (b, q', srv')"
  shows "within m q'"
proof -
  have i: "queue_inv (q, [])" using assms(1) by (simp add: within_def)
  obtain gs q1 where t: "TakePairGroupsLocked q = (gs, q1)" by fastforce
  have sp: "concat (map pg_player_ids gs) @ mq_queue q1 = mq_queue q" using Take_spec [OF i t] by blast
  then have len: "length (concat (map pg_player_ids gs)) + length (mq_queue q1) = length (mq_queue q)"
    by (metis length_append)
  have "mq_max_queue_size q1 = mq_max_queue_size q" using max_size_Take [of q] t by simp
  moreover have "q' = q \<or> q' = q1 \<or> q' = HandOffToWorker gs n q1
      \<or> q' = fst (fold (allocate_and_commit a n) gs (q1, srv))"
    using assms(2) t by (auto simp: RunPairingRound_def split: if_splits)
  ultimately have "length (mq_queue q') \<le> length (mq_queue q) \<and> mq_max_queue_size q' = mq_max_queue_size q"
    using len length_commits [of a n gs "(q1, srv)"] max_size_commits [of a n gs "(q1, srv)"]
    by (auto simp: HandOffToWorker_def)
  moreover have "queue_inv (q', [])" by (rule queue_inv_run_to [OF run_to_RunPairingRound [OF assms(2)] i])
  ultimately show ?thesis using assms(1) by (simp add: within_def)
qed

lemma within_mark: "within m (fst s) \<Longrightarrow> within m (fst (mark_if b n s))"
  using queue_inv_run_to [OF run_to_mark_if [of s "[]" b n]]
  by (auto simp: within_def mark_if_def MarkSnapshotDirty_def)

lemma within_Enqueue:
  assumes "within m q" "Enqueue a p r n (q, srv) = (out, q', srv')"
  shows "within m q'"
proof (cases "p = [] \<or> length p > kMaxPlayerIdLength \<or> r = [] \<or> length r > kMaxRequestIdLength \<or> mq_shutting_down q")
  case True
  then show ?thesis using assms by (auto simp: Enqueue_def split: if_splits)
next
  case False
  obtain o' ch q1 where e: "EnqueueLocked p r n q = ((o', ch), q1)" by (metis surj_pair)
  obtain b q2 srv2 where rp: "RunPairingRound a n (q1, srv) = (b, q2, srv2)" by (metis surj_pair)
  obtain ch0 q0 where s: "SweepLocked n q = (ch0, q0)" by fastforce
  have "within m q0" by (rule within_Sweep [OF assms(1) s])
  moreover have "queue_inv (q1, [])"
    using queue_inv_run_to [OF run_to_step [OF enqueue [OF e]]] assms(1) by (simp add: within_def)
  ultimately have "within m q1"
    using e s by (auto simp: EnqueueLocked_def within_def split: option.splits if_splits)
  then have "within m q2" using rp by (rule within_RunPairing)
  moreover have "q' = fst (mark_if (ch \<or> b) n (q2, srv2))" using assms(2) False e rp by (auto simp: Enqueue_def)
  ultimately show ?thesis using within_mark by fastforce
qed

lemma within_Cancel:
  assumes "within m q" "Cancel p n q = (b, q')"
  shows "within m q'"
proof -
  obtain ch0 q0 where s: "SweepLocked n q = (ch0, q0)" by fastforce
  have "within m q0" by (rule within_Sweep [OF assms(1) s])
  moreover have "queue_inv (q', [])"
    using queue_inv_run_to [OF run_to_Cancel [OF assms(2)]] assms(1) by (simp add: within_def)
  ultimately show ?thesis
    using assms(2) s
    by (auto simp: Cancel_def CancelLocked_def within_def RemoveFromQueueLocked_def MarkSnapshotDirty_def
        length_remove1 split: option.splits if_splits)
qed

lemma within_GetStatus:
  assumes "within m q" "GetStatus a p n (q, srv) = (snap, q', srv')"
  shows "within m q' \<and> ms_queue_size snap \<le> m"
proof -
  obtain ch q1 where s: "SweepLocked n q = (ch, q1)" by fastforce
  obtain b q2 srv2 where rt: "RetryPairingIfNeeded a n (q1, srv) = (b, q2, srv2)" by (metis surj_pair)
  have w1: "within m q1" by (rule within_Sweep [OF assms(1) s])
  then have "within m (q1\<lparr>mq_retry_pairing := False\<rparr>)" by (simp add: within_def queue_inv_def)
  then have "within m q2"
    using rt w1 within_RunPairing by (auto simp: RetryPairingIfNeeded_def split: if_splits)
  moreover have "q' = fst (mark_if (ch \<or> b) n (q2, srv2))" "snap = SnapshotLocked p q1"
    using assms(2) s rt by (simp_all add: GetStatus_def)
  moreover have "ms_queue_size (SnapshotLocked p q1) = length (mq_queue q1)"
    by (simp add: SnapshotLocked_def split: option.split)
  ultimately show ?thesis using w1 within_mark [of m "(q2, srv2)"] by (simp add: within_def)
qed

text \<open>An RPC is a few calls of the queue; what every one of them keeps, the RPC keeps.\<close>

definition kept_by_calls :: "'srv RoomAllocator option \<Rightarrow> (MatchQueue \<times> 'srv \<Rightarrow> bool) \<Rightarrow> bool" where
  "kept_by_calls a I \<longleftrightarrow>
     (\<forall>p r n s out s'. I s \<longrightarrow> Enqueue a p r n s = (out, s') \<longrightarrow> I s') \<and>
     (\<forall>p n q srv b q'. I (q, srv) \<longrightarrow> Cancel p n q = (b, q') \<longrightarrow> I (q', srv)) \<and>
     (\<forall>p n s snap s'. I s \<longrightarrow> GetStatus a p n s = (snap, s') \<longrightarrow> I s')"

definition answer_of :: "MatchResponse \<Rightarrow> (MatchStatusSnapshot \<Rightarrow> bool) \<Rightarrow> bool" where
  "answer_of r P \<longleftrightarrow> (mr_status r \<noteq> None \<longrightarrow> (\<exists>snap. P snap \<and> mr_status r = Some (FillStatus snap)))"

lemma serve_by_calls:
  assumes "kept_by_calls a I" "I (snd s)" "serve a call s = (r, s')"
    and "\<And>n t snap t'. I t \<Longrightarrow> GetStatus a (called_player call) n t = (snap, t') \<Longrightarrow> P snap t'"
  shows "I (snd s') \<and> answer_of r (\<lambda>snap. P snap (snd s'))"
proof -
  obtain c q srv where s: "s = (c, q, srv)" by (metis surj_pair)
  have E: "\<And>p r n s out s'. I s \<Longrightarrow> Enqueue a p r n s = (out, s') \<Longrightarrow> I s'"
    and C: "\<And>p n q srv b q'. I (q, srv) \<Longrightarrow> Cancel p n q = (b, q') \<Longrightarrow> I (q', srv)"
    and G: "\<And>p n s snap s'. I s \<Longrightarrow> GetStatus a p n s = (snap, s') \<Longrightarrow> I s'"
    using assms(1) unfolding kept_by_calls_def by blast+
  show ?thesis
  proof (cases call)
    case (RpcEnqueue rq p n)
    obtain out t1 where e: "Enqueue a p rq n (q, srv) = (out, t1)" by (metis surj_pair)
    have i1: "I t1" using E [OF _ e] assms(2) s by simp
    obtain c2 t2 where ce: "count_enqueue a p n out (c, t1) = (c2, t2)" by (metis surj_pair)
    have i2: "I t2" using ce i1 G by (auto simp: count_enqueue_def Let_def split: EnqueueOutcome.splits prod.splits)
    obtain snap t3 where g: "GetStatus a p n t2 = (snap, t3)" by (metis surj_pair)
    note i3 = G [OF i2 g] and pg = assms(4) [unfolded RpcEnqueue called_player.simps, OF i2 g]
    show ?thesis
      using assms(3) i2 i3 pg
      by (auto simp: RpcEnqueue s MatchService_EnqueueMatch_def e ce g answer_of_def split: EnqueueOutcome.splits)
  next
    case (RpcStatus p n)
    obtain snap t where g: "GetStatus a p n (q, srv) = (snap, t)" by (metis surj_pair)
    show ?thesis
      using assms(2,3) G [OF _ g] assms(4) [unfolded RpcStatus called_player.simps, OF _ g]
      by (auto simp: RpcStatus s MatchService_GetMatchStatus_def g answer_of_def)
  next
    case (RpcCancel p n)
    obtain b q1 where cn: "Cancel p n q = (b, q1)" by fastforce
    have i1: "I (q1, srv)" using C [OF _ cn] assms(2) s by simp
    obtain snap t where g: "GetStatus a p n (q1, srv) = (snap, t)" by (metis surj_pair)
    show ?thesis
      using assms(3) G [OF i1 g] assms(4) [unfolded RpcCancel called_player.simps, OF i1 g]
      by (auto simp: RpcCancel s MatchService_CancelMatch_def cn g answer_of_def Let_def)
  qed
qed

lemma within_kept: "kept_by_calls a (\<lambda>s. within m (fst s))"
  unfolding kept_by_calls_def
proof (intro conjI allI impI)
  fix p r n s out s' assume "within m (fst s)" "Enqueue a p r n s = (out, s')"
  then show "within m (fst s')" using within_Enqueue [of m "fst s" a p r n "snd s" out "fst s'" "snd s'"] by simp
next
  fix p n q b q' fix srv :: 'a assume "within m (fst (q, srv))" "Cancel p n q = (b, q')"
  then show "within m (fst (q', srv))" using within_Cancel [of m q p n b q'] by simp
next
  fix p n s snap s' assume "within m (fst s)" "GetStatus a p n s = (snap, s')"
  then show "within m (fst s')" using within_GetStatus [of m "fst s" a p n "snd s" snap "fst s'" "snd s'"] by simp
qed

lemma serve_all_within:
  assumes "within m (fst (snd s))" "serve_all a calls s = (rs, s')" "m < 2 ^ 31"
  shows "within m (fst (snd s')) \<and>
    (\<forall>r \<in> set rs. \<forall>st. mr_status r = Some st \<longrightarrow> 0 \<le> st_queue_size st \<and> st_queue_size st \<le> int m)"
  using assms(1,2)
proof (induction calls arbitrary: s rs)
  case (Cons call calls)
  obtain r s1 where s1: "serve a call s = (r, s1)" by (metis prod.exhaust)
  obtain rs1 where s2: "serve_all a calls s1 = (rs1, s')" and rs: "rs = r # rs1"
    using Cons.prems(2) s1 by (auto split: prod.splits)
  have "within m (fst (snd s1)) \<and> answer_of r (\<lambda>snap. ms_queue_size snap \<le> m)"
  proof (rule serve_by_calls [OF within_kept Cons.prems(1) s1, where P = "\<lambda>snap t. ms_queue_size snap \<le> m"])
    fix n t snap t' assume "within m (fst t)" "GetStatus a (called_player call) n t = (snap, t')"
    then show "ms_queue_size snap \<le> m"
      using within_GetStatus [of m "fst t" a _ n "snd t" snap "fst t'" "snd t'"] by simp
  qed
  moreover from this have "\<forall>st. mr_status r = Some st \<longrightarrow> 0 \<le> st_queue_size st \<and> st_queue_size st \<le> int m"
    using assms(3) size_to_int32_exact by (auto simp: answer_of_def FillStatus_def)
  ultimately show ?case using Cons.IH [OF _ s2] rs by auto
qed simp


definition no_events :: MatchServiceImpl where
  "no_events = \<lparr>event_enqueued = 0, event_rejected = 0, event_paired = 0, event_canceled = 0\<rparr>"


section \<open>Answers and the queue\<close>

text \<open>With an allocator that never fails no pairing is left to retry, so a poll changes nothing after
  the snapshot it returns.\<close>

definition always_allocates :: "'srv RoomAllocator \<Rightarrow> bool" where
  "always_allocates f \<longleftrightarrow> (\<forall>mid ps req srv. mid \<noteq> [] \<longrightarrow> fst (f mid ps req srv) \<noteq> [])"

lemma retry_put_backs [simp]: "mq_retry_pairing (foldr put_back ps q) = mq_retry_pairing q"
  by (induction ps) (simp_all add: put_back_def split: option.split)

lemma retry_Commit: "mq_retry_pairing (CommitGroupLocked g room n q) \<Longrightarrow> mq_retry_pairing q \<or> room = []"
  by (auto simp: CommitGroupLocked_def Let_def split: if_splits)

lemma retry_commits:
  assumes "always_allocates f" "\<forall>g \<in> set gs. pg_match_id g \<noteq> []" "\<not> mq_retry_pairing (fst s)"
  shows "\<not> mq_retry_pairing (fst (fold (allocate_and_commit (Some f) n) gs s))"
  using assms(2,3)
proof (induction gs arbitrary: s)
  case (Cons g gs)
  obtain room srv where f: "f (pg_match_id g) (pg_player_ids g) (pg_request_id g) (snd s) = (room, srv)"
    by fastforce
  have "room \<noteq> []" using assms(1) Cons.prems(1) f unfolding always_allocates_def by (metis fst_conv list.set_intros(1))
  then have "\<not> mq_retry_pairing (fst (allocate_and_commit (Some f) n g s))"
    using Cons.prems(2) retry_Commit by (fastforce simp: allocate_and_commit_def AllocateRoomFor_def f)
  then show ?case using Cons by simp
qed simp

definition settled :: "MatchQueue \<times> 'srv \<Rightarrow> bool" where
  "settled s \<longleftrightarrow> queue_inv (fst s, []) \<and> \<not> mq_retry_pairing (fst s)"

lemma settled_mark: "settled s \<Longrightarrow> settled (mark_if b n s)"
  using queue_inv_run_to [OF run_to_mark_if [of s "[]" b n]]
  by (auto simp: settled_def mark_if_def MarkSnapshotDirty_def)

lemma settled_RunPairing:
  assumes "always_allocates f" "settled s" "RunPairingRound (Some f) n s = (b, s')"
  shows "settled s'"
proof -
  obtain q srv q' srv' where s: "s = (q, srv)" "s' = (q', srv')" by fastforce
  have i: "queue_inv (q, [])" using assms(2) s by (simp add: settled_def)
  have i': "queue_inv (q', [])" using queue_inv_run_to [OF run_to_RunPairingRound [OF assms(3) [unfolded s]] i] .
  obtain gs q1 where t: "TakePairGroupsLocked q = (gs, q1)" by fastforce
  have nr: "\<not> mq_retry_pairing q1" and "queue_inv (q1, gs)"
    using Take_spec [OF i t] assms(2) s by (simp_all add: settled_def)
  then have "\<forall>g \<in> set gs. pg_match_id g \<noteq> []"
    by (auto simp: queue_inv_def entries_inv_def group_ok_def)
  then have "\<not> mq_retry_pairing (fst (fold (allocate_and_commit (Some f) n) gs (q1, srv)))"
    using retry_commits [OF assms(1)] nr by simp
  then show ?thesis
    using assms(2,3) s i' nr t
    by (auto simp: settled_def RunPairingRound_def HandOffToWorker_def split: if_splits)
qed

lemma settled_GetStatus:
  assumes "settled t" "GetStatus a p n t = (snap, t')"
  shows "settled t' \<and> snap = SnapshotLocked p (fst t')"
proof -
  obtain q srv where t: "t = (q, srv)" by fastforce
  obtain ch q1 where s: "SweepLocked n q = (ch, q1)" by fastforce
  have q1: "queue_inv (q1, [])" "\<not> mq_retry_pairing q1"
    using assms(1) queue_inv_Sweep [OF _ s] Sweep_frame(5) [OF s] by (simp_all add: settled_def t)
  have "t' = mark_if ch n (q1, srv)" "snap = SnapshotLocked p q1"
    using assms(2) q1(2) by (simp_all add: t GetStatus_def s RetryPairingIfNeeded_def)
  moreover have "SnapshotLocked p (MarkSnapshotDirty n q1) = SnapshotLocked p q1"
    by (simp add: SnapshotLocked_def MarkSnapshotDirty_def split: option.split)
  ultimately show ?thesis using settled_mark [of "(q1, srv)" ch n] q1 by (simp add: settled_def mark_if_def)
qed

lemma settled_Enqueue:
  assumes "always_allocates f" "settled s" "Enqueue (Some f) p r n s = (out, s')"
  shows "settled s'"
proof (cases "p = [] \<or> length p > kMaxPlayerIdLength \<or> r = [] \<or> length r > kMaxRequestIdLength \<or> mq_shutting_down (fst s)")
  case True
  then show ?thesis using assms by (auto simp: Enqueue_def split: if_splits)
next
  case False
  obtain o' ch q1 where e: "EnqueueLocked p r n (fst s) = ((o', ch), q1)" by (metis surj_pair)
  obtain b s2 where rp: "RunPairingRound (Some f) n (q1, snd s) = (b, s2)" by (metis prod.exhaust)
  obtain ch0 q0 where sw: "SweepLocked n (fst s) = (ch0, q0)" by fastforce
  have "queue_inv (q1, [])"
    using queue_inv_run_to [OF run_to_step [OF enqueue [OF e]]] assms(2) by (simp add: settled_def)
  moreover have "mq_retry_pairing q1 = mq_retry_pairing (fst s)"
    using e sw Sweep_frame(5) [OF sw] by (auto simp: EnqueueLocked_def split: option.splits if_splits)
  ultimately have "settled s2" using settled_RunPairing [OF assms(1) _ rp] assms(2) by (simp add: settled_def)
  moreover have "s' = mark_if (ch \<or> b) n s2" using assms(3) False e rp by (auto simp: Enqueue_def)
  ultimately show ?thesis using settled_mark by blast
qed

lemma queue_inv_Enqueue:
  "queue_inv (q, []) \<Longrightarrow> queue_inv (fst (snd (Enqueue a p r n (q, srv))), [])"
  using queue_inv_run_to [OF run_to_Enqueue [of a p r n q srv "fst (Enqueue a p r n (q, srv))"
      "fst (snd (Enqueue a p r n (q, srv)))" "snd (snd (Enqueue a p r n (q, srv)))"]] by simp

lemma settled_Cancel:
  assumes "settled (q, srv)" "Cancel p n q = (b, q')"
  shows "settled (q', srv')"
proof -
  obtain ch0 q0 where s: "SweepLocked n q = (ch0, q0)" by fastforce
  show ?thesis
    using assms queue_inv_run_to [OF run_to_Cancel [OF assms(2)]] s Sweep_frame(5) [OF s]
    by (auto simp: settled_def Cancel_def CancelLocked_def RemoveFromQueueLocked_def MarkSnapshotDirty_def
        split: option.splits if_splits)
qed

lemma settled_kept: "always_allocates f \<Longrightarrow> kept_by_calls (Some f) settled"
  unfolding kept_by_calls_def
  by (intro conjI allI impI)
     (erule (2) settled_Enqueue, erule (1) settled_Cancel, erule (1) settled_GetStatus [THEN conjunct1])

text \<open>The answer is the state of the queue. While the rooms service allocates, every status an RPC
  returns is what the queue holds about the player when the call ends, the pairing that the call itself
  ran included: the second player of a pair learns the match from the answer to its own request.\<close>

lemma answers_are_current:
  assumes "queue_inv (q, [])" "\<not> mq_retry_pairing q" "always_allocates f"
    and "serve (Some f) call (c, q, srv) = (r, c', q', srv')"
  shows "(mr_status r \<noteq> None \<longrightarrow> mr_status r = Some (FillStatus (SnapshotLocked (called_player call) q')))
    \<and> queue_inv (q', []) \<and> \<not> mq_retry_pairing q'"
proof -
  have "settled (snd (c', q', srv')) \<and>
      answer_of r (\<lambda>snap. snap = SnapshotLocked (called_player call) (fst (snd (c', q', srv'))))"
    using assms(1,2) settled_GetStatus
    by (intro serve_by_calls [OF settled_kept [OF assms(3)] _ assms(4),
          where P = "\<lambda>snap t. snap = SnapshotLocked (called_player call) (fst t)"])
       (simp add: settled_def, erule (1) settled_GetStatus [THEN conjunct2])
  then show ?thesis by (auto simp: settled_def answer_of_def)
qed

lemma Derived_allocates: "always_allocates DerivedRoomAllocator_Allocate"
  by (simp add: always_allocates_def DerivedRoomAllocator_Allocate_def)

definition ann_waits :: MatchQueue where
  "ann_waits = fst (snd (Enqueue (Some DerivedRoomAllocator_Allocate) ''ann'' ''r1'' 1000
     (MatchQueue_new [''m1''] 0 0 0 False, ())))"

end
