(* ===== verification/Match_Rooms.thy ===== *)
theory Match_Rooms
  imports Match_Service Room_Client
begin

text \<open>
  The match service on top of the room service: what the matchmaking queue relies on from its room
  allocator, as a locale, and the two allocators of the repository as its instances: the remote one
  (\<^verbatim>\<open>src/match/brpc_room_allocator.cpp\<close> over \<^verbatim>\<open>CreateRoom\<close>) and the placeholder of
  \<^verbatim>\<open>src/match/room_allocator.cpp\<close>.
\<close>

section \<open>What the queue relies on\<close>

text \<open>\<open>room_of srv rid mid ps\<close>: the provider has the room \<open>rid\<close> for the match \<open>mid\<close> of the players \<open>ps\<close>.
  \<open>ready srv ids\<close>: the provider can serve the matches \<open>ids\<close> in this order.\<close>

lemma ids_put_backs [simp]: "mq_ids (foldr put_back ps q) = mq_ids q"
  by (induction ps) (simp_all add: put_back_def split: option.split)

text \<open>The supply of match ids: what a round of taking used up, at most one empty id after the groups.\<close>

lemma Take_ids:
  "TakePairGroupsLocked q = (gs, q') \<Longrightarrow> \<exists>rest. mq_ids q = map pg_match_id gs @ rest @ mq_ids q'"
proof (induction q arbitrary: gs q' rule: TakePairGroupsLocked.induct)
  case (1 q)
  obtain grp rest where tm: "take_members (mq_entries q) [] (mq_queue q) = (grp, rest)" by fastforce
  obtain m ids where m: "next_match_id q = (m, ids)" by fastforce
  have mids: "mq_ids q = (if m = [] \<and> mq_ids q = [] then ids else m # ids)"
    using m by (auto simp: next_match_id_def split: list.splits)
  show ?case
  proof (cases "length (mq_queue q) < kPlayersPerMatch \<or> length grp < kPlayersPerMatch \<or> m = []")
    case True
    then have "gs = [] \<and> (mq_ids q' = mq_ids q \<or> mq_ids q' = ids)"
      using "1.prems" tm m by (subst (asm) TakePairGroupsLocked.simps) (auto split: if_splits)
    then show ?thesis using mids by (metis append_Cons append_Nil list.simps(8))
  next
    case False
    define q1 where "q1 = q\<lparr>mq_queue := rest, mq_ids := ids, mq_entries := mark_allocating m grp (mq_entries q)\<rparr>"
    obtain gs1 where gs1: "TakePairGroupsLocked q1 = (gs1, q')" "map pg_match_id gs = m # map pg_match_id gs1"
      using "1.prems" tm m False by (subst (asm) TakePairGroupsLocked.simps) (auto simp: q1_def split: prod.splits)
    have "\<exists>r. mq_ids q1 = map pg_match_id gs1 @ r @ mq_ids q'"
      unfolding q1_def by (rule "1.IH" [OF _ tm [symmetric] _ m [symmetric]]) (use False gs1 in \<open>simp_all add: q1_def\<close>)
    then show ?thesis using gs1(2) mids False by (auto simp: q1_def)
  qed
qed

lemma ids_Sweep: "SweepLocked n q = (ch, q') \<Longrightarrow> mq_ids q' = mq_ids q"
  by (rule Sweep_frame(4))

locale room_provider =
  fixes allocate :: "'srv RoomAllocator"
    and room_of :: "'srv \<Rightarrow> string \<Rightarrow> string \<Rightarrow> string list \<Rightarrow> bool"
    and ready :: "'srv \<Rightarrow> string list \<Rightarrow> bool"
  assumes allocated: "ready srv (mid # ids) \<Longrightarrow> allocate mid ps req srv = (rid, srv') \<Longrightarrow> rid \<noteq> [] \<Longrightarrow>
      room_of srv' rid mid ps"
    and keeps_rooms: "ready srv (mid # ids) \<Longrightarrow> allocate mid ps req srv = (rid, srv') \<Longrightarrow>
      room_of srv r m qs \<Longrightarrow> room_of srv' r m qs"
    and ready_after: "ready srv (mid # ids) \<Longrightarrow> allocate mid ps req srv = (rid, srv') \<Longrightarrow> ready srv' ids"
    and ready_tl: "ready srv (mid # ids) \<Longrightarrow> ready srv ids"
begin

lemma ready_drop: "ready srv (ks @ ids) \<Longrightarrow> ready srv ids"
  by (induction ks) (auto dest: ready_tl)

definition has_room :: "'srv \<Rightarrow> Entry \<Rightarrow> bool" where
  "has_room srv e \<longleftrightarrow> room_of srv (en_room_id e) (en_match_id e) (en_player_ids e)"

text \<open>A transition only announces matches whose room exists, and no room is lost.\<close>

definition announces :: "MatchQueue \<times> 'srv \<Rightarrow> MatchQueue \<times> 'srv \<Rightarrow> bool" where
  "announces s s' \<longleftrightarrow>
     (\<forall>r m ps. room_of (snd s) r m ps \<longrightarrow> room_of (snd s') r m ps) \<and>
     (\<forall>p e. map_of (mq_entries (fst s')) p = Some e \<longrightarrow> en_state e = StateMatched \<longrightarrow>
        map_of (mq_entries (fst s)) p = Some e \<or> has_room (snd s') e)"

lemma announces_trans: "announces s s' \<Longrightarrow> announces s' s'' \<Longrightarrow> announces s s''"
  unfolding announces_def has_room_def by blast

lemma announces_queue:
  assumes "\<And>p e. map_of (mq_entries q') p = Some e \<Longrightarrow> en_state e = StateMatched \<Longrightarrow> map_of (mq_entries q) p = Some e"
  shows "announces (q, srv) (q', srv)"
  using assms by (simp add: announces_def)

lemma announces_same_entries: "mq_entries q' = mq_entries q \<Longrightarrow> announces (q, srv) (q', srv)"
  by (simp add: announces_def)

lemma announces_Sweep:
  assumes "queue_inv (q, [])" "SweepLocked n q = (ch, q')"
  shows "announces (q, srv) (q', srv)"
proof (rule announces_queue)
  fix p e assume e: "map_of (mq_entries q') p = Some e" "en_state e = StateMatched"
  have i: "keys_distinct (mq_entries q)" "distinct (mq_queue q)" "0 < mq_result_ttl_ms q"
    using assms(1) by (simp_all add: queue_inv_def entries_inv_def)
  have "swept_entry n q p = Some e" using Sweep_closed(2) [OF assms(2) i] e(1) by simp
  then show "map_of (mq_entries q) p = Some e"
    using e(2) by (auto simp: swept_entry_def split: option.splits if_splits)
qed

text \<open>Committing: a member becomes matched only with the room its group got.\<close>

lemma announces_Commit:
  assumes "queue_inv (q, g # fl)" "room \<noteq> [] \<Longrightarrow> room_of srv room (pg_match_id g) (pg_player_ids g)"
  shows "announces (q, srv) (CommitGroupLocked g room n q, srv)"
proof -
  let ?es = "mq_entries q"
  have inv: "entries_inv (mq_queue q) (g # fl) ?es" using assms(1) by (simp add: queue_inv_def)
  note mem = flight_member_facts [OF inv list.set_intros(1)]
  note cl = Commit_closed(1) [OF mem(1,2) entries_invD(1) [OF inv], of room n]
  have "map_of ?es p = Some e \<or> has_room srv e"
    if e: "committed_entry g room n ?es p = Some e" "en_state e = StateMatched" for p e
  proof (cases "p \<in> set (pg_player_ids g)")
    case True
    obtain e0 where e0: "map_of ?es p = Some e0" "en_state e0 = StateQueued" "en_match_id e0 = pg_match_id g"
      using mem(3) True by (auto simp: in_group_def)
    have "viable ?es g room"
      using e True e0 by (auto simp: committed_entry_def reset_entry_def split: if_splits)
    then have "e = matched_entry g room n e0" "room \<noteq> []"
      using e True e0 by (auto simp: committed_entry_def viable_def)
    then show ?thesis using assms(2) e0(3) by (simp add: has_room_def matched_entry_def)
  qed (use e in \<open>simp add: committed_entry_def\<close>)
  then show ?thesis by (simp add: announces_def cl)
qed

lemma ready_commits:
  assumes "queue_inv (q, gs)" "ready srv (map pg_match_id gs @ ids)"
    and "fold (allocate_and_commit (Some allocate) n) gs (q, srv) = (q', srv')"
  shows "announces (q, srv) (q', srv') \<and> ready srv' ids \<and> mq_ids q' = mq_ids q"
  using assms
proof (induction gs arbitrary: q srv)
  case Nil
  then show ?case by (simp add: announces_def)
next
  case (Cons g gs)
  obtain room srv1 where al: "allocate (pg_match_id g) (pg_player_ids g) (pg_request_id g) srv = (room, srv1)"
    by fastforce
  define q1 where "q1 = q\<lparr>mq_room_allocate_count := Suc (mq_room_allocate_count q),
      mq_room_allocate_failed_count := mq_room_allocate_failed_count q + (if room = [] then 1 else 0)\<rparr>"
  define q2 where "q2 = CommitGroupLocked g room n q1"
  have r: "ready srv (pg_match_id g # map pg_match_id gs @ ids)" using Cons.prems(2) by simp
  have i1: "queue_inv (q1, [] @ g # gs)" using Cons.prems(1) by (simp add: q1_def queue_inv_def)
  have st: "allocate_and_commit (Some allocate) n g (q, srv) = (q2, srv1)"
    by (simp add: allocate_and_commit_def AllocateRoomFor_def al q1_def q2_def)
  have "mq_ids q2 = mq_ids q"
    by (simp add: q2_def q1_def CommitGroupLocked_def Let_def)
  moreover have "announces (q, srv) (q1, srv1)"
    using keeps_rooms [OF r al] by (auto simp: announces_def q1_def)
  moreover have "announces (q1, srv1) (q2, srv1)"
    unfolding q2_def using i1 allocated [OF r al] by (intro announces_Commit) simp_all
  moreover have "announces (q2, srv1) (q', srv') \<and> ready srv' ids \<and> mq_ids q' = mq_ids q2"
  proof (rule Cons.IH)
    show "queue_inv (q2, gs)" using queue_inv_Commit [OF i1] by (simp add: q2_def)
    show "ready srv1 (map pg_match_id gs @ ids)" by (rule ready_after [OF r al])
    show "fold (allocate_and_commit (Some allocate) n) gs (q2, srv1) = (q', srv')"
      using Cons.prems(3) st by simp
  qed
  ultimately show ?case using announces_trans by metis
qed

lemma announces_Take:
  assumes "queue_inv (q, [])" "TakePairGroupsLocked q = (gs, q')"
  shows "announces (q, srv) (q', srv)"
proof (rule announces_queue)
  fix p e assume e: "map_of (mq_entries q') p = Some e" "en_state e = StateMatched"
  note sp = Take_spec [OF assms]
  obtain e0 where e0: "map_of (mq_entries q) p = Some e0" "stable_part e0 = stable_part e"
    using sp e(1) by (metis (no_types, lifting) map_option_eq_Some)
  then have "en_state e0 = StateMatched" using e(2) by (simp add: stable_part_def)
  then have "p \<notin> set (mq_queue q)"
    using assms(1) e0(1) by (auto simp: queue_inv_def waiting_def dest: entries_invD(3))
  moreover have "set (concat (map pg_player_ids gs)) \<subseteq> set (mq_queue q)"
    using sp by (metis set_append sup_ge1)
  ultimately have "p \<notin> set (concat (map pg_player_ids gs))" by blast
  then show "map_of (mq_entries q) p = Some e" using sp e(1) by metis
qed

text \<open>The state a call starts from and the summary of a call.\<close>

definition served :: "MatchQueue \<times> 'srv \<Rightarrow> bool" where
  "served s \<longleftrightarrow> queue_inv (fst s, []) \<and> ready (snd s) (mq_ids (fst s))"

definition good_call :: "MatchQueue \<times> 'srv \<Rightarrow> MatchQueue \<times> 'srv \<Rightarrow> bool" where
  "good_call s s' \<longleftrightarrow> served s' \<and> announces s s'"

lemma good_call_trans: "good_call s s' \<Longrightarrow> good_call s' s'' \<Longrightarrow> good_call s s''"
  unfolding good_call_def using announces_trans by blast

lemma good_call_same:
  "served (q, srv) \<Longrightarrow> mq_entries q' = mq_entries q \<Longrightarrow> mq_ids q' = mq_ids q \<Longrightarrow> core q' = core q \<Longrightarrow>
   good_call (q, srv) (q', srv)"
  using queue_inv_bookkeeping [of q' q "[]"] announces_same_entries by (simp add: good_call_def served_def)

lemma good_call_mark: "served s \<Longrightarrow> good_call s (mark_if b n s)"
  by (cases s) (auto simp: mark_if_def MarkSnapshotDirty_def core_def intro!: good_call_same)

lemma good_call_Sweep: "served (q, srv) \<Longrightarrow> SweepLocked n q = (ch, q') \<Longrightarrow> good_call (q, srv) (q', srv)"
  using queue_inv_Sweep announces_Sweep ids_Sweep by (fastforce simp: good_call_def served_def)

lemma good_call_RunPairing:
  assumes "served (q, srv)" "RunPairingRound (Some allocate) n (q, srv) = (b, q', srv')"
  shows "good_call (q, srv) (q', srv')"
proof -
  have i: "queue_inv (q, [])" and r: "ready srv (mq_ids q)" using assms(1) by (simp_all add: served_def)
  obtain gs q1 where t: "TakePairGroupsLocked q = (gs, q1)" by fastforce
  obtain rest where ids: "mq_ids q = map pg_match_id gs @ rest @ mq_ids q1" using Take_ids [OF t] by blast
  have i1: "queue_inv (q1, gs)" using Take_spec [OF i t] by simp
  have al: "mq_allocation_queue q1 = []" using i1 by (simp add: queue_inv_def)
  have i': "queue_inv (q', [])" by (rule queue_inv_run_to [OF run_to_RunPairingRound [OF assms(2)] i])
  show ?thesis
  proof (cases "PendingAllocationCount q \<ge> mq_max_pending_allocations q")
    case True
    then show ?thesis using assms by (simp add: RunPairingRound_def good_call_def announces_def)
  next
    case False
    then have run: "fold (allocate_and_commit (Some allocate) n) gs (q1, srv) = (q', srv')"
      using assms(2) t al by (auto simp: RunPairingRound_def split: if_splits)
    have "ready srv (map pg_match_id gs @ rest @ mq_ids q1)" using r ids by simp
    note rc = ready_commits [OF i1 this run]
    have "ready srv' (mq_ids q')" using rc ready_drop by auto
    then show ?thesis
      using i' announces_trans [OF announces_Take [OF i t]] rc by (auto simp: good_call_def served_def)
  qed
qed

lemma good_call_EnqueueLocked:
  assumes "served (q, srv)" "EnqueueLocked p r n q = ((out, ch), q')"
  shows "good_call (q, srv) (q', srv)"
proof -
  obtain ch0 q0 where s: "SweepLocked n q = (ch0, q0)" by fastforce
  have g0: "good_call (q, srv) (q0, srv)" by (rule good_call_Sweep [OF assms(1) s])
  have "announces (q0, srv) (q', srv)"
    using assms(2) s by (intro announces_queue)
      (auto simp: EnqueueLocked_def map_of_emplace split: option.splits if_splits)
  moreover have "mq_ids q' = mq_ids q0"
    using assms(2) s by (auto simp: EnqueueLocked_def split: option.splits if_splits)
  moreover have "queue_inv (q', [])"
    using queue_inv_run_to [OF run_to_step [OF enqueue [OF assms(2)]]] assms(1) by (simp add: served_def)
  ultimately show ?thesis using g0 announces_trans by (fastforce simp: good_call_def served_def)
qed

lemma good_call_Cancel:
  assumes "served (q, srv)" "Cancel p n q = (b, q')"
  shows "good_call (q, srv) (q', srv)"
proof -
  obtain ch0 q0 where s: "SweepLocked n q = (ch0, q0)" by fastforce
  have g0: "good_call (q, srv) (q0, srv)" by (rule good_call_Sweep [OF assms(1) s])
  have i0: "queue_inv (q0, [])" using g0 by (simp add: good_call_def served_def)
  have al: "\<not> en_allocating e" if "map_of (mq_entries q0) x = Some e" for x e
    using allocating_in_flight i0 that by (fastforce simp: queue_inv_def)
  have "announces (q0, srv) (q', srv)"
    using assms(2) s al by (intro announces_queue)
      (auto simp: Cancel_def CancelLocked_def RemoveFromQueueLocked_def MarkSnapshotDirty_def delete_conv'
        split: option.splits if_splits)
  moreover have "mq_ids q' = mq_ids q0"
    using assms(2) s by (auto simp: Cancel_def CancelLocked_def RemoveFromQueueLocked_def MarkSnapshotDirty_def
        split: option.splits if_splits)
  moreover have "queue_inv (q', [])"
    using queue_inv_run_to [OF run_to_Cancel [OF assms(2)]] assms(1) by (simp add: served_def)
  ultimately show ?thesis using g0 announces_trans by (fastforce simp: good_call_def served_def)
qed

lemma good_call_Enqueue:
  assumes "served s" "Enqueue (Some allocate) p r n s = (out, s')"
  shows "good_call s s'"
proof (cases "p = [] \<or> length p > kMaxPlayerIdLength \<or> r = [] \<or> length r > kMaxRequestIdLength \<or> mq_shutting_down (fst s)")
  case True
  then have "s' = s" using assms(2) by (auto simp: Enqueue_def split: if_splits)
  then show ?thesis using assms(1) by (simp add: good_call_def announces_def)
next
  case False
  obtain o' ch q1 where e: "EnqueueLocked p r n (fst s) = ((o', ch), q1)" by (metis surj_pair)
  obtain b q2 srv2 where rp: "RunPairingRound (Some allocate) n (q1, snd s) = (b, q2, srv2)" by (metis surj_pair)
  have s': "s' = mark_if (ch \<or> b) n (q2, srv2)" using assms(2) False e rp by (auto simp: Enqueue_def)
  have g1: "good_call s (q1, snd s)" using good_call_EnqueueLocked [OF _ e] assms(1) by (cases s) simp
  have g2: "good_call (q1, snd s) (q2, srv2)" using good_call_RunPairing [OF _ rp] g1 by (simp add: good_call_def)
  have "good_call (q2, srv2) s'" unfolding s' using good_call_mark g2 by (simp add: good_call_def)
  then show ?thesis using g1 g2 good_call_trans by blast
qed

lemma good_call_GetStatus:
  assumes "served s" "GetStatus (Some allocate) p n s = (snap, s')"
  shows "good_call s s'"
proof -
  obtain ch q1 where sw: "SweepLocked n (fst s) = (ch, q1)" by fastforce
  obtain b q2 srv2 where rt: "RetryPairingIfNeeded (Some allocate) n (q1, snd s) = (b, q2, srv2)"
    by (metis surj_pair)
  have s': "s' = mark_if (ch \<or> b) n (q2, srv2)" using assms(2) sw rt by (simp add: GetStatus_def)
  have g1: "good_call s (q1, snd s)" using good_call_Sweep [OF _ sw] assms(1) by (cases s) simp
  let ?q = "q1\<lparr>mq_retry_pairing := False\<rparr>"
  have g0: "good_call (q1, snd s) (?q, snd s)" using g1 by (intro good_call_same) (simp_all add: good_call_def)
  have "good_call (q1, snd s) (q2, srv2)"
  proof (cases "mq_retry_pairing q1")
    case True
    then have "RunPairingRound (Some allocate) n (?q, snd s) = (b, q2, srv2)"
      using rt by (simp add: RetryPairingIfNeeded_def)
    moreover have "served (?q, snd s)" using g0 by (simp add: good_call_def)
    ultimately have "good_call (?q, snd s) (q2, srv2)" using good_call_RunPairing by blast
    then show ?thesis using g0 good_call_trans by blast
  next
    case False
    then show ?thesis using rt g1 by (simp add: RetryPairingIfNeeded_def good_call_def announces_def)
  qed
  moreover from this have "good_call (q2, srv2) s'" unfolding s' by (intro good_call_mark) (simp add: good_call_def)
  ultimately show ?thesis using g1 good_call_trans by blast
qed

lemma good_calls_kept: "kept_by_calls (Some allocate) (good_call s)"
  unfolding kept_by_calls_def
proof (intro conjI allI impI)
  fix p r n s1 out s2 assume "good_call s s1" "Enqueue (Some allocate) p r n s1 = (out, s2)"
  then show "good_call s s2" using good_call_Enqueue good_call_trans unfolding good_call_def by blast
next
  fix p n q srv b q' assume "good_call s (q, srv)" "Cancel p n q = (b, q')"
  then show "good_call s (q', srv)" using good_call_Cancel good_call_trans unfolding good_call_def by blast
next
  fix p n s1 snap s2 assume "good_call s s1" "GetStatus (Some allocate) p n s1 = (snap, s2)"
  then show "good_call s s2" using good_call_GetStatus good_call_trans unfolding good_call_def by blast
qed

text \<open>One RPC of the match service.\<close>

lemma serve_good:
  assumes "served s" "serve (Some allocate) call (c, s) = (r, c', s')"
  shows "good_call s s'"
proof -
  have "good_call s s" using assms(1) by (simp add: good_call_def announces_def)
  then show ?thesis
    using serve_by_calls [OF good_calls_kept, of s "(c, s)" call r "(c', s')" "\<lambda>_ _. True"] assms(2) by simp
qed

end

section \<open>The placeholder allocator\<close>

text \<open>It keeps no rooms: the room of a match is the name derived from it.\<close>

definition derived_room :: "unit \<Rightarrow> string \<Rightarrow> string \<Rightarrow> string list \<Rightarrow> bool" where
  "derived_room u rid mid ps \<longleftrightarrow> rid = ''room-'' @ mid"

interpretation derived: room_provider DerivedRoomAllocator_Allocate derived_room "\<lambda>_ _. True"
  by unfold_locales (auto simp: DerivedRoomAllocator_Allocate_def derived_room_def split: if_splits)

section \<open>The remote allocator\<close>

text \<open>The state behind \<^verbatim>\<open>BrpcRoomAllocator\<close>: the room registry, what happens to the coming calls on the
  network and the random room tokens the service will draw.\<close>

type_synonym room_service = "RoomManager \<times> delivery list \<times> string list"

definition next_or :: "'a \<Rightarrow> 'a list \<Rightarrow> 'a \<times> 'a list" where
  "next_or d xs = (case xs of [] \<Rightarrow> (d, []) | x # xs' \<Rightarrow> (x, xs'))"

definition remote_allocate :: "ms \<Rightarrow> room_service RoomAllocator" where
  "remote_allocate now_ms match_id members request_id srv =
     (case srv of (m, ds, toks) \<Rightarrow>
        (case next_or Delivered ds of (d, ds') \<Rightarrow>
        (case next_or [] toks of (tok, toks') \<Rightarrow>
        (case BrpcRoomAllocator_Allocate d match_id members request_id now_ms tok (Some m) of (rid, m') \<Rightarrow>
          (rid, (case m' of Some m1 \<Rightarrow> m1 | None \<Rightarrow> m), ds', toks')))))"

definition registry_room :: "room_service \<Rightarrow> string \<Rightarrow> string \<Rightarrow> string list \<Rightarrow> bool" where
  "registry_room srv rid mid ps \<longleftrightarrow>
     (\<exists>t. map_of (rm_rooms (fst srv)) rid = Some (BattleRoom_new rid mid ps t)) \<and> \<not> list_ex bad_id ps"

definition registry_ready :: "room_service \<Rightarrow> string list \<Rightarrow> bool" where
  "registry_ready srv ids \<longleftrightarrow> (case srv of (m, ds, toks) \<Rightarrow>
     index_inv m \<and> distinct toks \<and> (\<forall>tok \<in> set toks. map_of (rm_rooms m) tok = None)
     \<and> distinct ids \<and> (\<forall>mid \<in> set ids. map_of (rm_match_index m) mid = None))"

lemma Allocate_cases:
  assumes "index_inv m" "map_of (rm_match_index m) mid = None"
    and "BrpcRoomAllocator_Allocate d mid ps req now tok (Some m) = (rid, m')"
  obtains (created) "m' = Some (m\<lparr>rm_rooms := emplace tok (BattleRoom_new tok mid ps now) (rm_rooms m),
      rm_match_index := emplace mid tok (rm_match_index m)\<rparr>)"
      "rid = tok \<or> rid = []" "\<not> list_ex bad_id ps" "\<not> bad_id mid" "tok \<noteq> []"
    | (nothing) "m' = Some m" "rid = []"
  using assms(3)
  by (cases d)
     (auto simp: BrpcRoomAllocator_Allocate_def rpc_def RoomService_CreateRoom_def Create_eq [OF assms(1)] assms(2)
       error_code_def SetError_def apfst_def map_prod_def split: if_splits prod.splits)

lemma remote_allocate_step:
  assumes ready: "registry_ready (m, ds, toks) (mid # ids)"
    and al: "remote_allocate now mid ps req (m, ds, toks) = (rid, m', ds', toks')"
  shows "registry_ready (m', ds', toks') ids \<and>
    (\<forall>r m1 qs. registry_room (m, ds, toks) r m1 qs \<longrightarrow> registry_room (m', ds', toks') r m1 qs) \<and>
    (rid \<noteq> [] \<longrightarrow> registry_room (m', ds', toks') rid mid ps)"
proof -
  have inv: "index_inv m" "map_of (rm_match_index m) mid = None" "distinct toks"
      "\<forall>tok \<in> set toks. map_of (rm_rooms m) tok = None" "mid \<notin> set ids" "distinct ids"
      "\<forall>mid \<in> set ids. map_of (rm_match_index m) mid = None"
    using ready by (auto simp: registry_ready_def)
  obtain tok where tk: "next_or [] toks = (tok, toks')"
    using al by (auto simp: remote_allocate_def split: prod.splits)
  obtain d m1 where b: "BrpcRoomAllocator_Allocate d mid ps req now tok (Some m) = (rid, m1)"
      "m' = (case m1 of Some m2 \<Rightarrow> m2 | None \<Rightarrow> m)"
    using al tk by (auto simp: remote_allocate_def split: prod.splits)
  have toks': "set toks' \<subseteq> set toks" "distinct toks'" "tok \<notin> set toks'" "tok = [] \<or> tok \<in> set toks"
    using tk inv(3) by (auto simp: next_or_def split: list.splits)
  show ?thesis
  proof (rule Allocate_cases [OF inv(1,2) b(1)])
    assume created: "m1 = Some (m\<lparr>rm_rooms := emplace tok (BattleRoom_new tok mid ps now) (rm_rooms m),
      rm_match_index := emplace mid tok (rm_match_index m)\<rparr>)"
      "rid = tok \<or> rid = []" "\<not> list_ex bad_id ps" "\<not> bad_id mid" "tok \<noteq> []"
    have free: "map_of (rm_rooms m) tok = None" using created(5) toks'(4) inv(4) by blast
    have m': "m' = m\<lparr>rm_rooms := emplace tok (BattleRoom_new tok mid ps now) (rm_rooms m),
        rm_match_index := emplace mid tok (rm_match_index m)\<rparr>" using created(1) b(2) by simp
    have ii: "index_inv m'"
      using index_inv_add_room [OF inv(1), of "BattleRoom_new tok mid ps now"] free inv(2) created(4) by (simp add: m')
    show ?thesis
      using ii toks' inv free created by (auto simp: registry_ready_def registry_room_def m' map_of_emplace)
  next
    assume "m1 = Some m" "rid = []"
    then show ?thesis using b(2) toks' inv by (auto simp: registry_ready_def registry_room_def)
  qed
qed

interpretation remote: room_provider "remote_allocate now_ms" registry_room registry_ready for now_ms
proof
  fix srv mid ids ps req rid srv'
  assume r: "registry_ready srv (mid # ids)" and al: "remote_allocate now_ms mid ps req srv = (rid, srv')"
  have st: "registry_ready srv' ids \<and> (\<forall>r m1 qs. registry_room srv r m1 qs \<longrightarrow> registry_room srv' r m1 qs) \<and>
      (rid \<noteq> [] \<longrightarrow> registry_room srv' rid mid ps)"
    using remote_allocate_step [of "fst srv" "fst (snd srv)" "snd (snd srv)" mid ids now_ms ps req rid
        "fst srv'" "fst (snd srv')" "snd (snd srv')"] r al by simp
  show "rid \<noteq> [] \<Longrightarrow> registry_room srv' rid mid ps" "registry_ready srv' ids" using st by blast+
  show "registry_room srv r m qs \<Longrightarrow> registry_room srv' r m qs" for r m qs using st by blast
next
  fix srv mid ids assume "registry_ready srv (mid # ids)"
  then show "registry_ready srv ids" by (auto simp: registry_ready_def split: prod.splits)
qed

section \<open>Every announced match has its room\<close>

lemma new_room_lets_players_in:
  assumes "p \<in> set ps" "\<not> list_ex bad_id ps"
  shows "fst (BattleRoom_Join p t (BattleRoom_new rid mid ps t0)) = JoinOk"
proof -
  have p: "\<not> bad_id p" using assms by (auto simp: list_ex_iff)
  have ph: "br_phase (BattleRoom_new rid mid ps t0) = kCreated"
    and ids: "map ps_player_id (br_players (BattleRoom_new rid mid ps t0)) = ps"
    by (simp_all add: BattleRoom_new_def initial_player_def comp_def)
  have "p \<in> ps_player_id ` set (br_players (BattleRoom_new rid mid ps t0))"
    using assms(1) ids by (metis set_map)
  then have "FindPlayer (BattleRoom_new rid mid ps t0) p \<noteq> None"
    unfolding FindPlayer_def first_index_None by blast
  then obtain i where i: "FindPlayer (BattleRoom_new rid mid ps t0) p = Some i" by blast
  show ?thesis using p ph i by (simp add: BattleRoom_Join_def Let_def)
qed

text \<open>C4: a match the service announces has its room. Let any RPC of the match service run against the
  remote allocator, with requests and replies lost at will: every player that is matched afterwards and
  was not matched the same way before finds, under the room id of the answer, the untouched room of
  exactly this match with exactly these players, and each of them can join it. Rooms that existed before
  are still there. (The match ids are fresh and the room tokens unused, which the random generators
  of both services are there for.)\<close>

theorem announced_match_has_its_room:
  assumes "queue_inv (q, [])" "index_inv m"
    and "distinct (mq_ids q)" "\<forall>mid \<in> set (mq_ids q). map_of (rm_match_index m) mid = None"
    and "distinct toks" "\<forall>tok \<in> set toks. map_of (rm_rooms m) tok = None"
    and "serve (Some (remote_allocate room_ms)) call (c, q, m, ds, toks) = (r, c', q', m', ds', toks')"
    and "map_of (mq_entries q') p = Some e" "en_state e = StateMatched" "map_of (mq_entries q) p \<noteq> Some e"
  shows "\<exists>t. map_of (rm_rooms m') (en_room_id e) =
      Some (BattleRoom_new (en_room_id e) (en_match_id e) (en_player_ids e) t) \<and>
    p \<in> set (en_player_ids e) \<and>
    (\<forall>p2 \<in> set (en_player_ids e). \<forall>t2. \<exists>snap m2.
       RoomManager_Join (en_room_id e) p2 t2 m' = (Some (JoinOk, snap), m2))"
proof -
  have "remote.served (q, m, ds, toks)"
    using assms(1-6) by (simp add: remote.served_def registry_ready_def)
  from remote.serve_good [OF this assms(7)] have
    "queue_inv (q', [])" "registry_room (m', ds', toks') (en_room_id e) (en_match_id e) (en_player_ids e)"
    using assms(8-10) by (auto simp: remote.good_call_def remote.served_def remote.announces_def remote.has_room_def)
  moreover from this(1) have "p \<in> set (en_player_ids e)"
    using entries_invD(4) [of "mq_queue q'" "[]" "mq_entries q'" p e] assms(8,9)
    by (auto simp: queue_inv_def entry_ok_def waiting_def shared_result_def)
  ultimately obtain t where t: "map_of (rm_rooms m') (en_room_id e) =
      Some (BattleRoom_new (en_room_id e) (en_match_id e) (en_player_ids e) t)"
      "\<not> list_ex bad_id (en_player_ids e)" "p \<in> set (en_player_ids e)"
    by (auto simp: registry_room_def)
  have "\<exists>snap m2. RoomManager_Join (en_room_id e) p2 t2 m' = (Some (JoinOk, snap), m2)"
    if "p2 \<in> set (en_player_ids e)" for p2 t2
    using new_room_lets_players_in [OF that t(2), of t2 "en_room_id e" "en_match_id e" t]
    by (auto simp: RoomManager_Join_def t(1) split: prod.splits)
  then show ?thesis using t by blast
qed

definition pair_call :: "MatchResponse \<times> MatchServiceImpl \<times> room_service match_state" where
  "pair_call = serve (Some (remote_allocate 1000)) (RpcEnqueue ''r2'' ''bob'' 1100)
     (no_events, ann_waits, empty_manager, [], [''tok-1''])"

lemma pair_call_evals:
  "map_option en_state (map_of (mq_entries (fst (snd (snd pair_call)))) ''bob'') = Some StateMatched"
  "map_of (mq_entries ann_waits) ''bob'' = None" "mq_ids ann_waits = [''m1'']"
  by code_simp+

theorem announced_match_has_its_room_witness:
  "\<exists>e t. map_of (mq_entries (fst (snd (snd pair_call)))) ''bob'' = Some e \<and>
     map_of (rm_rooms (fst (snd (snd (snd pair_call))))) (en_room_id e) =
       Some (BattleRoom_new (en_room_id e) (en_match_id e) (en_player_ids e) t)"
proof -
  obtain r c' q' m' ds' toks' where r: "serve (Some (remote_allocate 1000)) (RpcEnqueue ''r2'' ''bob'' 1100)
     (no_events, ann_waits, empty_manager, [], [''tok-1'']) = (r, c', q', m', ds', toks')" by (rule prod_cases6)
  have q: "queue_inv (ann_waits, [])" unfolding ann_waits_def by (rule queue_inv_Enqueue [OF queue_inv_new])
  have m: "index_inv empty_manager" using manager_inv_empty by (simp add: manager_inv_def)
  have pc: "pair_call = (r, c', q', m', ds', toks')" unfolding pair_call_def by (rule r)
  obtain e where e: "map_of (mq_entries q') ''bob'' = Some e" "en_state e = StateMatched"
    using pair_call_evals(1) unfolding pc by auto
  have "\<exists>t. map_of (rm_rooms m') (en_room_id e) =
      Some (BattleRoom_new (en_room_id e) (en_match_id e) (en_player_ids e) t)"
    using announced_match_has_its_room [OF q m _ _ _ _ r e] pair_call_evals(2,3) by (simp add: empty_manager_def)
  then show ?thesis using e(1) unfolding pc by auto
qed

end
