(* ===== verification/Match_Client.thy ===== *)
theory Match_Client
  imports Match_Rooms
begin

text \<open>
  The gateway's client of the match service: the interface of \<^verbatim>\<open>src/gateway/match_client.hpp\<close> and its
  implementation \<^verbatim>\<open>src/gateway/brpc_match_client.cpp\<close> over the same transport as the room client.
\<close>

section \<open>The interface\<close>

datatype GwMatchState = GwIdle | GwQueued | GwMatched | GwTimeout

record MatchSnapshot =
  mx_state :: GwMatchState
  mx_match_id :: string
  mx_room_id :: string
  mx_player_ids :: "string list"
  mx_queued_at_ms :: int
  mx_queue_size :: int

definition default_match_snapshot :: MatchSnapshot where
  "default_match_snapshot = \<lparr>mx_state = GwIdle, mx_match_id = [], mx_room_id = [], mx_player_ids = [],
     mx_queued_at_ms = 0, mx_queue_size = 0\<rparr>"

datatype MatchCallStatus = MatchOk | MatchUnavailable | MatchInvalidArgument | MatchQueueFull
  | MatchInternal | MatchShuttingDown

record 'w MatchClient =
  mc_Enqueue :: "string \<Rightarrow> string \<Rightarrow> 'w \<Rightarrow> (MatchCallStatus \<times> MatchSnapshot option) \<times> 'w"
  mc_GetStatus :: "string \<Rightarrow> 'w \<Rightarrow> (MatchCallStatus \<times> MatchSnapshot option) \<times> 'w"
  mc_Cancel :: "string \<Rightarrow> string \<Rightarrow> 'w \<Rightarrow> (MatchCallStatus \<times> MatchSnapshot option) \<times> 'w"

section \<open>The brpc client\<close>

fun match_ToState :: "ProtoMatchState \<Rightarrow> GwMatchState" where
  "match_ToState MATCH_STATE_QUEUED = GwQueued"
| "match_ToState MATCH_STATE_MATCHED = GwMatched"
| "match_ToState MATCH_STATE_TIMEOUT = GwTimeout"
| "match_ToState MATCH_STATE_IDLE = GwIdle"
| "match_ToState MATCH_STATE_UNSPECIFIED = GwIdle"

text \<open>A field that is not set reads as the default message.\<close>

definition match_ToSnapshot :: "MatchStatus option \<Rightarrow> MatchSnapshot" where
  "match_ToSnapshot status =
     (case status of None \<Rightarrow> default_match_snapshot
      | Some s \<Rightarrow> \<lparr>mx_state = match_ToState (st_state s), mx_match_id = st_match_id s, mx_room_id = st_room_id s,
          mx_player_ids = st_player_ids s, mx_queued_at_ms = st_queued_at_ms s, mx_queue_size = st_queue_size s\<rparr>)"

definition match_error_code :: "MatchError option \<Rightarrow> MatchErrorCode" where
  "match_error_code e = (case e of None \<Rightarrow> MATCH_ERROR_CODE_UNSPECIFIED | Some x \<Rightarrow> er_code x)"

fun match_ToCallStatus :: "MatchErrorCode \<Rightarrow> RpcCounters \<Rightarrow> MatchCallStatus \<times> RpcCounters" where
  "match_ToCallStatus MATCH_ERROR_CODE_UNSPECIFIED c = (MatchOk, RecordRpcCall True c)"
| "match_ToCallStatus MATCH_ALREADY_QUEUED c = (MatchOk, RecordRpcCall True c)"
| "match_ToCallStatus MATCH_INVALID_ARGUMENT c = (MatchInvalidArgument, RecordRpcCall False c)"
| "match_ToCallStatus MATCH_QUEUE_FULL c = (MatchQueueFull, RecordRpcCall False c)"
| "match_ToCallStatus MATCH_SHUTTING_DOWN c = (MatchShuttingDown, c)"
| "match_ToCallStatus MATCH_INTERNAL c = (MatchInternal, RecordRpcCall False c)"

definition match_finish_call ::
  "MatchResponse option \<Rightarrow> RpcCounters \<Rightarrow> (MatchCallStatus \<times> MatchSnapshot option) \<times> RpcCounters" where
  "match_finish_call reply c =
     (case reply of
        None \<Rightarrow> ((MatchUnavailable, None), RecordRpcCall False c)
      | Some response \<Rightarrow>
          (case match_ToCallStatus (match_error_code (mr_error response)) c of (status, c') \<Rightarrow>
            ((status, Some (match_ToSnapshot (mr_status response))), c')))"

definition BrpcMatchClient_Enqueue ::
  "delivery \<Rightarrow> 'srv RoomAllocator option \<Rightarrow> string \<Rightarrow> string \<Rightarrow> ms \<Rightarrow>
   (MatchServiceImpl \<times> 'srv match_state) \<times> RpcCounters \<Rightarrow>
   (MatchCallStatus \<times> MatchSnapshot option) \<times> (MatchServiceImpl \<times> 'srv match_state) \<times> RpcCounters" where
  "BrpcMatchClient_Enqueue d allocator player_id request_id now_ms s =
     (case rpc d (MatchService_EnqueueMatch allocator request_id player_id now_ms) (fst s) of (reply, m) \<Rightarrow>
       (case match_finish_call reply (snd s) of (out, c) \<Rightarrow> (out, m, c)))"

definition BrpcMatchClient_GetStatus ::
  "delivery \<Rightarrow> 'srv RoomAllocator option \<Rightarrow> string \<Rightarrow> ms \<Rightarrow>
   (MatchServiceImpl \<times> 'srv match_state) \<times> RpcCounters \<Rightarrow>
   (MatchCallStatus \<times> MatchSnapshot option) \<times> (MatchServiceImpl \<times> 'srv match_state) \<times> RpcCounters" where
  "BrpcMatchClient_GetStatus d allocator player_id now_ms s =
     (case rpc d (MatchService_GetMatchStatus allocator player_id now_ms) (fst s) of (reply, m) \<Rightarrow>
       (case match_finish_call reply (snd s) of (out, c) \<Rightarrow> (out, m, c)))"

definition BrpcMatchClient_Cancel ::
  "delivery \<Rightarrow> 'srv RoomAllocator option \<Rightarrow> string \<Rightarrow> string \<Rightarrow> ms \<Rightarrow>
   (MatchServiceImpl \<times> 'srv match_state) \<times> RpcCounters \<Rightarrow>
   (MatchCallStatus \<times> MatchSnapshot option) \<times> (MatchServiceImpl \<times> 'srv match_state) \<times> RpcCounters" where
  "BrpcMatchClient_Cancel d allocator player_id request_id now_ms s =
     (case rpc d (MatchService_CancelMatch allocator player_id now_ms) (fst s) of (reply, m) \<Rightarrow>
       (case match_finish_call reply (snd s) of (out, c) \<Rightarrow> (out, m, c)))"

end
