(* ===== verification/Logging.thy ===== *)
theory Logging
  imports Decimal
begin

text \<open>
  Structured log lines, \<^verbatim>\<open>src/common/logging.cpp\<close>: \<^verbatim>\<open>key=value\<close> pairs separated by spaces, values
  quoted and escaped where needed, one line per record. \<^verbatim>\<open>gmtime_r\<close> is written out as the conversion of
  a day number to a date of the Gregorian calendar. The clock reading is an argument, and \<^verbatim>\<open>stderr\<close> is
  the text written so far. Every 64-bit time stamp gives a year that fits the buffer of
  \<^verbatim>\<open>FormatTimestamp\<close>, so its two fall-backs never apply.
\<close>

section \<open>Definitions\<close>

datatype LogLevel = LogDebug | LogInfo | LogWarn | LogError

record LogRecord =
  lg_service :: string
  lg_trace_id :: string
  lg_level :: LogLevel
  lg_event :: string
  lg_fields :: "(string \<times> string) list"
  lg_timestamp_ms :: ms

fun level_ToString :: "LogLevel \<Rightarrow> string" where
  "level_ToString LogDebug = ''debug''"
| "level_ToString LogInfo = ''info''"
| "level_ToString LogWarn = ''warn''"
| "level_ToString LogError = ''error''"

definition char_code :: "char \<Rightarrow> nat" where
  "char_code c = of_char c"

definition NeedsQuoting :: "string \<Rightarrow> bool" where
  "NeedsQuoting value \<longleftrightarrow> value = [] \<or>
     list_ex (\<lambda>ch. ch = CHR '' '' \<or> ch = CHR ''='' \<or> ch = CHR 0x22 \<or> ch = CHR 0x5C \<or> char_code ch < 0x20 \<or> char_code ch = 0x7F) value"

definition escape_log_char :: "char \<Rightarrow> string" where
  "escape_log_char ch =
     (if ch = CHR 0x22 then [CHR 0x5C, CHR 0x22]
      else if ch = CHR 0x5C then [CHR 0x5C, CHR 0x5C]
      else if ch = CHR 0x0A then [CHR 0x5C, CHR ''n'']
      else if ch = CHR 0x0D then [CHR 0x5C, CHR ''r'']
      else if ch = CHR 0x09 then [CHR 0x5C, CHR ''t'']
      else if char_code ch < 0x20 \<or> char_code ch = 0x7F
      then [CHR 0x5C, CHR ''x'', hex_digit (char_code ch div 16), hex_digit (char_code ch mod 16)]
      else [ch])"

definition EscapeFieldValue :: "string \<Rightarrow> string" where
  "EscapeFieldValue value =
     (if \<not> NeedsQuoting value then value else [CHR 0x22] @ concat (map escape_log_char value) @ [CHR 0x22])"

text \<open>Integer division of C++ rounds towards zero; \<^verbatim>\<open>gmtime_r\<close> itself rounds down.\<close>

definition trunc_div :: "int \<Rightarrow> int \<Rightarrow> int" where
  "trunc_div a b = (if a < 0 then - (- a div b) else a div b)"

definition pad_int :: "nat \<Rightarrow> int \<Rightarrow> string" where
  "pad_int width i =
     (let ds = nat_digits (nat \<bar>i\<bar>); sign = (if i < 0 then ''-'' else [])
      in sign @ replicate (width - length sign - length ds) CHR ''0'' @ ds)"

record tm =
  tm_year :: int
  tm_mon :: int
  tm_mday :: int
  tm_hour :: int
  tm_min :: int
  tm_sec :: int

definition gmtime :: "int \<Rightarrow> tm" where
  "gmtime seconds =
     (let z = seconds div 86400 + 719468; s = seconds mod 86400;
          era = z div 146097; doe = z mod 146097;
          yoe = (doe - doe div 1460 + doe div 36524 - doe div 146096) div 365;
          doy = doe - (365 * yoe + yoe div 4 - yoe div 100);
          mp = (5 * doy + 2) div 153;
          m = (if mp < 10 then mp + 3 else mp - 9);
          y = yoe + era * 400 + (if m \<le> 2 then 1 else 0)
      in \<lparr>tm_year = y - 1900, tm_mon = m - 1, tm_mday = doy - (153 * mp + 2) div 5 + 1,
          tm_hour = s div 3600, tm_min = s mod 3600 div 60, tm_sec = s mod 60\<rparr>)"

definition FormatTimestamp :: "ms \<Rightarrow> string" where
  "FormatTimestamp timestamp_ms =
     (let seconds = trunc_div timestamp_ms 1000; millis = timestamp_ms - 1000 * seconds; parts = gmtime seconds
      in pad_int 4 (tm_year parts + 1900) @ ''-'' @ pad_int 2 (tm_mon parts + 1) @ ''-'' @ pad_int 2 (tm_mday parts) @ ''T'' @
         pad_int 2 (tm_hour parts) @ '':'' @ pad_int 2 (tm_min parts) @ '':'' @ pad_int 2 (tm_sec parts) @ ''.'' @
         pad_int 3 millis @ ''Z'')"

definition AppendField :: "string \<Rightarrow> string \<Rightarrow> string \<Rightarrow> string" where
  "AppendField key value line = line @ '' '' @ key @ ''='' @ EscapeFieldValue value"

definition FormatLogLine :: "ms \<Rightarrow> LogRecord \<Rightarrow> string" where
  "FormatLogLine now_ms r =
     (let timestamp = (if lg_timestamp_ms r \<noteq> 0 then lg_timestamp_ms r else now_ms);
          line = ''ts='' @ FormatTimestamp timestamp;
          line = AppendField ''service'' (lg_service r) line;
          line = AppendField ''level'' (level_ToString (lg_level r)) line;
          line = AppendField ''event'' (lg_event r) line;
          line = (if lg_trace_id r \<noteq> [] then AppendField ''trace'' (lg_trace_id r) line else line)
      in fold (\<lambda>(key, value). AppendField key value) (lg_fields r) line @ [CHR 0x0A])"

record Logger =
  lo_service_name :: string
  lo_stderr :: string

definition Logger_new :: Logger where
  "Logger_new = \<lparr>lo_service_name = ''unknown'', lo_stderr = []\<rparr>"

definition SetServiceName :: "string \<Rightarrow> Logger \<Rightarrow> Logger" where
  "SetServiceName name g = g\<lparr>lo_service_name := name\<rparr>"

definition MakeRecord :: "LogLevel \<Rightarrow> string \<Rightarrow> string \<Rightarrow> (string \<times> string) list \<Rightarrow> LogRecord" where
  "MakeRecord level event trace_id fs =
     \<lparr>lg_service = [], lg_trace_id = trace_id, lg_level = level, lg_event = event, lg_fields = fs, lg_timestamp_ms = 0\<rparr>"

definition Log :: "ms \<Rightarrow> LogRecord \<Rightarrow> Logger \<Rightarrow> Logger" where
  "Log now_ms record g =
     (let with_service = (if lg_service record = [] then record\<lparr>lg_service := lo_service_name g\<rparr> else record)
      in g\<lparr>lo_stderr := lo_stderr g @ FormatLogLine now_ms with_service\<rparr>)"

lemma sample_timestamps:
  "FormatTimestamp 5 = ''1970-01-01T00:00:00.005Z''"
  "FormatTimestamp 951782399999 = ''2000-02-28T23:59:59.999Z''"
  "FormatTimestamp 951782400000 = ''2000-02-29T00:00:00.000Z''"
  "FormatTimestamp 1790989323456 = ''2026-10-03T01:02:03.456Z''"
  by code_simp+

definition log_all :: "(ms \<times> LogRecord) list \<Rightarrow> Logger \<Rightarrow> Logger" where
  "log_all rs g = fold (\<lambda>(now_ms, record). Log now_ms record) rs g"

section \<open>Reading a log back\<close>

text \<open>The format of \<^verbatim>\<open>logging.hpp\<close> as a reader sees it: lines, each a sequence of \<^verbatim>\<open>key=value\<close>, a value
  in quotes with escapes or up to the next space.\<close>

fun split_lines :: "string \<Rightarrow> string list" where
  "split_lines [] = []"
| "split_lines (c # s) =
     (if c = CHR 0x0A then [] # split_lines s
      else case split_lines s of [] \<Rightarrow> [[c]] | l # ls \<Rightarrow> (c # l) # ls)"

definition hex_value :: "char \<Rightarrow> nat" where
  "hex_value c = (if char_code c < 58 then char_code c - 48 else char_code c - 87)"

definition unescape_log :: "char \<Rightarrow> char" where
  "unescape_log e = (if e = CHR ''n'' then CHR 0x0A else if e = CHR ''r'' then CHR 0x0D else if e = CHR ''t'' then CHR 0x09 else e)"

fun read_quoted :: "string \<Rightarrow> string \<times> string" where
  "read_quoted [] = ([], [])"
| "read_quoted (c # s) =
     (if c = CHR 0x22 then ([], s)
      else if c = CHR 0x5C then
        (case s of [] \<Rightarrow> ([], [])
         | e # s' \<Rightarrow>
             if e = CHR ''x'' then
               (case s' of h # l # s'' \<Rightarrow> apfst (Cons (char_of (16 * hex_value h + hex_value l))) (read_quoted s'') | _ \<Rightarrow> ([], []))
             else apfst (Cons (unescape_log e)) (read_quoted s'))
      else apfst (Cons c) (read_quoted s))"

definition read_value :: "string \<Rightarrow> string \<times> string" where
  "read_value s =
     (case s of c # s' \<Rightarrow> if c = CHR 0x22 then read_quoted s' else (takeWhile (\<lambda>c. c \<noteq> CHR '' '') s, dropWhile (\<lambda>c. c \<noteq> CHR '' '') s)
      | [] \<Rightarrow> ([], []))"

lemma read_quoted_shorter: "length (snd (read_quoted s)) \<le> length s"
proof (induction s rule: read_quoted.induct)
  case (2 c s)
  then show ?case
    by (subst read_quoted.simps(2)) (fastforce simp del: read_quoted.simps(2) split: list.split intro: le_SucI)
qed simp

lemma read_value_shorter: "length (snd (read_value s)) \<le> length s"
  by (cases s) (auto simp: read_value_def length_dropWhile_le le_SucI intro: order_trans [OF read_quoted_shorter])

function parse_fields :: "string \<Rightarrow> (string \<times> string) list" where
  "parse_fields s =
     (case dropWhile (\<lambda>c. c \<noteq> CHR ''='') s of
        [] \<Rightarrow> []
      | _ # s' \<Rightarrow> (takeWhile (\<lambda>c. c \<noteq> CHR ''='') s, fst (read_value s')) # parse_fields (tl (snd (read_value s'))))"
  by pat_completeness auto
termination
proof (relation "measure length")
  fix s x and s' :: string
  assume d: "dropWhile (\<lambda>c. c \<noteq> CHR ''='') s = x # s'"
  have "length (x # s') \<le> length s" unfolding d [symmetric] by (rule length_dropWhile_le)
  then show "(tl (snd (read_value s')), s) \<in> measure length"
    using read_value_shorter [of s'] by simp
qed simp

declare parse_fields.simps [simp del]

section \<open>What is written is what is read\<close>

lemma read_escaped_char: "read_quoted (escape_log_char c @ s) = apfst (Cons c) (read_quoted s)"
proof (cases "char_code c < 0x20 \<or> char_code c = 0x7F")
  case True
  define k where "k = char_code c"
  have c: "c = char_of k" by (simp add: k_def char_code_def)
  have h: "hex_value (hex_digit d) = d" if "d < 16" for d
    using that by (auto simp: hex_value_def hex_digit_def char_code_def)
  have "k < 128" using True by (auto simp: k_def)
  then have "char_of (16 * hex_value (hex_digit (k div 16)) + hex_value (hex_digit (k mod 16))) = c"
    by (subst h, simp, subst h, simp_all add: c)
  then show ?thesis using True by (auto simp: escape_log_char_def unescape_log_def k_def)
next
  case False
  then show ?thesis by (auto simp: escape_log_char_def unescape_log_def char_code_def)
qed

lemma read_escaped: "read_quoted (concat (map escape_log_char v) @ CHR 0x22 # s) = (v, s)"
  by (induction v) (simp_all add: read_escaped_char)

lemma read_EscapeFieldValue:
  "s = [] \<or> hd s = CHR '' '' \<Longrightarrow> read_value (EscapeFieldValue v @ s) = (v, s)"
proof (cases "NeedsQuoting v")
  case True
  then show ?thesis by (simp add: EscapeFieldValue_def read_value_def read_escaped)
next
  case False
  assume s: "s = [] \<or> hd s = CHR '' ''"
  have v: "v \<noteq> []" "hd v \<noteq> CHR 0x22" "\<forall>c \<in> set v. c \<noteq> CHR '' ''"
    using False by (cases v; auto simp: NeedsQuoting_def list_ex_iff)+
  have "takeWhile (\<lambda>c. c \<noteq> CHR '' '') (v @ s) = v" "dropWhile (\<lambda>c. c \<noteq> CHR '' '') (v @ s) = s"
    using v(3) s by (cases s; auto simp: takeWhile_append2 dropWhile_append2)+
  then show ?thesis using False v(1,2) by (cases v) (auto simp: EscapeFieldValue_def read_value_def)
qed

definition clean_key :: "string \<Rightarrow> bool" where
  "clean_key key \<longleftrightarrow> list_all (\<lambda>c. c \<noteq> CHR ''='' \<and> c \<noteq> CHR 0x0A) key"

definition field_text :: "string \<times> string \<Rightarrow> string" where
  "field_text f = fst f @ ''='' @ EscapeFieldValue (snd f)"

fun fields_text :: "(string \<times> string) list \<Rightarrow> string" where
  "fields_text [] = []"
| "fields_text [f] = field_text f"
| "fields_text (f # fs) = field_text f @ '' '' @ fields_text fs"

lemma parse_one:
  assumes "clean_key k" "s = [] \<or> hd s = CHR '' ''"
  shows "parse_fields (field_text (k, v) @ s) = (k, v) # parse_fields (tl s)"
proof -
  have k: "\<forall>c \<in> set k. c \<noteq> CHR ''=''" using assms(1) by (auto simp: clean_key_def list_all_iff)
  have "takeWhile (\<lambda>c. c \<noteq> CHR ''='') (k @ CHR ''='' # r) = k" "dropWhile (\<lambda>c. c \<noteq> CHR ''='') (k @ CHR ''='' # r) = CHR ''='' # r" for r
    using k by (auto simp: takeWhile_append2 dropWhile_append2)
  then show ?thesis
    by (subst parse_fields.simps) (simp add: field_text_def read_EscapeFieldValue [OF assms(2)])
qed

lemma parse_Nil [simp]: "parse_fields [] = []"
  by (simp add: parse_fields.simps)

lemma parse_fields_text: "list_all (\<lambda>f. clean_key (fst f)) fs \<Longrightarrow> parse_fields (fields_text fs) = fs"
proof (induction fs rule: fields_text.induct)
  case (2 f)
  then show ?case using parse_one [of "fst f" "[]" "snd f"] by simp
next
  case (3 f g fs)
  then show ?case using parse_one [of "fst f" "'' '' @ fields_text (g # fs)" "snd f"] by simp
qed simp

text \<open>A line is the text of these fields.\<close>

definition record_fields :: "ms \<Rightarrow> LogRecord \<Rightarrow> (string \<times> string) list" where
  "record_fields now_ms r =
     [(''ts'', FormatTimestamp (if lg_timestamp_ms r \<noteq> 0 then lg_timestamp_ms r else now_ms)), (''service'', lg_service r),
      (''level'', level_ToString (lg_level r)), (''event'', lg_event r)] @
     (if lg_trace_id r \<noteq> [] then [(''trace'', lg_trace_id r)] else []) @ lg_fields r"

lemma fields_text_append: "fs \<noteq> [] \<Longrightarrow> fields_text (fs @ [f]) = fields_text fs @ '' '' @ field_text f"
proof (induction fs rule: fields_text.induct)
  case (3 g h fs)
  then show ?case by (cases fs) auto
qed auto

lemma fold_AppendField:
  "fs \<noteq> [] \<Longrightarrow> fold (\<lambda>(key, value). AppendField key value) gs (fields_text fs) = fields_text (fs @ gs)"
proof (induction gs arbitrary: fs)
  case (Cons g gs)
  then have "AppendField (fst g) (snd g) (fields_text fs) = fields_text (fs @ [g])"
    by (simp add: AppendField_def fields_text_append field_text_def)
  then show ?case using Cons.IH [of "fs @ [g]"] by (simp add: case_prod_beta)
qed simp

lemma timestamp_plain: "EscapeFieldValue (FormatTimestamp t) = FormatTimestamp t"
proof -
  have pad: "c = CHR ''-'' \<or> is_digit c" if "c \<in> set (pad_int n i)" for c n i
    using that nat_digits_props by (auto simp: pad_int_def Let_def is_digit_def split: if_splits)
  have chars: "c \<in> {CHR ''-'', CHR ''T'', CHR '':'', CHR ''.'', CHR ''Z''} \<or> is_digit c" if "c \<in> set (FormatTimestamp t)" for c
    using that pad by (auto simp: FormatTimestamp_def Let_def)
  have plain: "\<not> (c = CHR '' '' \<or> c = CHR ''='' \<or> c = CHR 0x22 \<or> c = CHR 0x5C \<or> char_code c < 0x20 \<or> char_code c = 0x7F)"
    if "c \<in> {CHR ''-'', CHR ''T'', CHR '':'', CHR ''.'', CHR ''Z''} \<or> is_digit c" for c
    using that by (auto simp: is_digit_def char_code_def)
  have "FormatTimestamp t \<noteq> []" by (simp add: FormatTimestamp_def Let_def)
  then have "\<not> NeedsQuoting (FormatTimestamp t)"
    using plain [OF chars] unfolding NeedsQuoting_def list_ex_iff by blast
  then show ?thesis by (simp add: EscapeFieldValue_def)
qed

lemma FormatLogLine_fields: "FormatLogLine now_ms r = fields_text (record_fields now_ms r) @ [CHR 0x0A]"
proof -
  define t where "t = FormatTimestamp (if lg_timestamp_ms r \<noteq> 0 then lg_timestamp_ms r else now_ms)"
  define trace where "trace = (if lg_trace_id r \<noteq> [] then [(''trace'', lg_trace_id r)] else [])"
  define a where "a = [(''service'', lg_service r), (''level'', level_ToString (lg_level r)), (''event'', lg_event r)]"
  have t: "''ts='' @ t = fields_text [(''ts'', t)]" by (simp add: field_text_def timestamp_plain t_def)
  have "FormatLogLine now_ms r = fold (\<lambda>(key, value). AppendField key value) (a @ trace @ lg_fields r) (''ts='' @ t) @ [CHR 0x0A]"
    by (simp add: FormatLogLine_def Let_def a_def trace_def t_def)
  also have "\<dots> = fields_text ([(''ts'', t)] @ a @ trace @ lg_fields r) @ [CHR 0x0A]"
    unfolding t by (simp only: fold_AppendField list.distinct not_False_eq_True)
  finally show ?thesis by (simp add: record_fields_def a_def trace_def t_def)
qed

text \<open>Escaped text has no line break, so a line ends where its record ends.\<close>

lemma escape_no_newline: "CHR 0x0A \<notin> set (EscapeFieldValue v)"
proof -
  have "CHR 0x0A \<notin> set (escape_log_char c)" for c
  proof -
    have h: "CHR 0x0A \<noteq> hex_digit d" if "d < 16" for d
    proof
      assume "CHR 0x0A = hex_digit d"
      then have "(of_char (CHR 0x0A) :: nat) = of_char (hex_digit d)" by simp
      then show False using that by (simp add: hex_digit_def split: if_splits)
    qed
    have "char_code c < 256" by (simp add: char_code_def)
    then have "char_code c div 16 < 16" "char_code c mod 16 < 16" by auto
    then show ?thesis using h [of "char_code c div 16"] h [of "char_code c mod 16"] by (simp add: escape_log_char_def)
  qed
  moreover have "CHR 0x0A \<notin> set v" if "\<not> NeedsQuoting v"
  proof
    assume "CHR 0x0A \<in> set v"
    moreover have "char_code (CHR 0x0A) < 0x20" by (simp add: char_code_def)
    ultimately show False using that unfolding NeedsQuoting_def list_ex_iff by blast
  qed
  ultimately show ?thesis by (simp add: EscapeFieldValue_def)
qed

lemma fields_no_newline: "list_all (\<lambda>f. clean_key (fst f)) fs \<Longrightarrow> CHR 0x0A \<notin> set (fields_text fs)"
  by (induction fs rule: fields_text.induct) (auto simp: field_text_def escape_no_newline clean_key_def list_all_iff)

lemma split_log_line: "CHR 0x0A \<notin> set l \<Longrightarrow> split_lines (l @ CHR 0x0A # s) = l # split_lines s"
  by (induction l) auto

definition clean_record :: "LogRecord \<Rightarrow> bool" where
  "clean_record r \<longleftrightarrow> list_all (\<lambda>f. clean_key (fst f)) (lg_fields r)"

lemma clean_fields: "clean_record r \<Longrightarrow> list_all (\<lambda>f. clean_key (fst f)) (record_fields now_ms r)"
  by (simp add: clean_record_def record_fields_def clean_key_def)

definition with_service :: "string \<Rightarrow> LogRecord \<Rightarrow> LogRecord" where
  "with_service name r = (if lg_service r = [] then r\<lparr>lg_service := name\<rparr> else r)"

lemma Log_appends [simp]:
  "lo_service_name (Log now_ms r g) = lo_service_name g"
  "lo_stderr (Log now_ms r g) = lo_stderr g @ FormatLogLine now_ms (with_service (lo_service_name g) r)"
  by (simp_all add: Log_def Let_def with_service_def)

text \<open>C39: the log reads back. Whatever a run logs, provided only that the keys of the fields are
  plain, the text on standard error splits into one line for each record, in order, and reading a line
  gives back the time, the service, the level, the event, the trace id when there is one and every field
  with its value, whatever bytes the values hold: no value can end a line early or forge a field.\<close>

theorem log_reads_back:
  assumes "list_all (\<lambda>(now_ms, r). clean_record r) rs"
  shows "map parse_fields (split_lines (lo_stderr (log_all rs (SetServiceName name Logger_new)))) =
    map (\<lambda>(now_ms, r). record_fields now_ms (with_service name r)) rs"
proof -
  have "lo_stderr (log_all rs g) = lo_stderr g @ concat (map (\<lambda>(now_ms, r). FormatLogLine now_ms (with_service (lo_service_name g) r)) rs)" for g
    unfolding log_all_def by (induction rs arbitrary: g) (auto simp: Log_appends)
  moreover have "map parse_fields (split_lines (concat (map (\<lambda>(now_ms, r). FormatLogLine now_ms (with_service name r)) rs))) =
      map (\<lambda>(now_ms, r). record_fields now_ms (with_service name r)) rs"
    using assms
  proof (induction rs)
    case (Cons x rs)
    obtain now_ms r where x: "x = (now_ms, r)" by (cases x)
    have c: "list_all (\<lambda>f. clean_key (fst f)) (record_fields now_ms (with_service name r))"
      using Cons.prems x clean_fields [of "with_service name r"] by (simp add: clean_record_def with_service_def)
    then show ?case
      using Cons x by (simp add: FormatLogLine_fields split_log_line fields_no_newline parse_fields_text)
  qed simp
  ultimately show ?thesis by (simp add: SetServiceName_def Logger_new_def)
qed

theorem log_reads_back_witness:
  "map parse_fields (split_lines (lo_stderr (log_all [(5, MakeRecord LogWarn ''subscribe_rejected'' [] [(''room'', ''a b=c'' @ [CHR 0x0A])])]
     (SetServiceName ''gateway'' Logger_new)))) =
   [[(''ts'', ''1970-01-01T00:00:00.005Z''), (''service'', ''gateway''), (''level'', ''warn''), (''event'', ''subscribe_rejected''),
     (''room'', ''a b=c'' @ [CHR 0x0A])]]"
  by (subst log_reads_back)
     (simp_all add: clean_record_def MakeRecord_def clean_key_def record_fields_def with_service_def sample_timestamps)

end
