(* ===== verification/Gateway_Service.thy ===== *)
theory Gateway_Service
  imports Stream_Hub Session_Store Player_Directory Match_Client Logging
begin

text \<open>
  The HTTP service of the gateway, \<^verbatim>\<open>src/gateway/gateway_service.cpp\<close>: eleven handlers that check the
  request, find the player of the session and pass the call on to the match service, the room service or
  the push hub.

  The four collaborators are records of functions on a world \<^typ>\<open>'w\<close>. Of brpc the model sees an
  HTTP request as three lookups, and the progressive attachment as a sink number that may be refused. The
  human-readable message of an error, the latency histogram, the gauges and all log lines but
  \<^verbatim>\<open>request_done\<close> are left out.
\<close>

section \<open>Data\<close>

definition kDefaultSessionTtlSeconds :: int where "kDefaultSessionTtlSeconds = 7 * 24 * 60 * 60"
definition kMaxAccountLength :: nat where "kMaxAccountLength = 64"
definition kMaxPasswordLength :: nat where "kMaxPasswordLength = 128"
definition kMaxLoginRequestIdLength :: nat where "kMaxLoginRequestIdLength = 64"
definition kMaxTokenLength :: nat where "kMaxTokenLength = 256"

lemmas gateway_consts = kDefaultSessionTtlSeconds_def kMaxAccountLength_def kMaxPasswordLength_def
  kMaxLoginRequestIdLength_def kMaxTokenLength_def

datatype ErrorCode = ERROR_CODE_UNSPECIFIED | INVALID_ARGUMENT | UNAUTHENTICATED | NOT_FOUND | UNAVAILABLE
  | INTERNAL | RESOURCE_EXHAUSTED | CONFLICT | ErrorCode_SENTINEL

fun HttpStatusOf :: "ErrorCode \<Rightarrow> int" where
  "HttpStatusOf INVALID_ARGUMENT = 400"
| "HttpStatusOf UNAUTHENTICATED = 401"
| "HttpStatusOf NOT_FOUND = 404"
| "HttpStatusOf RESOURCE_EXHAUSTED = 429"
| "HttpStatusOf CONFLICT = 409"
| "HttpStatusOf UNAVAILABLE = 503"
| "HttpStatusOf INTERNAL = 500"
| "HttpStatusOf ERROR_CODE_UNSPECIFIED = 500"
| "HttpStatusOf ErrorCode_SENTINEL = 500"

fun ErrorCodeName :: "ErrorCode \<Rightarrow> string" where
  "ErrorCodeName ERROR_CODE_UNSPECIFIED = ''ERROR_CODE_UNSPECIFIED''"
| "ErrorCodeName INVALID_ARGUMENT = ''INVALID_ARGUMENT''"
| "ErrorCodeName UNAUTHENTICATED = ''UNAUTHENTICATED''"
| "ErrorCodeName NOT_FOUND = ''NOT_FOUND''"
| "ErrorCodeName RESOURCE_EXHAUSTED = ''RESOURCE_EXHAUSTED''"
| "ErrorCodeName CONFLICT = ''CONFLICT''"
| "ErrorCodeName UNAVAILABLE = ''UNAVAILABLE''"
| "ErrorCodeName INTERNAL = ''INTERNAL''"
| "ErrorCodeName ErrorCode_SENTINEL = ''UNKNOWN''"

definition IsRetryable :: "ErrorCode \<Rightarrow> bool" where
  "IsRetryable code \<longleftrightarrow> code = UNAVAILABLE \<or> code = RESOURCE_EXHAUSTED"

record GatewayError =
  ge_code :: ErrorCode
  ge_reason :: string
  ge_request_id :: string

record HttpRequest =
  hr_GetHeader :: "string \<Rightarrow> string option"
  hr_GetQuery :: "string \<Rightarrow> string option"
  hr_path :: string

text \<open>\<^verbatim>\<open>brpc::Controller\<close>: none when the service is not called over HTTP.\<close>

type_synonym Controller = "HttpRequest option"

record LoginRequest =
  lr_account :: string
  lr_password :: string
  lr_request_id :: string
  lr_client_type :: string

record MatchStatusInfo =
  mi_state :: string
  mi_match_id :: string
  mi_room_id :: string
  mi_player_ids :: "string list"
  mi_queued_at_ms :: int
  mi_queue_size :: int

record RoomPlayerInfo =
  ri_player_id :: string
  ri_hp :: int
  ri_connected :: bool
  ri_online :: bool

record RoomStateInfo =
  ri_room_id :: string
  ri_match_id :: string
  ri_state :: string
  ri_frame :: int
  ri_players :: "RoomPlayerInfo list"
  ri_finish_reason :: string
  ri_winner_id :: string
  ri_started_at_ms :: int
  ri_finished_at_ms :: int

text \<open>What a response carries besides the status and the error.\<close>

datatype GatewayBody = NoBody | LoginBody string int PlayerInfo | PlayerBody PlayerInfo
  | MatchBody MatchStatusInfo | RoomBody RoomStateInfo
  | ResultBody "RoomStateInfo option" "ProtoMatchResult option"

record Answer =
  an_status_code :: int
  an_http_status :: "int option"
  an_error :: "GatewayError option"
  an_body :: GatewayBody

section \<open>Reading the request\<close>

definition to_lower :: "char \<Rightarrow> char" where
  "to_lower c = (if (65 :: nat) \<le> of_char c \<and> of_char c \<le> (90 :: nat) then char_of (of_char c + (32 :: nat)) else c)"

definition ExtractToken :: "Controller \<Rightarrow> string \<Rightarrow> string" where
  "ExtractToken ctl body_token =
     (if body_token \<noteq> [] then body_token
      else case ctl of None \<Rightarrow> []
      | Some r \<Rightarrow>
          (case hr_GetHeader r ''Authorization'' of
             Some auth \<Rightarrow>
               if length auth > length ''bearer '' \<and> map to_lower (take (length ''bearer '') auth) = ''bearer ''
               then drop (length ''bearer '') auth else auth
           | None \<Rightarrow> (case hr_GetQuery r ''token'' of Some t \<Rightarrow> t | None \<Rightarrow> [])))"

definition ExtractQueryParam :: "Controller \<Rightarrow> string \<Rightarrow> string \<Rightarrow> string" where
  "ExtractQueryParam ctl name body_value =
     (if body_value \<noteq> [] then body_value
      else case ctl of None \<Rightarrow> []
      | Some r \<Rightarrow> (case hr_GetQuery r name of Some v \<Rightarrow> v | None \<Rightarrow> []))"

record LastEventIdHeader =
  le_value :: int
  le_malformed :: bool
  le_present :: bool

fun parse_frame :: "int \<Rightarrow> string \<Rightarrow> int option" where
  "parse_frame value [] = Some value"
| "parse_frame value (ch # s) = (if is_digit ch then parse_frame (value * 10 + int (digit_value ch)) s else None)"

definition ParseLastEventId :: "Controller \<Rightarrow> LastEventIdHeader" where
  "ParseLastEventId ctl =
     (let absent = \<lparr>le_value = 0, le_malformed = False, le_present = False\<rparr>;
          bad = \<lparr>le_value = 0, le_malformed = True, le_present = True\<rparr>
      in case ctl of None \<Rightarrow> absent
      | Some r \<Rightarrow>
          (case hr_GetHeader r ''Last-Event-ID'' of
             None \<Rightarrow> absent
           | Some raw \<Rightarrow>
               if raw = [] \<or> length raw > 18 then bad
               else case parse_frame 0 raw of None \<Rightarrow> bad
                 | Some value \<Rightarrow> \<lparr>le_value = value, le_malformed = False, le_present = True\<rparr>))"

definition ValidateLoginRequest :: "LoginRequest \<Rightarrow> string" where
  "ValidateLoginRequest q =
     (if lr_account q = [] then ''account_required''
      else if length (lr_account q) > kMaxAccountLength then ''account_too_long''
      else if lr_password q = [] then ''password_required''
      else if length (lr_password q) > kMaxPasswordLength then ''password_too_long''
      else if length (lr_request_id q) > kMaxLoginRequestIdLength then ''request_id_too_long''
      else if lr_client_type q \<noteq> [] \<and> lr_client_type q \<noteq> ''web'' \<and> lr_client_type q \<noteq> ''bot''
      then ''unsupported_client_type''
      else [])"

definition ValidateToken :: "string \<Rightarrow> string" where
  "ValidateToken token =
     (if token = [] then ''token_required''
      else if length token > kMaxTokenLength then ''token_too_long''
      else if \<not> IsValidTokenFormat token then ''token_malformed''
      else [])"

fun MatchStateName :: "GwMatchState \<Rightarrow> string" where
  "MatchStateName GwIdle = ''idle''"
| "MatchStateName GwQueued = ''queued''"
| "MatchStateName GwMatched = ''matched''"
| "MatchStateName GwTimeout = ''timeout''"

section \<open>Accounting\<close>

definition LogLevelForStatus :: "int \<Rightarrow> LogLevel" where
  "LogLevelForStatus status_code =
     (if status_code \<ge> 500 then LogError else if status_code \<ge> 400 then LogWarn else LogInfo)"

definition kMappings :: "(string \<times> string) list" where
  "kMappings =
     [(''/api/v1/login'', ''login''), (''/api/v1/players/me'', ''get_current_player''), (''/api/v1/logout'', ''logout''),
      (''/api/v1/matches'', ''enqueue_match''), (''/api/v1/matches/current'', ''get_match_status''),
      (''/api/v1/matches/current/cancel'', ''cancel_match''), (''/api/v1/rooms/join'', ''join_room''),
      (''/api/v1/rooms/input'', ''submit_input''), (''/api/v1/rooms/state'', ''get_room_state''),
      (''/api/v1/results'', ''get_match_result''), (''/api/v1/stream'', ''stream_events'')]"

definition OperationForPath :: "string \<Rightarrow> string" where
  "OperationForPath path = (case map_of kMappings path of Some op \<Rightarrow> op | None \<Rightarrow> ''unknown'')"

record GatewayService =
  gs_shutting_down :: bool
  gs_http_requests :: "(string \<times> int, nat) umap"
  gs_done :: "LogRecord list"

definition GatewayService_new :: GatewayService where
  "GatewayService_new = \<lparr>gs_shutting_down = False, gs_http_requests = [], gs_done = []\<rparr>"

definition RecordHttpRequest :: "Controller \<Rightarrow> int \<Rightarrow> GatewayService \<Rightarrow> GatewayService" where
  "RecordHttpRequest ctl status_code gs =
     (case ctl of None \<Rightarrow> gs
      | Some r \<Rightarrow>
          if take (length ''/api/v1/'') (hr_path r) \<noteq> ''/api/v1/'' then gs
          else let key = (hr_path r, status_code);
                   n = (case map_of (gs_http_requests gs) key of None \<Rightarrow> 0 | Some n \<Rightarrow> n)
               in gs\<lparr>gs_http_requests := AList.update key (Suc n) (gs_http_requests gs)\<rparr>)"

definition RecordRequestDone :: "Controller \<Rightarrow> int \<Rightarrow> string \<Rightarrow> GatewayService \<Rightarrow> GatewayService" where
  "RecordRequestDone ctl status_code request_id gs =
     (let op = (case ctl of None \<Rightarrow> ''unknown'' | Some r \<Rightarrow> OperationForPath (hr_path r));
          record = MakeRecord (LogLevelForStatus status_code) ''request_done'' request_id
            [(''op'', op), (''status'', to_string status_code)]
      in gs\<lparr>gs_done := gs_done gs @ [record]\<rparr>)"

definition ApplyHttpStatus :: "Controller \<Rightarrow> int \<Rightarrow> int option" where
  "ApplyHttpStatus ctl status_code = map_option (\<lambda>_. status_code) ctl"

definition ApplyHttpStatusAndRecord :: "Controller \<Rightarrow> int \<Rightarrow> string \<Rightarrow> GatewayService \<Rightarrow> int option \<times> GatewayService" where
  "ApplyHttpStatusAndRecord ctl status_code request_id gs =
     (ApplyHttpStatus ctl status_code,
      RecordRequestDone ctl status_code request_id (RecordHttpRequest ctl status_code gs))"

section \<open>Answers\<close>

definition gateway_FillError :: "ErrorCode \<Rightarrow> string \<Rightarrow> string \<Rightarrow> int \<times> GatewayError option" where
  "gateway_FillError code reason request_id =
     (HttpStatusOf code, Some \<lparr>ge_code = code, ge_reason = reason, ge_request_id = request_id\<rparr>)"

text \<open>How every branch of a handler ends: the status is set, applied and recorded.\<close>

definition respond ::
  "Controller \<Rightarrow> string \<Rightarrow> int \<times> GatewayError option \<Rightarrow> GatewayBody \<Rightarrow> GatewayService \<times> 'w \<Rightarrow> Answer \<times> GatewayService \<times> 'w" where
  "respond ctl request_id outcome body s =
     (case ApplyHttpStatusAndRecord ctl (fst outcome) request_id (fst s) of (http, gs) \<Rightarrow>
        (\<lparr>an_status_code = fst outcome, an_http_status = http, an_error = snd outcome, an_body = body\<rparr>, gs, snd s))"

definition RejectIfShuttingDown ::
  "Controller \<Rightarrow> string \<Rightarrow> GatewayService \<times> 'w \<Rightarrow> (Answer \<times> GatewayService \<times> 'w) option" where
  "RejectIfShuttingDown ctl request_id s =
     (if \<not> gs_shutting_down (fst s) then None
      else Some (respond ctl request_id (gateway_FillError UNAVAILABLE ''shutting_down'' request_id) NoBody s))"

definition GatewayService_BeginShutdown :: "GatewayService \<Rightarrow> GatewayService" where
  "GatewayService_BeginShutdown gs = gs\<lparr>gs_shutting_down := True\<rparr>"

definition FillMatchStatus :: "MatchSnapshot \<Rightarrow> MatchStatusInfo" where
  "FillMatchStatus x = \<lparr>mi_state = MatchStateName (mx_state x), mi_match_id = mx_match_id x, mi_room_id = mx_room_id x,
     mi_player_ids = mx_player_ids x, mi_queued_at_ms = mx_queued_at_ms x, mi_queue_size = mx_queue_size x\<rparr>"

definition FillRoomState :: "GwRoomSnapshot \<Rightarrow> RoomStateInfo" where
  "FillRoomState x =
     \<lparr>ri_room_id = gw_room_id x, ri_match_id = gw_match_id x, ri_state = RoomStateName (gw_state x),
      ri_frame = gw_frame x,
      ri_players = map (\<lambda>p. \<lparr>ri_player_id = gp_player_id p, ri_hp = gp_hp p, ri_connected = gp_connected p,
        ri_online = gp_online p\<rparr>) (gw_players x),
      ri_finish_reason = gw_finish_reason x, ri_winner_id = gw_winner_id x,
      ri_started_at_ms = gw_started_at_ms x, ri_finished_at_ms = gw_finished_at_ms x\<rparr>"

fun HandleMatchFailure :: "MatchCallStatus \<Rightarrow> string \<Rightarrow> int \<times> GatewayError option" where
  "HandleMatchFailure MatchOk request_id = (200, None)"
| "HandleMatchFailure MatchUnavailable request_id = gateway_FillError UNAVAILABLE ''match_unavailable'' request_id"
| "HandleMatchFailure MatchShuttingDown request_id = gateway_FillError UNAVAILABLE ''shutting_down'' request_id"
| "HandleMatchFailure MatchInvalidArgument request_id = gateway_FillError INVALID_ARGUMENT ''match_invalid_argument'' request_id"
| "HandleMatchFailure MatchQueueFull request_id = gateway_FillError RESOURCE_EXHAUSTED ''match_queue_full'' request_id"
| "HandleMatchFailure MatchInternal request_id = gateway_FillError INTERNAL ''match_internal'' request_id"

fun HandleRoomFailure :: "RoomCallStatus \<Rightarrow> string \<Rightarrow> string \<Rightarrow> int \<times> GatewayError option" where
  "HandleRoomFailure CallOk request_id nf = (200, None)"
| "HandleRoomFailure CallUnavailable request_id nf = gateway_FillError UNAVAILABLE ''room_unavailable'' request_id"
| "HandleRoomFailure CallStoreUnavailable request_id nf = gateway_FillError UNAVAILABLE ''result_store_unavailable'' request_id"
| "HandleRoomFailure CallResultPending request_id nf = gateway_FillError UNAVAILABLE ''result_pending'' request_id"
| "HandleRoomFailure CallShuttingDown request_id nf = gateway_FillError UNAVAILABLE ''shutting_down'' request_id"
| "HandleRoomFailure CallNotFound request_id nf = gateway_FillError NOT_FOUND nf request_id"
| "HandleRoomFailure CallAlreadyFinished request_id nf = gateway_FillError CONFLICT ''room_already_finished'' request_id"
| "HandleRoomFailure CallInvalidArgument request_id nf = gateway_FillError INVALID_ARGUMENT ''room_invalid_argument'' request_id"
| "HandleRoomFailure CallNotAMember request_id nf = gateway_FillError INVALID_ARGUMENT ''not_a_member'' request_id"
| "HandleRoomFailure CallNotPlaying request_id nf = gateway_FillError INVALID_ARGUMENT ''room_not_playing'' request_id"
| "HandleRoomFailure CallInternal request_id nf = gateway_FillError INTERNAL ''room_internal'' request_id"

section \<open>The handlers\<close>

record 'w GatewayDeps =
  gd_sessions :: "'w SessionStore"
  gd_players :: "'w PlayerDirectory"
  gd_match :: "'w MatchClient"
  gd_room :: "'w RoomClient option"
  gd_hub :: "'w hub_env"
  gd_CreateProgressiveAttachment :: "'w \<Rightarrow> nat option \<times> 'w"
  gd_session_ttl :: int

type_synonym 'w handler = "GatewayService \<times> 'w \<Rightarrow> Answer \<times> GatewayService \<times> 'w"

definition ResolvePlayerId ::
  "'w GatewayDeps \<Rightarrow> string \<Rightarrow> string \<Rightarrow> 'w \<Rightarrow> ((int \<times> GatewayError option) \<times> string) \<times> 'w" where
  "ResolvePlayerId d token request_id w =
     (if ValidateToken token \<noteq> [] then ((gateway_FillError INVALID_ARGUMENT (ValidateToken token) request_id, []), w)
      else case ss_GetSession (gd_sessions d) token w of
        ((StoreUnavailable, _), w1) \<Rightarrow> ((gateway_FillError UNAVAILABLE ''session_store_unavailable'' request_id, []), w1)
      | ((StoreNotFound, _), w1) \<Rightarrow> ((gateway_FillError UNAUTHENTICATED ''session_not_found'' request_id, []), w1)
      | ((StoreOk, session), w1) \<Rightarrow> (((200, None), (case session of None \<Rightarrow> [] | Some x \<Rightarrow> se_player_id x)), w1))"

text \<open>The beginning of every handler that needs a session.\<close>

definition with_player ::
  "'w GatewayDeps \<Rightarrow> Controller \<Rightarrow> string \<Rightarrow> string \<Rightarrow> (string \<Rightarrow> 'w handler) \<Rightarrow> 'w handler" where
  "with_player d ctl token request_id k s =
     (case ResolvePlayerId d token request_id (snd s) of
        ((auth, player_id), w) \<Rightarrow>
          if fst auth \<noteq> 200 then respond ctl request_id auth NoBody (fst s, w) else k player_id (fst s, w))"

text \<open>The checks before a call to the room service.\<close>

definition with_room ::
  "'w GatewayDeps \<Rightarrow> Controller \<Rightarrow> string \<Rightarrow> string \<Rightarrow> string \<Rightarrow> ('w RoomClient \<Rightarrow> 'w handler) \<Rightarrow> 'w handler" where
  "with_room d ctl request_id required target_id k s =
     (if target_id = [] then respond ctl request_id (gateway_FillError INVALID_ARGUMENT required request_id) NoBody s
      else case gd_room d of
        None \<Rightarrow> respond ctl request_id (gateway_FillError UNAVAILABLE ''room_unavailable'' request_id) NoBody s
      | Some rc \<Rightarrow> k rc s)"

definition Gateway_Login :: "'w GatewayDeps \<Rightarrow> Controller \<Rightarrow> LoginRequest \<Rightarrow> 'w handler" where
  "Gateway_Login d ctl q s =
     (let request_id = lr_request_id q in
      case RejectIfShuttingDown ctl request_id s of Some a \<Rightarrow> a
      | None \<Rightarrow>
        if ValidateLoginRequest q \<noteq> [] then
          respond ctl request_id (gateway_FillError INVALID_ARGUMENT (ValidateLoginRequest q) request_id) NoBody s
        else case pd_Authenticate (gd_players d) (lr_account q) (lr_password q) (snd s) of
          ((InvalidCredential, _), w) \<Rightarrow>
            respond ctl request_id (gateway_FillError UNAUTHENTICATED ''invalid_credential'' request_id) NoBody (fst s, w)
        | ((AccountDisabled, _), w) \<Rightarrow>
            respond ctl request_id (gateway_FillError UNAUTHENTICATED ''account_disabled'' request_id) NoBody (fst s, w)
        | ((CredentialUnavailable, _), w) \<Rightarrow>
            respond ctl request_id (gateway_FillError UNAVAILABLE ''player_store_unavailable'' request_id) NoBody (fst s, w)
        | ((CredentialOk, found), w) \<Rightarrow>
            let player = (case found of None \<Rightarrow> \<lparr>pi_player_id = [], pi_display_name = [], pi_status = []\<rparr> | Some p \<Rightarrow> p);
                client_type = (if lr_client_type q = [] then ''web'' else lr_client_type q)
            in case ss_CreateSession (gd_sessions d) request_id (pi_player_id player) client_type (gd_session_ttl d) w of
              ((created, token), w1) \<Rightarrow>
                if created \<noteq> StoreOk then
                  respond ctl request_id (gateway_FillError UNAVAILABLE ''session_store_unavailable'' request_id) NoBody (fst s, w1)
                else
                  respond ctl request_id (200, None)
                    (LoginBody (case token of None \<Rightarrow> [] | Some t \<Rightarrow> t) (gd_session_ttl d) player) (fst s, w1))"

definition Gateway_GetCurrentPlayer :: "'w GatewayDeps \<Rightarrow> Controller \<Rightarrow> string \<Rightarrow> string \<Rightarrow> 'w handler" where
  "Gateway_GetCurrentPlayer d ctl body_token request_id =
     with_player d ctl (ExtractToken ctl body_token) request_id (\<lambda>player_id s.
       case pd_FindByPlayerId (gd_players d) player_id (snd s) of
         (None, w) \<Rightarrow> respond ctl request_id (gateway_FillError NOT_FOUND ''player_not_found'' request_id) NoBody (fst s, w)
       | (Some player, w) \<Rightarrow> respond ctl request_id (200, None) (PlayerBody player) (fst s, w))"

definition Gateway_Logout :: "'w GatewayDeps \<Rightarrow> Controller \<Rightarrow> string \<Rightarrow> string \<Rightarrow> 'w handler" where
  "Gateway_Logout d ctl body_token request_id s =
     (let token = ExtractToken ctl body_token in
      if ValidateToken token \<noteq> [] then
        respond ctl request_id (gateway_FillError INVALID_ARGUMENT (ValidateToken token) request_id) NoBody s
      else case ss_DeleteSession (gd_sessions d) token (snd s) of
        (StoreUnavailable, w) \<Rightarrow>
          respond ctl request_id (gateway_FillError UNAVAILABLE ''session_store_unavailable'' request_id) NoBody (fst s, w)
      | (_, w) \<Rightarrow> respond ctl request_id (200, None) NoBody (fst s, w))"

text \<open>How the three match handlers end.\<close>

definition match_answer ::
  "Controller \<Rightarrow> string \<Rightarrow> GatewayService \<Rightarrow> (MatchCallStatus \<times> MatchSnapshot option) \<times> 'w \<Rightarrow> Answer \<times> GatewayService \<times> 'w" where
  "match_answer ctl request_id gs result =
     (case result of ((status, snapshot), w) \<Rightarrow>
        let outcome = HandleMatchFailure status request_id in
        if fst outcome \<noteq> 200 then respond ctl request_id outcome NoBody (gs, w)
        else respond ctl request_id (200, None)
               (MatchBody (FillMatchStatus (case snapshot of None \<Rightarrow> default_match_snapshot | Some x \<Rightarrow> x))) (gs, w))"

definition Gateway_EnqueueMatch :: "'w GatewayDeps \<Rightarrow> Controller \<Rightarrow> string \<Rightarrow> string \<Rightarrow> 'w handler" where
  "Gateway_EnqueueMatch d ctl body_token request_id s =
     (case RejectIfShuttingDown ctl request_id s of Some a \<Rightarrow> a
      | None \<Rightarrow> with_player d ctl (ExtractToken ctl body_token) request_id (\<lambda>player_id s.
          match_answer ctl request_id (fst s) (mc_Enqueue (gd_match d) player_id request_id (snd s))) s)"

definition Gateway_GetMatchStatus :: "'w GatewayDeps \<Rightarrow> Controller \<Rightarrow> string \<Rightarrow> string \<Rightarrow> 'w handler" where
  "Gateway_GetMatchStatus d ctl body_token request_id =
     with_player d ctl (ExtractToken ctl body_token) request_id (\<lambda>player_id s.
       match_answer ctl request_id (fst s) (mc_GetStatus (gd_match d) player_id (snd s)))"

definition Gateway_CancelMatch :: "'w GatewayDeps \<Rightarrow> Controller \<Rightarrow> string \<Rightarrow> string \<Rightarrow> 'w handler" where
  "Gateway_CancelMatch d ctl body_token request_id s =
     (case RejectIfShuttingDown ctl request_id s of Some a \<Rightarrow> a
      | None \<Rightarrow> with_player d ctl (ExtractToken ctl body_token) request_id (\<lambda>player_id s.
          match_answer ctl request_id (fst s) (mc_Cancel (gd_match d) player_id request_id (snd s))) s)"

text \<open>\<^verbatim>\<open>RoomSnapshot snapshot;\<close> before a call fills it.\<close>

definition default_gw_snapshot :: GwRoomSnapshot where
  "default_gw_snapshot = \<lparr>gw_room_id = [], gw_match_id = [], gw_state = GwCreated, gw_frame = 0, gw_players = [],
     gw_finish_reason = [], gw_winner_id = [], gw_started_at_ms = 0, gw_finished_at_ms = 0\<rparr>"

definition room_answer ::
  "Controller \<Rightarrow> string \<Rightarrow> GatewayService \<Rightarrow> (RoomCallStatus \<times> GwRoomSnapshot option) \<times> 'w \<Rightarrow> Answer \<times> GatewayService \<times> 'w" where
  "room_answer ctl request_id gs result =
     (case result of ((status, snapshot), w) \<Rightarrow>
        let outcome = HandleRoomFailure status request_id ''room_not_found'' in
        if fst outcome \<noteq> 200 then respond ctl request_id outcome NoBody (gs, w)
        else respond ctl request_id (200, None)
               (RoomBody (FillRoomState (case snapshot of None \<Rightarrow> default_gw_snapshot | Some x \<Rightarrow> x))) (gs, w))"

definition Gateway_JoinRoom :: "'w GatewayDeps \<Rightarrow> Controller \<Rightarrow> string \<Rightarrow> string \<Rightarrow> string \<Rightarrow> 'w handler" where
  "Gateway_JoinRoom d ctl body_token request_id body_room_id s =
     (case RejectIfShuttingDown ctl request_id s of Some a \<Rightarrow> a
      | None \<Rightarrow>
          let room_id = ExtractQueryParam ctl ''room_id'' body_room_id in
          with_player d ctl (ExtractToken ctl body_token) request_id (\<lambda>player_id.
            with_room d ctl request_id ''room_id_required'' room_id (\<lambda>rc s.
              room_answer ctl request_id (fst s) (rcl_Join rc room_id player_id request_id (snd s)))) s)"

definition Gateway_SubmitInput :: "'w GatewayDeps \<Rightarrow> Controller \<Rightarrow> string \<Rightarrow> string \<Rightarrow> string \<Rightarrow> 'w handler" where
  "Gateway_SubmitInput d ctl body_token request_id body_room_id s =
     (case RejectIfShuttingDown ctl request_id s of Some a \<Rightarrow> a
      | None \<Rightarrow>
          let room_id = ExtractQueryParam ctl ''room_id'' body_room_id in
          with_player d ctl (ExtractToken ctl body_token) request_id (\<lambda>player_id.
            with_room d ctl request_id ''room_id_required'' room_id (\<lambda>rc s.
              room_answer ctl request_id (fst s) (rcl_SubmitAttack rc room_id player_id request_id (snd s)))) s)"

definition Gateway_GetRoomState :: "'w GatewayDeps \<Rightarrow> Controller \<Rightarrow> string \<Rightarrow> string \<Rightarrow> string \<Rightarrow> 'w handler" where
  "Gateway_GetRoomState d ctl body_token request_id body_room_id =
     (let room_id = ExtractQueryParam ctl ''room_id'' body_room_id in
      with_player d ctl (ExtractToken ctl body_token) request_id (\<lambda>player_id.
        with_room d ctl request_id ''room_id_required'' room_id (\<lambda>rc s.
          room_answer ctl request_id (fst s) (rcl_GetState rc room_id request_id (snd s)))))"

definition Gateway_GetMatchResult :: "'w GatewayDeps \<Rightarrow> Controller \<Rightarrow> string \<Rightarrow> string \<Rightarrow> string \<Rightarrow> 'w handler" where
  "Gateway_GetMatchResult d ctl body_token request_id body_match_id =
     (let match_id = ExtractQueryParam ctl ''match_id'' body_match_id in
      with_player d ctl (ExtractToken ctl body_token) request_id (\<lambda>player_id.
        with_room d ctl request_id ''match_id_required'' match_id (\<lambda>rc s.
          case rcl_GetResult rc match_id request_id (snd s) of ((status, found), w) \<Rightarrow>
            let outcome = HandleRoomFailure status request_id ''result_not_found'';
                room = (case found of None \<Rightarrow> None | Some v \<Rightarrow> map_option FillRoomState (mv_room v));
                result = (case found of None \<Rightarrow> None | Some v \<Rightarrow> mv_result v)
            in if fst outcome \<noteq> 200 then respond ctl request_id outcome (ResultBody room None) (fst s, w)
               else respond ctl request_id (200, None) (ResultBody room result) (fst s, w))))"

definition subscribe_options :: "LastEventIdHeader \<Rightarrow> string \<Rightarrow> SubscribeOptions" where
  "subscribe_options header request_id =
     \<lparr>so_last_event_id = (if le_present header then Some (le_value header) else None),
      so_last_event_id_malformed = le_malformed header, so_request_id = request_id\<rparr>"

text \<open>The world of \<^verbatim>\<open>StreamEvents\<close> includes the hub, when there is one.\<close>

definition stream_subscribe ::
  "'w GatewayDeps \<Rightarrow> Controller \<Rightarrow> string \<Rightarrow> string \<Rightarrow> string \<Rightarrow> StreamHub option \<Rightarrow> GatewayService \<times> 'w \<Rightarrow>
   Answer \<times> GatewayService \<times> StreamHub option \<times> 'w" where
  "stream_subscribe d ctl request_id room_id player_id hub s =
     (case hub of
        None \<Rightarrow> respond ctl request_id (gateway_FillError UNAVAILABLE ''stream_unavailable'' request_id) NoBody (fst s, None, snd s)
      | Some h \<Rightarrow>
        if ctl = None then
          respond ctl request_id (gateway_FillError INTERNAL ''stream_requires_http'' request_id) NoBody (fst s, Some h, snd s)
        else case gd_CreateProgressiveAttachment d (snd s) of
          (None, w) \<Rightarrow> respond ctl request_id (gateway_FillError INTERNAL ''stream_unavailable'' request_id) NoBody (fst s, Some h, w)
        | (Some sink, w) \<Rightarrow>
            (case Subscribe (gd_hub d) player_id room_id (Some sink) (subscribe_options (ParseLastEventId ctl) request_id) (h, w) of
               (report, h1, w1) \<Rightarrow>
                 if sr_id report = 0 then
                   respond ctl request_id (gateway_FillError INTERNAL ''stream_unavailable'' request_id) NoBody (fst s, Some h1, w1)
                 else respond ctl request_id (200, None) NoBody (fst s, Some h1, w1)))"

definition Gateway_StreamEvents ::
  "'w GatewayDeps \<Rightarrow> Controller \<Rightarrow> string \<Rightarrow> string \<Rightarrow> string \<Rightarrow> GatewayService \<times> StreamHub option \<times> 'w \<Rightarrow>
   Answer \<times> GatewayService \<times> StreamHub option \<times> 'w" where
  "Gateway_StreamEvents d ctl body_token body_request_id body_room_id s0 =
     (case s0 of (gs, hub, w0) \<Rightarrow>
      case RejectIfShuttingDown ctl body_request_id (gs, hub, w0) of Some a \<Rightarrow> a
      | None \<Rightarrow>
        let request_id = ExtractQueryParam ctl ''request_id'' body_request_id;
            room_id = ExtractQueryParam ctl ''room_id'' body_room_id
        in case ResolvePlayerId d (ExtractToken ctl body_token) request_id w0 of ((auth, player_id), w) \<Rightarrow>
        if fst auth \<noteq> 200 then respond ctl request_id auth NoBody (gs, hub, w)
        else if room_id = [] then
          respond ctl request_id (gateway_FillError INVALID_ARGUMENT ''room_id_required'' request_id) NoBody (gs, hub, w)
        else case gd_room d of
          None \<Rightarrow> respond ctl request_id (gateway_FillError UNAVAILABLE ''room_unavailable'' request_id) NoBody (gs, hub, w)
        | Some rc \<Rightarrow>
          (case rcl_GetState rc room_id request_id w of ((lookup, found), w1) \<Rightarrow>
            if lookup \<noteq> CallOk then
              respond ctl request_id (HandleRoomFailure lookup request_id ''room_not_found'') NoBody (gs, hub, w1)
            else
              let snapshot = (case found of None \<Rightarrow> default_gw_snapshot | Some x \<Rightarrow> x) in
              if \<not> list_ex (\<lambda>p. gp_player_id p = player_id) (gw_players snapshot) then
                respond ctl request_id (gateway_FillError INVALID_ARGUMENT ''not_a_member'' request_id) NoBody (gs, hub, w1)
              else stream_subscribe d ctl request_id room_id player_id hub (gs, w1)))"

end
