(* ===== verification/Gateway_Requests.thy ===== *)
theory Gateway_Requests
  imports Gateway_Service
begin

text \<open>
  The service of the gateway as one server: the eleven requests of \<^verbatim>\<open>gateway.proto\<close> with one
  dispatcher, the form every answer has, and the calls a request makes to the collaborators, which an
  audited copy of them notes down. These lemmas carry the properties in \<^verbatim>\<open>Gateway_Props\<close>.
\<close>

section \<open>Requests\<close>

datatype GatewayRequest = LoginReq LoginRequest | CurrentPlayerReq string string | LogoutReq string string
  | EnqueueReq string string | MatchStatusReq string string | CancelReq string string
  | JoinRoomReq string string string | SubmitInputReq string string string | RoomStateReq string string string
  | MatchResultReq string string string | StreamReq string string string

definition keep_hub :: "'w handler \<Rightarrow> GatewayService \<times> StreamHub option \<times> 'w \<Rightarrow> Answer \<times> GatewayService \<times> StreamHub option \<times> 'w" where
  "keep_hub k s = (case s of (gs, hub, w) \<Rightarrow> case k (gs, w) of (a, gs', w') \<Rightarrow> (a, gs', hub, w'))"

fun serve_gateway ::
  "'w GatewayDeps \<Rightarrow> Controller \<Rightarrow> GatewayRequest \<Rightarrow> GatewayService \<times> StreamHub option \<times> 'w \<Rightarrow>
   Answer \<times> GatewayService \<times> StreamHub option \<times> 'w" where
  "serve_gateway d ctl (LoginReq q) = keep_hub (Gateway_Login d ctl q)"
| "serve_gateway d ctl (CurrentPlayerReq t r) = keep_hub (Gateway_GetCurrentPlayer d ctl t r)"
| "serve_gateway d ctl (LogoutReq t r) = keep_hub (Gateway_Logout d ctl t r)"
| "serve_gateway d ctl (EnqueueReq t r) = keep_hub (Gateway_EnqueueMatch d ctl t r)"
| "serve_gateway d ctl (MatchStatusReq t r) = keep_hub (Gateway_GetMatchStatus d ctl t r)"
| "serve_gateway d ctl (CancelReq t r) = keep_hub (Gateway_CancelMatch d ctl t r)"
| "serve_gateway d ctl (JoinRoomReq t r x) = keep_hub (Gateway_JoinRoom d ctl t r x)"
| "serve_gateway d ctl (SubmitInputReq t r x) = keep_hub (Gateway_SubmitInput d ctl t r x)"
| "serve_gateway d ctl (RoomStateReq t r x) = keep_hub (Gateway_GetRoomState d ctl t r x)"
| "serve_gateway d ctl (MatchResultReq t r x) = keep_hub (Gateway_GetMatchResult d ctl t r x)"
| "serve_gateway d ctl (StreamReq t r x) = Gateway_StreamEvents d ctl t r x"

text \<open>The token a request brings, none for a login; and the id its answer carries.\<close>

fun body_token :: "GatewayRequest \<Rightarrow> string option" where
  "body_token (LoginReq q) = None"
| "body_token (CurrentPlayerReq t r) = Some t" | "body_token (LogoutReq t r) = Some t"
| "body_token (EnqueueReq t r) = Some t" | "body_token (MatchStatusReq t r) = Some t"
| "body_token (CancelReq t r) = Some t" | "body_token (JoinRoomReq t r x) = Some t"
| "body_token (SubmitInputReq t r x) = Some t" | "body_token (RoomStateReq t r x) = Some t"
| "body_token (MatchResultReq t r x) = Some t" | "body_token (StreamReq t r x) = Some t"

fun answer_id :: "Controller \<Rightarrow> GatewayService \<Rightarrow> GatewayRequest \<Rightarrow> string" where
  "answer_id ctl gs (LoginReq q) = lr_request_id q"
| "answer_id ctl gs (CurrentPlayerReq t r) = r" | "answer_id ctl gs (LogoutReq t r) = r"
| "answer_id ctl gs (EnqueueReq t r) = r" | "answer_id ctl gs (MatchStatusReq t r) = r"
| "answer_id ctl gs (CancelReq t r) = r" | "answer_id ctl gs (JoinRoomReq t r x) = r"
| "answer_id ctl gs (SubmitInputReq t r x) = r" | "answer_id ctl gs (RoomStateReq t r x) = r"
| "answer_id ctl gs (MatchResultReq t r x) = r"
| "answer_id ctl gs (StreamReq t r x) = (if gs_shutting_down gs then r else ExtractQueryParam ctl ''request_id'' r)"

fun writes :: "GatewayRequest \<Rightarrow> bool" where
  "writes (LoginReq q) = True" | "writes (EnqueueReq t r) = True" | "writes (CancelReq t r) = True"
| "writes (JoinRoomReq t r x) = True" | "writes (SubmitInputReq t r x) = True" | "writes (StreamReq t r x) = True"
| "writes _ = False"

section \<open>The form of an answer\<close>

lemma HttpStatusOf_not_ok [simp]: "HttpStatusOf code \<noteq> 200"
  by (cases code) auto

lemma fst_FillError [simp]: "fst (gateway_FillError code reason r) = HttpStatusOf code"
  by (simp add: gateway_FillError_def)

lemma HandleMatchFailure_forms: "HandleMatchFailure st r = (200, None) \<and> st = MatchOk \<or>
    (\<exists>code reason. HandleMatchFailure st r = gateway_FillError code reason r) \<and> st \<noteq> MatchOk"
  by (cases st) auto

lemma HandleRoomFailure_forms: "HandleRoomFailure st r nf = (200, None) \<and> st = CallOk \<or>
    (\<exists>code reason. HandleRoomFailure st r nf = gateway_FillError code reason r) \<and> st \<noteq> CallOk"
  by (cases st) auto

lemma ResolvePlayerId_forms:
  "fst (fst (ResolvePlayerId d t r w)) = (200, None) \<or>
   (\<exists>code reason. fst (fst (ResolvePlayerId d t r w)) = gateway_FillError code reason r)"
  by (auto simp: ResolvePlayerId_def split: prod.splits StoreStatus.splits)

definition good_outcome :: "string \<Rightarrow> int \<times> GatewayError option \<Rightarrow> GatewayBody \<Rightarrow> bool" where
  "good_outcome r outcome body \<longleftrightarrow> outcome = (200, None) \<or>
     (\<exists>code reason. outcome = gateway_FillError code reason r) \<and> (body = NoBody \<or> (\<exists>room. body = ResultBody room None))"

definition answered ::
  "Controller \<Rightarrow> string \<Rightarrow> GatewayService \<Rightarrow> Answer \<times> GatewayService \<times> 'w \<Rightarrow> bool" where
  "answered ctl r gs result \<longleftrightarrow> (\<exists>outcome body w. good_outcome r outcome body \<and> result = respond ctl r outcome body (gs, w))"

lemma answeredI: "good_outcome r outcome body \<Longrightarrow> answered ctl r gs (respond ctl r outcome body (gs, w))"
  unfolding answered_def by blast

lemma good_outcomes [simp]:
  "good_outcome r (200, None) body" "good_outcome r (gateway_FillError code reason r) NoBody"
  "good_outcome r (gateway_FillError code reason r) (ResultBody room None)"
  unfolding good_outcome_def by blast+

lemma answered_forms [simp]:
  "answered ctl r gs (respond ctl r (200, None) body (gs, w))"
  "answered ctl r gs (respond ctl r (gateway_FillError code reason r) NoBody (gs, w))"
  "answered ctl r gs (respond ctl r (gateway_FillError code reason r) (ResultBody room None) (gs, w))"
  by (simp_all add: answeredI)

lemma answered_match: "answered ctl r gs (match_answer ctl r gs result)"
  using HandleMatchFailure_forms [of "fst (fst result)" r]
  by (auto simp: match_answer_def Let_def case_prod_beta)

lemma answered_room: "answered ctl r gs (room_answer ctl r gs result)"
  using HandleRoomFailure_forms [of "fst (fst result)" r "''room_not_found''"]
  by (auto simp: room_answer_def Let_def case_prod_beta)

lemma answered_player:
  assumes "\<And>p w. answered ctl r gs (k p (gs, w))"
  shows "answered ctl r gs (with_player d ctl t r k (gs, w))"
  using ResolvePlayerId_forms [of d t r w] assms
  by (auto simp: with_player_def case_prod_beta)

lemma answered_with_room:
  assumes "\<And>rc w. answered ctl r gs (k rc (gs, w))"
  shows "answered ctl r gs (with_room d ctl r req x k (gs, w))"
  using assms by (auto simp: with_room_def split: option.split)

lemma Reject_cases:
  "RejectIfShuttingDown ctl r (gs, w) = (if gs_shutting_down gs
     then Some (respond ctl r (gateway_FillError UNAVAILABLE ''shutting_down'' r) NoBody (gs, w)) else None)"
  by (simp add: RejectIfShuttingDown_def)

lemma answered_Login: "answered ctl (lr_request_id q) gs (Gateway_Login d ctl q (gs, w))"
  by (auto simp: Gateway_Login_def Reject_cases Let_def split: prod.split CredentialStatus.split)

lemma answered_Logout: "answered ctl r gs (Gateway_Logout d ctl t r (gs, w))"
  by (auto simp: Gateway_Logout_def Let_def split: prod.split StoreStatus.split)

lemma answered_Stream:
  "answered ctl (answer_id ctl gs (StreamReq t r x)) gs (Gateway_StreamEvents d ctl t r x (gs, hub, w))"
proof -
  let ?r = "ExtractQueryParam ctl ''request_id'' r"
  have s: "answered ctl ?r gs (stream_subscribe d ctl ?r x p h (gs, w))" for x p h w
    by (auto simp: stream_subscribe_def split: option.split prod.split)
  have f: "answered ctl ?r gs (respond ctl ?r (HandleRoomFailure st ?r nf) NoBody (gs, w))" for st nf and w :: "StreamHub option \<times> 'a"
    using HandleRoomFailure_forms [of st ?r nf] by auto
  have a: "answered ctl ?r gs (respond ctl ?r (fst (fst (ResolvePlayerId d tk ?r v))) NoBody (gs, w))"
    for tk v and w :: "StreamHub option \<times> 'a"
    using ResolvePlayerId_forms [of d tk ?r v] by auto
  show ?thesis
    using s f a by (auto simp: Gateway_StreamEvents_def Reject_cases Let_def case_prod_beta split: option.split)
qed

lemmas answered_handlers = answered_Login answered_Logout answered_match answered_room answered_player answered_with_room

lemma answered_Result: "answered ctl r gs (Gateway_GetMatchResult d ctl t r x (gs, w))"
  unfolding Gateway_GetMatchResult_def Let_def
  apply (intro answered_player answered_with_room)
  subgoal for p w rc w'
    using HandleRoomFailure_forms [of "fst (fst (rcl_GetResult rc (ExtractQueryParam ctl ''match_id'' x) r w'))" r "''result_not_found''"]
    by (auto simp: case_prod_beta)
  done

lemma answered_Current: "answered ctl r gs (Gateway_GetCurrentPlayer d ctl t r (gs, w))"
  by (auto simp: Gateway_GetCurrentPlayer_def intro!: answered_player split: prod.split option.split)

lemma keep_hub_respond:
  "k (gs, w) = respond ctl r outcome body (gs', w') \<Longrightarrow>
   keep_hub k (gs, hub, w) = respond ctl r outcome body (gs', hub, w')"
  by (simp add: keep_hub_def respond_def case_prod_beta)

lemma answered_keep_hub: "answered ctl r gs (k (gs, w)) \<Longrightarrow> answered ctl r gs (keep_hub k (gs, hub, w))"
  unfolding answered_def using keep_hub_respond by metis

lemma answered_all: "answered ctl (answer_id ctl gs req) gs (serve_gateway d ctl req (gs, hub, w))"
proof (cases req)
  case (StreamReq t r x)
  then show ?thesis using answered_Stream by (simp only: serve_gateway.simps)
qed (auto intro!: answered_keep_hub answered_handlers answered_Result answered_Current
    simp: Gateway_EnqueueMatch_def Gateway_GetMatchStatus_def Gateway_CancelMatch_def Gateway_JoinRoom_def
      Gateway_SubmitInput_def Gateway_GetRoomState_def Reject_cases Let_def)

section \<open>Who a request acts for\<close>

text \<open>The calls to the collaborators that name a player or read a room, and an audited copy of the
  collaborators that appends each of them to a list in the world.\<close>

datatype player_call = FindCall string | MatchCall string | JoinCall string string | AttackCall string string
  | PresenceCall string string bool | ReadRoomCall string | ReadResultCall string

fun acts_for :: "player_call \<Rightarrow> string option" where
  "acts_for (FindCall p) = Some p" | "acts_for (MatchCall p) = Some p" | "acts_for (JoinCall p room) = Some p"
| "acts_for (AttackCall p room) = Some p" | "acts_for (PresenceCall p room online) = Some p"
| "acts_for (ReadRoomCall room) = None" | "acts_for (ReadResultCall m) = None"

definition noted :: "player_call list \<Rightarrow> ('w \<Rightarrow> 'a \<times> 'w) \<Rightarrow> 'w \<times> player_call list \<Rightarrow> 'a \<times> 'w \<times> player_call list" where
  "noted cs f s = (case f (fst s) of (x, w) \<Rightarrow> (x, w, snd s @ cs))"

definition audited_room :: "'w RoomClient \<Rightarrow> ('w \<times> player_call list) RoomClient" where
  "audited_room rc =
     \<lparr>rcl_Join = \<lambda>room p r. noted [JoinCall p room] (rcl_Join rc room p r),
      rcl_SubmitAttack = \<lambda>room p r. noted [AttackCall p room] (rcl_SubmitAttack rc room p r),
      rcl_GetState = \<lambda>room r. noted [ReadRoomCall room] (rcl_GetState rc room r),
      rcl_GetResult = \<lambda>m r. noted [ReadResultCall m] (rcl_GetResult rc m r),
      rcl_GetSnapshotsSince = \<lambda>room n r. noted [ReadRoomCall room] (rcl_GetSnapshotsSince rc room n r),
      rcl_SetPresence = \<lambda>room p online r. noted [PresenceCall p room online] (rcl_SetPresence rc room p online r)\<rparr>"

definition audited :: "'w GatewayDeps \<Rightarrow> ('w \<times> player_call list) GatewayDeps" where
  "audited d =
     \<lparr>gd_sessions = \<lparr>ss_CreateSession = \<lambda>q p c ttl. noted [] (ss_CreateSession (gd_sessions d) q p c ttl),
        ss_GetSession = \<lambda>t. noted [] (ss_GetSession (gd_sessions d) t),
        ss_DeleteSession = \<lambda>t. noted [] (ss_DeleteSession (gd_sessions d) t)\<rparr>,
      gd_players = \<lparr>pd_Authenticate = \<lambda>a pw. noted [] (pd_Authenticate (gd_players d) a pw),
        pd_FindByPlayerId = \<lambda>p. noted [FindCall p] (pd_FindByPlayerId (gd_players d) p)\<rparr>,
      gd_match = \<lparr>mc_Enqueue = \<lambda>p r. noted [MatchCall p] (mc_Enqueue (gd_match d) p r),
        mc_GetStatus = \<lambda>p. noted [MatchCall p] (mc_GetStatus (gd_match d) p),
        mc_Cancel = \<lambda>p r. noted [MatchCall p] (mc_Cancel (gd_match d) p r)\<rparr>,
      gd_room = map_option audited_room (gd_room d),
      gd_hub = \<lparr>he_room = map_option audited_room (he_room (gd_hub d)),
        he_Write = \<lambda>k x. noted [] (he_Write (gd_hub d) k x),
        he_Close = \<lambda>k s. (he_Close (gd_hub d) k (fst s), snd s),
        he_SystemNowMs = \<lambda>s. he_SystemNowMs (gd_hub d) (fst s)\<rparr>,
      gd_CreateProgressiveAttachment = noted [] (gd_CreateProgressiveAttachment d),
      gd_session_ttl = gd_session_ttl d\<rparr>"

lemmas audit_defs = audited_def audited_room_def noted_def

lemma gd_room_audited: "gd_room (audited d) = map_option audited_room (gd_room d)"
  by (simp add: audited_def)

lemma respond_parts: "respond ctl r outcome body (gs, w) =
    (\<lparr>an_status_code = fst outcome, an_http_status = ApplyHttpStatus ctl (fst outcome), an_error = snd outcome, an_body = body\<rparr>,
     RecordRequestDone ctl (fst outcome) r (RecordHttpRequest ctl (fst outcome) gs), w)"
  by (simp add: respond_def ApplyHttpStatusAndRecord_def)

text \<open>An audited run is the run itself, with the calls it made at the end of the list.\<close>

definition audits :: "('w \<Rightarrow> player_call \<Rightarrow> bool) \<Rightarrow> 'w handler \<Rightarrow> ('w \<times> player_call list) handler \<Rightarrow> bool" where
  "audits P k k' \<longleftrightarrow> (\<forall>gs w l. \<exists>cs.
     k' (gs, w, l) = (case k (gs, w) of (a, gs', w') \<Rightarrow> (a, gs', w', l @ cs)) \<and> list_all (P w) cs)"

definition for_session :: "'w GatewayDeps \<Rightarrow> string \<Rightarrow> 'w \<Rightarrow> player_call \<Rightarrow> bool" where
  "for_session d t w c \<longleftrightarrow> ValidateToken t = [] \<and>
     (case ss_GetSession (gd_sessions d) t w of ((status, session), _) \<Rightarrow> status = StoreOk \<and>
        acts_for c \<in> {None, Some (case session of None \<Rightarrow> [] | Some x \<Rightarrow> se_player_id x)})"

lemma audits_respond: "audits P (respond ctl r outcome body) (respond ctl r outcome body)"
  by (simp add: audits_def respond_parts)

lemma audits_const: "audits P (\<lambda>s. respond ctl r outcome body s) (\<lambda>s. respond ctl r outcome body s)"
  by (rule audits_respond)

lemma Resolve_audited:
  "ResolvePlayerId (audited d) t r (w, l) = (case ResolvePlayerId d t r w of (x, w') \<Rightarrow> (x, w', l))"
  by (auto simp: ResolvePlayerId_def audit_defs split: prod.split StoreStatus.split)

lemma Resolve_ok:
  "ResolvePlayerId d t r w = ((auth, p), w') \<Longrightarrow> fst auth = 200 \<Longrightarrow> acts_for c \<in> {None, Some p} \<Longrightarrow> for_session d t w c"
  by (auto simp: ResolvePlayerId_def for_session_def split: if_splits prod.splits StoreStatus.splits)

lemma audits_player:
  assumes "\<And>p. audits (\<lambda>_ c. acts_for c \<in> {None, Some p}) (k p) (k' p)"
  shows "audits (for_session d t) (with_player d ctl t r k) (with_player (audited d) ctl t r k')"
  unfolding audits_def
proof (intro allI)
  fix gs w l
  obtain auth p w' where R: "ResolvePlayerId d t r w = ((auth, p), w')" by (metis surj_pair)
  obtain cs where cs: "k' p (gs, w', l) = (case k p (gs, w') of (a, gs', w') \<Rightarrow> (a, gs', w', l @ cs))"
    "list_all (\<lambda>c. acts_for c \<in> {None, Some p}) cs"
    using assms [of p] unfolding audits_def by blast
  show "\<exists>cs. with_player (audited d) ctl t r k' (gs, w, l) =
      (case with_player d ctl t r k (gs, w) of (a, gs', w') \<Rightarrow> (a, gs', w', l @ cs)) \<and> list_all (for_session d t w) cs"
  proof (cases "fst auth = 200")
    case True
    then have "list_all (for_session d t w) cs"
      using cs(2) Resolve_ok [OF R True] unfolding list_all_iff by blast
    then show ?thesis using True cs(1) R by (auto simp: with_player_def Resolve_audited)
  qed (simp add: with_player_def Resolve_audited R respond_parts)
qed

lemma audits_match:
  assumes "\<And>w l. f' (w, l) = (case f w of (x, w') \<Rightarrow> (x, w', l @ cs))" "\<And>w. list_all (P w) cs"
  shows "audits P (\<lambda>s. match_answer ctl r (fst s) (f (snd s))) (\<lambda>s. match_answer ctl r (fst s) (f' (snd s)))"
  using assms by (auto simp: audits_def match_answer_def Let_def respond_parts case_prod_beta)

lemma audits_room:
  assumes "\<And>w l. f' (w, l) = (case f w of (x, w') \<Rightarrow> (x, w', l @ cs))" "\<And>w. list_all (P w) cs"
  shows "audits P (\<lambda>s. room_answer ctl r (fst s) (f (snd s))) (\<lambda>s. room_answer ctl r (fst s) (f' (snd s)))"
  using assms by (auto simp: audits_def room_answer_def Let_def respond_parts case_prod_beta)

lemma audits_with_room:
  assumes "\<And>rc. audits P (k rc) (k' (audited_room rc))"
  shows "audits P (with_room d ctl r req x k) (with_room (audited d) ctl r req x k')"
proof (cases "x = [] \<or> gd_room d = None")
  case True
  then show ?thesis by (auto simp: audits_def with_room_def audited_def respond_parts)
next
  case False
  then show ?thesis using assms by (auto simp: audits_def with_room_def audited_def)
qed

lemma audits_reject:
  assumes "audits P k k'"
  shows "audits P (\<lambda>s. case RejectIfShuttingDown ctl r s of Some a \<Rightarrow> a | None \<Rightarrow> k s)
    (\<lambda>s. case RejectIfShuttingDown ctl r s of Some a \<Rightarrow> a | None \<Rightarrow> k' s)"
  using assms by (simp add: audits_def Reject_cases respond_parts)

lemma audits_Login: "audits (\<lambda>_ _. False) (Gateway_Login d ctl q) (Gateway_Login (audited d) ctl q)"
  by (simp add: audits_def Gateway_Login_def Reject_cases Let_def audit_defs respond_parts split: prod.split CredentialStatus.split)

lemma audits_Logout: "audits P (Gateway_Logout d ctl t r) (Gateway_Logout (audited d) ctl t r)"
  by (simp add: audits_def Gateway_Logout_def Let_def audit_defs respond_parts split: prod.split StoreStatus.split)

lemma audits_GetCurrentPlayer:
  "audits (for_session d (ExtractToken ctl t)) (Gateway_GetCurrentPlayer d ctl t r) (Gateway_GetCurrentPlayer (audited d) ctl t r)"
  unfolding Gateway_GetCurrentPlayer_def
proof (rule audits_player)
  fix p
  show "audits (\<lambda>_ c. acts_for c \<in> {None, Some p})
    (\<lambda>s. case pd_FindByPlayerId (gd_players d) p (snd s) of
       (None, w) \<Rightarrow> respond ctl r (gateway_FillError NOT_FOUND ''player_not_found'' r) NoBody (fst s, w)
     | (Some player, w) \<Rightarrow> respond ctl r (200, None) (PlayerBody player) (fst s, w))
    (\<lambda>s. case pd_FindByPlayerId (gd_players (audited d)) p (snd s) of
       (None, w) \<Rightarrow> respond ctl r (gateway_FillError NOT_FOUND ''player_not_found'' r) NoBody (fst s, w)
     | (Some player, w) \<Rightarrow> respond ctl r (200, None) (PlayerBody player) (fst s, w))"
    by (auto simp: audits_def audit_defs respond_parts intro!: exI [of _ "[FindCall p]"] split: prod.split option.split)
qed

lemma audits_GetMatchResult:
  "audits (for_session d (ExtractToken ctl t)) (Gateway_GetMatchResult d ctl t r x) (Gateway_GetMatchResult (audited d) ctl t r x)"
  unfolding Gateway_GetMatchResult_def Let_def
  by (intro audits_player audits_with_room)
     (auto simp: audits_def audit_defs respond_parts case_prod_beta intro!: exI [of _ "[ReadResultCall _]"])

lemma audits_call [simp]: "noted cs f (w, l) = (case f w of (x, w') \<Rightarrow> (x, w', l @ cs))"
  by (simp add: noted_def)

lemma audits_matches:
  "audits (for_session d (ExtractToken ctl t)) (Gateway_EnqueueMatch d ctl t r) (Gateway_EnqueueMatch (audited d) ctl t r)"
  "audits (for_session d (ExtractToken ctl t)) (Gateway_GetMatchStatus d ctl t r) (Gateway_GetMatchStatus (audited d) ctl t r)"
  "audits (for_session d (ExtractToken ctl t)) (Gateway_CancelMatch d ctl t r) (Gateway_CancelMatch (audited d) ctl t r)"
  unfolding Gateway_EnqueueMatch_def Gateway_GetMatchStatus_def Gateway_CancelMatch_def
  by (intro audits_reject audits_player audits_match [where cs = "[MatchCall _]"]; simp add: audited_def)+

lemma audits_rooms:
  "audits (for_session d (ExtractToken ctl t)) (Gateway_JoinRoom d ctl t r x) (Gateway_JoinRoom (audited d) ctl t r x)"
  "audits (for_session d (ExtractToken ctl t)) (Gateway_SubmitInput d ctl t r x) (Gateway_SubmitInput (audited d) ctl t r x)"
  "audits (for_session d (ExtractToken ctl t)) (Gateway_GetRoomState d ctl t r x) (Gateway_GetRoomState (audited d) ctl t r x)"
  unfolding Gateway_JoinRoom_def Gateway_SubmitInput_def Gateway_GetRoomState_def Let_def
    apply (intro audits_reject audits_player audits_with_room audits_room [where cs = "[JoinCall _ _]"]; simp add: audited_room_def)
   apply (intro audits_reject audits_player audits_with_room audits_room [where cs = "[AttackCall _ _]"]; simp add: audited_room_def)
  apply (intro audits_reject audits_player audits_with_room audits_room [where cs = "[ReadRoomCall _]"]; simp add: audited_room_def)
  done

lemma Subscribe_audited:
  "\<exists>cs. Subscribe (gd_hub (audited d)) p room snk opts (h, w, l) =
     (case Subscribe (gd_hub d) p room snk opts (h, w) of (rep, h', w') \<Rightarrow> (rep, h', w', l @ cs)) \<and>
     list_all (\<lambda>c. acts_for c = Some p) cs"
  by (auto simp: Subscribe_def ReportPresence_def audited_def audited_room_def Let_def case_prod_beta split: option.split
      intro: exI [of _ "[]"] intro!: exI [of _ "[PresenceCall p room True]"])

lemma stream_subscribe_audited:
  "\<exists>cs. stream_subscribe (audited d) ctl r room p hub (gs, w, l) =
     (case stream_subscribe d ctl r room p hub (gs, w) of (a, gs', hub', w') \<Rightarrow> (a, gs', hub', w', l @ cs)) \<and>
     list_all (\<lambda>c. acts_for c = Some p) cs"
proof -
  let ?S = "\<lambda>d h w snk. Subscribe (gd_hub d) p room (Some snk) (subscribe_options (ParseLastEventId ctl) r) (h, w)"
  consider "hub = None" | "ctl = None" | h snk w1 c where "hub = Some h" "ctl = Some c"
      "gd_CreateProgressiveAttachment d w = (Some snk, w1)"
    | h w1 where "hub = Some h" "ctl \<noteq> None" "gd_CreateProgressiveAttachment d w = (None, w1)"
    by (metis not_None_eq surj_pair)
  then show ?thesis
  proof cases
    case 3
    obtain cs where "?S (audited d) h (w1, l) snk = (case ?S d h w1 snk of (rep, h', w') \<Rightarrow> (rep, h', w', l @ cs))"
      "list_all (\<lambda>c. acts_for c = Some p) cs"
      using Subscribe_audited [of d p room "Some snk" "subscribe_options (ParseLastEventId ctl) r" h w1 l] by blast
    moreover have "gd_CreateProgressiveAttachment (audited d) (w, l) = (Some snk, w1, l)"
      using 3 by (simp add: audited_def)
    ultimately show ?thesis
      using 3 by (intro exI [of _ cs]) (simp add: stream_subscribe_def respond_parts case_prod_beta)
  qed (auto simp: stream_subscribe_def respond_parts audited_def split: option.split)
qed

lemma StreamEvents_audited:
  "\<exists>cs. Gateway_StreamEvents (audited d) ctl t r x (gs, hub, w, l) =
     (case Gateway_StreamEvents d ctl t r x (gs, hub, w) of (a, gs', hub', w') \<Rightarrow> (a, gs', hub', w', l @ cs)) \<and>
     list_all (for_session d (ExtractToken ctl t) w) cs"
proof (cases "gs_shutting_down gs")
  case True
  then show ?thesis by (simp add: Gateway_StreamEvents_def Reject_cases respond_parts)
next
  case False
  let ?r = "ExtractQueryParam ctl ''request_id'' r" and ?x = "ExtractQueryParam ctl ''room_id'' x" and ?t = "ExtractToken ctl t"
  obtain auth p w1 where R: "ResolvePlayerId d ?t ?r w = ((auth, p), w1)" by (metis surj_pair)
  note D = Gateway_StreamEvents_def Reject_cases False respond_parts Let_def R Resolve_audited
  show ?thesis
  proof (cases "fst auth = 200 \<and> ?x \<noteq> [] \<and> gd_room d \<noteq> None")
    case True
    then obtain rc where rc: "gd_room d = Some rc" by blast
    then have rc': "gd_room (audited d) = Some (audited_room rc)" by (simp add: gd_room_audited)
    obtain st found w2 where G: "rcl_GetState rc ?x ?r w1 = ((st, found), w2)" by (metis surj_pair)
    then have G': "rcl_GetState (audited_room rc) ?x ?r (w1, l) = ((st, found), w2, l @ [ReadRoomCall ?x])"
      by (simp add: audited_room_def)
    have read: "for_session d ?t w (ReadRoomCall ?x)" using Resolve_ok [OF R] True by simp
    obtain cs where S: "stream_subscribe (audited d) ctl ?r ?x p hub (gs, w2, l @ [ReadRoomCall ?x]) =
        (case stream_subscribe d ctl ?r ?x p hub (gs, w2) of (a, gs', hub', w') \<Rightarrow> (a, gs', hub', w', (l @ [ReadRoomCall ?x]) @ cs))"
      and cs: "list_all (\<lambda>c. acts_for c = Some p) cs"
      using stream_subscribe_audited [of d ctl ?r ?x p hub gs w2 "l @ [ReadRoomCall ?x]"] by blast
    have cs: "list_all (for_session d ?t w) cs" using cs Resolve_ok [OF R] True by (auto simp: list_all_iff)
    let ?m = "list_ex (\<lambda>y. gp_player_id y = p) (gw_players (case found of None \<Rightarrow> default_gw_snapshot | Some y \<Rightarrow> y))"
    show ?thesis
    proof (cases "st = CallOk \<and> ?m")
      case member: True
      then show ?thesis using True S cs read
        by (intro exI [of _ "ReadRoomCall ?x # cs"]) (auto simp: D rc rc' G G')
    next
      case no: False
      then show ?thesis using True read
        by (intro exI [of _ "[ReadRoomCall ?x]"]) (auto simp: D rc rc' G G')
    qed
  qed (auto simp: D gd_room_audited)
qed

lemma audits_keep_hub:
  assumes "audits P k k'"
  shows "\<exists>cs. keep_hub k' (gs, hub, w, l) = (case keep_hub k (gs, hub, w) of (a, gs', hub', w') \<Rightarrow> (a, gs', hub', w', l @ cs)) \<and>
    list_all (P w) cs"
proof -
  obtain cs where "k' (gs, w, l) = (case k (gs, w) of (a, gs', w') \<Rightarrow> (a, gs', w', l @ cs))" "list_all (P w) cs"
    using assms unfolding audits_def by blast
  then show ?thesis by (intro exI [of _ cs]) (simp add: keep_hub_def case_prod_beta)
qed

lemma serve_audited:
  "\<exists>cs. serve_gateway (audited d) ctl req (gs, hub, w, l) =
     (case serve_gateway d ctl req (gs, hub, w) of (a, gs', hub', w') \<Rightarrow> (a, gs', hub', w', l @ cs)) \<and>
     list_all (\<lambda>c. case body_token req of None \<Rightarrow> False | Some t \<Rightarrow> for_session d (ExtractToken ctl t) w c) cs"
  using audits_keep_hub [OF audits_Login] audits_keep_hub [OF audits_Logout] audits_keep_hub [OF audits_GetCurrentPlayer]
    audits_keep_hub [OF audits_GetMatchResult] audits_keep_hub [OF audits_matches(1)] audits_keep_hub [OF audits_matches(2)]
    audits_keep_hub [OF audits_matches(3)] audits_keep_hub [OF audits_rooms(1)] audits_keep_hub [OF audits_rooms(2)]
    audits_keep_hub [OF audits_rooms(3)] StreamEvents_audited
  by (cases req; simp only: serve_gateway.simps body_token.simps option.case)

end
