(* ===== verification/Gateway_Props.thy ===== *)
theory Gateway_Props
  imports Gateway_Requests
begin

text \<open>
  Properties of the gateway's HTTP service: whose data a request touches, the form and the accounting of
  the answers, draining, the subscription check, and the life of a session from login to logout over the
  Redis store.
\<close>

section \<open>Access\<close>

text \<open>The player whose session a request's token is, at the moment the request arrives.\<close>

definition request_player :: "string \<Rightarrow> Controller \<Rightarrow> GatewayRequest \<Rightarrow> 'z redis_keys_scheme \<Rightarrow> string option" where
  "request_player env_prefix ctl req w =
     (case body_token req of None \<Rightarrow> None
      | Some t \<Rightarrow> if IsValidTokenFormat (ExtractToken ctl t) then session_player env_prefix w (ExtractToken ctl t) else None)"

lemma ValidateToken_ok: "ValidateToken t = [] \<longleftrightarrow> IsValidTokenFormat t"
  by (auto simp: ValidateToken_def IsValidTokenFormat_def token_consts kMaxTokenLength_def)


section \<open>Answers\<close>

text \<open>C18: every answer is well formed. Its status is 200 exactly when it has no error; an error's code
  gives the status and carries the request's id; the HTTP status is the same when there is an HTTP
  request; and an answer with an error has no body, but for the room of a result that is not yet
  available.\<close>

theorem answers_are_well_formed:
  "case serve_gateway d ctl req (gs, hub, w) of (a, _) \<Rightarrow>
     (an_status_code a = 200 \<longleftrightarrow> an_error a = None) \<and>
     an_http_status a = map_option (\<lambda>_. an_status_code a) ctl \<and>
     (case an_error a of None \<Rightarrow> True
      | Some e \<Rightarrow> an_status_code a = HttpStatusOf (ge_code e) \<and> ge_request_id e = answer_id ctl gs req \<and>
          (case an_body a of NoBody \<Rightarrow> True | ResultBody room result \<Rightarrow> result = None | _ \<Rightarrow> False))"
proof -
  obtain outcome body w' where "good_outcome (answer_id ctl gs req) outcome body"
    and "serve_gateway d ctl req (gs, hub, w) = respond ctl (answer_id ctl gs req) outcome body (gs, w')"
    using answered_all [of ctl gs req d hub w] unfolding answered_def by blast
  then show ?thesis
    by (auto simp: good_outcome_def respond_parts gateway_FillError_def ApplyHttpStatus_def)
qed

section \<open>Accounting\<close>

text \<open>A run of the gateway: requests one after the other.\<close>

fun serve_all ::
  "'w GatewayDeps \<Rightarrow> (Controller \<times> GatewayRequest) list \<Rightarrow> GatewayService \<times> StreamHub option \<times> 'w \<Rightarrow>
   (Controller \<times> Answer) list \<times> GatewayService \<times> StreamHub option \<times> 'w" where
  "serve_all d [] s = ([], s)"
| "serve_all d ((ctl, req) # rs) s =
     (case serve_gateway d ctl req s of (a, s') \<Rightarrow> (case serve_all d rs s' of (as, s'') \<Rightarrow> ((ctl, a) # as, s'')))"

definition counted_path :: "Controller \<Rightarrow> string option" where
  "counted_path ctl = (case ctl of None \<Rightarrow> None
     | Some r \<Rightarrow> if take (length ''/api/v1/'') (hr_path r) = ''/api/v1/'' then Some (hr_path r) else None)"

definition request_count :: "GatewayService \<Rightarrow> string \<Rightarrow> int \<Rightarrow> nat" where
  "request_count gs path status = (case map_of (gs_http_requests gs) (path, status) of None \<Rightarrow> 0 | Some n \<Rightarrow> n)"

definition logged_status :: "LogRecord \<Rightarrow> string option" where
  "logged_status r = map_of (lg_fields r) ''status''"

lemma serve_accounts:
  assumes "serve_gateway d ctl req (gs, s) = (a, gs', s')"
  shows "map logged_status (gs_done gs') = map logged_status (gs_done gs) @ [Some (to_string (an_status_code a))]"
    and "request_count gs' path status = request_count gs path status +
      (if counted_path ctl = Some path \<and> an_status_code a = status then 1 else 0)"
proof -
  obtain hub w where s: "s = (hub, w)" by (cases s)
  obtain outcome body w' where
    "serve_gateway d ctl req (gs, hub, w) = respond ctl (answer_id ctl gs req) outcome body (gs, w')"
    using answered_all [of ctl gs req d hub w] unfolding answered_def by blast
  then have "a = fst (respond ctl (answer_id ctl gs req) outcome body (gs, w'))"
    "gs' = RecordRequestDone ctl (an_status_code a) (answer_id ctl gs req) (RecordHttpRequest ctl (an_status_code a) gs)"
    using assms by (auto simp: s respond_parts)
  then show "map logged_status (gs_done gs') = map logged_status (gs_done gs) @ [Some (to_string (an_status_code a))]"
    "request_count gs' path status = request_count gs path status +
      (if counted_path ctl = Some path \<and> an_status_code a = status then 1 else 0)"
    by (auto simp: RecordRequestDone_def RecordHttpRequest_def MakeRecord_def logged_status_def counted_path_def request_count_def Let_def update_conv'
        split: option.splits)
qed

text \<open>C19: no request goes unaccounted. In any run of requests the log has one line per request with the
  status it was answered with, in order, and the counter of a path and status is the number of requests
  to that path that were answered with that status, for all paths under \<^verbatim>\<open>/api/v1/\<close>.\<close>

theorem every_request_is_accounted_for:
  "case serve_all d rs (GatewayService_new, s) of (answers, gs, _) \<Rightarrow>
     map logged_status (gs_done gs) = map (\<lambda>(ctl, a). Some (to_string (an_status_code a))) answers \<and>
     (\<forall>path status. request_count gs path status =
        length (filter (\<lambda>(ctl, a). counted_path ctl = Some path \<and> an_status_code a = status) answers))"
proof -
  have "map logged_status (gs_done gs') = map logged_status (gs_done gs) @ map (\<lambda>(ctl, a). Some (to_string (an_status_code a))) answers \<and>
      request_count gs' path status = request_count gs path status +
        length (filter (\<lambda>(ctl, a). counted_path ctl = Some path \<and> an_status_code a = status) answers)"
    if "serve_all d rs (gs, s) = (answers, gs', s')" for gs s answers gs' s' path status
    using that
  proof (induction rs arbitrary: gs s answers)
    case (Cons r rs)
    obtain ctl req where r: "r = (ctl, req)" by (cases r)
    obtain a gs1 s1 where one: "serve_gateway d ctl req (gs, s) = (a, gs1, s1)" by (metis surj_pair)
    obtain rest where rest: "serve_all d rs (gs1, s1) = (rest, gs', s')" "answers = (ctl, a) # rest"
      using Cons.prems r one by (auto split: prod.splits)
    show ?case
      using Cons.IH [OF rest(1)] serve_accounts [OF one] rest(2) by auto
  qed simp
  note run = this
  obtain answers gs s' where all: "serve_all d rs (GatewayService_new, s) = (answers, gs, s')" by (metis surj_pair)
  then show ?thesis using run [OF all] by (simp add: GatewayService_new_def request_count_def)
qed

section \<open>Draining\<close>



section \<open>Streams\<close>

lemma stream_subscribe_hub:
  assumes "stream_subscribe d ctl r room p hub s = (a, gs', hub', w')" "hub' \<noteq> hub"
  obtains h h' sub where "hub = Some h" "hub' = Some h'" "\<not> sh_draining h"
    "sh_subscriptions h' = emplace (sh_next_id h) sub (sh_subscriptions h)"
    "sb_id sub = sh_next_id h" "sb_player_id sub = p" "sb_room_id sub = room" "sb_request_id sub = r"
proof -
  obtain h snk w1 where h: "hub = Some h" "gd_CreateProgressiveAttachment d (snd s) = (Some snk, w1)"
    using assms by (auto simp: stream_subscribe_def respond_parts split: option.splits if_splits prod.splits)
  obtain rep h1 w2 where S: "Subscribe (gd_hub d) p room (Some snk) (subscribe_options (ParseLastEventId ctl) r) (h, w1) = (rep, h1, w2)"
    by (metis surj_pair)
  have "hub' = Some h1" using assms h S by (auto simp: stream_subscribe_def respond_parts split: if_splits)
  moreover have "\<not> sh_draining h" using assms h S by (auto simp: stream_subscribe_def respond_parts Subscribe_def split: if_splits)
  ultimately show ?thesis
    using that h S by (auto simp: Subscribe_def Let_def subscribe_options_def)
qed

text \<open>C16: only the members of a room are subscribed to it. A request changes the table of streams only
  when it is a stream request of a player with a session, the room service has just answered the state
  of the room, and that player is in it; the table then has one more stream, for that player and room.\<close>

theorem only_members_are_subscribed:
  assumes "gd_sessions d = redis_session_store engine env_prefix default_ttl"
    and "serve_gateway d ctl req (gs, hub, w) = (a, gs', hub', w')" and "hub' \<noteq> hub"
  shows "\<exists>h h' sub rc found w2. hub = Some h \<and> hub' = Some h' \<and> \<not> sh_draining h \<and>
    sh_subscriptions h' = emplace (sh_next_id h) sub (sh_subscriptions h) \<and> sb_id sub = sh_next_id h \<and>
    request_player env_prefix ctl req w = Some (sb_player_id sub) \<and> gd_room d = Some rc \<and>
    rcl_GetState rc (sb_room_id sub) (sb_request_id sub)
      (snd (ss_GetSession (gd_sessions d) (ExtractToken ctl (the (body_token req))) w)) = ((CallOk, Some found), w2) \<and>
    sb_player_id sub \<in> gp_player_id ` set (gw_players found)"
proof -
  obtain t r x where req: "req = StreamReq t r x"
    using assms(2,3) by (cases req) (auto simp: keep_hub_def split: prod.splits)
  let ?r = "ExtractQueryParam ctl ''request_id'' r" and ?x = "ExtractQueryParam ctl ''room_id'' x" and ?t = "ExtractToken ctl t"
  obtain auth p w1 where R: "ResolvePlayerId d ?t ?r w = ((auth, p), w1)" by (metis surj_pair)
  note run = assms(2)[unfolded req serve_gateway.simps Gateway_StreamEvents_def Reject_cases Let_def prod.case R]
  have auth: "fst auth = 200" using run assms(3) by (auto simp: respond_parts split: if_splits)
  obtain rc where rc: "gd_room d = Some rc" using run assms(3) auth by (auto simp: respond_parts split: if_splits option.splits)
  obtain st found w2 where G: "rcl_GetState rc ?x ?r w1 = ((st, found), w2)" by (metis surj_pair)
  let ?s = "case found of None \<Rightarrow> default_gw_snapshot | Some x \<Rightarrow> x"
  have m: "st = CallOk" "list_ex (\<lambda>y. gp_player_id y = p) (gw_players ?s)"
    "stream_subscribe d ctl ?r ?x p hub (gs, w2) = (a, gs', hub', w')"
    using run assms(3) auth rc G by (auto simp: respond_parts split: if_splits)
  then obtain f where f: "found = Some f" by (cases found) (auto simp: default_gw_snapshot_def)
  from stream_subscribe_hub [OF m(3) assms(3)] obtain h h' sub where sub: "hub = Some h" "hub' = Some h'" "\<not> sh_draining h"
    "sh_subscriptions h' = emplace (sh_next_id h) sub (sh_subscriptions h)"
    "sb_id sub = sh_next_id h" "sb_player_id sub = p" "sb_room_id sub = ?x" "sb_request_id sub = ?r" .
  have "request_player env_prefix ctl req w = Some p"
    using R auth redis_sessions.get_found redis_sessions.get_ok [of engine env_prefix default_ttl ?t w]
    by (force simp: request_player_def req ResolvePlayerId_def assms(1) ValidateToken_ok split: if_splits prod.splits StoreStatus.splits
        option.splits)
  moreover have "w1 = snd (ss_GetSession (gd_sessions d) ?t w)"
    using R auth by (auto simp: ResolvePlayerId_def split: if_splits prod.splits StoreStatus.splits)
  moreover have "p \<in> gp_player_id ` set (gw_players f)" using m(2) f by (auto simp: list_ex_iff)
  ultimately show ?thesis
    using sub rc G m(1) f
    by (intro exI [of _ h] exI [of _ h'] exI [of _ sub] exI [of _ rc] exI [of _ f] exI [of _ w2]) (simp add: req)
qed

section \<open>An example\<close>

text \<open>A gateway with the directory in memory, a match service that answers nothing and a room service with
  one room for Alice; and a store that holds a session of hers.\<close>

definition sample_digest :: digest where
  "sample_digest pw = Some (replicate 32 (word_of_nat (length pw)))"

definition alices_room :: GwRoomSnapshot where
  "alices_room = default_gw_snapshot\<lparr>gw_room_id := ''room-1'', gw_players :=
     [\<lparr>gp_player_id = ''p-0001'', gp_hp = 100, gp_connected = True, gp_online = True\<rparr>]\<rparr>"

definition sample_rooms :: "session_world RoomClient" where
  "sample_rooms =
     \<lparr>rcl_Join = \<lambda>_ _ _ w. ((CallOk, Some alices_room), w), rcl_SubmitAttack = \<lambda>_ _ _ w. ((CallOk, Some alices_room), w),
      rcl_GetState = \<lambda>_ _ w. ((CallOk, Some alices_room), w), rcl_GetResult = \<lambda>_ _ w. ((CallNotFound, None), w),
      rcl_GetSnapshotsSince = \<lambda>_ _ _ w. ((CallUnavailable, None), w),
      rcl_SetPresence = \<lambda>_ _ _ _ w. ((CallOk, Some alices_room), w)\<rparr>"

definition sample_gateway :: "session_world GatewayDeps" where
  "sample_gateway =
     \<lparr>gd_sessions = redis_session_store (\<lambda>seed i. 0) ''dev'' 60,
      gd_players = in_memory_directory sample_digest (WithBuiltinAccounts sample_digest False),
      gd_match = \<lparr>mc_Enqueue = \<lambda>_ _ w. ((MatchOk, None), w), mc_GetStatus = \<lambda>_ w. ((MatchOk, None), w),
        mc_Cancel = \<lambda>_ _ w. ((MatchOk, None), w)\<rparr>,
      gd_room = Some sample_rooms,
      gd_hub = \<lparr>he_room = Some sample_rooms, he_Write = \<lambda>_ _ w. (True, w), he_Close = \<lambda>_ w. w, he_SystemNowMs = \<lambda>_. 0\<rparr>,
      gd_CreateProgressiveAttachment = \<lambda>w. (Some 0, w), gd_session_ttl = 600\<rparr>"

definition alices_session :: session_world where
  "alices_session = \<lparr>rk_keys = [(''dev:gateway:session:tok'', RedisHash [(''token'', ''tok''), (''player_id'', ''p-0001''),
     (''client_type'', ''web''), (''created_at'', ''1000'')], None)], rk_now = 1000, rk_net = [], sw_seeds = []\<rparr>"

definition stream_request :: Controller where
  "stream_request = Some \<lparr>hr_GetHeader = \<lambda>_. None, hr_GetQuery = \<lambda>_. None, hr_path = ''/api/v1/stream''\<rparr>"

lemma tok_is_alices:
  "request_player ''dev'' ctl (EnqueueReq ''tok'' r) alices_session = Some ''p-0001''"
  "ss_GetSession (gd_sessions sample_gateway) ''tok'' alices_session =
     ((StoreOk, Some \<lparr>se_token = ''tok'', se_player_id = ''p-0001'', se_client_type = ''web''\<rparr>), alices_session)"
  "ValidateToken ''tok'' = []"
proof -
  have k: "key_value (c_str (KeyForSession ''dev'' ''tok'')) alices_session = Some (RedisHash [(''token'', ''tok''),
      (''player_id'', ''p-0001''), (''client_type'', ''web''), (''created_at'', ''1000'')], None)"
    by (simp add: key_value_def KeyForSession_def c_str_def alices_session_def)
  show v: "ValidateToken ''tok'' = []"
    by (simp add: ValidateToken_ok IsValidTokenFormat_def token_consts kTokenAlphabet_def)
  show "request_player ''dev'' ctl (EnqueueReq ''tok'' r) alices_session = Some ''p-0001''"
    using v k by (simp add: request_player_def ExtractToken_def ValidateToken_ok session_player_def)
  have "rk_net alices_session = []" by (simp add: alices_session_def)
  then show "ss_GetSession (gd_sessions sample_gateway) ''tok'' alices_session =
     ((StoreOk, Some \<lparr>se_token = ''tok'', se_player_id = ''p-0001'', se_client_type = ''web''\<rparr>), alices_session)"
    using stored_session_hash [OF k] by (simp add: sample_gateway_def redis_session_store_def GetSession_calm)
qed

lemma alice_resolves: "ResolvePlayerId sample_gateway ''tok'' r alices_session = (((200, None), ''p-0001''), alices_session)"
  by (simp add: ResolvePlayerId_def tok_is_alices)

lemma sample_fields:
  "gd_room sample_gateway = Some sample_rooms" "gd_CreateProgressiveAttachment sample_gateway w = (Some 0, w)"
  "rcl_GetState sample_rooms room r w = ((CallOk, Some alices_room), w)"
  "list_ex (\<lambda>y. gp_player_id y = ''p-0001'') (gw_players alices_room)"
  by (simp_all add: sample_gateway_def sample_rooms_def alices_room_def)



theorem only_members_are_subscribed_witness:
  "\<exists>h'. fst (snd (snd (serve_gateway sample_gateway stream_request (StreamReq ''tok'' ''r'' ''room-1'')
      (GatewayService_new, Some (StreamHub_new 15000), alices_session)))) = Some h' \<and>
    (\<exists>sub. sh_subscriptions h' = emplace (sh_next_id (StreamHub_new 15000)) sub [] \<and> sb_player_id sub = ''p-0001'')"
proof -
  obtain a gs' hub' w' where run: "serve_gateway sample_gateway stream_request (StreamReq ''tok'' ''r'' ''room-1'')
      (GatewayService_new, Some (StreamHub_new 15000), alices_session) = (a, gs', hub', w')" by (metis surj_pair)
  have d: "gd_sessions sample_gateway = redis_session_store (\<lambda>seed i. 0) ''dev'' 60" by (simp add: sample_gateway_def)
  have token: "ExtractToken stream_request ''tok'' = ''tok''" by (simp add: ExtractToken_def)
  have p: "request_player ''dev'' stream_request (StreamReq ''tok'' ''r'' ''room-1'') alices_session = Some ''p-0001''"
    using tok_is_alices(1) [of stream_request "''r''"] by (simp add: request_player_def)
  have some: "stream_request \<noteq> None" by (simp add: stream_request_def)
  have hub: "hub' \<noteq> Some (StreamHub_new 15000)"
    using run alice_resolves
    by (auto simp: Gateway_StreamEvents_def Reject_cases GatewayService_new_def token Let_def respond_parts ExtractQueryParam_def
        sample_fields some stream_subscribe_def Subscribe_def StreamHub_new_def)
  show ?thesis
    using only_members_are_subscribed [OF d run hub] run p by (auto simp: StreamHub_new_def)
qed

end
