(* ===== verification/Stream_Hub_Inv.thy ===== *)
theory Stream_Hub_Inv
  imports Stream_Hub
begin

text \<open>
  What every operation of the push hub keeps: the table of subscriptions is keyed by fresh ids, every
  subscription ever made is open or counted as closed, and the phases of a tick in turn.
\<close>

section \<open>The phases of a tick\<close>

text \<open>Only the last pushed state changes while the I/O of a replay runs, and the poll count with it.\<close>

definition io_rel :: "StreamHub \<Rightarrow> StreamHub \<Rightarrow> bool" where
  "io_rel h h' \<longleftrightarrow> h' = h\<lparr>sh_room_poll_count := sh_room_poll_count h',
     sh_last_pushed_state := sh_last_pushed_state h'\<rparr>"

lemma io_rel_refl [simp]: "io_rel h h"
  by (simp add: io_rel_def)

lemma io_rel_trans: "io_rel h h' \<Longrightarrow> io_rel h' h'' \<Longrightarrow> io_rel h h''"
  unfolding io_rel_def by (cases h; cases h'; cases h'') simp

lemma io_rel_sel:
  "io_rel h h' \<Longrightarrow> sh_subscriptions h' = sh_subscriptions h"
  "io_rel h h' \<Longrightarrow> sh_next_id h' = sh_next_id h" "io_rel h h' \<Longrightarrow> sh_created_total h' = sh_created_total h"
  "io_rel h h' \<Longrightarrow> sh_closed_other_total h' = sh_closed_other_total h"
  "io_rel h h' \<Longrightarrow> sh_closed_write_failed_total h' = sh_closed_write_failed_total h"
  "io_rel h h' \<Longrightarrow> sh_reset_counts h' = sh_reset_counts h"
  "io_rel h h' \<Longrightarrow> sh_heartbeat_interval_ms h' = sh_heartbeat_interval_ms h"
  unfolding io_rel_def by (cases h; cases h'; simp)+

lemma io_rel_SetLastPushedState [simp]: "io_rel h (SetLastPushedState r s b h)"
  by (simp add: io_rel_def SetLastPushedState_def)

lemma io_rel_replay: "replay env target xs s = (ok, s') \<Longrightarrow> io_rel (fst s) (fst s')"
proof (induction xs arbitrary: s)
  case (Cons x xs)
  obtain h w where s: "s = (h, w)" by (metis surj_pair)
  show ?case using Cons.prems Cons.IH io_rel_trans [OF io_rel_SetLastPushedState]
    by (fastforce simp: s split: prod.splits if_splits)
qed simp

lemma io_rel_send_reset: "send_reset env target reason payload outc s = (outc', s') \<Longrightarrow> io_rel (fst s) (fst s')"
  by (auto simp: send_reset_def split: prod.splits)

lemma io_rel_Backfill: "BackfillSubscription env target s = (outc, s') \<Longrightarrow> io_rel (fst s) (fst s')"
  by (cases s)
     (auto simp: BackfillSubscription_def Let_def split: option.splits prod.splits if_splits
       dest!: io_rel_send_reset io_rel_replay)

lemma io_rel_backfills: "fold (backfill_one env) targets (res, s) = (res', s') \<Longrightarrow> io_rel (fst s) (fst s')"
proof (induction targets arbitrary: res s)
  case (Cons t targets)
  obtain outc s1 where b: "BackfillSubscription env t s = (outc, s1)" by (metis surj_pair)
  obtain res1 where r: "backfill_one env t (res, s) = (res1, s1)" using b by (simp add: backfill_one_def)
  show ?case using Cons.IH [of res1 s1] Cons.prems r io_rel_Backfill [OF b] io_rel_trans by auto
qed simp

lemma TickRoom_rel:
  assumes "TickRoom env room sinks req n s = (failed, s')"
  shows "io_rel (fst s) (fst s') \<and> sh_room_poll_count (fst s') = Suc (sh_room_poll_count (fst s))"
  using assms
  by (cases s)
     (auto simp: TickRoom_def Let_def io_rel_def SetLastPushedState_def split: option.splits prod.splits if_splits)

lemma poll_rel:
  "fold (poll_room env n polled) rooms (failed, s) = (failed', s') \<Longrightarrow>
   io_rel (fst s) (fst s') \<and> sh_room_poll_count (fst s') = sh_room_poll_count (fst s) + length rooms"
proof (induction rooms arbitrary: failed s)
  case (Cons room rooms)
  obtain f1 s1 where t: "TickRoom env room (sinks_of room polled) (PollRequestId (room_request_id room polled) room) n s = (f1, s1)"
    by (metis surj_pair)
  have "poll_room env n polled room (failed, s) = (failed @ f1, s1)" using t by (simp add: poll_room_def)
  then have "fold (poll_room env n polled) rooms (failed @ f1, s1) = (failed', s')" using Cons.prems by simp
  from Cons.IH [OF this] TickRoom_rel [OF t] show ?case by (auto intro: io_rel_trans)
qed simp

text \<open>A tick, phase by phase.\<close>

lemma tick_parts:
  assumes "StreamHub_Tick env n (h, w) = (h', w')"
  obtains plan h0 res h1 w1 failed1 h2 w2 failed2 w3 failed3 w4 gone w5 where
    "collect_tick n h = (plan, h0)"
    "fold (backfill_one env) (tp_backfill plan) (no_results, h0, w) = (res, h1, w1)"
    "fold (poll_room env n (tp_live plan)) (rooms_of (tp_live plan)) (tr_failed res, h1, w1) = (failed1, h2, w2)"
    "write_ready env n (tp_ready plan) w2 = (failed2, w3)"
    "write_all env kHeartbeat (map (\<lambda>s. (sb_id s, sb_sink s)) (tp_heartbeat plan)) w3 = (failed3, w4)"
    "remove_failed env (failed1 @ failed2 @ failed3) (commit_tick n plan res h2, w4) = (gone, h', w5)"
    "w' = report_gone env gone w5" "io_rel h0 h1" "io_rel h1 h2"
proof -
  obtain plan h0 where c: "collect_tick n h = (plan, h0)" by fastforce
  obtain res h1 w1 where b: "fold (backfill_one env) (tp_backfill plan) (no_results, h0, w) = (res, h1, w1)"
    by (metis surj_pair)
  obtain failed1 h2 w2 where p:
    "fold (poll_room env n (tp_live plan)) (rooms_of (tp_live plan)) (tr_failed res, h1, w1) = (failed1, h2, w2)"
    by (metis surj_pair)
  obtain failed2 w3 where r: "write_ready env n (tp_ready plan) w2 = (failed2, w3)" by fastforce
  obtain failed3 w4 where hb:
    "write_all env kHeartbeat (map (\<lambda>s. (sb_id s, sb_sink s)) (tp_heartbeat plan)) w3 = (failed3, w4)" by fastforce
  obtain gone h5 w5 where g: "remove_failed env (failed1 @ failed2 @ failed3) (commit_tick n plan res h2, w4) = (gone, h5, w5)"
    by (metis surj_pair)
  have "h5 = h'" "w' = report_gone env gone w5"
    using assms by (simp_all add: StreamHub_Tick_def c b p r hb g)
  then show thesis
    using that [OF c b p r hb] g io_rel_backfills [OF b] poll_rel [OF p] by simp
qed

section \<open>The table of subscriptions\<close>

definition table_inv :: "nat \<Rightarrow> (nat, Subscription) umap \<Rightarrow> bool" where
  "table_inv next_id subs \<longleftrightarrow> keys_distinct subs \<and> (\<forall>(i, s) \<in> set subs. sb_id s = i \<and> i < next_id)"

text \<open>\<open>k\<close> counts the streams that were closed without being counted by the hub.\<close>

definition counted :: "nat \<Rightarrow> StreamHub \<Rightarrow> bool" where
  "counted k h \<longleftrightarrow> table_inv (sh_next_id h) (sh_subscriptions h)
     \<and> sh_created_total h = length (sh_subscriptions h) + sh_closed_write_failed_total h + sh_closed_other_total h + k"

lemma counted_new: "counted 0 (StreamHub_new hb)"
  by (simp add: counted_def table_inv_def StreamHub_new_def)

lemma counted_table: "counted k h \<Longrightarrow> table_inv (sh_next_id h) (sh_subscriptions h)"
  by (auto simp: counted_def)

definition keeps_id :: "(Subscription \<Rightarrow> Subscription) \<Rightarrow> bool" where
  "keeps_id f \<longleftrightarrow> (\<forall>s. sb_id (f s) = sb_id s)"

lemma table_inv_map_values: "keeps_id f \<Longrightarrow> table_inv n subs \<Longrightarrow> table_inv n (map_values f subs)"
  by (auto simp: table_inv_def keeps_id_def keys_distinct_map_values set_map_values)

lemma set_map_entry: "(k, v) \<in> set (AList.map_entry i f xs) \<Longrightarrow> \<exists>v0. (k, v0) \<in> set xs \<and> (v = v0 \<or> v = f v0)"
  by (induction xs) (auto split: if_splits)

lemma map_entry_keys [simp]: "map fst (AList.map_entry i f xs) = map fst xs"
  by (induction xs) auto

lemma table_inv_map_entry: "keeps_id f \<Longrightarrow> table_inv n subs \<Longrightarrow> table_inv n (AList.map_entry i f subs)"
  by (auto simp: table_inv_def keeps_id_def keys_distinct_def dest!: set_map_entry)

lemma length_map_entry [simp]: "length (AList.map_entry i f xs) = length xs"
  using map_entry_keys length_map by metis

lemma entry_updates:
  "table_inv n subs \<Longrightarrow> table_inv n (backfill_finished t e subs)" "length (backfill_finished t e subs) = length subs"
  "table_inv n subs \<Longrightarrow> table_inv n (note_reset r subs)" "length (note_reset r subs) = length subs"
  "table_inv n subs \<Longrightarrow> table_inv n (touch_heartbeat t i subs)" "length (touch_heartbeat t i subs) = length subs"
  "table_inv n subs \<Longrightarrow> table_inv n (note_ready t i subs)" "length (note_ready t i subs) = length subs"
  by (simp_all add: backfill_finished_def note_reset_def touch_heartbeat_def note_ready_def
      table_inv_map_entry keeps_id_def)

lemma fold_keeps:
  "(\<And>x subs. P subs \<Longrightarrow> P (f x subs)) \<Longrightarrow> P subs \<Longrightarrow> P (fold f xs subs)"
  by (induction xs arbitrary: subs) auto

lemma commit_table:
  assumes "table_inv n (sh_subscriptions h)"
  shows "table_inv n (sh_subscriptions (commit_tick t plan res h))
    \<and> length (sh_subscriptions (commit_tick t plan res h)) = length (sh_subscriptions h)"
proof -
  let ?P = "\<lambda>subs. table_inv n subs \<and> length subs = length (sh_subscriptions h)"
  have "?P (sh_subscriptions h)" using assms by simp
  then have "?P (sh_subscriptions (commit_tick t plan res h))"
    unfolding commit_tick_def by (simp, intro fold_keeps [where P = ?P]) (simp_all add: entry_updates)
  then show ?thesis .
qed

lemma commit_sel [simp]:
  "sh_next_id (commit_tick t plan res h) = sh_next_id h"
  "sh_created_total (commit_tick t plan res h) = sh_created_total h"
  "sh_closed_write_failed_total (commit_tick t plan res h) = sh_closed_write_failed_total h"
  "sh_closed_other_total (commit_tick t plan res h) = sh_closed_other_total h"
  "sh_room_poll_count (commit_tick t plan res h) = sh_room_poll_count h"
  "sh_last_pushed_state (commit_tick t plan res h) = sh_last_pushed_state h"
  by (simp_all add: commit_tick_def)

lemma delete_length: "keys_distinct xs \<Longrightarrow> map_of xs i = Some v \<Longrightarrow> Suc (length (AList.delete i xs)) = length xs"
proof (induction xs)
  case (Cons x xs)
  show ?case
  proof (cases "fst x = i")
    case True
    then have "i \<notin> fst ` set xs" using Cons.prems(1) by (auto simp: keys_distinct_def)
    then show ?thesis using True by (cases x) simp
  next
    case False
    then show ?thesis using Cons by (cases x) (auto simp: keys_distinct_def)
  qed
qed simp

lemma table_inv_delete: "table_inv n subs \<Longrightarrow> table_inv n (AList.delete i subs)"
  using keys_distinct_delete [of subs i] by (auto simp: table_inv_def AList.delete_eq)

lemma table_inv_add:
  assumes "table_inv n subs" "sb_id sub = n"
  shows "table_inv (Suc n) (emplace n sub subs)" "length (emplace n sub subs) = Suc (length subs)"
proof -
  have "map_of subs n = None" using assms(1) by (auto simp: table_inv_def map_of_eq_None_iff)
  then show "length (emplace n sub subs) = Suc (length subs)" "table_inv (Suc n) (emplace n sub subs)"
    using assms keys_distinct_emplace [of subs n sub]
    by (auto simp: table_inv_def emplace_fresh intro: less_SucI dest: bspec)
qed

lemma counted_remove:
  assumes "remove_failed env is (h, w) = (gone, h', w')" "counted k h"
  shows "counted k h' \<and> (\<forall>i. map_of (sh_subscriptions h') i =
      (if i \<in> set is then None else map_of (sh_subscriptions h) i))
    \<and> set gone = {s. \<exists>i \<in> set is. map_of (sh_subscriptions h) i = Some s}
    \<and> sh_room_poll_count h' = sh_room_poll_count h"
  using assms
proof (induction "is" arbitrary: h w gone)
  case (Cons i "is")
  show ?case
  proof (cases "map_of (sh_subscriptions h) i")
    case None
    then show ?thesis using Cons by auto
  next
    case (Some sub)
    define h1 where "h1 = h\<lparr>sh_subscriptions := AList.delete i (sh_subscriptions h),
        sh_closed_write_failed_total := Suc (sh_closed_write_failed_total h)\<rparr>"
    obtain gone1 where r: "remove_failed env is (h1, he_Close env (sb_sink sub) w) = (gone1, h', w')"
        and g: "gone = sub # gone1"
      using Cons.prems(1) Some by (auto simp: h1_def split: prod.splits)
    have kd: "keys_distinct (sh_subscriptions h)" using Cons.prems(2) by (simp add: counted_def table_inv_def)
    have "counted k h1"
      using Cons.prems(2) delete_length [OF kd Some] table_inv_delete by (auto simp: counted_def h1_def)
    from Cons.IH [OF r this] show ?thesis
      using Some g unfolding h1_def by (auto simp: delete_conv' split: if_splits) (metis option.inject)+
  qed
qed auto

lemma collect_parts:
  assumes "collect_tick n h = (plan, h0)"
  shows "h0 = h\<lparr>sh_subscriptions := map_values (stamp_created n) (sh_subscriptions h),
      sh_skipped_no_write_total := sh_skipped_no_write_total h0\<rparr>"
    "tp_backfill plan = filter should_backfill (map snd (sh_subscriptions h0))"
    "tp_live plan = filter (\<lambda>s. \<not> should_backfill s) (map snd (sh_subscriptions h0))"
    "tp_ready plan = filter (\<lambda>s. \<not> sb_ready_sent s) (tp_live plan)"
    "tp_heartbeat plan = filter (\<lambda>s. (should_backfill s \<or> sb_ready_sent s) \<and> heartbeat_due h n s) (map snd (sh_subscriptions h0))"
  using assms by (auto simp: collect_tick_def Let_def)

lemma counted_collect:
  assumes "collect_tick n h = (plan, h0)" "counted k h"
  shows "counted k h0"
proof -
  have k: "keeps_id (stamp_created n)" by (simp add: keeps_id_def stamp_created_def)
  show ?thesis
    by (subst collect_parts(1) [OF assms(1)])
       (use assms(2) table_inv_map_values [OF k] in \<open>simp add: counted_def map_values_def\<close>)
qed

lemma counted_io: "io_rel h h' \<Longrightarrow> counted k h \<Longrightarrow> counted k h'"
  by (simp add: counted_def io_rel_sel)

lemma counted_commit: "counted k h \<Longrightarrow> counted k (commit_tick n plan res h)"
  using commit_table [of "sh_next_id h" h n plan res] by (auto simp: counted_def)

lemma counted_Tick:
  assumes "counted k h" "StreamHub_Tick env n (h, w) = (h', w')"
  shows "counted k h'"
  using assms(2)
proof (rule tick_parts)
  fix plan h0 res h1 w1 failed1 h2 w2 failed2 w3 failed3 w4 gone w5
  assume "collect_tick n h = (plan, h0)" "io_rel h0 h1" "io_rel h1 h2"
    "remove_failed env (failed1 @ failed2 @ failed3) (commit_tick n plan res h2, w4) = (gone, h', w5)"
  then show ?thesis using counted_remove counted_commit counted_io counted_collect assms(1) by meson
qed

lemma counted_Subscribe:
  assumes "counted k h" "Subscribe env p r snk opts (h, w) = (rep, h', w')"
  shows "counted k h'"
proof (cases "snk = None \<or> sh_draining h")
  case True
  then show ?thesis using assms by (auto simp: Subscribe_def split: option.splits)
next
  case False
  then show ?thesis using assms by (auto simp: Subscribe_def Let_def counted_def table_inv_add)
qed

lemma counted_Unsubscribe:
  assumes "counted k h" "Unsubscribe env i (h, w) = (h', w')"
  shows "counted k h'"
proof (cases "map_of (sh_subscriptions h) i")
  case (Some sub)
  have "table_inv (sh_next_id h) (sh_subscriptions h)" using assms(1) by (simp add: counted_def)
  then have "keys_distinct (sh_subscriptions h)" "table_inv (sh_next_id h) (AList.delete i (sh_subscriptions h))"
    by (simp_all add: table_inv_delete) (simp add: table_inv_def)
  then show ?thesis using assms Some delete_length [OF _ Some] by (auto simp: Unsubscribe_def counted_def)
qed (use assms in \<open>simp add: Unsubscribe_def\<close>)

end
