(* ===== verification/Stream_Hub_Laws.thy ===== *)
theory Stream_Hub_Laws
  imports Stream_Hub_Inv
begin

text \<open>
  What the hub relies on, as two interfaces, and what follows for a tick. \<open>hub_world\<close> is a predicate that
  every call of a collaborator keeps, \<open>hub_calls\<close> one that closing a sink may change; \<open>event_sinks\<close> says what a sink promises: a write to a connection
  that is alive arrives and succeeds, one to a dead connection fails and leaves no trace.
\<close>

section \<open>What every call of a collaborator keeps, the hub keeps\<close>

locale hub_calls =
  fixes env :: "'w hub_env" and keeps :: "'w \<Rightarrow> bool"
  assumes Write_keeps: "keeps w \<Longrightarrow> keeps (snd (he_Write env k data w))"
    and GetState_keeps: "he_room env = Some rc \<Longrightarrow> keeps w \<Longrightarrow> keeps (snd (rcl_GetState rc r q w))"
    and GetSnapshotsSince_keeps:
      "he_room env = Some rc \<Longrightarrow> keeps w \<Longrightarrow> keeps (snd (rcl_GetSnapshotsSince rc r f q w))"
    and SetPresence_keeps: "he_room env = Some rc \<Longrightarrow> keeps w \<Longrightarrow> keeps (snd (rcl_SetPresence rc r p b q w))"
begin

lemma keepsD:
  "he_Write env k data w = (ok, w') \<Longrightarrow> keeps w \<Longrightarrow> keeps w'"
  "he_room env = Some rc \<Longrightarrow> rcl_GetState rc r q w = (a, w') \<Longrightarrow> keeps w \<Longrightarrow> keeps w'"
  "he_room env = Some rc \<Longrightarrow> rcl_GetSnapshotsSince rc r f q w = (b, w') \<Longrightarrow> keeps w \<Longrightarrow> keeps w'"
  using Write_keeps [of w k data] GetState_keeps [of rc w r q] GetSnapshotsSince_keeps [of rc w r f q] by simp_all

lemma ReportPresence_keeps: "keeps w \<Longrightarrow> keeps (ReportPresence env r p b q w)"
  by (auto simp: ReportPresence_def SetPresence_keeps split: option.splits)

lemma replay_keeps: "replay env target xs s = (ok, s') \<Longrightarrow> keeps (snd s) \<Longrightarrow> keeps (snd s')"
proof (induction xs arbitrary: s)
  case (Cons x xs)
  obtain h w where s: "s = (h, w)" by (metis surj_pair)
  obtain b w1 where wr: "he_Write env (sb_sink target) (room_event x (he_SystemNowMs env w)) w = (b, w1)"
    by (metis surj_pair)
  then have "keeps w1" using keepsD(1) Cons.prems(2) s by auto
  then show ?case using Cons.prems(1) Cons.IH by (auto simp: s wr split: if_splits)
qed simp

lemma replay_keeps_snd: "keeps (snd s) \<Longrightarrow> keeps (snd (snd (replay env target xs s)))"
  by (rule replay_keeps [OF surjective_pairing])

lemma send_reset_keeps: "send_reset env target reason x outc s = (o', s') \<Longrightarrow> keeps (snd s) \<Longrightarrow> keeps (snd s')"
  by (auto simp: send_reset_def split: prod.splits dest: keepsD(1))

lemma Backfill_keeps: "BackfillSubscription env target s = (outc, s') \<Longrightarrow> keeps (snd s) \<Longrightarrow> keeps (snd s')"
  by (cases s)
     (auto simp: BackfillSubscription_def Let_def case_prod_beta GetState_keeps GetSnapshotsSince_keeps
       split: option.splits if_splits dest!: send_reset_keeps intro!: replay_keeps_snd)

lemma backfills_keep: "fold (backfill_one env) targets (res, s) = (res', s') \<Longrightarrow> keeps (snd s) \<Longrightarrow> keeps (snd s')"
proof (induction targets arbitrary: res s)
  case (Cons t targets)
  obtain outc s1 where b: "BackfillSubscription env t s = (outc, s1)" by (metis surj_pair)
  obtain res1 where "backfill_one env t (res, s) = (res1, s1)" using b by (simp add: backfill_one_def)
  then show ?case using Cons Backfill_keeps [OF b] by simp
qed simp

lemma write_all_keeps: "write_all env data ts w = (failed, w') \<Longrightarrow> keeps w \<Longrightarrow> keeps w'"
proof (induction ts arbitrary: w failed w')
  case (Cons t ts)
  obtain i k where t: "t = (i, k)" by (metis surj_pair)
  obtain b w1 where wr: "he_Write env k data w = (b, w1)" by (metis surj_pair)
  obtain f2 w2 where r: "write_all env data ts w1 = (f2, w2)" by (metis surj_pair)
  show ?case using Cons.prems Cons.IH [OF r] keepsD(1) [OF wr] by (simp add: t wr r)
qed simp

lemma write_ready_keeps: "write_ready env n subs w = (failed, w') \<Longrightarrow> keeps w \<Longrightarrow> keeps w'"
proof (induction subs arbitrary: w failed w')
  case (Cons sub subs)
  obtain b w1 where wr: "he_Write env (sb_sink sub)
      (SseEvent ''session.ready'' (SessionReadyJson (sb_player_id sub) (sb_room_id sub) n) None) w = (b, w1)"
    by (metis surj_pair)
  obtain f2 w2 where r: "write_ready env n subs w1 = (f2, w2)" by (metis surj_pair)
  show ?case using Cons.prems Cons.IH [OF r] keepsD(1) [OF wr] by (simp add: wr r)
qed simp

lemma TickRoom_keeps: "TickRoom env room sinks q n s = (failed, s') \<Longrightarrow> keeps (snd s) \<Longrightarrow> keeps (snd s')"
  by (cases s)
     (auto simp: TickRoom_def Let_def split: option.splits prod.splits if_splits
       dest: keepsD(2) dest!: write_all_keeps)

lemma polls_keep: "fold (poll_room env n polled) rooms (failed, s) = (failed', s') \<Longrightarrow> keeps (snd s) \<Longrightarrow> keeps (snd s')"
proof (induction rooms arbitrary: failed s)
  case (Cons room rooms)
  obtain f1 s1 where t: "TickRoom env room (sinks_of room polled) (PollRequestId (room_request_id room polled) room) n s = (f1, s1)"
    by (metis surj_pair)
  then have "poll_room env n polled room (failed, s) = (failed @ f1, s1)" by (simp add: poll_room_def)
  then show ?case using Cons TickRoom_keeps [OF t] by simp
qed simp

lemma report_gone_keeps: "keeps w \<Longrightarrow> keeps (report_gone env gone w)"
  by (induction gone arbitrary: w) (simp_all add: report_gone_def ReportPresence_keeps)

lemma Subscribe_keeps: "Subscribe env p r k opts (h, w) = (rep, h', w') \<Longrightarrow> keeps w \<Longrightarrow> keeps w'"
  by (auto simp: Subscribe_def Let_def ReportPresence_keeps split: option.splits if_splits)

end

text \<open>The same, with closing a sink.\<close>

locale hub_world = hub_calls +
  assumes Close_keeps: "keeps w \<Longrightarrow> keeps (he_Close env k w)"
begin

lemma remove_keeps: "remove_failed env is (h, w) = (gone, h', w') \<Longrightarrow> keeps w \<Longrightarrow> keeps w'"
proof (induction "is" arbitrary: h w gone)
  case (Cons i "is")
  then show ?case by (auto simp: Close_keeps split: option.splits prod.splits)
qed simp

lemma Tick_keeps:
  assumes "StreamHub_Tick env n (h, w) = (h', w')" "keeps w"
  shows "keeps w'"
  using assms(1)
proof (rule tick_parts)
  fix plan h0 res h1 w1 failed1 h2 w2 failed2 w3 failed3 w4 gone w5
  assume "fold (backfill_one env) (tp_backfill plan) (no_results, h0, w) = (res, h1, w1)"
    "fold (poll_room env n (tp_live plan)) (rooms_of (tp_live plan)) (tr_failed res, h1, w1) = (failed1, h2, w2)"
    "write_ready env n (tp_ready plan) w2 = (failed2, w3)"
    "write_all env kHeartbeat (map (\<lambda>s. (sb_id s, sb_sink s)) (tp_heartbeat plan)) w3 = (failed3, w4)"
    "remove_failed env (failed1 @ failed2 @ failed3) (commit_tick n plan res h2, w4) = (gone, h', w5)"
    "w' = report_gone env gone w5"
  then show ?thesis
    using backfills_keep polls_keep write_ready_keeps write_all_keeps remove_keeps report_gone_keeps assms(2)
    by (metis snd_conv)
qed

lemma Unsubscribe_keeps: "Unsubscribe env i (h, w) = (h', w') \<Longrightarrow> keeps w \<Longrightarrow> keeps w'"
  by (auto simp: Unsubscribe_def ReportPresence_keeps Close_keeps split: option.splits)

end

text \<open>A replay does nothing, sends a reset or writes the missed frames, after calls to the room service.\<close>

definition consulted :: "'w hub_env \<Rightarrow> 'w \<Rightarrow> 'w \<Rightarrow> bool" where
  "consulted env w w' \<longleftrightarrow> (\<forall>P. hub_calls env P \<longrightarrow> P w \<longrightarrow> P w')"

lemma consulted_refl: "consulted env w w"
  by (simp add: consulted_def)

lemma consulted_GetState:
  "consulted env w w1 \<Longrightarrow> he_room env = Some rc \<Longrightarrow> rcl_GetState rc r q w1 = (a, w2) \<Longrightarrow> consulted env w w2"
  unfolding consulted_def by (meson hub_calls.keepsD(2))

lemma consulted_Since:
  "consulted env w w1 \<Longrightarrow> he_room env = Some rc \<Longrightarrow> rcl_GetSnapshotsSince rc r f q w1 = (a, w2) \<Longrightarrow> consulted env w w2"
  unfolding consulted_def by (meson hub_calls.keepsD(3))

lemma Backfill_cases:
  assumes "BackfillSubscription env t (h, w) = (outc, s')"
  obtains (nothing) w1 where "outc = nothing_done" "s' = (h, w1)"
  | (malformed) x w1 where "sb_backfill_malformed t" "consulted env w w1"
      "send_reset env t ''id_malformed'' x (nothing_done\<lparr>bo_attempted := True\<rparr>) (h, w1) = (outc, s')"
  | (reset) reason x w1 where "\<not> sb_backfill_malformed t" "consulted env w w1"
      "send_reset env t reason x nothing_done (h, w1) = (outc, s')"
  | (replay) rng :: GwSnapshotRange and w1 ok where "consulted env w w1" "replay env t (gr_snapshots rng) (h, w1) = (ok, s')"
      "outc = (if \<not> ok then nothing_done\<lparr>bo_write_failed := True\<rparr>
        else nothing_done\<lparr>bo_attempted := True, bo_frames := length (gr_snapshots rng)\<rparr>)"
proof (cases "he_room env")
  case (Some rc)
  let ?q = "PollRequestId (sb_request_id t) (sb_room_id t)"
  obtain r w1 where g: "rcl_GetState rc (sb_room_id t) ?q w = (r, w1)" by (metis surj_pair)
  note k = consulted_GetState [OF consulted_refl Some g]
  show thesis
  proof (cases "sb_backfill_malformed t")
    case True
    have b: "(case ok_output r of None \<Rightarrow> (nothing_done, h, w1) | Some x \<Rightarrow>
        send_reset env t ''id_malformed'' x (nothing_done\<lparr>bo_attempted := True\<rparr>) (h, w1)) = (outc, s')"
      using assms Some True by (simp add: BackfillSubscription_def Let_def g)
    show thesis
    proof (cases "ok_output r")
      case None
      show thesis by (rule that(1) [of w1]) (use b None in auto)
    next
      case (Some x)
      show thesis by (rule that(2) [OF True k, of x]) (use b Some in auto)
    qed
  next
    case False
    show thesis
    proof (cases "sb_backfill_from t")
      case None
      show thesis
        by (rule that(1) [of w]) (use assms \<open>he_room env = Some rc\<close> False None in \<open>auto simp: BackfillSubscription_def Let_def\<close>)
    next
      case (Some f)
      obtain r1 w2 where s: "rcl_GetSnapshotsSince rc (sb_room_id t) f ?q w = (r1, w2)" by (metis surj_pair)
      obtain r2 w3 where g2: "rcl_GetState rc (sb_room_id t) ?q w2 = (r2, w3)" by (metis surj_pair)
      note k2 = consulted_Since [OF consulted_refl \<open>he_room env = Some rc\<close> s]
      note k3 = consulted_GetState [OF k2 \<open>he_room env = Some rc\<close> g2]
      note b = assms \<open>he_room env = Some rc\<close> False Some s g2
      consider "ok_output r1 = None" | rng reason where "ok_output r1 = Some rng" "window_reset_reason rng = Some reason" "ok_output r2 = None"
        | rng reason x where "ok_output r1 = Some rng" "window_reset_reason rng = Some reason" "ok_output r2 = Some x"
        | rng where "ok_output r1 = Some rng" "window_reset_reason rng = None" by (metis not_Some_eq)
      then show thesis
      proof cases
        case 1
        show thesis by (rule that(1) [of w2]) (use b 1 in \<open>auto simp: BackfillSubscription_def Let_def\<close>)
      next
        case 2
        show thesis by (rule that(1) [of w3]) (use b 2 in \<open>auto simp: BackfillSubscription_def Let_def\<close>)
      next
        case (3 rng reason x)
        show thesis by (rule that(3) [OF False k3, of reason x]) (use b 3 in \<open>auto simp: BackfillSubscription_def Let_def\<close>)
      next
        case (4 rng)
        show thesis
          by (rule that(4) [OF k2, of rng "fst (replay env t (gr_snapshots rng) (h, w2))"])
             (use b 4 in \<open>auto simp: BackfillSubscription_def Let_def split: prod.splits\<close>)
      qed
    qed
  qed
qed (use assms that(1) in \<open>auto simp: BackfillSubscription_def\<close>)

section \<open>What a reconnecting stream becomes in a tick\<close>

text \<open>The outcome of a replay decides what the lists of a tick say about its stream.\<close>

definition recorded :: "nat \<Rightarrow> BackfillOutcome \<Rightarrow> tick_results \<Rightarrow> bool" where
  "recorded i outc res \<longleftrightarrow>
     (i \<in> set (tr_failed res) \<longleftrightarrow> bo_write_failed outc) \<and>
     filter (\<lambda>e. fst e = i) (tr_backfilled res) =
       (if bo_attempted outc \<and> \<not> bo_write_failed outc then [(i, bo_frames outc)] else []) \<and>
     filter (\<lambda>j. j = i) (tr_kept res) = (if \<not> bo_attempted outc \<and> \<not> bo_write_failed outc then [i] else []) \<and>
     filter (\<lambda>e. fst e = i) (tr_resets res) =
       (if bo_reset_sent outc \<and> \<not> bo_write_failed outc then [(i, bo_reset_reason outc)] else [])"

definition unrecorded :: "nat \<Rightarrow> tick_results \<Rightarrow> bool" where
  "unrecorded i res \<longleftrightarrow> i \<notin> set (tr_failed res) \<and> filter (\<lambda>e. fst e = i) (tr_backfilled res) = [] \<and>
     filter (\<lambda>j. j = i) (tr_kept res) = [] \<and> filter (\<lambda>e. fst e = i) (tr_resets res) = []"

lemma backfill_one_other:
  assumes "backfill_one env t (res, s) = (res', s')" "sb_id t \<noteq> i"
  shows "unrecorded i res' = unrecorded i res" "recorded i outc res' = recorded i outc res"
  using assms by (auto simp: backfill_one_def unrecorded_def recorded_def Let_def split: prod.splits if_splits)

lemma backfill_one_self:
  assumes "backfill_one env t (res, s) = (res', s')" "unrecorded (sb_id t) res"
    "BackfillSubscription env t s = (outc, s')"
  shows "recorded (sb_id t) outc res'"
  using assms by (auto simp: backfill_one_def unrecorded_def recorded_def Let_def split: prod.splits if_splits)

lemma backfill_others:
  "fold (backfill_one env) ts (res, s) = (res', s') \<Longrightarrow> i \<notin> sb_id ` set ts \<Longrightarrow>
   unrecorded i res' = unrecorded i res \<and> recorded i outc res' = recorded i outc res"
proof (induction ts arbitrary: res s)
  case (Cons t ts)
  obtain res1 s1 where b: "backfill_one env t (res, s) = (res1, s1)" by (metis surj_pair)
  show ?case using Cons.prems Cons.IH [of res1 s1] backfill_one_other [OF b] by (auto simp: b)
qed simp

context hub_calls
begin

lemma backfill_of_target:
  assumes "fold (backfill_one env) ts (res, s) = (res', s')" "keeps (snd s)" "t \<in> set ts"
    "distinct (map sb_id ts)" "unrecorded (sb_id t) res"
  obtains outc s1 s2 where "keeps (snd s1)" "BackfillSubscription env t s1 = (outc, s2)"
    "recorded (sb_id t) outc res'"
  using assms
proof (induction ts arbitrary: res s thesis)
  case (Cons u ts)
  obtain outc s1 where b: "BackfillSubscription env u s = (outc, s1)" by (metis surj_pair)
  obtain res1 where o: "backfill_one env u (res, s) = (res1, s1)" using b by (simp add: backfill_one_def)
  have f: "fold (backfill_one env) ts (res1, s1) = (res', s')" using Cons.prems(2) o by simp
  show ?case
  proof (cases "u = t")
    case True
    have "recorded (sb_id t) outc res1" using backfill_one_self [OF o _ b] Cons.prems(6) True by simp
    moreover have "sb_id t \<notin> sb_id ` set ts" using Cons.prems(5) True by auto
    ultimately have "recorded (sb_id t) outc res'" using backfill_others [OF f] by blast
    then show ?thesis using Cons.prems(1,3) b True by blast
  next
    case False
    then have t: "t \<in> set ts" using Cons.prems(4) by simp
    then have ne: "sb_id u \<noteq> sb_id t" using Cons.prems(5) by auto
    show ?thesis
      using Cons.IH [OF Cons.prems(1) f _ t] Backfill_keeps [OF b Cons.prems(3)] Cons.prems(5,6)
        backfill_one_other(1) [OF o ne] by simp
  qed
qed simp

end

section \<open>An entry of the table after the commit\<close>

lemma map_of_fold_entry:
  "map_of (fold (\<lambda>x. AList.map_entry (key x) (g x)) xs m) i =
   map_option (fold g (filter (\<lambda>x. key x = i) xs)) (map_of m i)"
  by (induction xs arbitrary: m) (auto simp: map_of_map_entry option.map_comp comp_def option.map_id0)

lemma fold_entries:
  "fold (touch_heartbeat n) = fold (\<lambda>i. AList.map_entry (id i) (\<lambda>s. s\<lparr>sb_last_heartbeat_ms := n\<rparr>))"
  "fold (note_ready n) = fold (\<lambda>i. AList.map_entry (id i) (\<lambda>s. s\<lparr>sb_ready_sent := True, sb_last_heartbeat_ms := n\<rparr>))"
  "fold note_reset = fold (\<lambda>e. AList.map_entry (fst e) (\<lambda>s. s\<lparr>sb_reset_sent := True, sb_reset_reason := snd e\<rparr>))"
  "fold (backfill_finished n) = fold (\<lambda>e. AList.map_entry (fst e) (\<lambda>s. s\<lparr>sb_backfill_pending := False,
     sb_backfill_from := None, sb_backfill_done := True, sb_backfilled_frames := snd e, sb_last_heartbeat_ms := n\<rparr>))"
  by (simp_all add: touch_heartbeat_def [abs_def] note_ready_def [abs_def] note_reset_def [abs_def]
      backfill_finished_def [abs_def])

text \<open>The entry of a reconnecting stream that stays in the table.\<close>

definition pending_next :: "ms \<Rightarrow> BackfillOutcome \<Rightarrow> Subscription \<Rightarrow> Subscription" where
  "pending_next n outc s =
     (let s1 = (if bo_attempted outc
           then s\<lparr>sb_backfill_pending := False, sb_backfill_from := None, sb_backfill_done := True,
                  sb_backfilled_frames := bo_frames outc\<rparr> else s);
          s2 = (if bo_reset_sent outc then s1\<lparr>sb_reset_sent := True, sb_reset_reason := bo_reset_reason outc\<rparr> else s1)
      in s2\<lparr>sb_last_heartbeat_ms := n\<rparr>)"

lemma commit_None [simp]:
  "map_of (sh_subscriptions (commit_tick n plan res h)) i = None \<longleftrightarrow> map_of (sh_subscriptions h) i = None"
  by (simp add: commit_tick_def fold_entries map_of_fold_entry)

lemma remove_interval:
  "remove_failed env is (h, w) = (gone, h', w') \<Longrightarrow> sh_heartbeat_interval_ms h' = sh_heartbeat_interval_ms h"
proof (induction "is" arbitrary: h w gone)
  case (Cons i "is")
  then show ?case by (auto split: option.splits prod.splits)
qed simp

lemma Tick_interval:
  assumes "StreamHub_Tick env n (h, w) = (h', w')"
  shows "sh_heartbeat_interval_ms h' = sh_heartbeat_interval_ms h"
  using assms
proof (rule tick_parts)
  fix plan h0 res h1 w1 failed1 h2 w2 failed2 w3 failed3 w4 gone w5
  assume c: "collect_tick n h = (plan, h0)" and io: "io_rel h0 h1" "io_rel h1 h2"
    and g: "remove_failed env (failed1 @ failed2 @ failed3) (commit_tick n plan res h2, w4) = (gone, h', w5)"
  have "sh_heartbeat_interval_ms h0 = sh_heartbeat_interval_ms h" by (subst collect_parts(1) [OF c]) simp
  then show ?thesis using remove_interval [OF g] io by (simp add: io_rel_sel commit_tick_def)
qed

text \<open>Who a stream belongs to never changes.\<close>

definition stream_of :: "Subscription \<Rightarrow> string \<times> string \<times> string \<times> nat" where
  "stream_of s = (sb_player_id s, sb_room_id s, sb_request_id s, sb_sink s)"

lemma fold_sel: "(\<And>x s. sel (g x s) = sel s) \<Longrightarrow> sel (fold g xs s) = sel s"
  by (induction xs arbitrary: s) simp_all

lemma commit_stream:
  assumes "map_of (sh_subscriptions h) i = Some s"
  obtains s' where "map_of (sh_subscriptions (commit_tick n plan res h)) i = Some s'" "stream_of s' = stream_of s"
proof -
  have k: "stream_of (fold (\<lambda>i. sb_last_heartbeat_ms_update (\<lambda>_. n)) xs u) = stream_of u"
    "stream_of (fold (\<lambda>i s. s\<lparr>sb_ready_sent := True, sb_last_heartbeat_ms := n\<rparr>) xs u) = stream_of u"
    "stream_of (fold (\<lambda>e s. s\<lparr>sb_reset_sent := True, sb_reset_reason := snd e\<rparr>) rs u) = stream_of u"
    "stream_of (fold (\<lambda>e s. s\<lparr>sb_backfill_pending := False, sb_backfill_from := None, sb_backfill_done := True,
       sb_backfilled_frames := snd e, sb_last_heartbeat_ms := n\<rparr>) bs u) = stream_of u"
    for xs u and rs :: "(nat \<times> string) list" and bs :: "(nat \<times> nat) list"
    by (rule fold_sel, simp add: stream_of_def)+
  show thesis
    by (rule that, use assms in \<open>simp add: commit_tick_def fold_entries map_of_fold_entry\<close>) (simp add: k)
qed

lemma filter_ids:
  "distinct (map sb_id xs) \<Longrightarrow> s \<in> set xs \<Longrightarrow>
   filter (\<lambda>j. j = sb_id s) (map sb_id (filter P xs)) = (if P s then [sb_id s] else [])"
proof (induction xs)
  case (Cons x xs)
  show ?case
  proof (cases "x = s")
    case True
    then have "sb_id s \<notin> sb_id ` set xs" using Cons.prems(1) by simp
    then have "filter (\<lambda>j. j = sb_id s) (map sb_id (filter P xs)) = []"
      by (auto simp: filter_empty_conv) (metis imageI)
    then show ?thesis using True by simp
  next
    case False
    then have "sb_id x \<noteq> sb_id s" using Cons.prems by auto
    then show ?thesis using False Cons by simp
  qed
qed simp

lemma commit_pending:
  assumes "distinct (map sb_id xs)" "s \<in> set xs" "should_backfill s"
    and "tp_ready plan = filter (\<lambda>s. \<not> sb_ready_sent s) (filter (\<lambda>s. \<not> should_backfill s) xs)"
    and "tp_heartbeat plan = filter P xs"
    and "recorded (sb_id s) outc res" "\<not> bo_write_failed outc" "map_of (sh_subscriptions h) (sb_id s) = Some s"
  shows "map_of (sh_subscriptions (commit_tick n plan res h)) (sb_id s) = Some (pending_next n outc s)"
proof -
  have r: "filter (\<lambda>j. j = sb_id s) (map sb_id (tp_ready plan)) = []"
    using filter_ids [OF assms(1,2), of "\<lambda>s. \<not> should_backfill s \<and> \<not> sb_ready_sent s"] assms(3,4)
    by (simp add: conj_commute)
  have hb: "filter (\<lambda>j. j = sb_id s) (map sb_id (tp_heartbeat plan)) = (if P s then [sb_id s] else [])"
    using filter_ids [OF assms(1,2)] assms(5) by simp
  show ?thesis
    using assms(6,7,8) r hb
    by (simp add: commit_tick_def fold_entries map_of_fold_entry recorded_def pending_next_def Let_def)
qed

section \<open>A reconnecting stream in a tick\<close>

lemma table_ids: "table_inv n subs \<Longrightarrow> distinct (map sb_id (map snd subs))"
proof -
  assume a: "table_inv n subs"
  then have "map sb_id (map snd subs) = map fst subs"
    unfolding table_inv_def map_map by (intro map_cong) (auto simp: case_prod_beta)
  then show ?thesis using a unfolding table_inv_def keys_distinct_def by metis
qed

lemma table_lookup: "table_inv n subs \<Longrightarrow> map_of subs i = Some s \<Longrightarrow> s \<in> set (map snd subs) \<and> sb_id s = i"
  by (force simp: table_inv_def dest: map_of_SomeD)

lemma collected:
  assumes "counted others h" "collect_tick n h = (plan, h0)"
  shows "distinct (map sb_id (map snd (sh_subscriptions h0)))"
    "map_of (sh_subscriptions h) i = Some s \<Longrightarrow>
       stamp_created n s \<in> set (map snd (sh_subscriptions h0)) \<and> sb_id (stamp_created n s) = i \<and>
       map_of (sh_subscriptions h0) i = Some (stamp_created n s)"
proof -
  have t: "table_inv (sh_next_id h0) (sh_subscriptions h0)"
    using counted_collect [OF assms(2,1)] by (simp add: counted_def)
  show "distinct (map sb_id (map snd (sh_subscriptions h0)))" by (rule table_ids [OF t])
  have e: "sh_subscriptions h0 = map_values (stamp_created n) (sh_subscriptions h)"
    by (subst collect_parts(1) [OF assms(2)]) simp
  show "map_of (sh_subscriptions h) i = Some s \<Longrightarrow>
       stamp_created n s \<in> set (map snd (sh_subscriptions h0)) \<and> sb_id (stamp_created n s) = i \<and>
       map_of (sh_subscriptions h0) i = Some (stamp_created n s)"
    using table_lookup [OF t, of i "stamp_created n s"] e by simp
qed

lemma stamp_pending [simp]:
  "should_backfill (stamp_created n s) = should_backfill s"
  "sb_backfill_from (stamp_created n s) = sb_backfill_from s"
  "sb_backfill_malformed (stamp_created n s) = sb_backfill_malformed s"
  "sb_room_id (stamp_created n s) = sb_room_id s" "sb_sink (stamp_created n s) = sb_sink s"
  "sb_ready_sent (stamp_created n s) = sb_ready_sent s" "sb_id (stamp_created n s) = sb_id s"
  "sb_backfill_done (stamp_created n s) = sb_backfill_done s" "sb_reset_sent (stamp_created n s) = sb_reset_sent s"
  "sb_player_id (stamp_created n s) = sb_player_id s" "sb_request_id (stamp_created n s) = sb_request_id s"
  "sb_backfill_pending (stamp_created n s) = sb_backfill_pending s"
  by (simp_all add: stamp_created_def should_backfill_def)

lemma write_all_ids: "write_all env data ts w = (failed, w') \<Longrightarrow> set failed \<subseteq> fst ` set ts"
proof (induction ts arbitrary: w failed w')
  case (Cons t ts)
  obtain i k where t: "t = (i, k)" by (metis surj_pair)
  obtain b w1 where wr: "he_Write env k data w = (b, w1)" by (metis surj_pair)
  obtain f2 w2 where r: "write_all env data ts w1 = (f2, w2)" by (metis surj_pair)
  show ?case using Cons.prems Cons.IH [OF r] by (auto simp: t wr r split: if_splits)
qed simp

lemma write_ready_ids: "write_ready env n subs w = (failed, w') \<Longrightarrow> set failed \<subseteq> sb_id ` set subs"
proof (induction subs arbitrary: w failed w')
  case (Cons sub subs)
  obtain b w1 where wr: "he_Write env (sb_sink sub)
      (SseEvent ''session.ready'' (SessionReadyJson (sb_player_id sub) (sb_room_id sub) n) None) w = (b, w1)"
    by (metis surj_pair)
  obtain f2 w2 where r: "write_ready env n subs w1 = (f2, w2)" by (metis surj_pair)
  show ?case using Cons.prems Cons.IH [OF r] by (auto simp: wr r split: if_splits)
qed simp

lemma TickRoom_ids: "TickRoom env room sinks q n s = (failed, s') \<Longrightarrow> set failed \<subseteq> fst ` set sinks"
  by (cases s) (auto simp: TickRoom_def Let_def split: option.splits prod.splits if_splits dest: write_all_ids)

lemma sinks_of_ids: "fst ` set (sinks_of room polled) \<subseteq> sb_id ` set polled"
  by (auto simp: sinks_of_def)

lemma poll_ids:
  "fold (poll_room env n polled) rooms (failed, s) = (failed', s') \<Longrightarrow> set failed' \<subseteq> set failed \<union> sb_id ` set polled"
proof (induction rooms arbitrary: failed s)
  case (Cons room rooms)
  obtain f1 s1 where t: "TickRoom env room (sinks_of room polled) (PollRequestId (room_request_id room polled) room) n s = (f1, s1)"
    by (metis surj_pair)
  then have "poll_room env n polled room (failed, s) = (failed @ f1, s1)" by (simp add: poll_room_def)
  moreover have "set f1 \<subseteq> sb_id ` set polled" using TickRoom_ids [OF t] sinks_of_ids by (rule order_trans)
  ultimately show ?case using Cons.prems Cons.IH [of "failed @ f1" s1] by auto
qed simp

lemma poll_keeps_failed:
  "fold (poll_room env n polled) rooms (failed, s) = (failed', s') \<Longrightarrow> set failed \<subseteq> set failed'"
proof (induction rooms arbitrary: failed s)
  case (Cons room rooms)
  obtain f1 s1 where t: "poll_room env n polled room (failed, s) = (failed @ f1, s1)"
    by (cases "poll_room env n polled room (failed, s)") (auto simp: poll_room_def split: prod.splits)
  then show ?case using Cons.prems Cons.IH [of "failed @ f1" s1] by auto
qed simp

text \<open>A reconnecting stream is not polled and gets no greeting: only its replay and its heartbeat count.\<close>

lemma pending_failed:
  assumes "distinct (map sb_id xs)" "s \<in> set xs" "should_backfill s"
    and "tp_live plan = filter (\<lambda>s. \<not> should_backfill s) xs"
    and "tp_ready plan = filter (\<lambda>s. \<not> sb_ready_sent s) (tp_live plan)"
    and "fold (poll_room env n (tp_live plan)) rooms (tr_failed res, s1) = (failed1, s2)"
    and "write_ready env n (tp_ready plan) w2 = (failed2, w3)"
  shows "sb_id s \<in> set (failed1 @ failed2 @ failed3) \<longleftrightarrow> sb_id s \<in> set (tr_failed res) \<or> sb_id s \<in> set failed3"
proof -
  have "sb_id s \<notin> sb_id ` set (tp_live plan)"
  proof
    assume "sb_id s \<in> sb_id ` set (tp_live plan)"
    then obtain u where "u \<in> set xs" "\<not> should_backfill u" "sb_id u = sb_id s" using assms(4) by auto
    then show False using assms(1,2,3) by (auto simp: distinct_map dest: inj_onD)
  qed
  moreover have "sb_id ` set (tp_ready plan) \<subseteq> sb_id ` set (tp_live plan)" using assms(5) by auto
  ultimately have "sb_id s \<notin> set failed2" "sb_id s \<in> set failed1 \<longleftrightarrow> sb_id s \<in> set (tr_failed res)"
    using poll_ids [OF assms(6)] poll_keeps_failed [OF assms(6)] write_ready_ids [OF assms(7)] by blast+
  then show ?thesis by simp
qed

lemma same_id: "distinct (map sb_id xs) \<Longrightarrow> u \<in> set xs \<Longrightarrow> s \<in> set xs \<Longrightarrow> sb_id u = sb_id s \<Longrightarrow> u = s"
  by (auto simp: distinct_map dest: inj_onD)

lemma filter_id_iff:
  assumes "distinct (map sb_id xs)" "s \<in> set xs"
  shows "sb_id s \<in> sb_id ` set (filter P xs) \<longleftrightarrow> P s"
proof
  assume "sb_id s \<in> sb_id ` set (filter P xs)"
  then obtain u where "u \<in> set xs" "P u" "sb_id u = sb_id s" by force
  then show "P s" using same_id [OF assms(1) _ assms(2)] by blast
qed (use assms(2) in auto)

lemma target_iff:
  assumes "distinct (map sb_id xs)" "s \<in> set xs"
  shows "(sb_id s, sb_sink s) \<in> set (map (\<lambda>s. (sb_id s, sb_sink s)) (filter P xs)) \<longleftrightarrow> P s"
proof
  assume "(sb_id s, sb_sink s) \<in> set (map (\<lambda>s. (sb_id s, sb_sink s)) (filter P xs))"
  then have "sb_id s \<in> sb_id ` set (filter P xs)" by force
  then show "P s" using filter_id_iff [OF assms] by blast
qed (use assms(2) in auto)

context hub_calls
begin

text \<open>What a tick does with a stream whose replay is pending: the replay runs once, in a world the
  collaborators kept, and unless a write failed its outcome alone decides the new entry.\<close>

lemma pending_tick:
  assumes "counted others h" "StreamHub_Tick env n (h, w) = (h', w')" "keeps w"
    and "map_of (sh_subscriptions h) i = Some s" "should_backfill s"
  obtains outc s1 s2 targets w3 failed w4 where
    "keeps (snd s1)" "BackfillSubscription env (stamp_created n s) s1 = (outc, s2)"
    "keeps w3" "write_all env kHeartbeat targets w3 = (failed, w4)"
    "distinct (map fst targets)"
    "(i, sb_sink s) \<in> set targets \<longleftrightarrow> heartbeat_due h n (stamp_created n s)"
    "i \<in> fst ` set targets \<longleftrightarrow> heartbeat_due h n (stamp_created n s)"
    "map_of (sh_subscriptions h') i =
       (if bo_write_failed outc \<or> i \<in> set failed then None else Some (pending_next n outc (stamp_created n s)))"
  using assms(2)
proof (rule tick_parts)
  fix plan :: tick_plan and h0 :: StreamHub and res h1 w1 failed1 h2 w2 failed2 w3 failed3 w4 gone w5
  let ?s = "stamp_created n s" let ?xs = "map snd (sh_subscriptions h0)"
  let ?ts = "map (\<lambda>s. (sb_id s, sb_sink s)) (tp_heartbeat plan)"
  assume c: "collect_tick n h = (plan, h0)"
    and b: "fold (backfill_one env) (tp_backfill plan) (no_results, h0, w) = (res, h1, w1)"
    and p: "fold (poll_room env n (tp_live plan)) (rooms_of (tp_live plan)) (tr_failed res, h1, w1) = (failed1, h2, w2)"
    and r: "write_ready env n (tp_ready plan) w2 = (failed2, w3)"
    and hb: "write_all env kHeartbeat ?ts w3 = (failed3, w4)"
    and g: "remove_failed env (failed1 @ failed2 @ failed3) (commit_tick n plan res h2, w4) = (gone, h', w5)"
    and io: "io_rel h0 h1" "io_rel h1 h2"
  note parts = collect_parts [OF c] and d = collected(1) [OF assms(1) c]
  from collected(2) [OF assms(1) c assms(4)]
  have s: "?s \<in> set ?xs" "sb_id ?s = i" "map_of (sh_subscriptions h0) i = Some ?s" by blast+
  have sb: "should_backfill ?s" using assms(5) by simp
  obtain outc s1 s2 where o: "keeps (snd s1)" "BackfillSubscription env ?s s1 = (outc, s2)" "recorded i outc res"
  proof (rule backfill_of_target [OF b, of ?s])
    show "distinct (map sb_id (tp_backfill plan))" unfolding parts(2) by (rule distinct_map_filter [OF d])
    show "unrecorded (sb_id ?s) no_results" by (simp add: unrecorded_def no_results_def)
  qed (use assms(3) s sb parts(2) in auto)
  have k: "keeps w3"
    using backfills_keep [OF b] polls_keep [OF p] write_ready_keeps [OF r] assms(3) by simp
  have inv: "counted others (commit_tick n plan res h2)"
    by (intro counted_commit counted_io [OF io(2)] counted_io [OF io(1)] counted_collect [OF c assms(1)])
  have look: "map_of (sh_subscriptions h2) i = Some ?s" using s(3) io by (simp add: io_rel_sel)
  have "map_of (sh_subscriptions h') i =
      (if i \<in> set (failed1 @ failed2 @ failed3) then None else map_of (sh_subscriptions (commit_tick n plan res h2)) i)"
    using counted_remove [OF g inv] by simp
  also have "i \<in> set (failed1 @ failed2 @ failed3) \<longleftrightarrow> bo_write_failed outc \<or> i \<in> set failed3"
    using pending_failed [OF d s(1) sb parts(3,4) p r] s(2) o(3) by (simp add: recorded_def)
  finally have e: "map_of (sh_subscriptions h') i =
      (if bo_write_failed outc \<or> i \<in> set failed3 then None else Some (pending_next n outc ?s))"
    using commit_pending [OF d s(1) sb parts(4) [unfolded parts(3)] parts(5), of outc res h2 n] o(3) look s(2) by simp
  show thesis
  proof (rule that [OF o(1,2) k hb _ _ _ e])
    show "distinct (map fst ?ts)" using d unfolding parts(5) by (simp add: comp_def distinct_map_filter)
    show "(i, sb_sink s) \<in> set ?ts \<longleftrightarrow> heartbeat_due h n ?s"
      using target_iff [OF d s(1)] s(2) sb unfolding parts(5) by simp
    show "i \<in> fst ` set ?ts \<longleftrightarrow> heartbeat_due h n ?s"
      using filter_id_iff [OF d s(1)] s(2) sb unfolding parts(5) by (simp add: image_image)
  qed
qed

end

end
