(* ===== verification/Stream_Hub_Sinks.thy ===== *)
theory Stream_Hub_Sinks
  imports Stream_Hub_Laws
begin

text \<open>
  What a sink promises, and what a tick of the hub then writes and removes: a stream is removed only
  when its connection is dead or its match is over, and a dead one as soon as something is written to it.
\<close>

section \<open>The contract of the sinks\<close>

locale event_sinks =
  fixes env :: "'w hub_env" and sent :: "'w \<Rightarrow> (nat \<times> string) list" and dead :: "'w \<Rightarrow> nat \<Rightarrow> bool"
  assumes Write_ok: "fst (he_Write env k data w) = (\<not> dead w k)"
    and Write_sent: "sent (snd (he_Write env k data w)) = (if dead w k then sent w else sent w @ [(k, data)])"
    and Write_dead: "dead (snd (he_Write env k data w)) = dead w"
    and Write_clock: "he_SystemNowMs env (snd (he_Write env k data w)) = he_SystemNowMs env w"
    and Close_frame: "sent (he_Close env k w) = sent w"
    and GetState_frame: "he_room env = Some rc \<Longrightarrow> sent (snd (rcl_GetState rc r q w)) = sent w"
      "he_room env = Some rc \<Longrightarrow> dead (snd (rcl_GetState rc r q w)) = dead w"
    and GetSnapshotsSince_frame: "he_room env = Some rc \<Longrightarrow> sent (snd (rcl_GetSnapshotsSince rc r f q w)) = sent w"
      "he_room env = Some rc \<Longrightarrow> dead (snd (rcl_GetSnapshotsSince rc r f q w)) = dead w"
    and SetPresence_frame: "he_room env = Some rc \<Longrightarrow> sent (snd (rcl_SetPresence rc r p b q w)) = sent w"
      "he_room env = Some rc \<Longrightarrow> dead (snd (rcl_SetPresence rc r p b q w)) = dead w"

sublocale event_sinks \<subseteq> alive: hub_calls env "\<lambda>w. dead w = d" for d
  by unfold_locales
     (simp_all add: Write_dead GetState_frame GetSnapshotsSince_frame SetPresence_frame)

sublocale event_sinks \<subseteq> grows: hub_world env "\<lambda>w. \<exists>new. sent w = old @ new" for old
  by unfold_locales
     (auto simp: Write_sent Close_frame GetState_frame GetSnapshotsSince_frame SetPresence_frame)

context event_sinks
begin

lemma Write_cases:
  assumes "he_Write env k data w = (ok, w')"
  shows "ok = (\<not> dead w k)" "sent w' = (if dead w k then sent w else sent w @ [(k, data)])" "dead w' = dead w"
    "he_SystemNowMs env w' = he_SystemNowMs env w"
  using assms Write_ok [of k data w] Write_sent [of k data w] Write_dead [of k data w] Write_clock [of k data w]
  by simp_all

lemma write_all_spec:
  "write_all env data ts w = (failed, w') \<Longrightarrow>
   failed = map fst (filter (\<lambda>t. dead w (snd t)) ts) \<and> dead w' = dead w \<and>
   sent w' = sent w @ map (\<lambda>t. (snd t, data)) (filter (\<lambda>t. \<not> dead w (snd t)) ts)"
proof (induction ts arbitrary: w failed w')
  case (Cons t ts)
  obtain i k where t: "t = (i, k)" by (metis surj_pair)
  obtain b w1 where wr: "he_Write env k data w = (b, w1)" by (metis surj_pair)
  obtain f2 w2 where r: "write_all env data ts w1 = (f2, w2)" by (metis surj_pair)
  show ?case using Cons.prems Cons.IH [OF r] Write_cases [OF wr] by (auto simp: t wr r)
qed simp

lemma write_ready_spec:
  "write_ready env n subs w = (failed, w') \<Longrightarrow>
   failed = map sb_id (filter (\<lambda>s. dead w (sb_sink s)) subs) \<and> dead w' = dead w"
proof (induction subs arbitrary: w failed w')
  case (Cons sub subs)
  obtain b w1 where wr: "he_Write env (sb_sink sub)
      (SseEvent ''session.ready'' (SessionReadyJson (sb_player_id sub) (sb_room_id sub) n) None) w = (b, w1)"
    by (metis surj_pair)
  obtain f2 w2 where r: "write_ready env n subs w1 = (f2, w2)" by (metis surj_pair)
  show ?case using Cons.prems Cons.IH [OF r] Write_cases [OF wr] by (auto simp: wr r)
qed simp

lemma replay_spec:
  "replay env t xs (h, w) = (ok, h', w') \<Longrightarrow>
   ok = (xs = [] \<or> \<not> dead w (sb_sink t)) \<and> dead w' = dead w \<and>
   sent w' = sent w @ (if dead w (sb_sink t) then []
     else map (\<lambda>x. (sb_sink t, room_event x (he_SystemNowMs env w))) xs)"
proof (induction xs arbitrary: h w)
  case (Cons x xs)
  obtain b w1 where wr: "he_Write env (sb_sink t) (room_event x (he_SystemNowMs env w)) w = (b, w1)"
    by (metis surj_pair)
  show ?case
    using Cons.prems Cons.IH [of "SetLastPushedState (sb_room_id t) x (terminal x) h" w1] Write_cases [OF wr]
    by (auto simp: wr split: if_splits)
qed simp

text \<open>The events for one room: when the state it answers with is new or final, every live stream of
  the room gets it, and nobody gets anything otherwise.\<close>

lemma TickRoom_spec:
  assumes "TickRoom env room sinks q n (h, w) = (failed, h', w')" "he_room env = Some rc"
    and "rcl_GetState rc room q w = (r, w1)" "ok_output r = Some snap" "sinks \<noteq> []"
  shows "sent w' = sent w @ (if terminal snap \<or> map_of (sh_last_pushed_state h) room \<noteq> Some (StateSignature snap)
      then map (\<lambda>t. (snd t, room_event snap n)) (filter (\<lambda>t. \<not> dead w (snd t)) sinks) else [])"
    "failed = (if terminal snap then map fst sinks
      else if map_of (sh_last_pushed_state h) room \<noteq> Some (StateSignature snap)
      then map fst (filter (\<lambda>t. dead w (snd t)) sinks) else [])"
proof -
  have f: "sent w1 = sent w" "dead w1 = dead w"
    using GetState_frame [OF assms(2), of room q w] assms(3) by simp_all
  have sig: "StateSignature snap \<noteq> []" by (simp add: StateSignature_def)
  have ne: "(StateSignature snap \<noteq> (case map_of (sh_last_pushed_state h) room of None \<Rightarrow> [] | Some p \<Rightarrow> p)) =
      (map_of (sh_last_pushed_state h) room \<noteq> Some (StateSignature snap))"
    using sig by (auto split: option.splits)
  show "sent w' = sent w @ (if terminal snap \<or> map_of (sh_last_pushed_state h) room \<noteq> Some (StateSignature snap)
      then map (\<lambda>t. (snd t, room_event snap n)) (filter (\<lambda>t. \<not> dead w (snd t)) sinks) else [])"
    using assms f ne by (auto simp: TickRoom_def Let_def split: prod.splits if_splits dest!: write_all_spec)
  show "failed = (if terminal snap then map fst sinks
      else if map_of (sh_last_pushed_state h) room \<noteq> Some (StateSignature snap)
      then map fst (filter (\<lambda>t. dead w (snd t)) sinks) else [])"
    using assms f ne by (auto simp: TickRoom_def Let_def split: prod.splits if_splits dest!: write_all_spec)
qed

lemma TickRoom_failed:
  assumes "TickRoom env room sinks q n (h, w) = (failed, h', w')" "i \<in> set failed"
  obtains k where "(i, k) \<in> set sinks"
    "dead w k \<or> (\<exists>snap. terminal snap \<and> (k, room_event snap n) \<in> set (drop (length (sent w)) (sent w')))"
proof -
  obtain rc r w1 snap where c: "he_room env = Some rc" "rcl_GetState rc room q w = (r, w1)" "ok_output r = Some snap"
    "sinks \<noteq> []"
    using assms by (auto simp: TickRoom_def Let_def split: option.splits if_splits prod.splits)
  note sp = TickRoom_spec [OF assms(1) c]
  from assms(2) obtain t where t: "t \<in> set sinks" "i = fst t" "terminal snap \<or> dead w (snd t)"
    by (auto simp: sp(2) split: if_splits)
  have "(snd t, room_event snap n) \<in> set (drop (length (sent w)) (sent w'))" if "terminal snap" "\<not> dead w (snd t)"
    using sp(1) t(1) that by force
  then show thesis using that [of "snd t"] t by (cases t) auto
qed

lemma drop_grows: "sent w1 = sent w @ a \<Longrightarrow> sent w2 = sent w1 @ b \<Longrightarrow>
    set (drop (length (sent w)) (sent w1)) \<subseteq> set (drop (length (sent w)) (sent w2)) \<and>
    set (drop (length (sent w1)) (sent w2)) \<subseteq> set (drop (length (sent w)) (sent w2))"
  by simp

lemma polls_failed:
  "fold (poll_room env n polled) rooms (failed, s) = (failed', s') \<Longrightarrow> i \<in> set failed' \<Longrightarrow>
   i \<in> set failed \<or> (\<exists>sub \<in> set polled. sb_id sub = i \<and> (dead (snd s) (sb_sink sub) \<or>
     (\<exists>snap. terminal snap \<and> (sb_sink sub, room_event snap n) \<in> set (drop (length (sent (snd s))) (sent (snd s'))))))"
proof (induction rooms arbitrary: failed s)
  case (Cons room rooms)
  let ?sinks = "sinks_of room polled"
  obtain f1 s1 where t: "TickRoom env room ?sinks (PollRequestId (room_request_id room polled) room) n s = (f1, s1)"
    by (metis surj_pair)
  then have "poll_room env n polled room (failed, s) = (failed @ f1, s1)" by (simp add: poll_room_def)
  then have f: "fold (poll_room env n polled) rooms (failed @ f1, s1) = (failed', s')" using Cons.prems(1) by simp
  obtain a b where ab: "sent (snd s1) = sent (snd s) @ a" "sent (snd s') = sent (snd s1) @ b"
    using grows.TickRoom_keeps [OF t, of "sent (snd s)"] grows.polls_keep [OF f, of "sent (snd s1)"] by auto
  note dr = drop_grows [OF ab]
  have d: "dead (snd s1) = dead (snd s)" using alive.TickRoom_keeps [OF t] by simp
  from Cons.IH [OF f Cons.prems(2)] consider "i \<in> set failed" | "i \<in> set f1"
    | sub where "sub \<in> set polled" "sb_id sub = i" "dead (snd s) (sb_sink sub) \<or>
       (\<exists>snap. terminal snap \<and> (sb_sink sub, room_event snap n) \<in> set (drop (length (sent (snd s1))) (sent (snd s'))))"
    unfolding d by auto
  then show ?case
  proof cases
    case 2
    obtain h w where s: "s = (h, w)" by (metis surj_pair)
    obtain h1 w1 where s1: "s1 = (h1, w1)" by (metis surj_pair)
    obtain k where k: "(i, k) \<in> set ?sinks" "dead w k \<or>
        (\<exists>snap. terminal snap \<and> (k, room_event snap n) \<in> set (drop (length (sent w)) (sent w1)))"
      by (rule TickRoom_failed [OF t [unfolded s s1] 2])
    then obtain sub where "sub \<in> set polled" "sb_id sub = i" "sb_sink sub = k" by (auto simp: sinks_of_def)
    then show ?thesis using k(2) dr s s1 by auto
  qed (use dr in blast)+
qed simp

lemma consulted_dead: "consulted env w w1 \<Longrightarrow> dead w1 = dead w"
  using alive.hub_calls_axioms [of "dead w"] unfolding consulted_def by blast

lemma Backfill_failed:
  assumes "BackfillSubscription env t (h, w) = (outc, s')" "bo_write_failed outc"
  shows "dead w (sb_sink t)"
proof -
  have r: "dead w (sb_sink t)" if "send_reset env t reason x o' (h, w1) = (outc, s')" "consulted env w w1"
    for reason x o' w1
    using that assms(2) consulted_dead [OF that(2)]
    by (auto simp: send_reset_def split: prod.splits dest: Write_cases(1))
  show ?thesis
  proof (rule Backfill_cases [OF assms(1)])
    fix rng w1 ok
    assume "consulted env w w1" "replay env t (gr_snapshots rng) (h, w1) = (ok, s')"
      "outc = (if \<not> ok then nothing_done\<lparr>bo_write_failed := True\<rparr>
        else nothing_done\<lparr>bo_attempted := True, bo_frames := length (gr_snapshots rng)\<rparr>)"
    then show ?thesis
      using assms(2) replay_spec [of t "gr_snapshots rng" h w1 ok "fst s'" "snd s'"] consulted_dead [of w w1]
      by (auto simp: nothing_done_def split: if_splits)
  qed (use r assms(2) in \<open>auto simp: nothing_done_def\<close>)
qed

lemma backfill_failed_ids:
  "fold (backfill_one env) ts (res, s) = (res', s') \<Longrightarrow> i \<in> set (tr_failed res') \<Longrightarrow>
   i \<in> set (tr_failed res) \<or> (\<exists>t \<in> set ts. sb_id t = i \<and> dead (snd s) (sb_sink t))"
proof (induction ts arbitrary: res s)
  case (Cons t ts)
  obtain outc s1 where b: "BackfillSubscription env t s = (outc, s1)" by (metis surj_pair)
  obtain res1 where o: "backfill_one env t (res, s) = (res1, s1)" using b by (simp add: backfill_one_def)
  have f: "fold (backfill_one env) ts (res1, s1) = (res', s')" using Cons.prems(1) o by simp
  have "set (tr_failed res1) \<subseteq> set (tr_failed res) \<union> (if bo_write_failed outc then {sb_id t} else {})"
    using o b by (auto simp: backfill_one_def Let_def split: if_splits)
  moreover have "dead (snd s) (sb_sink t)" if "bo_write_failed outc"
    using Backfill_failed [of t "fst s" "snd s"] b that by simp
  moreover have "dead (snd s1) = dead (snd s)" using alive.Backfill_keeps [OF b] by simp
  ultimately show ?case using Cons.IH [OF f Cons.prems(2)] by (auto split: if_splits)
qed simp

lemma after_polls:
  assumes "write_ready env n subs w2 = (failed2, w3)" "write_all env data ts w3 = (failed3, w4)"
    "remove_failed env is (h4, w4) = (gone, h', w5)"
  shows "\<exists>c. sent (report_gone env gone w5) = sent w2 @ c"
proof -
  have "\<exists>c. sent w4 = sent w2 @ c"
    using grows.write_ready_keeps [OF assms(1), of "sent w2"] grows.write_all_keeps [OF assms(2), of "sent w2"] by auto
  then have "\<exists>c. sent w5 = sent w2 @ c" using grows.remove_keeps [OF assms(3), of "sent w2"] by simp
  then show ?thesis by (rule grows.report_gone_keeps)
qed

lemma failed_in_tick:
  assumes "counted others h" "StreamHub_Tick env n (h, w) = (h', w')" "map_of (sh_subscriptions h) i = Some s"
  obtains failed1 failed2 failed3 where
    "map_of (sh_subscriptions h') i = None \<longleftrightarrow> i \<in> set (failed1 @ failed2 @ failed3)"
    "i \<in> set failed1 \<Longrightarrow> dead w (sb_sink s) \<or>
       (\<exists>snap. terminal snap \<and> (sb_sink s, room_event snap n) \<in> set (drop (length (sent w)) (sent w')))"
    "i \<in> set failed2 \<longleftrightarrow> dead w (sb_sink s) \<and> \<not> should_backfill s \<and> \<not> sb_ready_sent s"
    "i \<in> set failed3 \<longleftrightarrow> dead w (sb_sink s) \<and> (should_backfill s \<or> sb_ready_sent s) \<and> heartbeat_due h n (stamp_created n s)"
  using assms(2)
proof (rule tick_parts)
  fix plan :: tick_plan and h0 :: StreamHub and res h1 w1 failed1 h2 w2 failed2 w3 failed3 w4 gone w5
  let ?s = "stamp_created n s" let ?xs = "map snd (sh_subscriptions h0)"
  let ?ts = "map (\<lambda>s. (sb_id s, sb_sink s)) (tp_heartbeat plan)"
  assume c: "collect_tick n h = (plan, h0)"
    and b: "fold (backfill_one env) (tp_backfill plan) (no_results, h0, w) = (res, h1, w1)"
    and p: "fold (poll_room env n (tp_live plan)) (rooms_of (tp_live plan)) (tr_failed res, h1, w1) = (failed1, h2, w2)"
    and r: "write_ready env n (tp_ready plan) w2 = (failed2, w3)"
    and hb: "write_all env kHeartbeat ?ts w3 = (failed3, w4)"
    and g: "remove_failed env (failed1 @ failed2 @ failed3) (commit_tick n plan res h2, w4) = (gone, h', w5)"
    and w': "w' = report_gone env gone w5" and io: "io_rel h0 h1" "io_rel h1 h2"
  note parts = collect_parts [OF c] and dist = collected(1) [OF assms(1) c]
  from collected(2) [OF assms(1) c assms(3)]
  have s: "?s \<in> set ?xs" "sb_id ?s = i" "map_of (sh_subscriptions h0) i = Some ?s" by blast+
  have u: "sub = ?s" if "sub \<in> set ?xs" "sb_id sub = i" for sub
    using same_id [OF dist that(1) s(1)] that(2) s(2) by simp
  have d: "dead w1 = dead w" "dead w2 = dead w" "dead w3 = dead w"
    using alive.backfills_keep [OF b] alive.polls_keep [OF p] alive.write_ready_keeps [OF r] by simp_all
  have inv: "counted others (commit_tick n plan res h2)"
    by (intro counted_commit counted_io [OF io(2)] counted_io [OF io(1)] counted_collect [OF c assms(1)])
  have look: "map_of (sh_subscriptions h2) i = Some ?s" using s(3) io by (simp add: io_rel_sel)
  have removed: "map_of (sh_subscriptions h') i = None \<longleftrightarrow> i \<in> set (failed1 @ failed2 @ failed3)"
    using counted_remove [OF g inv] commit_None [of n plan res h2 i] look by auto
  obtain a b' c' where new: "sent w1 = sent w @ a" "sent w2 = sent w1 @ b'" "sent w' = sent w2 @ c'"
    using after_polls [OF r hb g] w' grows.backfills_keep [OF b, of "sent w"] grows.polls_keep [OF p, of "sent w1"] that
    by auto
  show thesis
  proof (rule that [OF removed])
    assume "i \<in> set failed1"
    from polls_failed [OF p this, unfolded snd_conv d]
    consider "i \<in> set (tr_failed res)" | sub where "sub \<in> set (tp_live plan)" "sb_id sub = i"
      "dead w (sb_sink sub) \<or> (\<exists>snap. terminal snap \<and> (sb_sink sub, room_event snap n) \<in> set (drop (length (sent w1)) (sent w2)))"
      by blast
    then show "dead w (sb_sink s) \<or>
       (\<exists>snap. terminal snap \<and> (sb_sink s, room_event snap n) \<in> set (drop (length (sent w)) (sent w')))"
    proof cases
      case 1
      obtain t where t: "t \<in> set (tp_backfill plan)" "sb_id t = i" "dead w (sb_sink t)"
        using backfill_failed_ids [OF b 1] by (auto simp: no_results_def)
      then have "t = ?s" using u parts(2) by auto
      then show ?thesis using t(3) by simp
    next
      case 2
      have "sub = ?s" using u 2(1,2) parts(3) by auto
      moreover have "set (drop (length (sent w1)) (sent w2)) \<subseteq> set (drop (length (sent w)) (sent w'))"
        using new by auto
      ultimately show ?thesis using 2(3) by auto
    qed
  next
    show "i \<in> set failed2 \<longleftrightarrow> dead w (sb_sink s) \<and> \<not> should_backfill s \<and> \<not> sb_ready_sent s"
    proof -
      have "failed2 = map sb_id (filter (\<lambda>s. dead w (sb_sink s) \<and> \<not> should_backfill s \<and> \<not> sb_ready_sent s) ?xs)"
        using write_ready_spec [OF r] parts(3,4) d by (simp add: conj_ac)
      then show ?thesis using filter_id_iff [OF dist s(1)] s(2) by simp
    qed
    show "i \<in> set failed3 \<longleftrightarrow> dead w (sb_sink s) \<and> (should_backfill s \<or> sb_ready_sent s) \<and> heartbeat_due h n ?s"
    proof -
      have "failed3 = map sb_id (filter (\<lambda>s. dead w (sb_sink s) \<and> (should_backfill s \<or> sb_ready_sent s) \<and> heartbeat_due h n s) ?xs)"
        using write_all_spec [OF hb] parts(5) d by (simp add: filter_map comp_def conj_ac)
      then show ?thesis using filter_id_iff [OF dist s(1)] s(2) by simp
    qed
  qed
qed

end

end
