(* ===== verification/Gateway_World.thy ===== *)
theory Gateway_World
  imports Stream_Hub_Sinks Room_Client
begin

text \<open>
  The hub among its real collaborators: the room client of \<^verbatim>\<open>brpc_room_client.cpp\<close> over the room registry,
  and the sinks of \<^verbatim>\<open>gateway_service.cpp\<close>, which write into a response that stays open. The world
  records what was written; \<open>wd_net\<close> says what becomes of the next calls to the room service, \<open>wd_dead\<close>
  which connections are broken. Both interfaces of the hub are interpreted on it.
\<close>

section \<open>The world\<close>

record 'db gw_world =
  wd_rooms :: "RoomManager option"
  wd_db :: 'db
  wd_counters :: RpcCounters
  wd_net :: "delivery list"
  wd_room_now :: ms
  wd_now :: ms
  wd_sent :: "(nat \<times> string) list"
  wd_closed :: "nat list"
  wd_dead :: "nat list"

definition next_delivery :: "('db, 'z) gw_world_scheme \<Rightarrow> delivery" where
  "next_delivery w = (case wd_net w of [] \<Rightarrow> Delivered | d # _ \<Rightarrow> d)"

definition on_rooms ::
  "(delivery \<Rightarrow> RoomManager option \<times> RpcCounters \<Rightarrow> 'a \<times> RoomManager option \<times> RpcCounters) \<Rightarrow>
   ('db, 'z) gw_world_scheme \<Rightarrow> 'a \<times> ('db, 'z) gw_world_scheme" where
  "on_rooms call w =
     (case call (next_delivery w) (wd_rooms w, wd_counters w) of
        (a, m, c) \<Rightarrow> (a, w\<lparr>wd_net := tl (wd_net w), wd_rooms := m, wd_counters := c\<rparr>))"

definition on_results ::
  "(delivery \<Rightarrow> (RoomManager option \<times> 'db) \<times> RpcCounters \<Rightarrow> 'a \<times> (RoomManager option \<times> 'db) \<times> RpcCounters) \<Rightarrow>
   ('db, 'z) gw_world_scheme \<Rightarrow> 'a \<times> ('db, 'z) gw_world_scheme" where
  "on_results call w =
     (case call (next_delivery w) ((wd_rooms w, wd_db w), wd_counters w) of
        (a, (m, db), c) \<Rightarrow> (a, w\<lparr>wd_net := tl (wd_net w), wd_rooms := m, wd_db := db, wd_counters := c\<rparr>))"

definition gateway_room :: "'db MatchResultWriter option \<Rightarrow> ('db, 'z) gw_world_scheme RoomClient" where
  "gateway_room writer =
     \<lparr>rcl_Join = \<lambda>r p q w. on_rooms (\<lambda>d. RoomClient_Join d r p q (wd_room_now w)) w,
      rcl_SubmitAttack = \<lambda>r p q w. on_rooms (\<lambda>d. RoomClient_SubmitAttack d r p q) w,
      rcl_GetState = \<lambda>r q w. on_rooms (\<lambda>d. RoomClient_GetState d r q (wd_room_now w)) w,
      rcl_GetResult = \<lambda>m q w. on_results (\<lambda>d. RoomClient_GetResult d writer m q (wd_room_now w)) w,
      rcl_GetSnapshotsSince = \<lambda>r f q w. on_rooms (\<lambda>d. RoomClient_GetSnapshotsSince d r f q (wd_room_now w)) w,
      rcl_SetPresence = \<lambda>r p b q w. on_rooms (\<lambda>d. RoomClient_SetPresence d r p b q (wd_room_now w)) w\<rparr>"

text \<open>\<^verbatim>\<open>ProgressiveAttachmentSink\<close>: a write fails when the sink was closed or its connection is broken.\<close>

definition sink_gone :: "('db, 'z) gw_world_scheme \<Rightarrow> nat \<Rightarrow> bool" where
  "sink_gone w k \<longleftrightarrow> k \<in> set (wd_closed w) \<or> k \<in> set (wd_dead w)"

definition Sink_Write :: "nat \<Rightarrow> string \<Rightarrow> ('db, 'z) gw_world_scheme \<Rightarrow> bool \<times> ('db, 'z) gw_world_scheme" where
  "Sink_Write k data w =
     (if sink_gone w k then (False, w) else (True, w\<lparr>wd_sent := wd_sent w @ [(k, data)]\<rparr>))"

definition Sink_Close :: "nat \<Rightarrow> ('db, 'z) gw_world_scheme \<Rightarrow> ('db, 'z) gw_world_scheme" where
  "Sink_Close k w = w\<lparr>wd_closed := k # wd_closed w\<rparr>"

definition gateway_env :: "'db MatchResultWriter option \<Rightarrow> ('db, 'z) gw_world_scheme hub_env" where
  "gateway_env writer =
     \<lparr>he_room = Some (gateway_room writer), he_Write = Sink_Write, he_Close = Sink_Close, he_SystemNowMs = wd_now\<rparr>"

section \<open>The sinks keep their contract\<close>

lemma on_rooms_frame [simp]:
  "wd_sent (snd (on_rooms call w)) = wd_sent w" "wd_dead (snd (on_rooms call w)) = wd_dead w"
  "wd_closed (snd (on_rooms call w)) = wd_closed w" "wd_room_now (snd (on_rooms call w)) = wd_room_now w"
  "wd_now (snd (on_rooms call w)) = wd_now w" "wd_net (snd (on_rooms call w)) = tl (wd_net w)"
  "wd_rooms (snd (on_rooms call w)) = fst (snd (call (next_delivery w) (wd_rooms w, wd_counters w)))"
  "fst (on_rooms call w) = fst (call (next_delivery w) (wd_rooms w, wd_counters w))"
  by (simp_all add: on_rooms_def case_prod_beta)

lemma sink_gone_frame [simp]:
  "sink_gone (w\<lparr>wd_net := ds, wd_rooms := m, wd_counters := c\<rparr>) = sink_gone w"
  "sink_gone (snd (on_rooms call w)) = sink_gone w"
  by (simp_all add: fun_eq_iff sink_gone_def)

lemmas gateway_env_defs = gateway_env_def gateway_room_def Sink_Write_def Sink_Close_def

interpretation gw: event_sinks "gateway_env writer :: ('db, 'z) gw_world_scheme hub_env" wd_sent
  sink_gone for writer
  by unfold_locales (auto simp: gateway_env_defs sink_gone_def on_rooms_def case_prod_beta)

section \<open>The registry behind the calls\<close>

text \<open>What a call does to the registry, whatever the transport loses.\<close>

lemma registry_after:
  "fst (snd (RoomClient_GetState d r q t (mo, c))) \<in> {mo, map_option (ReapExpiredLocked t) mo}"
  "fst (snd (RoomClient_GetSnapshotsSince d r f q t (mo, c))) \<in> {mo, map_option (ReapExpiredLocked t) mo}"
  "fst (snd (RoomClient_SetPresence d r p b q t (mo, c))) \<in> {mo, map_option (\<lambda>m. snd (RoomManager_SetPresence r p b t m)) mo}"
  by (cases mo; cases d;
      auto simp: RoomClient_GetState_def RoomClient_GetSnapshotsSince_def RoomClient_SetPresence_def rpc_def
        apfst_def map_prod_def RoomService_GetRoomState_def RoomService_GetRoomSnapshotsSince_def
        RoomService_SetPlayerPresence_def RoomManager_GetState_def RoomManager_GetSnapshotsSince_def Let_def
        split: option.splits prod.splits PresenceOutcome.splits)+

text \<open>A property of the registry that reaping and presence reports keep is kept by the whole hub.\<close>

definition on_registry :: "(RoomManager \<Rightarrow> bool) \<Rightarrow> ('db, 'z) gw_world_scheme \<Rightarrow> bool" where
  "on_registry P w \<longleftrightarrow> (\<forall>m. wd_rooms w = Some m \<longrightarrow> P m)"

lemma on_registry_world:
  assumes "\<And>t m. P m \<Longrightarrow> P (ReapExpiredLocked t m)"
    and "\<And>r p b t m. P m \<Longrightarrow> P (snd (RoomManager_SetPresence r p b t m))"
  shows "hub_world (gateway_env writer :: ('db, 'z) gw_world_scheme hub_env) (on_registry P)"
proof
  fix rc :: "('db, 'z) gw_world_scheme RoomClient" and r q f and w :: "('db, 'z) gw_world_scheme"
    and b :: bool and p
  assume rc: "he_room (gateway_env writer) = Some rc" and w: "on_registry P w"
  let ?d = "next_delivery w" and ?t = "wd_room_now w" and ?mo = "wd_rooms w" and ?c = "wd_counters w"
  show "on_registry P (snd (rcl_GetState rc r q w))"
    using rc w registry_after(1) [of ?d r q ?t ?mo ?c] assms(1) by (auto simp: on_registry_def gateway_env_defs)
  show "on_registry P (snd (rcl_GetSnapshotsSince rc r f q w))"
    using rc w registry_after(2) [of ?d r f q ?t ?mo ?c] assms(1) by (auto simp: on_registry_def gateway_env_defs)
  show "on_registry P (snd (rcl_SetPresence rc r p b q w))"
    using rc w registry_after(3) [of ?d r p b q ?t ?mo ?c] assms(2) by (auto simp: on_registry_def gateway_env_defs)
qed (simp_all add: on_registry_def gateway_env_defs split: if_splits)

lemma SetPresence_room:
  "map_of (rm_rooms m) r = Some room \<Longrightarrow> snd (RoomManager_SetPresence r p b t m) =
     m\<lparr>rm_rooms := AList.update r (snd (BattleRoom_SetPresence p b t room)) (rm_rooms m)\<rparr>"
  "map_of (rm_rooms m) r = None \<Longrightarrow> snd (RoomManager_SetPresence r p b t m) = m"
  by (simp_all add: RoomManager_SetPresence_def case_prod_beta)

lemma manager_inv_SetPresence [rgb_inv]: "manager_inv m \<Longrightarrow> manager_inv (snd (RoomManager_SetPresence r p b t m))"
proof (cases "map_of (rm_rooms m) r")
  case (Some room)
  assume m: "manager_inv m"
  then have "rooms_rel quiet (rm_rooms m) (AList.update r (snd (BattleRoom_SetPresence p b t room)) (rm_rooms m))"
    using Some by (intro rooms_rel_update) (auto simp: manager_inv_def index_inv_def quiet_ops)
  then show ?thesis using manager_inv_rooms [OF m] by (simp add: SetPresence_room(1) [OF Some])
qed (simp add: SetPresence_room)

interpretation registry: hub_world "gateway_env writer" "on_registry manager_inv" for writer
  by (rule on_registry_world) (simp_all add: rgb_inv)

text \<open>A room that is gone stays gone: only the match service creates rooms.\<close>

definition no_room :: "string \<Rightarrow> RoomManager \<Rightarrow> bool" where
  "no_room rid m \<longleftrightarrow> manager_inv m \<and> map_of (rm_rooms m) rid = None"

interpretation room_gone: hub_world "gateway_env writer" "on_registry (no_room rid)" for writer rid
proof (rule on_registry_world)
  fix t m
  assume m: "no_room rid m"
  then show "no_room rid (ReapExpiredLocked t m)"
    by (simp add: no_room_def rgb_inv Reap_rooms manager_inv_def [of m])
next
  fix r p b t m
  assume m: "no_room rid m"
  show "no_room rid (snd (RoomManager_SetPresence r p b t m))"
  proof (cases "map_of (rm_rooms m) r")
    case (Some room)
    then show ?thesis
      using m manager_inv_SetPresence [of m r p b t] by (auto simp: no_room_def SetPresence_room(1) [OF Some] update_conv')
  qed (use m in \<open>simp add: SetPresence_room\<close>)
qed

section \<open>What the calls answer\<close>

lemma GetState_delivered:
  "fst (RoomClient_GetState Delivered rid q t (Some m, c)) =
     (case map_of (rm_rooms (ReapExpiredLocked t m)) rid of
        None \<Rightarrow> (CallNotFound, Some (ToSnapshot default_proto_snapshot))
      | Some r \<Rightarrow> (CallOk, Some (view (Snapshot r))))"
  by (simp add: RoomClient_GetState_def client_defs RoomService_GetRoomState_def RoomManager_GetState_def
      ToSnapshot_FillSnapshot split: option.splits)

lemma GetSnapshotsSince_delivered:
  assumes "index_inv m" "map_of (rm_rooms m) rid = Some r" "\<not> IsExpired t r"
  shows "fst (RoomClient_GetSnapshotsSince Delivered rid f q t (Some m, c)) =
    (CallOk, Some \<lparr>gr_status = (if f > br_frame r then WindowAhead
         else if f + 1 < fst (SnapshotFrameRange r) then WindowIncomplete else WindowReady),
       gr_snapshots = map view (SnapshotsAfter f r),
       gr_oldest_frame = fst (SnapshotFrameRange r), gr_latest_frame = br_frame r\<rparr>)"
proof -
  have "map_of (rm_rooms (ReapExpiredLocked t m)) rid = Some r" using assms by (simp add: Reap_rooms_Some)
  then show ?thesis
    by (simp add: RoomClient_GetSnapshotsSince_def client_defs RoomService_GetRoomSnapshotsSince_def
        RoomManager_GetSnapshotsSince_def ToSnapshot_FillSnapshot comp_def)
qed

text \<open>No room, no answer, whatever becomes of the call.\<close>

lemma unreachable:
  assumes "\<And>m. mo = Some m \<Longrightarrow> no_room rid m"
  shows "ok_output (fst (RoomClient_GetState d rid q t (mo, c))) = None"
    "ok_output (fst (RoomClient_GetSnapshotsSince d rid f q t (mo, c))) = None"
proof -
  have g: "map_of (rm_rooms (ReapExpiredLocked t m)) rid = None" if "mo = Some m" for m
    using assms [OF that] by (simp add: no_room_def manager_inv_def Reap_rooms)
  show "ok_output (fst (RoomClient_GetState d rid q t (mo, c))) = None"
    using g by (cases mo; cases d) (simp_all add: RoomClient_GetState_def client_defs
      RoomService_GetRoomState_def RoomManager_GetState_def ok_output_def)
  show "ok_output (fst (RoomClient_GetSnapshotsSince d rid f q t (mo, c))) = None"
    using g by (cases mo; cases d) (simp_all add: RoomClient_GetSnapshotsSince_def client_defs
      RoomService_GetRoomSnapshotsSince_def RoomManager_GetSnapshotsSince_def ok_output_def)
qed

end
