(* ===== verification/Stream_Hub_Props.thy ===== *)
theory Stream_Hub_Props
  imports Gateway_World
begin

text \<open>
  The properties of the push hub: what a reconnecting client gets, when a stream is removed, how often
  a room is polled, how the counters relate, and three ways in which a stream goes wrong.
\<close>

section \<open>Replay\<close>

definition reset_text :: "string \<Rightarrow> BattleRoom \<Rightarrow> ms \<Rightarrow> string" where
  "reset_text reason r now_ms =
     SseEvent ''stream.reset'' (StreamResetJson reason (view (Snapshot r)) now_ms) (Some (br_frame r))"

lemma gateway_env_room [simp]: "he_room (gateway_env writer) = Some (gateway_room writer)"
  by (simp add: gateway_env_def)

lemma gateway_env_clock [simp]: "he_SystemNowMs (gateway_env writer) w = wd_now w"
  by (simp add: gateway_env_def)

lemma gw_frame_view [simp]: "gw_frame (view s) = rs_frame s"
  by (simp add: view_def)

lemma send_reset_alive:
  assumes "\<not> sink_gone w (sb_sink t)"
  shows "wd_sent (snd (snd (send_reset (gateway_env writer) t reason x outc (h, w)))) =
      wd_sent w @ [(sb_sink t, SseEvent ''stream.reset'' (StreamResetJson reason x (wd_now w)) (Some (gw_frame x)))]"
    "bo_attempted (fst (send_reset (gateway_env writer) t reason x outc (h, w))) = bo_attempted outc"
  using assms by (simp_all add: send_reset_def gateway_env_defs)

lemma Snapshot_frame [simp]: "rs_frame (Snapshot r) = br_frame r"
  by (simp add: Snapshot_def)

text \<open>A gateway with the room of two players, for the examples: alice's stream is number 1, on sink 7,
  and asks for what comes after frame 0; \<open>plain\<close> asks for nothing.\<close>

definition demo_world :: "RoomManager \<Rightarrow> nat list \<Rightarrow> unit gw_world" where
  "demo_world m broken = \<lparr>wd_rooms = Some m, wd_db = (), wd_counters = \<lparr>rpc_ok = 0, rpc_failed = 0\<rparr>, wd_net = [],
     wd_room_now = 900, wd_now = 900, wd_sent = [], wd_closed = [], wd_dead = broken\<rparr>"

definition reconnecting :: SubscribeOptions where
  "reconnecting = \<lparr>so_last_event_id = Some 0, so_last_event_id_malformed = False, so_request_id = []\<rparr>"

definition plain :: SubscribeOptions where
  "plain = \<lparr>so_last_event_id = None, so_last_event_id_malformed = False, so_request_id = []\<rparr>"

definition demo_stream :: "SubscribeOptions \<Rightarrow> unit gw_world \<Rightarrow> StreamHub \<times> unit gw_world" where
  "demo_stream opts w = snd (Subscribe (gateway_env None) ''alice'' ''r-1'' (Some 7) opts (StreamHub_new 15000, w))"

definition demo_sub :: "SubscribeOptions \<Rightarrow> Subscription" where
  "demo_sub opts = \<lparr>sb_id = 1, sb_player_id = ''alice'', sb_room_id = ''r-1'', sb_request_id = so_request_id opts,
     sb_sink = 7, sb_last_heartbeat_ms = 0, sb_created_ms = 0, sb_ready_sent = False, sb_backfill_pending = True,
     sb_backfill_from = so_last_event_id opts, sb_backfill_malformed = so_last_event_id_malformed opts,
     sb_backfill_done = False, sb_reset_sent = False, sb_reset_reason = [], sb_backfilled_frames = 0\<rparr>"

lemma demo_stream:
  "sh_subscriptions (fst (demo_stream opts w)) = [(1, demo_sub opts)]"
  "sh_heartbeat_interval_ms (fst (demo_stream opts w)) = 15000"
  "counted 0 (fst (demo_stream opts w))"
  "snd (demo_stream opts w) = ReportPresence (gateway_env None) ''r-1'' ''alice'' True (so_request_id opts) w"
  by (simp_all add: demo_stream_def Subscribe_def StreamHub_new_def Let_def emplace_def demo_sub_def counted_def
      table_inv_def)

lemma SetPresence_delivered:
  "fst (snd (RoomClient_SetPresence Delivered r p b q t (Some m, c))) = Some (snd (RoomManager_SetPresence r p b t m))"
  by (auto simp: RoomClient_SetPresence_def rpc_def apfst_def map_prod_def RoomService_SetPlayerPresence_def
      split: option.splits prod.splits)

abbreviation demo_room :: BattleRoom where
  "demo_room \<equiv> BattleRoom_new ''r-1'' ''m-1'' [''alice'', ''bob''] 800"

lemma ReportPresence_frame [simp]:
  "wd_dead (ReportPresence (gateway_env writer) r p b q w) = wd_dead w"
  "wd_closed (ReportPresence (gateway_env writer) r p b q w) = wd_closed w"
  "wd_sent (ReportPresence (gateway_env writer) r p b q w) = wd_sent w"
  "wd_net (ReportPresence (gateway_env writer) r p b q w) = tl (wd_net w)"
  by (simp_all add: ReportPresence_def gateway_env_defs)

lemma demo_world_simps [simp]:
  "wd_rooms (demo_world m broken) = Some m" "wd_dead (demo_world m broken) = broken"
  "wd_sent (demo_world m broken) = []" "wd_closed (demo_world m broken) = []" "wd_net (demo_world m broken) = []" "wd_room_now (demo_world m broken) = 900"
  "wd_now (demo_world m broken) = 900"
  by (simp_all add: demo_world_def)

lemma demo_room: "map_of (rm_rooms demo_manager) ''r-1'' = Some demo_room" "\<not> IsExpired 900 demo_room"
  "br_frame demo_room = 0" "fst (SnapshotFrameRange demo_room) = 0"
  by (simp_all add: demo_fields IsExpired_def) code_simp+

text \<open>A room that answers: it is in the registry, not expired, and no call is lost.\<close>

definition room_up :: "string \<Rightarrow> BattleRoom \<Rightarrow> ('db, 'z) gw_world_scheme \<Rightarrow> bool" where
  "room_up rid r w \<longleftrightarrow> wd_net w = [] \<and> \<not> IsExpired (wd_room_now w) r \<and>
     (\<exists>m. wd_rooms w = Some m \<and> manager_inv m \<and> map_of (rm_rooms m) rid = Some r)"

definition same_outputs :: "('db, 'z) gw_world_scheme \<Rightarrow> ('db, 'z) gw_world_scheme \<Rightarrow> bool" where
  "same_outputs w w' \<longleftrightarrow> wd_sent w' = wd_sent w \<and> sink_gone w' = sink_gone w \<and> wd_now w' = wd_now w"

lemma registry_after_delivered:
  "fst (snd (RoomClient_GetState Delivered r q t (Some m, c))) = Some (ReapExpiredLocked t m)"
  "fst (snd (RoomClient_GetSnapshotsSince Delivered r f q t (Some m, c))) = Some (ReapExpiredLocked t m)"
  by (auto simp: RoomClient_GetState_def RoomClient_GetSnapshotsSince_def rpc_def apfst_def map_prod_def
      RoomService_GetRoomState_def RoomService_GetRoomSnapshotsSince_def RoomManager_GetState_def
      RoomManager_GetSnapshotsSince_def Let_def split: option.splits prod.splits)

lemma room_up_reap:
  "manager_inv m \<Longrightarrow> map_of (rm_rooms m) rid = Some r \<Longrightarrow> \<not> IsExpired t r \<Longrightarrow>
   manager_inv (ReapExpiredLocked t m) \<and> map_of (rm_rooms (ReapExpiredLocked t m)) rid = Some r"
  by (simp add: rgb_inv Reap_rooms_Some manager_inv_def [of m])

lemma GetState_up:
  assumes "room_up rid r w"
  obtains w1 where "rcl_GetState (gateway_room writer) rid q w = ((CallOk, Some (view (Snapshot r))), w1)"
    "room_up rid r w1" "same_outputs w w1"
proof -
  obtain m where m: "wd_rooms w = Some m" "manager_inv m" "map_of (rm_rooms m) rid = Some r"
    and w: "wd_net w = []" "\<not> IsExpired (wd_room_now w) r" using assms by (auto simp: room_up_def)
  let ?res = "on_rooms (\<lambda>d. RoomClient_GetState d rid q (wd_room_now w)) w"
  note k = room_up_reap [OF m(2,3) w(2)]
  have "fst ?res = (CallOk, Some (view (Snapshot r)))" "wd_rooms (snd ?res) = Some (ReapExpiredLocked (wd_room_now w) m)"
    using m(1) w(1) k by (simp_all add: next_delivery_def GetState_delivered registry_after_delivered)
  then show thesis
    using that [of "snd ?res"] k w by (cases ?res) (simp add: gateway_room_def room_up_def same_outputs_def on_rooms_def case_prod_beta)
qed

lemma GetSnapshotsSince_up:
  assumes "room_up rid r w"
  obtains w1 where "rcl_GetSnapshotsSince (gateway_room writer) rid f q w = ((CallOk, Some
       \<lparr>gr_status = (if f > br_frame r then WindowAhead
         else if f + 1 < fst (SnapshotFrameRange r) then WindowIncomplete else WindowReady),
       gr_snapshots = map view (SnapshotsAfter f r),
       gr_oldest_frame = fst (SnapshotFrameRange r), gr_latest_frame = br_frame r\<rparr>), w1)"
    "room_up rid r w1" "same_outputs w w1"
proof -
  obtain m where m: "wd_rooms w = Some m" "manager_inv m" "map_of (rm_rooms m) rid = Some r"
    and w: "wd_net w = []" "\<not> IsExpired (wd_room_now w) r" using assms by (auto simp: room_up_def)
  let ?res = "on_rooms (\<lambda>d. RoomClient_GetSnapshotsSince d rid f q (wd_room_now w)) w"
  note k = room_up_reap [OF m(2,3) w(2)]
  have i: "index_inv m" using m(2) by (simp add: manager_inv_def)
  have "wd_rooms (snd ?res) = Some (ReapExpiredLocked (wd_room_now w) m)"
    using m(1) w(1) by (simp add: next_delivery_def registry_after_delivered)
  moreover note GetSnapshotsSince_delivered [OF i m(3) w(2), of f q "wd_counters w"]
  ultimately show thesis
    using that [of "snd ?res"] k w m(1)
    by (cases ?res) (simp add: gateway_room_def room_up_def same_outputs_def next_delivery_def on_rooms_def case_prod_beta)
qed

lemma upto_empty_iff: "[i..j] = [] \<longleftrightarrow> j < (i :: int)"
  by (simp add: upto.simps)

text \<open>C20: a client that reconnects gets exactly what it missed. With the last frame \<open>f\<close> it has seen, it
  is sent the events of the frames \<open>f + 1\<close> up to the current one, each once and in order; when that
  is not possible because the frames are no longer buffered, because it has all of them or because it
  claims one that does not exist, it is sent one reset with the matching reason and the current state.\<close>

theorem reconnect_gets_what_was_missed:
  assumes "wd_rooms w = Some m" "manager_inv m" "wd_net w = []" "\<not> sink_gone w (sb_sink t)"
    and "map_of (rm_rooms m) (sb_room_id t) = Some r" "\<not> IsExpired (wd_room_now w) r"
    and "sb_backfill_from t = Some f" "\<not> sb_backfill_malformed t"
    and "BackfillSubscription (gateway_env writer) t (h, w) = (outc, h', w')"
  shows "wd_sent w' = wd_sent w @
      (if f > br_frame r then [(sb_sink t, reset_text ''id_ahead'' r (wd_now w))]
       else if f + 1 < fst (SnapshotFrameRange r) then [(sb_sink t, reset_text ''id_out_of_window'' r (wd_now w))]
       else if f = br_frame r then [(sb_sink t, reset_text ''id_current'' r (wd_now w))]
       else map (\<lambda>s. (sb_sink t, room_event (view s) (wd_now w))) (SnapshotsAfter f r))
    \<and> (fst (SnapshotFrameRange r) \<le> f + 1 \<longrightarrow> map rs_frame (SnapshotsAfter f r) = [f + 1 .. br_frame r])
    \<and> (bo_attempted outc \<longleftrightarrow> fst (SnapshotFrameRange r) \<le> f + 1 \<and> f < br_frame r)"
proof -
  let ?q = "PollRequestId (sb_request_id t) (sb_room_id t)"
  have up: "room_up (sb_room_id t) r w" using assms(1,2,3,5,6) by (auto simp: room_up_def)
  have "room_inv r" using assms(2,5) by (auto simp: manager_inv_def rooms_inv_def)
  note frames = SnapshotsAfter_frames [OF this, of f]
  then have empty: "SnapshotsAfter f r = [] \<longleftrightarrow> br_frame r < max (f + 1) (fst (SnapshotFrameRange r))"
    by (metis map_is_Nil_conv upto_empty_iff)
  obtain w1 where s: "rcl_GetSnapshotsSince (gateway_room writer) (sb_room_id t) f ?q w = ((CallOk, Some
       \<lparr>gr_status = (if f > br_frame r then WindowAhead
         else if f + 1 < fst (SnapshotFrameRange r) then WindowIncomplete else WindowReady),
       gr_snapshots = map view (SnapshotsAfter f r),
       gr_oldest_frame = fst (SnapshotFrameRange r), gr_latest_frame = br_frame r\<rparr>), w1)"
    and w1: "room_up (sb_room_id t) r w1" "same_outputs w w1" by (rule GetSnapshotsSince_up [OF up])
  obtain w2 where g: "rcl_GetState (gateway_room writer) (sb_room_id t) ?q w1 = ((CallOk, Some (view (Snapshot r))), w2)"
    and w2: "same_outputs w1 w2" by (rule GetState_up [OF w1(1)])
  have alive: "\<not> sink_gone w2 (sb_sink t)" "\<not> sink_gone w1 (sb_sink t)"
    and same: "wd_sent w2 = wd_sent w" "wd_now w2 = wd_now w" "wd_sent w1 = wd_sent w" "wd_now w1 = wd_now w"
    using assms(4) w1(2) w2 by (simp_all add: same_outputs_def)
  obtain ok h2 w3 where p: "replay (gateway_env writer) t (map view (SnapshotsAfter f r)) (h, w1) = (ok, h2, w3)"
    by (metis surj_pair)
  note b = assms(9) [unfolded BackfillSubscription_def] s g gateway_env_room assms(7,8)
  note defs = Let_def ok_output_def window_reset_reason_def
  have outcome: "wd_sent w' = wd_sent w @ [(sb_sink t, reset_text reason r (wd_now w))] \<and> \<not> bo_attempted outc"
    if "send_reset (gateway_env writer) t reason (view (Snapshot r)) nothing_done (h, w2) = (outc, h', w')" for reason
    using send_reset_alive [OF alive(1), of writer reason "view (Snapshot r)" nothing_done h] that same
    by (simp add: reset_text_def nothing_done_def)
  consider (ahead) "f > br_frame r" | (gap) "f \<le> br_frame r" "f + 1 < fst (SnapshotFrameRange r)"
    | (current) "f = br_frame r" "fst (SnapshotFrameRange r) \<le> f + 1" | (missed) "f < br_frame r" "fst (SnapshotFrameRange r) \<le> f + 1"
    by linarith
  then show ?thesis
  proof cases
    case ahead
    then show ?thesis using b outcome frames by (auto simp: defs)
  next
    case gap
    then show ?thesis using b outcome frames by (auto simp: defs)
  next
    case current
    then show ?thesis using b outcome frames empty by (auto simp: defs)
  next
    case missed
    then have "SnapshotsAfter f r \<noteq> []" using empty by simp
    then show ?thesis
      using missed b p gw.replay_spec [OF p] alive(2) same frames by (auto simp: defs nothing_done_def comp_def)
  qed
qed

theorem reconnect_gets_what_was_missed_witness:
  "wd_sent (snd (snd (BackfillSubscription (gateway_env None) (demo_sub (reconnecting\<lparr>so_last_event_id := Some (- 1)\<rparr>))
      (StreamHub_new 15000, demo_world demo_manager [])))) =
     map (\<lambda>s. (7, room_event (view s) 900)) (SnapshotsAfter (- 1) demo_room)
   \<and> map rs_frame (SnapshotsAfter (- 1) demo_room) = [0]"
proof -
  let ?t = "demo_sub (reconnecting\<lparr>so_last_event_id := Some (- 1)\<rparr>)"
  obtain outc h' w' where b:
    "BackfillSubscription (gateway_env None) ?t (StreamHub_new 15000, demo_world demo_manager []) = (outc, h', w')"
    by (metis surj_pair)
  show ?thesis
    using reconnect_gets_what_was_missed [OF _ manager_inv_demo _ _ _ _ _ _ b, of demo_room "- 1"] b
    by (simp add: demo_room demo_sub_def reconnecting_def sink_gone_def)
qed

section \<open>Who is removed\<close>

text \<open>A stream that something is written to in this tick even if its room does not change.\<close>

definition written_anyway :: "StreamHub \<Rightarrow> ms \<Rightarrow> Subscription \<Rightarrow> bool" where
  "written_anyway h n s \<longleftrightarrow> (\<not> should_backfill s \<and> \<not> sb_ready_sent s) \<or> heartbeat_due h n (stamp_created n s)"

lemma closed_world: "hub_world (gateway_env writer :: ('db, 'z) gw_world_scheme hub_env) (\<lambda>w. k \<in> set (wd_closed w))"
  by unfold_locales (auto simp: gateway_env_defs on_results_def case_prod_beta)

lemma removed_are_closed:
  "remove_failed (gateway_env writer) is (h, w) = (gone, h', w') \<Longrightarrow> s \<in> set gone \<Longrightarrow> sb_sink s \<in> set (wd_closed w')"
proof (induction "is" arbitrary: h w gone)
  case (Cons i "is")
  show ?case
  proof (cases "map_of (sh_subscriptions h) i")
    case (Some sub)
    let ?h = "h\<lparr>sh_subscriptions := AList.delete i (sh_subscriptions h),
        sh_closed_write_failed_total := Suc (sh_closed_write_failed_total h)\<rparr>"
    obtain gone1 where r: "remove_failed (gateway_env writer) is (?h, he_Close (gateway_env writer) (sb_sink sub) w) = (gone1, h', w')"
      and g: "gone = sub # gone1"
      using Cons.prems(1) Some by (auto split: prod.splits)
    have "sb_sink sub \<in> set (wd_closed (he_Close (gateway_env writer) (sb_sink sub) w))"
      by (simp add: gateway_env_defs)
    then have "sb_sink sub \<in> set (wd_closed w')"
      by (rule hub_world.remove_keeps [OF closed_world r])
    then show ?thesis using Cons.IH [OF r] Cons.prems(2) g by auto
  qed (use Cons in auto)
qed simp

lemma removed_gone:
  assumes "counted others h" "StreamHub_Tick (gateway_env writer) n (h, w) = (h', w')"
    and "map_of (sh_subscriptions h) i = Some s" "map_of (sh_subscriptions h') i = None"
  obtains gone w5 s' where "s' \<in> set gone" "stream_of s' = stream_of s"
    "w' = report_gone (gateway_env writer) gone w5" "sb_sink s \<in> set (wd_closed w5)"
    "\<And>P. hub_world (gateway_env writer) P \<Longrightarrow> P w \<Longrightarrow> P w5"
  using assms(2)
proof (rule tick_parts)
  fix plan :: tick_plan and h0 :: StreamHub and res h1 w1 failed1 h2 w2 failed2 w3 failed3 w4 gone w5
  assume c: "collect_tick n h = (plan, h0)"
    and b: "fold (backfill_one (gateway_env writer)) (tp_backfill plan) (no_results, h0, w) = (res, h1, w1)"
    and p: "fold (poll_room (gateway_env writer) n (tp_live plan)) (rooms_of (tp_live plan)) (tr_failed res, h1, w1) = (failed1, h2, w2)"
    and r: "write_ready (gateway_env writer) n (tp_ready plan) w2 = (failed2, w3)"
    and hb: "write_all (gateway_env writer) kHeartbeat (map (\<lambda>s. (sb_id s, sb_sink s)) (tp_heartbeat plan)) w3 = (failed3, w4)"
    and g: "remove_failed (gateway_env writer) (failed1 @ failed2 @ failed3) (commit_tick n plan res h2, w4) = (gone, h', w5)"
    and w': "w' = report_gone (gateway_env writer) gone w5" and io: "io_rel h0 h1" "io_rel h1 h2"
  let ?h = "commit_tick n plan res h2"
  have inv: "counted others ?h"
    by (intro counted_commit counted_io [OF io(2)] counted_io [OF io(1)] counted_collect [OF c assms(1)])
  have "map_of (sh_subscriptions h2) i = Some (stamp_created n s)"
    using collected(2) [OF assms(1) c assms(3)] io by (simp add: io_rel_sel)
  then obtain s' where s': "map_of (sh_subscriptions ?h) i = Some s'" "stream_of s' = stream_of s"
    by (rule commit_stream [of h2 i _ n plan res]) (simp add: stream_of_def)
  then have gone: "s' \<in> set gone" using counted_remove [OF g inv] assms(4) by (auto split: if_splits)
  have "sb_sink s \<in> set (wd_closed w5)"
    using removed_are_closed [OF g gone] s'(2) by (simp add: stream_of_def)
  moreover have "P w5" if "hub_world (gateway_env writer) P" "P w" for P
    using that hub_calls.backfills_keep [OF hub_world.axioms(1) b] hub_calls.polls_keep [OF hub_world.axioms(1) p]
      hub_calls.write_ready_keeps [OF hub_world.axioms(1) r] hub_calls.write_all_keeps [OF hub_world.axioms(1) hb]
      hub_world.remove_keeps [OF _ g] by (metis snd_conv)
  ultimately show thesis by (rule that [OF gone s'(2) w'])
qed

lemma removed_closes:
  assumes "counted others h" "StreamHub_Tick (gateway_env writer) n (h, w) = (h', w')"
    and "map_of (sh_subscriptions h) i = Some s" "map_of (sh_subscriptions h') i = None"
  shows "sb_sink s \<in> set (wd_closed w')"
proof (rule removed_gone [OF assms])
  fix gone w5 s'
  assume "w' = report_gone (gateway_env writer) gone w5" "sb_sink s \<in> set (wd_closed w5)"
  then show ?thesis using hub_calls.report_gone_keeps [OF hub_world.axioms(1) [OF closed_world]] by simp
qed

text \<open>C21: a stream is removed when its connection is dead or its match is over, and for no other reason.
  A dead connection goes in the first tick that writes to it, a live one only after its final event
  was written in that tick, and the sink of a removed stream is closed.\<close>

theorem streams_are_removed_when_dead_or_over:
  assumes "counted others h" "StreamHub_Tick (gateway_env writer) n (h, w) = (h', w')"
    and "map_of (sh_subscriptions h) i = Some s"
  shows "(map_of (sh_subscriptions h') i = None \<longrightarrow>
       sb_sink s \<in> set (wd_closed w') \<and> (sink_gone w (sb_sink s) \<or>
         (\<exists>snap. terminal snap \<and> (sb_sink s, room_event snap n) \<in> set (drop (length (wd_sent w)) (wd_sent w')))))
    \<and> (sink_gone w (sb_sink s) \<and> written_anyway h n s \<longrightarrow> map_of (sh_subscriptions h') i = None)"
proof (rule gw.failed_in_tick [OF assms])
  fix failed1 failed2 failed3
  assume r: "map_of (sh_subscriptions h') i = None \<longleftrightarrow> i \<in> set (failed1 @ failed2 @ failed3)"
    and f: "i \<in> set failed1 \<Longrightarrow> sink_gone w (sb_sink s) \<or>
       (\<exists>snap. terminal snap \<and> (sb_sink s, room_event snap n) \<in> set (drop (length (wd_sent w)) (wd_sent w')))"
      "i \<in> set failed2 \<longleftrightarrow> sink_gone w (sb_sink s) \<and> \<not> should_backfill s \<and> \<not> sb_ready_sent s"
      "i \<in> set failed3 \<longleftrightarrow> sink_gone w (sb_sink s) \<and> (should_backfill s \<or> sb_ready_sent s) \<and>
         heartbeat_due h n (stamp_created n s)"
  have "map_of (sh_subscriptions h') i = None \<Longrightarrow> sb_sink s \<in> set (wd_closed w')"
    by (rule removed_closes [OF assms])
  then show ?thesis using r f by (auto simp: written_anyway_def)
qed

lemma demo_tick:
  obtains h w h' w' where "demo_stream plain (demo_world demo_manager [7]) = (h, w)"
    "StreamHub_Tick (gateway_env None) 100 (h, w) = (h', w')" "counted 0 h"
    "map_of (sh_subscriptions h) 1 = Some (demo_sub plain)" "sink_gone w = (\<lambda>k. k = 7)" "wd_net w = []"
    "wd_rooms w = Some (snd (RoomManager_SetPresence ''r-1'' ''alice'' True 900 demo_manager))"
    "written_anyway h 100 (demo_sub plain)" "map_of (sh_subscriptions h') 1 = None"
proof -
  obtain h w where d: "demo_stream plain (demo_world demo_manager [7]) = (h, w)" by (metis surj_pair)
  obtain h' w' where t: "StreamHub_Tick (gateway_env None) 100 (h, w) = (h', w')" by (metis surj_pair)
  note f = demo_stream [of plain "demo_world demo_manager [7]", unfolded d fst_conv snd_conv]
  have s: "map_of (sh_subscriptions h) 1 = Some (demo_sub plain)" using f(1) by simp
  have w: "sink_gone w = (\<lambda>k. k = 7)" "wd_net w = []" by (simp_all add: f(4) fun_eq_iff sink_gone_def)
  have r: "wd_rooms w = Some (snd (RoomManager_SetPresence ''r-1'' ''alice'' True 900 demo_manager))"
    by (simp add: f(4) ReportPresence_def gateway_env_defs next_delivery_def SetPresence_delivered)
  have gone: "map_of (sh_subscriptions h') 1 = None"
  proof (rule gw.failed_in_tick [OF f(3) t s])
    fix failed1 failed2 failed3
    assume "map_of (sh_subscriptions h') 1 = None \<longleftrightarrow> 1 \<in> set (failed1 @ failed2 @ failed3)"
      "1 \<in> set failed2 \<longleftrightarrow> sink_gone w (sb_sink (demo_sub plain)) \<and> \<not> should_backfill (demo_sub plain) \<and>
         \<not> sb_ready_sent (demo_sub plain)"
    then show ?thesis by (simp add: w demo_sub_def plain_def should_backfill_def)
  qed
  have "written_anyway h 100 (demo_sub plain)" by (simp add: written_anyway_def demo_sub_def plain_def should_backfill_def)
  then show thesis using that d t f(3) s w r gone by blast
qed

theorem streams_are_removed_when_dead_or_over_witness:
  "\<exists>h' w'. StreamHub_Tick (gateway_env None) 100 (demo_stream plain (demo_world demo_manager [7])) = (h', w') \<and>
     map_of (sh_subscriptions h') 1 = None \<and> 7 \<in> set (wd_closed w')"
proof (rule demo_tick)
  fix h w h' w'
  assume d: "demo_stream plain (demo_world demo_manager [7]) = (h, w)" "sink_gone w = (\<lambda>k. k = 7)"
    "written_anyway h 100 (demo_sub plain)"
    and t: "StreamHub_Tick (gateway_env None) 100 (h, w) = (h', w')" "counted 0 h"
      "map_of (sh_subscriptions h) 1 = Some (demo_sub plain)"
  have "sb_sink (demo_sub plain) = 7" by (simp add: demo_sub_def)
  then show ?thesis
    using streams_are_removed_when_dead_or_over [OF t(2,1,3)] d t(1) by auto
qed

section \<open>Streams that go wrong\<close>

lemma unreachable_replay:
  assumes "on_registry (no_room (sb_room_id t)) w" "BackfillSubscription (gateway_env writer) t (h, w) = (outc, s')"
  shows "outc = nothing_done"
proof -
  have g: "ok_output (fst (on_rooms (\<lambda>d. RoomClient_GetState d (sb_room_id t) q (wd_room_now w)) w)) = None"
    "ok_output (fst (on_rooms (\<lambda>d. RoomClient_GetSnapshotsSince d (sb_room_id t) f q (wd_room_now w)) w)) = None"
    for q f
    using assms(1) by (auto simp: on_registry_def intro!: unreachable)
  show ?thesis
    using assms(2) g
    by (auto simp: BackfillSubscription_def Let_def gateway_room_def case_prod_beta split: if_splits option.splits)
qed

lemma unreachable_tick:
  assumes "counted others h" "StreamHub_Tick (gateway_env writer) n (h, w) = (h', w')"
    and "map_of (sh_subscriptions h) i = Some s" "should_backfill s" "on_registry (no_room (sb_room_id s)) w"
    and "\<not> heartbeat_due h n (stamp_created n s)"
  shows "map_of (sh_subscriptions h') i = Some ((stamp_created n s)\<lparr>sb_last_heartbeat_ms := n\<rparr>)"
proof (rule room_gone.pending_tick [OF assms(1,2,5,3,4)])
  fix outc s1 s2 targets w3 failed w4
  assume k: "on_registry (no_room (sb_room_id s)) (snd s1)"
    and b: "BackfillSubscription (gateway_env writer) (stamp_created n s) s1 = (outc, s2)"
    and wa: "write_all (gateway_env writer) kHeartbeat targets w3 = (failed, w4)" and d: "distinct (map fst targets)"
    and t: "i \<in> fst ` set targets \<longleftrightarrow> heartbeat_due h n (stamp_created n s)"
    and e: "map_of (sh_subscriptions h') i =
      (if bo_write_failed outc \<or> i \<in> set failed then None else Some (pending_next n outc (stamp_created n s)))"
  have "outc = nothing_done" using unreachable_replay [of "stamp_created n s" "snd s1" writer "fst s1"] k b by simp
  moreover have "i \<notin> set failed" using write_all_ids [OF wa] t assms(6) by blast
  ultimately show ?thesis using e by (simp add: nothing_done_def pending_next_def)
qed

definition run_ticks :: "'w hub_env \<Rightarrow> ms list \<Rightarrow> StreamHub \<times> 'w \<Rightarrow> StreamHub \<times> 'w" where
  "run_ticks env ts = fold (StreamHub_Tick env) ts"

lemma unreachable_run:
  assumes "counted others h" "map_of (sh_subscriptions h) i = Some s" "should_backfill s"
    and "on_registry (no_room (sb_room_id s)) w" "sh_heartbeat_interval_ms h > 0"
    and "sb_created_ms s = 0 \<or> (ts \<noteq> [] \<longrightarrow> hd ts - sb_last_heartbeat_ms s < sh_heartbeat_interval_ms h)"
    and "successively (\<lambda>a b. b - a < sh_heartbeat_interval_ms h) ts" "0 \<notin> set ts"
    and "run_ticks (gateway_env writer) ts (h, w) = (h', w')"
  shows "\<exists>s'. map_of (sh_subscriptions h') i = Some s' \<and> should_backfill s' \<and> \<not> sb_ready_sent s' = (\<not> sb_ready_sent s)"
  using assms
proof (induction ts arbitrary: h w s)
  case (Cons n ts)
  obtain h1 w1 where t: "StreamHub_Tick (gateway_env writer) n (h, w) = (h1, w1)" by (metis surj_pair)
  let ?s = "(stamp_created n s)\<lparr>sb_last_heartbeat_ms := n\<rparr>"
  have "\<not> heartbeat_due h n (stamp_created n s)"
    using Cons.prems(5,6) by (auto simp: heartbeat_due_def stamp_created_def)
  from unreachable_tick [OF Cons.prems(1) t Cons.prems(2,3,4) this]
  have e: "map_of (sh_subscriptions h1) i = Some ?s" .
  have i: "sh_heartbeat_interval_ms h1 = sh_heartbeat_interval_ms h" by (rule Tick_interval [OF t])
  have "\<exists>s'. map_of (sh_subscriptions h') i = Some s' \<and> should_backfill s' \<and> \<not> sb_ready_sent s' = (\<not> sb_ready_sent ?s)"
  proof (rule Cons.IH [of h1 ?s w1])
    show "counted others h1" by (rule counted_Tick [OF Cons.prems(1) t])
    show "on_registry (no_room (sb_room_id ?s)) w1"
      using room_gone.Tick_keeps [OF t Cons.prems(4)] by simp
    show "run_ticks (gateway_env writer) ts (h1, w1) = (h', w')"
      using Cons.prems(9) t by (simp add: run_ticks_def)
    show "sb_created_ms ?s = 0 \<or> (ts \<noteq> [] \<longrightarrow> hd ts - sb_last_heartbeat_ms ?s < sh_heartbeat_interval_ms h1)"
      using Cons.prems(7) i by (cases ts) (auto simp: successively_Cons)
  qed (use Cons.prems e i in \<open>auto simp: should_backfill_def successively_Cons\<close>)
  then show ?case by simp
qed (auto simp: run_ticks_def)



interpretation any: hub_world env "\<lambda>w. True" for env
  by unfold_locales simp_all


text \<open>A room service that finds every client ahead, and connections that take everything.\<close>

definition always_ahead :: "unit hub_env" where
  "always_ahead = \<lparr>he_room = Some \<lparr>rcl_Join = \<lambda>_ _ _ w. ((CallNotFound, None), w), rcl_SubmitAttack = \<lambda>_ _ _ w. ((CallNotFound, None), w),
       rcl_GetState = \<lambda>_ _ w. ((CallOk, Some (view (Snapshot demo_room))), w), rcl_GetResult = \<lambda>_ _ w. ((CallNotFound, None), w),
       rcl_GetSnapshotsSince = \<lambda>_ _ _ w. ((CallOk, Some \<lparr>gr_status = WindowAhead, gr_snapshots = [], gr_oldest_frame = 0,
         gr_latest_frame = 0\<rparr>), w),
       rcl_SetPresence = \<lambda>_ _ _ _ w. ((CallOk, None), w)\<rparr>,
     he_Write = \<lambda>_ _ w. (True, w), he_Close = \<lambda>_ w. w, he_SystemNowMs = \<lambda>_. 900\<rparr>"

definition waiting_hub :: StreamHub where
  "waiting_hub = (StreamHub_new 15000)\<lparr>sh_next_id := 2, sh_created_total := 1,
     sh_subscriptions := [(1, demo_sub (reconnecting\<lparr>so_last_event_id := Some 9\<rparr>))]\<rparr>"


section \<open>Presence\<close>

definition shown_offline :: "string \<Rightarrow> BattleRoom \<Rightarrow> bool" where
  "shown_offline p r \<longleftrightarrow> (\<forall>i. IndexOf r p = Some i \<longrightarrow> \<not> pr_online (br_runtime r ! i))"

lemma SetPresence_offline:
  assumes "room_inv r"
  shows "shown_offline p r \<Longrightarrow> shown_offline p (snd (BattleRoom_SetPresence q False t r))"
    "\<not> bad_id p \<Longrightarrow> \<not> ended (br_phase r) \<Longrightarrow> shown_offline p (snd (BattleRoom_SetPresence p False t r))"
proof -
  let ?r = "snd (BattleRoom_SetPresence q False t r)"
  have len: "i < length (br_runtime r)" "i < length (br_players r)" if "IndexOf r p = Some i" for p i
    using FindPlayer_bound that assms by (auto simp: IndexOf_FindPlayer room_inv_defs)
  have idx: "IndexOf (snd (BattleRoom_SetPresence q False t r)) p = IndexOf r p" for q
    unfolding IndexOf_def
    by (rule first_index_cong [where f = ps_player_id])
       (auto simp: BattleRoom_SetPresence_def map_list_update_same len split: option.splits)
  show "shown_offline p r \<Longrightarrow> shown_offline p ?r"
    using len unfolding shown_offline_def idx
    by (auto simp: BattleRoom_SetPresence_def nth_list_update split: option.splits if_splits)
  show "\<not> bad_id p \<Longrightarrow> \<not> ended (br_phase r) \<Longrightarrow> shown_offline p (snd (BattleRoom_SetPresence p False t r))"
    using len unfolding shown_offline_def idx by (auto simp: ended_def BattleRoom_SetPresence_def)
qed

text \<open>In the registry: a running room shows the player as offline.\<close>

definition reported_offline :: "string \<Rightarrow> string \<Rightarrow> RoomManager \<Rightarrow> bool" where
  "reported_offline rid p m \<longleftrightarrow> manager_inv m \<and>
     (\<forall>r. map_of (rm_rooms m) rid = Some r \<and> \<not> ended (br_phase r) \<longrightarrow> shown_offline p r)"

lemma reported_offline_SetPresence:
  assumes "manager_inv m"
  shows "reported_offline rid p m \<Longrightarrow> reported_offline rid p (snd (RoomManager_SetPresence rid' q False t m))"
    "\<not> bad_id p \<Longrightarrow> reported_offline rid p (snd (RoomManager_SetPresence rid p False t m))"
proof -
  have room: "room_inv r" if "map_of (rm_rooms m) x = Some r" for x r
    using assms that by (auto simp: manager_inv_def rooms_inv_def)
  show "reported_offline rid p m \<Longrightarrow> reported_offline rid p (snd (RoomManager_SetPresence rid' q False t m))"
    using manager_inv_SetPresence [OF assms, of rid' q False t]
    by (cases "map_of (rm_rooms m) rid'")
       (auto simp: reported_offline_def SetPresence_room update_conv' SetPresence_offline(1) room SetPresence_frame)
  show "\<not> bad_id p \<Longrightarrow> reported_offline rid p (snd (RoomManager_SetPresence rid p False t m))"
    using manager_inv_SetPresence [OF assms, of rid p False t]
    by (cases "map_of (rm_rooms m) rid")
       (auto simp: reported_offline_def SetPresence_room update_conv' SetPresence_offline(2) room SetPresence_frame)
qed

lemma reported_offline_kept:
  "reported_offline rid p m \<Longrightarrow> reported_offline rid p (snd (RoomManager_SetPresence rid' q False t m))"
  by (rule reported_offline_SetPresence(1)) (simp_all add: reported_offline_def)

text \<open>No call is lost.\<close>

definition calm :: "(RoomManager \<Rightarrow> bool) \<Rightarrow> ('db, 'z) gw_world_scheme \<Rightarrow> bool" where
  "calm P w \<longleftrightarrow> wd_net w = [] \<and> (\<exists>m. wd_rooms w = Some m \<and> P m)"

lemma ReportPresence_calm:
  assumes "calm P w" "\<And>m. P m \<Longrightarrow> P' (snd (RoomManager_SetPresence r p b (wd_room_now w) m))"
  shows "calm P' (ReportPresence (gateway_env writer) r p b q w)"
  using assms by (auto simp: calm_def ReportPresence_def gateway_room_def next_delivery_def SetPresence_delivered)

lemma report_gone_keeps_calm:
  "calm P w \<Longrightarrow> (\<And>r q t m. P m \<Longrightarrow> P (snd (RoomManager_SetPresence r q False t m))) \<Longrightarrow>
   calm P (report_gone (gateway_env writer) gone w)"
proof (induction gone arbitrary: w)
  case (Cons u gone)
  then show ?case using ReportPresence_calm [of P w P] by (simp add: report_gone_def)
qed (simp add: report_gone_def)

lemma report_gone_calm:
  assumes "calm manager_inv w" "s \<in> set gone" "\<not> bad_id (sb_player_id s)"
  shows "calm (reported_offline (sb_room_id s) (sb_player_id s)) (report_gone (gateway_env writer) gone w)"
proof -
  let ?P = "reported_offline (sb_room_id s) (sb_player_id s)" and ?env = "gateway_env writer"
  obtain before after where g: "gone = before @ s # after" using assms(2) by (meson split_list)
  have e: "report_gone ?env gone w = report_gone ?env after (ReportPresence ?env (sb_room_id s) (sb_player_id s) False
      (sb_request_id s) (report_gone ?env before w))"
    by (simp add: g report_gone_def)
  have "calm manager_inv (report_gone ?env before w)"
    by (rule report_gone_keeps_calm [OF assms(1) manager_inv_SetPresence])
  then have "calm ?P (ReportPresence ?env (sb_room_id s) (sb_player_id s) False (sb_request_id s) (report_gone ?env before w))"
    by (rule ReportPresence_calm) (rule reported_offline_SetPresence(2) [OF _ assms(3)])
  then show ?thesis
    unfolding e
    by (rule report_gone_keeps_calm) (rule reported_offline_kept)
qed

lemma service_up_world:
  "hub_world (gateway_env writer :: ('db, 'z) gw_world_scheme hub_env) (\<lambda>w. wd_net w = [] \<and> wd_rooms w \<noteq> None)"
proof
  fix rc :: "('db, 'z) gw_world_scheme RoomClient" and r q f and w :: "('db, 'z) gw_world_scheme"
    and b :: bool and p
  assume rc: "he_room (gateway_env writer) = Some rc" and w: "wd_net w = [] \<and> wd_rooms w \<noteq> None"
  let ?d = "next_delivery w" and ?t = "wd_room_now w" and ?mo = "wd_rooms w" and ?c = "wd_counters w"
  show "wd_net (snd (rcl_GetState rc r q w)) = [] \<and> wd_rooms (snd (rcl_GetState rc r q w)) \<noteq> None"
    using rc w registry_after(1) [of ?d r q ?t ?mo ?c] by (auto simp: gateway_env_defs)
  show "wd_net (snd (rcl_GetSnapshotsSince rc r f q w)) = [] \<and> wd_rooms (snd (rcl_GetSnapshotsSince rc r f q w)) \<noteq> None"
    using rc w registry_after(2) [of ?d r f q ?t ?mo ?c] by (auto simp: gateway_env_defs)
  show "wd_net (snd (rcl_SetPresence rc r p b q w)) = [] \<and> wd_rooms (snd (rcl_SetPresence rc r p b q w)) \<noteq> None"
    using rc w registry_after(3) [of ?d r p b q ?t ?mo ?c] by (auto simp: gateway_env_defs)
qed (simp_all add: gateway_env_defs split: if_splits)

interpretation service_up: hub_world "gateway_env writer" "\<lambda>w. wd_net w = [] \<and> wd_rooms w \<noteq> None" for writer
  by (rule service_up_world)



section \<open>Counting\<close>

text \<open>The runs of a hub: its operations in any order, and anything the world does in between. The
  number counts the streams that \<^verbatim>\<open>CloseAll\<close> and \<^verbatim>\<open>CloseAllWithEvent\<close> closed.\<close>

inductive hub_run :: "'w hub_env \<Rightarrow> StreamHub \<times> 'w \<Rightarrow> nat \<Rightarrow> bool" for env :: "'w hub_env" where
  start: "hub_run env (StreamHub_new heartbeat_ms, w) 0"
| subscribe: "hub_run env s k \<Longrightarrow> hub_run env (snd (Subscribe env p r snk opts s)) k"
| unsubscribe: "hub_run env s k \<Longrightarrow> hub_run env (Unsubscribe env i s) k"
| tick: "hub_run env s k \<Longrightarrow> hub_run env (StreamHub_Tick env n s) k"
| shutdown: "hub_run env (h, w) k \<Longrightarrow> hub_run env (StreamHub_BeginShutdown h, w) k"
| close: "hub_run env s k \<Longrightarrow> hub_run env (CloseAll env s) (k + ConnectionCount (fst s))"
| close_event: "hub_run env s k \<Longrightarrow>
    hub_run env (snd (CloseAllWithEvent env reason s)) (k + ConnectionCount (fst s))"
| world: "hub_run env (h, w) k \<Longrightarrow> hub_run env (h, w') k"

lemma counted_run: "hub_run env s k \<Longrightarrow> counted k (fst s)"
proof (induction rule: hub_run.induct)
  case (subscribe s k p r snk opts)
  then show ?case
    using counted_Subscribe [of k "fst s" env p r snk opts "snd s"]
    by (cases "Subscribe env p r snk opts s") auto
next
  case (unsubscribe s k i)
  then show ?case using counted_Unsubscribe [of k "fst s" env i "snd s"] by (cases "Unsubscribe env i s") auto
next
  case (tick s k n)
  then show ?case using counted_Tick [of k "fst s" env n "snd s"] by (cases "StreamHub_Tick env n s") auto
qed (auto simp: StreamHub_new_def counted_def StreamHub_BeginShutdown_def CloseAll_def CloseAllWithEvent_def take_all_def
    table_inv_def ConnectionCount_def Let_def)



section \<open>Polling\<close>

lemma SetLastPushedState_polls [simp]: "sh_room_poll_count (SetLastPushedState r x b h) = sh_room_poll_count h"
  by (simp add: SetLastPushedState_def)

lemma replay_polls:
  "replay env t xs s = (ok, s') \<Longrightarrow> sh_room_poll_count (fst s') = sh_room_poll_count (fst s)"
proof (induction xs arbitrary: s)
  case (Cons x xs)
  then show ?case by (cases s) (auto split: prod.splits if_splits)
qed simp

lemma Backfill_polls:
  assumes "BackfillSubscription env t (h, w) = (outc, s')"
  shows "sh_room_poll_count (fst s') = sh_room_poll_count h"
  by (rule Backfill_cases [OF assms]) (auto simp: send_reset_def split: prod.splits dest: replay_polls)

lemma backfills_polls:
  "fold (backfill_one env) ts (res, s) = (res', s') \<Longrightarrow> sh_room_poll_count (fst s') = sh_room_poll_count (fst s)"
proof (induction ts arbitrary: res s)
  case (Cons t ts)
  obtain outc s1 where b: "BackfillSubscription env t s = (outc, s1)" by (metis surj_pair)
  obtain res1 where "backfill_one env t (res, s) = (res1, s1)" using b by (simp add: backfill_one_def)
  then show ?case using Cons Backfill_polls [of env t "fst s" "snd s" outc s1] b by simp
qed simp

lemma remove_polls:
  "remove_failed env is (h, w) = (gone, h', w') \<Longrightarrow> sh_room_poll_count h' = sh_room_poll_count h"
proof (induction "is" arbitrary: h w gone)
  case (Cons i "is")
  then show ?case by (auto split: option.splits prod.splits)
qed simp

lemma length_rooms_of: "length (rooms_of polled) = card (sb_room_id ` set polled)"
  by (simp add: rooms_of_def length_remdups_card_conv)

text \<open>Fan-in. However many streams watch a room, one tick asks the room service for it once: the tick
  makes exactly one state query per distinct room of the streams that are not waiting for a replay,
  never more than there are subscribed rooms, and none when nobody is subscribed.\<close>

lemma tick_polls_each_room_once:
  assumes "StreamHub_Tick env n (h, w) = (h', w')"
  shows "sh_room_poll_count h' = sh_room_poll_count h +
      card (sb_room_id ` {s \<in> snd ` set (sh_subscriptions h). \<not> should_backfill s})
    \<and> sh_room_poll_count h' \<le> sh_room_poll_count h + SubscribedRoomCount h
    \<and> SubscribedRoomCount h \<le> ConnectionCount h"
  using assms
proof (rule tick_parts)
  fix plan :: tick_plan and h0 :: StreamHub and res h1 w1 failed1 h2 w2 failed2 w3 failed3 w4 gone w5
  assume c: "collect_tick n h = (plan, h0)"
    and b: "fold (backfill_one env) (tp_backfill plan) (no_results, h0, w) = (res, h1, w1)"
    and p: "fold (poll_room env n (tp_live plan)) (rooms_of (tp_live plan)) (tr_failed res, h1, w1) = (failed1, h2, w2)"
    and g: "remove_failed env (failed1 @ failed2 @ failed3) (commit_tick n plan res h2, w4) = (gone, h', w5)"
  note parts = collect_parts [OF c]
  let ?live = "{s \<in> snd ` set (sh_subscriptions h). \<not> should_backfill s}"
  have h0: "sh_room_poll_count h0 = sh_room_poll_count h"
    "sh_subscriptions h0 = map_values (stamp_created n) (sh_subscriptions h)" by (subst parts(1), simp)+
  have "sb_room_id ` set (tp_live plan) = sb_room_id ` ?live"
  proof -
    have "map snd (map_values (stamp_created n) (sh_subscriptions h)) = map (stamp_created n) (map snd (sh_subscriptions h))"
      by (simp add: map_values_def case_prod_beta)
    then show ?thesis unfolding parts(3) h0(2) by (simp add: filter_map comp_def image_image) (force simp: image_def)
  qed
  then have "sh_room_poll_count h' = sh_room_poll_count h + card (sb_room_id ` ?live)"
    using backfills_polls [OF b] poll_rel [OF p] remove_polls [OF g] h0(1) by (simp add: length_rooms_of)
  moreover have "card (sb_room_id ` ?live) \<le> SubscribedRoomCount h"
    unfolding SubscribedRoomCount_def by (rule card_mono) auto
  moreover have "SubscribedRoomCount h \<le> ConnectionCount h"
    unfolding SubscribedRoomCount_def ConnectionCount_def by (metis card_length length_map)
  ultimately show ?thesis by simp
qed

text \<open>What a tick pushes for a room. When the state the room answers with differs from the last one
  pushed, or is final, every stream of the room whose connection is alive gets exactly one event with
  it, and nobody gets anything otherwise; a final state ends all streams of the room, any other state
  only those whose write failed. The last pushed state is kept per room: a state that only a replaying
  stream was sent counts as pushed for all.\<close>

lemma room_push_is_exact:
  assumes "TickRoom (gateway_env writer) room sinks q n (h, w) = (failed, h', w')" "sinks \<noteq> []"
    and "rcl_GetState (gateway_room writer) room q w = ((CallOk, Some snap), w1)"
  shows "let pushed = terminal snap \<or> map_of (sh_last_pushed_state h) room \<noteq> Some (StateSignature snap) in
    wd_sent w' = wd_sent w @ (if pushed
      then map (\<lambda>t. (snd t, room_event snap n)) (filter (\<lambda>t. \<not> sink_gone w (snd t)) sinks) else []) \<and>
    failed = (if terminal snap then map fst sinks
      else if pushed then map fst (filter (\<lambda>t. sink_gone w (snd t)) sinks) else [])"
proof -
  have "ok_output (CallOk, Some snap) = Some snap" by (simp add: ok_output_def)
  from gw.TickRoom_spec [OF assms(1) gateway_env_room assms(3) this assms(2)] show ?thesis
    by (simp add: Let_def)
qed

section \<open>The text of an event\<close>

text \<open>C29: an event reaches the client whole. Read by the rules of the event stream format, the text of an
  event gives back exactly its name, its frame as the id and its payload on one line, whatever the ids
  and names in the payload contain: no field can end the event or forge another one. Every text field
  of the payload is escaped so that it reads back unchanged.\<close>

theorem event_text_reads_back:
  "let name = (if terminal s then ''room.finished'' else ''room.state'');
       ls = split_lines (room_event s n)
   in field_of ''id'' ls = Some (to_string (gw_frame s)) \<and> field_of ''event'' ls = Some name \<and>
      field_of ''data'' ls = Some (Envelope name (gw_frame s) n (RoomPayload s)) \<and>
      length ls = 4 \<and> last ls = [] \<and>
      unescape (JsonEscape (gw_room_id s)) = gw_room_id s"
proof -
  let ?name = "if terminal s then ''room.finished'' else ''room.state''"
  have e: "room_event s n = SseEvent ?name (Envelope ?name (gw_frame s) n (RoomPayload s)) (Some (gw_frame s))"
    by (simp add: room_event_def RoomFinishedJson_def RoomStateJson_def)
  have "single_line ?name" by simp
  then have "split_lines (room_event s n) =
      [''id: '' @ to_string (gw_frame s), ''event: '' @ ?name, ''data: '' @ Envelope ?name (gw_frame s) n (RoomPayload s), []]"
    unfolding e by (subst split_SseEvent) simp_all
  then show ?thesis by (simp add: Let_def field_of_def unescape_JsonEscape)
qed

end
