(* ===== verification/Gateway_Drain.thy ===== *)
theory Gateway_Drain
  imports Gateway_Props Stream_Hub_Props Drain_Wait
begin

text \<open>
  How the gateway process ends, \<^verbatim>\<open>src/gateway/gateway_main.cpp\<close> after its signal: new work is refused, the
  open streams get until the deadline to reach their end, the rest is told that the server stops and
  closed, and only then the push thread stops. Requests, pushes and anything else in the world go on in
  between.
\<close>

section \<open>The sequence\<close>

datatype 'w gateway_happening = GwRequest Controller GatewayRequest | GwPush ms | GwWorld "'w \<Rightarrow> 'w"

fun gateway_happens :: "'w GatewayDeps \<Rightarrow> 'w gateway_happening \<Rightarrow> GatewayService \<times> StreamHub \<times> 'w \<Rightarrow> GatewayService \<times> StreamHub \<times> 'w" where
  "gateway_happens d (GwRequest ctl req) (gs, h, w) =
     (case serve_gateway d ctl req (gs, Some h, w) of
        (_, gs', hub', w') \<Rightarrow> (gs', (case hub' of None \<Rightarrow> h | Some h' \<Rightarrow> h'), w'))"
| "gateway_happens d (GwPush now_ms) (gs, h, w) = (gs, StreamHub_Tick (gd_hub d) now_ms (h, w))"
| "gateway_happens d (GwWorld f) (gs, h, w) = (gs, h, f w)"

definition gateway_run :: "'w GatewayDeps \<Rightarrow> 'w gateway_happening list \<Rightarrow> GatewayService \<times> StreamHub \<times> 'w \<Rightarrow> GatewayService \<times> StreamHub \<times> 'w" where
  "gateway_run d events s = fold (gateway_happens d) events s"

definition streams_open :: "GatewayService \<times> StreamHub \<times> 'w \<Rightarrow> bool" where
  "streams_open s \<longleftrightarrow> ConnectionCount (fst (snd s)) > 0"

text \<open>The result gives the state when the wait was over, after the remaining streams were told, and at
  the end. \<open>before\<close> is what happens between the last look of the loop and the closing, \<open>late\<close> what happens until the push thread has stopped.\<close>

definition gateway_drain ::
  "'w GatewayDeps \<Rightarrow> ms \<Rightarrow> ('w gateway_happening list \<times> ms) list \<Rightarrow> 'w gateway_happening list \<Rightarrow> 'w gateway_happening list \<Rightarrow> ms \<Rightarrow>
   GatewayService \<times> StreamHub \<times> 'w \<Rightarrow>
   (GatewayService \<times> StreamHub \<times> 'w) \<times> (GatewayService \<times> StreamHub \<times> 'w) \<times> (GatewayService \<times> StreamHub \<times> 'w)" where
  "gateway_drain d drain_timeout_flag_ms sleeps before late drain_started_ms s =
     (let drain_timeout_ms = (if drain_timeout_flag_ms > 0 then drain_timeout_flag_ms else 0);
          waited = gateway_run d before (snd (wait_while (gateway_run d) streams_open (drain_started_ms + drain_timeout_ms) sleeps drain_started_ms
            (GatewayService_BeginShutdown (fst s), StreamHub_BeginShutdown (fst (snd s)), snd (snd s))));
          told = (if ConnectionCount (fst (snd waited)) > 0
            then (fst waited, snd (CloseAllWithEvent (gd_hub d) ''server_shutdown'' (snd waited))) else waited);
          stopped = gateway_run d late told
      in (waited, told, (fst stopped, CloseAll (gd_hub d) (snd stopped))))"

section \<open>A draining hub accepts no stream\<close>

definition hub_drains :: "StreamHub \<Rightarrow> StreamHub \<Rightarrow> bool" where
  "hub_drains h h' \<longleftrightarrow> sh_draining h' = sh_draining h \<and> sh_created_total h' = sh_created_total h \<and>
     fst ` set (sh_subscriptions h') \<subseteq> fst ` set (sh_subscriptions h)"

lemma hub_drains_refl [simp]: "hub_drains h h"
  by (simp add: hub_drains_def)

lemma hub_drains_trans: "hub_drains h h1 \<Longrightarrow> hub_drains h1 h2 \<Longrightarrow> hub_drains h h2"
  unfolding hub_drains_def by (elim conjE, intro conjI) (simp_all only: order_trans)

lemma io_rel_draining: "io_rel h h' \<Longrightarrow> sh_draining h' = sh_draining h"
  unfolding io_rel_def by (cases h; cases h'; simp)

lemma remove_drains: "remove_failed env is (h, w) = (gone, h', w') \<Longrightarrow> hub_drains h h'"
proof (induction "is" arbitrary: h w gone)
  case (Cons i "is")
  show ?case
  proof (cases "map_of (sh_subscriptions h) i")
    case None
    then show ?thesis using Cons by simp
  next
    case (Some sub)
    let ?h = "h\<lparr>sh_subscriptions := AList.delete i (sh_subscriptions h), sh_closed_write_failed_total := Suc (sh_closed_write_failed_total h)\<rparr>"
    obtain gone1 where "remove_failed env is (?h, he_Close env (sb_sink sub) w) = (gone1, h', w')"
      using Cons.prems Some by (auto split: prod.splits)
    from Cons.IH [OF this] have "hub_drains ?h h'" .
    moreover have "hub_drains h ?h" by (auto simp: hub_drains_def AList.delete_eq)
    ultimately show ?thesis using hub_drains_trans by blast
  qed
qed simp

lemma fold_same_keys: "(\<And>x subs. map fst (f x subs) = map fst subs) \<Longrightarrow> map fst (fold f xs subs) = map fst subs"
  by (induction xs arbitrary: subs) auto

lemma commit_drains: "hub_drains h (commit_tick n plan res h)"
proof -
  have "map fst (sh_subscriptions (commit_tick n plan res h)) = map fst (sh_subscriptions h)"
    unfolding commit_tick_def
    by (simp add: fold_same_keys backfill_finished_def note_reset_def touch_heartbeat_def note_ready_def)
  then have "fst ` set (sh_subscriptions (commit_tick n plan res h)) = fst ` set (sh_subscriptions h)"
    by (metis list.set_map)
  then show ?thesis by (simp add: hub_drains_def) (simp add: commit_tick_def)
qed

lemma Tick_drains:
  assumes "StreamHub_Tick env n (h, w) = (h', w')"
  shows "hub_drains h h'"
  using assms
proof (rule tick_parts)
  fix plan h0 res h1 w1 failed1 h2 w2 failed2 w3 failed3 w4 gone w5
  assume c: "collect_tick n h = (plan, h0)" and io: "io_rel h0 h1" "io_rel h1 h2"
    and g: "remove_failed env (failed1 @ failed2 @ failed3) (commit_tick n plan res h2, w4) = (gone, h', w5)"
  have "map fst (sh_subscriptions h0) = map fst (sh_subscriptions h)"
    by (subst collect_parts(1) [OF c]) (simp add: map_values_def case_prod_beta)
  moreover have "sh_draining h0 = sh_draining h" by (subst collect_parts(1) [OF c]) simp
  moreover have "sh_created_total h0 = sh_created_total h" by (subst collect_parts(1) [OF c]) simp
  ultimately have "hub_drains h h0" unfolding hub_drains_def by (metis list.set_map order_refl)
  moreover have "hub_drains h0 h2" using io by (auto simp: hub_drains_def io_rel_sel io_rel_draining)
  ultimately have "hub_drains h h2" by (rule hub_drains_trans)
  then have "hub_drains h (commit_tick n plan res h2)" using commit_drains by (rule hub_drains_trans)
  then show ?thesis using remove_drains [OF g] by (rule hub_drains_trans)
qed

lemma serve_drains:
  assumes "serve_gateway d ctl req (gs, Some h, w) = (a, gs', hub', w')" "sh_draining h"
  shows "hub' = Some h"
proof (rule ccontr)
  assume ne: "hub' \<noteq> Some h"
  obtain t r x where req: "req = StreamReq t r x"
    using assms(1) ne by (cases req) (auto simp: keep_hub_def split: prod.splits)
  obtain room p q w2 where "stream_subscribe d ctl q room p (Some h) (gs, w2) = (a, gs', hub', w')"
    using assms(1) ne unfolding req serve_gateway.simps Gateway_StreamEvents_def Reject_cases Let_def
    by (auto simp: respond_parts split: if_splits option.splits prod.splits)
  from stream_subscribe_hub [OF this ne] assms(2) show False by auto
qed

lemma happens_drains: "sh_draining (fst (snd s)) \<Longrightarrow> hub_drains (fst (snd s)) (fst (snd (gateway_happens d e s)))"
proof -
  assume dr: "sh_draining (fst (snd s))"
  obtain gs h w where s: "s = (gs, h, w)" by (metis surj_pair)
  show ?thesis
  proof (cases e)
    case (GwRequest ctl req)
    obtain a gs' hub' w' where r: "serve_gateway d ctl req (gs, Some h, w) = (a, gs', hub', w')" by (metis surj_pair)
    then show ?thesis using serve_drains [OF r] dr by (simp add: s GwRequest)
  next
    case (GwPush n)
    obtain h' w' where "StreamHub_Tick (gd_hub d) n (h, w) = (h', w')" by fastforce
    then show ?thesis using Tick_drains by (simp add: s GwPush)
  next
    case (GwWorld f)
    then show ?thesis by (simp add: s)
  qed
qed

lemma run_drains: "hub_drains h (fst (snd s)) \<Longrightarrow> sh_draining h \<Longrightarrow> hub_drains h (fst (snd (gateway_run d es s)))"
  unfolding gateway_run_def
proof (induction es arbitrary: s)
  case (Cons e es)
  have "sh_draining (fst (snd s))" using Cons.prems by (simp add: hub_drains_def)
  then show ?case using Cons hub_drains_trans [OF Cons.prems(1) happens_drains] by simp
qed simp

section \<open>What the remaining streams get\<close>

definition stream_closed_text :: "string \<Rightarrow> ms \<Rightarrow> string" where
  "stream_closed_text reason now_ms = SseEvent ''stream.closed'' (StreamClosedJson reason now_ms) (Some 0)"

context event_sinks
begin

lemma tell_spec:
  "fold (\<lambda>sub w. snd (he_Write env (sb_sink sub) (SseEvent ''stream.closed'' (StreamClosedJson reason (he_SystemNowMs env w)) (Some 0)) w)) subs w = w' \<Longrightarrow>
   sent w' = sent w @ map (\<lambda>s. (sb_sink s, stream_closed_text reason (he_SystemNowMs env w))) (filter (\<lambda>s. \<not> dead w (sb_sink s)) subs) \<and>
   dead w' = dead w"
proof (induction subs arbitrary: w)
  case (Cons sub subs)
  obtain b w1 where wr: "he_Write env (sb_sink sub)
      (SseEvent ''stream.closed'' (StreamClosedJson reason (he_SystemNowMs env w)) (Some 0)) w = (b, w1)" by (metis surj_pair)
  show ?case using Cons.prems Cons.IH [of w1] Write_cases [OF wr] by (auto simp: wr stream_closed_text_def)
qed simp

lemma close_one_sent: "sent (close_one env sub w) = sent w"
  by (simp add: close_one_def Close_frame ReportPresence_def SetPresence_frame split: option.split)

lemma closes_sent: "sent (fold (close_one env) subs w) = sent w"
  by (induction subs arbitrary: w) (simp_all add: close_one_sent)

lemma CloseAllWithEvent_sent:
  assumes "CloseAllWithEvent env reason (h, w) = (n, h', w')"
  shows "sent w' = sent w @ map (\<lambda>s. (sb_sink s, stream_closed_text reason (he_SystemNowMs env w)))
      (filter (\<lambda>s. \<not> dead w (sb_sink s)) (map snd (sh_subscriptions h)))"
  using assms tell_spec [of reason "map snd (sh_subscriptions h)" w, OF refl]
  by (auto simp: CloseAllWithEvent_def Let_def closes_sent split: if_splits)

end

lemma close_one_closed:
  "wd_closed (close_one (gateway_env writer) sub w) = sb_sink sub # wd_closed w" for w :: "('db, 'z) gw_world_scheme"
  by (simp add: close_one_def ReportPresence_def gateway_env_defs split: option.split)

lemma closes_closed:
  "set (wd_closed (fold (close_one (gateway_env writer)) subs w)) = sb_sink ` set subs \<union> set (wd_closed w)" for w :: "('db, 'z) gw_world_scheme"
  by (induction subs arbitrary: w) (auto simp: close_one_closed)

text \<open>C37: a draining gateway lets no stream end in silence. From the signal on no stream is accepted,
  whatever is requested; when the wait is over, every stream that is still open on a live connection is
  written the event \<open>stream.closed\<close> with the reason \<open>server_shutdown\<close>, once and as the last thing
  written then, and its connection is closed; and when the push thread has stopped no stream is open.\<close>

theorem drained_streams_are_told:
  fixes d :: "('db, 'z) gw_world_scheme GatewayDeps"
  assumes "gd_hub d = gateway_env writer"
    and "gateway_drain d timeout_ms sleeps before late started_ms (gs, h, w) = ((gs1, h1, w1), (gs2, h2, w2), (gs3, h3, w3))"
  shows "sh_created_total h3 = sh_created_total h \<and> ConnectionCount h3 = 0 \<and>
    fst ` set (sh_subscriptions h1) \<subseteq> fst ` set (sh_subscriptions h) \<and>
    wd_sent w2 = wd_sent w1 @ map (\<lambda>s. (sb_sink s, stream_closed_text ''server_shutdown'' (wd_now w1)))
      (filter (\<lambda>s. \<not> sink_gone w1 (sb_sink s)) (map snd (sh_subscriptions h1))) \<and>
    sb_sink ` snd ` set (sh_subscriptions h1) \<subseteq> set (wd_closed w2)"
proof -
  let ?env = "gateway_env writer :: ('db, 'z) gw_world_scheme hub_env"
  let ?h0 = "StreamHub_BeginShutdown h" and ?s0 = "(GatewayService_BeginShutdown gs, StreamHub_BeginShutdown h, w)"
  have dr: "sh_draining ?h0" by (simp add: StreamHub_BeginShutdown_def)
  have waited: "(gs1, h1, w1) = gateway_run d before (snd (wait_while (gateway_run d) streams_open (started_ms + (if timeout_ms > 0 then timeout_ms else 0)) sleeps
      started_ms ?s0))"
    using assms(2) by (simp add: gateway_drain_def Let_def)
  have "hub_drains ?h0 (fst (snd (gateway_run d before (snd (wait_while (gateway_run d) streams_open (started_ms + (if timeout_ms > 0 then timeout_ms else 0)) sleeps
      started_ms ?s0)))))"
    by (rule run_drains [OF _ dr], rule wait_while_keeps [where P = "\<lambda>s. hub_drains ?h0 (fst (snd s))"]) (simp_all add: run_drains dr)
  then have d1: "hub_drains ?h0 h1" unfolding waited [symmetric] by simp
  have told: "(gs2, h2, w2) = (if ConnectionCount h1 > 0 then (gs1, snd (CloseAllWithEvent ?env ''server_shutdown'' (h1, w1))) else (gs1, h1, w1))"
    using assms(2) unfolding gateway_drain_def Let_def prod.sel waited [symmetric] assms(1) by simp
  have d2: "hub_drains ?h0 h2"
    using told d1 by (auto simp: CloseAllWithEvent_def Let_def take_all_def hub_drains_def split: if_splits)
  have stopped: "(gs3, h3, w3) = (fst (gateway_run d late (gs2, h2, w2)), CloseAll ?env (snd (gateway_run d late (gs2, h2, w2))))"
    using assms(2) unfolding gateway_drain_def Let_def prod.sel waited [symmetric] assms(1) told [symmetric] by simp
  have h3: "h3 = take_all (fst (snd (gateway_run d late (gs2, h2, w2))))" using stopped by (simp add: CloseAll_def)
  have "hub_drains ?h0 (fst (snd (gateway_run d late (gs2, h2, w2))))" by (rule run_drains) (simp_all add: d2 dr)
  then have "sh_created_total h3 = sh_created_total h" "ConnectionCount h3 = 0"
    by (simp_all add: h3 take_all_def hub_drains_def ConnectionCount_def StreamHub_BeginShutdown_def)
  moreover have "fst ` set (sh_subscriptions h1) \<subseteq> fst ` set (sh_subscriptions h)"
    using d1 by (simp add: hub_drains_def StreamHub_BeginShutdown_def)
  moreover have "wd_sent w2 = wd_sent w1 @ map (\<lambda>s. (sb_sink s, stream_closed_text ''server_shutdown'' (wd_now w1)))
      (filter (\<lambda>s. \<not> sink_gone w1 (sb_sink s)) (map snd (sh_subscriptions h1))) \<and>
    sb_sink ` snd ` set (sh_subscriptions h1) \<subseteq> set (wd_closed w2)"
  proof (cases "ConnectionCount h1 > 0")
    case True
    obtain n where c: "CloseAllWithEvent ?env ''server_shutdown'' (h1, w1) = (n, h2, w2)"
      using told True by (metis prod.collapse snd_conv)
    have "he_SystemNowMs ?env w1 = wd_now w1" by (simp add: gateway_env_def)
    with gw.CloseAllWithEvent_sent [OF c]
    have "wd_sent w2 = wd_sent w1 @ map (\<lambda>s. (sb_sink s, stream_closed_text ''server_shutdown'' (wd_now w1)))
      (filter (\<lambda>s. \<not> sink_gone w1 (sb_sink s)) (map snd (sh_subscriptions h1)))" by simp
    moreover have "sb_sink ` snd ` set (sh_subscriptions h1) \<subseteq> set (wd_closed w2)"
      using c by (auto simp: CloseAllWithEvent_def Let_def closes_closed split: if_splits) force
    ultimately show ?thesis by blast
  next
    case False
    then show ?thesis using told by (simp add: ConnectionCount_def)
  qed
  ultimately show ?thesis by blast
qed

definition closing_gateway :: "unit gw_world GatewayDeps" where
  "closing_gateway =
     \<lparr>gd_sessions = \<lparr>ss_CreateSession = \<lambda>_ _ _ _ w. ((StoreUnavailable, None), w), ss_GetSession = \<lambda>_ w. ((StoreUnavailable, None), w),
        ss_DeleteSession = \<lambda>_ w. (StoreUnavailable, w)\<rparr>,
      gd_players = in_memory_directory sample_digest [],
      gd_match = \<lparr>mc_Enqueue = \<lambda>_ _ w. ((MatchOk, None), w), mc_GetStatus = \<lambda>_ w. ((MatchOk, None), w),
        mc_Cancel = \<lambda>_ _ w. ((MatchOk, None), w)\<rparr>,
      gd_room = Some (gateway_room None), gd_hub = gateway_env None,
      gd_CreateProgressiveAttachment = \<lambda>w. (None, w), gd_session_ttl = 600\<rparr>"

theorem drained_streams_are_told_witness:
  "\<exists>waited s2 h2 w2 s3. gateway_drain closing_gateway 0 [] [] [GwPush 1000] 900
      (GatewayService_new, demo_stream plain (demo_world demo_manager [])) = (waited, (s2, h2, w2), s3) \<and>
    wd_sent w2 = [(7, stream_closed_text ''server_shutdown'' 900)] \<and> wd_closed w2 \<noteq> []"
proof -
  obtain h w where s: "demo_stream plain (demo_world demo_manager []) = (h, w)" by fastforce
  have w: "w = ReportPresence (gateway_env None) ''r-1'' ''alice'' True [] (demo_world demo_manager [])"
    and subs: "sh_subscriptions h = [(1, demo_sub plain)]"
    using demo_stream(1,4) [of plain "demo_world demo_manager []"] s by (simp_all add: plain_def)
  obtain gs1 h1 w1 gs2 h2 w2 gs3 h3 w3 where d: "gateway_drain closing_gateway 0 [] [] [GwPush 1000] 900 (GatewayService_new, h, w) =
      ((gs1, h1, w1), (gs2, h2, w2), (gs3, h3, w3))" by (metis surj_pair)
  have "h1 = StreamHub_BeginShutdown h" "w1 = w" using d by (simp_all add: gateway_drain_def Let_def gateway_run_def)
  then have 1: "sh_subscriptions h1 = [(1, demo_sub plain)]" "w1 = w" by (simp_all add: StreamHub_BeginShutdown_def subs)
  have 2: "wd_sent w = []" "wd_now w = 900" "\<not> sink_gone w 7"
    by (simp_all add: w ReportPresence_def gateway_env_defs) (simp add: sink_gone_def)?
  have "gd_hub closing_gateway = gateway_env None" by (simp add: closing_gateway_def)
  from drained_streams_are_told [OF this d] 1 2 show ?thesis
    by (auto simp: s d demo_sub_def)
qed

end
