(* ===== verification/Room_Restart.thy ===== *)
theory Room_Restart
  imports Room_Manager_Props
begin

text \<open>
  Restarting the room service: what \<^verbatim>\<open>Restore\<close> rebuilds from the snapshot table, what it leaves alone
  whatever the table contains, and the match it loses.
\<close>

section \<open>Restoring never damages the registry\<close>

lemma parse_room_row_ok:
  "row_problem (parse_room_row row) = None \<Longrightarrow> \<not> bad_id (rr_match_id (row_record (parse_room_row row)))"
  by (auto simp: parse_room_row_def ValidateRoomSnapshot_def Let_def split: if_splits option.splits)

lemma RestoreFrom_ids:
  "RestoreFrom rec now_ms = Some r \<Longrightarrow> br_room_id r = rr_room_id rec \<and> br_match_id r = rr_match_id rec"
  by (auto simp: RestoreFrom_def split: if_splits)

definition row_valid :: "RoomSnapshotRow \<Rightarrow> bool" where
  "row_valid row \<longleftrightarrow> (row_problem row = None \<longrightarrow> \<not> bad_id (rr_match_id (row_record row)))"

lemma restore_row_step:
  assumes "index_inv (ra_manager acc)" "row_valid row"
  shows "index_inv (ra_manager (restore_row t row acc)) \<and>
    (\<forall>rid r. map_of (rm_rooms (ra_manager acc)) rid = Some r \<longrightarrow>
       map_of (rm_rooms (ra_manager (restore_row t row acc))) rid = Some r) \<and>
    RoomCount (ra_manager (restore_row t row acc)) + length (ra_restored acc) =
      RoomCount (ra_manager acc) + length (ra_restored (restore_row t row acc)) \<and>
    length (ra_restored (restore_row t row acc)) + length (ra_rejected (restore_row t row acc)) \<le>
      Suc (length (ra_restored acc) + length (ra_rejected acc))"
proof (cases "row_problem row")
  case None
  show ?thesis
  proof (cases "RestoreFrom (row_record row) t")
    case (Some r)
    have mid: "\<not> bad_id (br_match_id r)"
      using assms(2) None RestoreFrom_ids [OF Some] by (simp add: row_valid_def)
    show ?thesis
      using None Some index_inv_add_room [OF assms(1) _ _ mid] assms(1)
      by (auto simp: restore_row_def Let_def map_of_emplace emplace_fresh RoomCount_def)
  qed (use None assms in \<open>simp add: restore_row_def\<close>)
qed (use assms in \<open>simp add: restore_row_def\<close>)

lemma restore_fold:
  fixes t :: ms
  assumes "index_inv (ra_manager acc)" "\<forall>row \<in> set rows. row_valid row"
  defines "acc' \<equiv> fold (restore_row t) rows acc"
  shows "index_inv (ra_manager acc') \<and>
    (\<forall>rid r. map_of (rm_rooms (ra_manager acc)) rid = Some r \<longrightarrow> map_of (rm_rooms (ra_manager acc')) rid = Some r) \<and>
    RoomCount (ra_manager acc') + length (ra_restored acc) = RoomCount (ra_manager acc) + length (ra_restored acc') \<and>
    length (ra_restored acc') + length (ra_rejected acc') \<le>
      length rows + length (ra_restored acc) + length (ra_rejected acc)"
  using assms(1,2) unfolding acc'_def
proof (induction rows arbitrary: acc)
  case (Cons row rows)
  note s = restore_row_step [of acc row t]
  have 1: "index_inv (ra_manager (restore_row t row acc))" using s Cons.prems by simp
  from Cons.IH [OF 1] Cons.prems s show ?case by fastforce
qed simp

lemma RejectSnapshots_stored:
  "mysql_stored (RejectSnapshots (Some (mysql_snapshot_writer to_ts)) rej t db) = mysql_stored db"
  unfolding RejectSnapshots_def
  using mysql.saves_stored [of to_ts "map (\<lambda>e. aborted_record t (fst e)) rej" db]
  by (simp add: fold_map comp_def)

text \<open>A restart never damages what is already there, whatever the table of snapshots contains:
  rooms that exist keep their state, the two indexes stay consistent, every restored room is
  counted exactly once, no row is both restored and rejected, and no result is written or changed.
  If the rows cannot be read nothing changes at all.\<close>

lemma restore_is_safe:
  assumes "index_inv m"
    and "RoomManager_Restore (Some (mysql_snapshot_reader to_ts)) (Some (mysql_snapshot_writer to_ts)) t (m, db)
      = (rep, m', db')"
  shows "index_inv m' \<and> (\<forall>rid r. map_of (rm_rooms m) rid = Some r \<longrightarrow> map_of (rm_rooms m') rid = Some r) \<and>
    RoomCount m' = RoomCount m + rep_restored rep \<and>
    rep_restored rep + rep_rejected rep \<le> rep_scanned rep \<and>
    mysql_stored db' = mysql_stored db \<and> (rep_load_failed rep \<longrightarrow> m' = m)"
proof -
  obtain rows db1 where l: "MysqlRoomSnapshotReader_LoadUnfinished (Some (mysql_query to_ts)) db = (rows, db1)"
    by (metis prod.exhaust)
  have sr: "sr_LoadUnfinished (mysql_snapshot_reader to_ts) db = (rows, db1)"
    using l by (simp add: mysql_snapshot_reader_def)
  have st: "mysql_stored db1 = mysql_stored db" using mysql.load_stored [OF sr] .
  have valid: "rows = Some rs \<Longrightarrow> \<forall>row \<in> set rs. row_valid row" for rs
    using l by (auto simp: MysqlRoomSnapshotReader_LoadUnfinished_def row_valid_def parse_room_row_ok
        split: prod.splits option.splits)
  show ?thesis
  proof (cases rows)
    case None
    then show ?thesis using assms st sr by (auto simp: RoomManager_Restore_def RoomCount_def)
  next
    case (Some rs)
    define acc where "acc = fold (restore_row t) rs \<lparr>ra_manager = m, ra_rejected = [], ra_restored = []\<rparr>"
    have f: "index_inv (ra_manager acc) \<and>
        (\<forall>rid r. map_of (rm_rooms m) rid = Some r \<longrightarrow> map_of (rm_rooms (ra_manager acc)) rid = Some r) \<and>
        RoomCount (ra_manager acc) = RoomCount m + length (ra_restored acc) \<and>
        length (ra_restored acc) + length (ra_rejected acc) \<le> length rs"
      using restore_fold [of "\<lparr>ra_manager = m, ra_rejected = [], ra_restored = []\<rparr>" rs t] valid [OF Some] assms(1)
      by (simp add: acc_def)
    have "rep = \<lparr>rep_scanned = length rs, rep_restored = length (ra_restored acc),
        rep_rejected = length (ra_rejected acc), rep_load_failed = False\<rparr>" "m' = ra_manager acc"
      "db' = RejectSnapshots (Some (mysql_snapshot_writer to_ts)) (ra_rejected acc) t db1"
      using assms(2) sr Some by (auto simp: RoomManager_Restore_def Let_def acc_def)
    then show ?thesis using f st by (simp add: RejectSnapshots_stored)
  qed
qed

section \<open>What a restart preserves\<close>

text \<open>The rooms the match service creates: two different players, usable identifiers; and clock
  readings in the range of the columns.\<close>

definition well_identified :: "BattleRoom \<Rightarrow> bool" where
  "well_identified r \<longleftrightarrow> \<not> bad_id (br_room_id r) \<and> \<not> bad_id (br_match_id r) \<and>
     length (br_players r) = 2 \<and> distinct (player_ids r) \<and> list_all (\<lambda>p. \<not> bad_id p) (player_ids r)"

definition times_ok :: "BattleRoom \<Rightarrow> ms \<Rightarrow> bool" where
  "times_ok r t \<longleftrightarrow> 0 \<le> br_started_at_ms r \<and> 0 \<le> br_finished_at_ms r \<and>
     in_int64 (br_started_at_ms r) \<and> in_int64 (br_finished_at_ms r) \<and> in_int64 t"

lemma two_players:
  assumes "length xs = 2"
  obtains a b where "xs = [a, b]"
  using assms by (auto simp: numeral_2_eq_2 length_Suc_conv)

lemma MakeSnapshotRecord_two:
  "br_players r = [p0, p1] \<Longrightarrow> rr_players (MakeSnapshotRecord r t) = [player_record p0, player_record p1]"
  by (simp add: MakeSnapshotRecord_def Let_def player_slots_def Snapshot_def kPlayersPerRoom_def numeral_2_eq_2)

lemma MakeSnapshotRecord_sel [simp]:
  "rr_match_id (MakeSnapshotRecord r t) = br_match_id r" "rr_room_id (MakeSnapshotRecord r t) = br_room_id r"
  "rr_phase (MakeSnapshotRecord r t) = br_phase r" "rr_frame (MakeSnapshotRecord r t) = br_frame r"
  "rr_winner_id (MakeSnapshotRecord r t) = br_winner_id r"
  "rr_finish_reason (MakeSnapshotRecord r t) = br_finish_reason r"
  "rr_started_at_ms (MakeSnapshotRecord r t) = br_started_at_ms r"
  "rr_finished_at_ms (MakeSnapshotRecord r t) = br_finished_at_ms r"
  "rr_snapshot_at_ms (MakeSnapshotRecord r t) = t"
  by (simp_all add: MakeSnapshotRecord_def Let_def Snapshot_def)

lemma record_in_range:
  assumes "room_inv r" "well_identified r" "times_ok r t"
  shows "int64_record (MakeSnapshotRecord r t)"
proof -
  obtain p0 p1 where p: "br_players r = [p0, p1]"
    using assms(2) by (auto simp: well_identified_def elim: two_players)
  have f: "0 \<le> br_frame r" "br_frame r \<le> 600" "hp_ok p0" "hp_ok p1"
    using assms(1) by (simp_all add: room_inv_defs p kMaxFrames_def)
  then show ?thesis
    using assms(3) by (auto simp: int64_record_def MakeSnapshotRecord_two [OF p] player_record_def times_ok_def
        in_int64_def hp_ok_def kInitialHp_def)
qed

lemma record_is_valid:
  assumes "room_inv r" "well_identified r" "times_ok r t"
  shows "ValidateRoomSnapshot (MakeSnapshotRecord r t) = None"
proof -
  obtain p0 p1 where p: "br_players r = [p0, p1]"
    using assms(2) by (auto simp: well_identified_def elim: two_players)
  have i: "\<not> bad_id (ps_player_id p0)" "\<not> bad_id (ps_player_id p1)" "ps_player_id p0 \<noteq> ps_player_id p1"
    using assms(2) by (auto simp: well_identified_def player_ids_def p)
  have f: "0 \<le> br_frame r" "br_frame r \<le> kMaxFrames" "hp_ok p0" "hp_ok p1"
    using assms(1) by (simp_all add: room_inv_defs p)
  have v: "br_phase r = kPlaying \<or> br_phase r = kFinishing \<longrightarrow> ps_connected p0"
    "br_winner_id r = [] \<or> br_winner_id r = ps_player_id p0 \<or> br_winner_id r = ps_player_id p1"
    "br_phase r = kFinished \<or> br_phase r = kAborted \<longrightarrow> br_finish_reason r \<noteq> kNone"
    using assms(1) by (cases "br_phase r"; auto simp: room_inv_def verdict_inv_def p player_ids_def unfinished_def)+
  show ?thesis
    using i f v assms(2,3)
    by (auto simp: ValidateRoomSnapshot_def Let_def MakeSnapshotRecord_two [OF p] player_record_def
        well_identified_def times_ok_def hp_ok_def)
qed

text \<open>C25: a running or decided match survives a restart. The snapshot the service wrote, read back and
  rebuilt, is the same match: identifiers, phase, frame number, health, verdict and times; only the
  unsettled attacks and the history are gone, and both players count as connected again. The one
  exception, a match won by disconnection, is the subject of the next property.\<close>

theorem restart_preserves_the_match:
  assumes "room_inv r" and "well_identified r" and "times_ok r t"
    and "br_finish_reason r \<noteq> kDisconnect"
  shows "row_problem (parse_room_row (room_row (snapshot_params (MakeSnapshotRecord r t)))) = None \<and>
    (\<exists>r'. RestoreFrom (row_record (parse_room_row (room_row (snapshot_params (MakeSnapshotRecord r t))))) now = Some r' \<and>
      Snapshot r' = (Snapshot r)\<lparr>rs_players := map (\<lambda>p. p\<lparr>ps_online := True\<rparr>) (br_players r)\<rparr> \<and>
      br_pending_attack r' = [False, False] \<and> br_history r' = [Snapshot r'] \<and> br_last_tick_ms r' = now \<and>
      room_inv r' \<and> (br_phase r' = kFinishing \<longrightarrow> ShouldRetryPersist now r'))"
proof -
  obtain p0 p1 where p: "br_players r = [p0, p1]"
    using assms(2) by (auto simp: well_identified_def elim: two_players)
  note two = MakeSnapshotRecord_two [OF p, of t]
  note in_range = record_in_range [OF assms(1-3)]
  note rd = saved_room_fields [OF in_range two]
  have row: "parse_room_row (room_row (snapshot_params (MakeSnapshotRecord r t))) =
      \<lparr>row_record = MakeSnapshotRecord r t, row_problem = None\<rparr>"
    using rd assms(4) record_is_valid [OF assms(1-3)] by simp
  have wf: "record_wf (MakeSnapshotRecord r t)"
    using assms(1) by (auto simp: record_wf_def two kPlayersPerRoom_def player_record_def room_inv_defs p hp_ok_def
        player_ids_def)
  have ids: "ps_player_id p0 \<noteq> []" "ps_player_id p1 \<noteq> []" "ps_player_id p0 \<noteq> ps_player_id p1"
    using assms(2) by (auto simp: well_identified_def player_ids_def p bad_id_def)
  have ok: "restore_ids_ok (map rp_player_id (rr_players (MakeSnapshotRecord r t)))"
    using ids by (simp add: two player_record_def)
  obtain r' where r': "RestoreFrom (MakeSnapshotRecord r t) now = Some r'"
    using ok by (simp add: RestoreFrom_def two kPlayersPerRoom_def)
  have "Snapshot r' = (Snapshot r)\<lparr>rs_players := map (\<lambda>p. p\<lparr>ps_online := True\<rparr>) (br_players r)\<rparr>"
    using r' ok by (auto simp: RestoreFrom_def Snapshot_def two p restored_player_def player_record_def kPlayersPerRoom_def
        split: if_splits)
  moreover have "br_pending_attack r' = [False, False]" "br_history r' = [Snapshot r']" "br_last_tick_ms r' = now"
    "br_phase r' = kFinishing \<longrightarrow> ShouldRetryPersist now r'"
    using r' ok by (auto simp: RestoreFrom_def two kPlayersPerRoom_def numeral_2_eq_2 PushSnapshot_def Snapshot_def
        pop_front_to.simps kMaxSnapshotHistory_def ShouldRetryPersist_def split: if_splits)
  ultimately show ?thesis using r' room_inv_RestoreFrom [OF wf r'] by (simp add: row)
qed


lemma duel_well_identified: "well_identified duel" "times_ok duel 1200" "br_finish_reason duel = kNone"
  by (simp_all add: well_identified_def player_ids_def duel_fields times_ok_def bad_id_def room_consts)
     (simp_all add: duel_simps Let_def numeral_2_eq_2 in_int64_def)

theorem restart_preserves_the_match_witness:
  "\<exists>r'. RestoreFrom (row_record (parse_room_row (room_row (snapshot_params (MakeSnapshotRecord duel 1200))))) 5000 = Some r' \<and>
     br_phase r' = kPlaying \<and> map ps_hp (br_players r') = [100, 100]"
  using restart_preserves_the_match [OF room_inv_duel duel_well_identified(1,2), of 5000] duel_well_identified(3)
  by (auto simp: Snapshot_def duel_fields)

section \<open>The match a restart loses\<close>

lemma save_upsert_up:
  "db_faults db = [] \<Longrightarrow> rr_match_id rec \<noteq> [] \<Longrightarrow> rr_room_id rec \<noteq> [] \<Longrightarrow>
   sw_Save (mysql_snapshot_writer to_ts) rec db =
     (SnapshotWriteOk, db\<lparr>db_rooms := upsert_room (room_row (snapshot_params rec)) (db_rooms db)\<rparr>)"
  by (cases db) (simp add: mysql_snapshot_writer_def MysqlRoomSnapshotWriter_Save_def mysql_query_def)

lemma room_row_sel:
  "room_row (snapshot_params rec) ! 0 = Some (rr_match_id rec)"
  "room_row (snapshot_params rec) ! 1 = Some (rr_room_id rec)"
  "room_row (snapshot_params rec) ! 2 = Some (phase_ToString (rr_phase rec))"
  "room_row (snapshot_params rec) ! 14 = Some (to_string (rr_snapshot_at_ms rec))"
  "tl (room_row (snapshot_params rec)) ! Suc 0 = Some (phase_ToString (rr_phase rec))"
  by (simp_all add: room_row_def snapshot_params_def Let_def)

text \<open>C7: a match won because the opponent did not come back is lost by a restart that happens before its
  result is written. Its snapshot says \<open>finishing\<close> with the reason \<open>disconnect\<close>; the reader does not
  know that reason, so the room is not restored, the row is overwritten as \<open>aborted\<close>, and the result
  table never gets the winner.\<close>

theorem restart_loses_match_won_by_disconnect:
  assumes "room_inv r" and "well_identified r" and "times_ok r t" and "in_int64 now" and "t \<le> now"
    and "br_phase r = kFinishing" and "br_finish_reason r = kDisconnect"
    and "db_faults db = []" and "db_rooms db = [room_row (snapshot_params (MakeSnapshotRecord r t))]"
    and "RoomManager_Restore (Some (mysql_snapshot_reader to_ts)) (Some (mysql_snapshot_writer to_ts)) now
      (empty_manager, db) = (rep, m', db')"
  shows "rep_restored rep = 0 \<and> rep_rejected rep = 1 \<and> rm_rooms m' = [] \<and>
    map (\<lambda>row. row ! 2) (db_rooms db') = [Some ''aborted''] \<and> mysql_stored db' = mysql_stored db"
proof -
  obtain p0 p1 where p: "br_players r = [p0, p1]"
    using assms(2) by (auto simp: well_identified_def elim: two_players)
  let ?row = "room_row (snapshot_params (MakeSnapshotRecord r t))"
  define rec where "rec = (MakeSnapshotRecord r t)\<lparr>rr_finish_reason := kNone\<rparr>"
  note two = MakeSnapshotRecord_two [OF p, of t]
  note in_range = record_in_range [OF assms(1-3)]
  have row: "parse_room_row ?row = \<lparr>row_record = rec, row_problem = Some (UnknownReason ''disconnect'')\<rparr>"
    using saved_room_fields [OF in_range two] assms(7) by (simp add: rec_def)
  have "snd (run_sql to_ts SelectUnfinishedRooms [] db) = db \<and> fst (run_sql to_ts SelectUnfinishedRooms [] db) = [?row]"
    using assms(6) by (simp add: assms(9) room_row_sel)
  then have load: "sr_LoadUnfinished (mysql_snapshot_reader to_ts) db = (Some [parse_room_row ?row], db)"
    using assms(8) by (cases db)
      (auto simp: mysql_snapshot_reader_def MysqlRoomSnapshotReader_LoadUnfinished_def mysql_query_def prod_eq_iff)
  have ids: "rr_match_id rec \<noteq> []" "rr_room_id rec \<noteq> []"
    using assms(2) by (auto simp: rec_def well_identified_def bad_id_def)
  note res = assms(10) [unfolded RoomManager_Restore_def load prod.case option.case Let_def row fold.simps
      list.size id_apply comp_def restore_row_def]
  have db': "db' = db\<lparr>db_rooms := upsert_room (room_row (snapshot_params (aborted_record now rec))) (db_rooms db)\<rparr>"
    using res save_upsert_up [OF assms(8), of "aborted_record now rec" to_ts] ids
    by (simp add: RejectSnapshots_def aborted_record_def)
  have "ParseInt64 (Some (to_string t)) = t" "ParseInt64 (Some (to_string now)) = now"
    using assms(3,4) by (simp_all add: times_ok_def ParseInt64_to_string)
  then have "map (\<lambda>row. row ! 2) (db_rooms db') = [Some ''aborted'']"
    using assms(5) by (simp add: db' assms(9) merge_room_def room_row_sel aborted_record_def rec_def nth_Cons')
  then show ?thesis using res by (auto simp: db' empty_manager_def)
qed

theorem restart_loses_match_won_by_disconnect_witness:
  "rm_rooms (fst (snd (RoomManager_Restore (Some (mysql_snapshot_reader ts_of)) (Some (mysql_snapshot_writer ts_of))
     40000 (empty_manager, (empty_db [])\<lparr>db_rooms := [room_row (snapshot_params (MakeSnapshotRecord lost 32000))]\<rparr>)))) = [] \<and>
   br_winner_id lost = ''alice''"
proof -
  let ?db = "(empty_db [])\<lparr>db_rooms := [room_row (snapshot_params (MakeSnapshotRecord lost 32000))]\<rparr>"
  have inv: "room_inv lost"
    unfolding lost_tick [symmetric] duel_bob_gone_def by (intro room_inv_Tick room_inv_SetPresence room_inv_duel)
  have pl: "map ps_player_id (br_players lost) = [''alice'', ''bob'']"
    by (simp add: lost_def duel_bob_gone_fields)
  have "br_started_at_ms duel = 1000" by (simp add: duel_simps Let_def numeral_2_eq_2)
  then have started: "br_started_at_ms lost = 1000"
    by (simp add: lost_def duel_bob_gone_def BattleRoom_SetPresence_def split: option.splits)
  have len: "length (br_players lost) = 2" using arg_cong [OF pl, of length] by simp
  have "br_room_id lost = ''r-1''" "br_match_id lost = ''m-1''" by (simp_all add: lost_def duel_bob_gone_ids)
  then have wid: "well_identified lost"
    using len by (simp add: well_identified_def player_ids_def pl bad_id_def room_consts)
  have ts: "times_ok lost 32000" by (simp add: times_ok_def started in_int64_def) (simp add: lost_def)
  obtain rep m' db' where r: "RoomManager_Restore (Some (mysql_snapshot_reader ts_of)) (Some (mysql_snapshot_writer ts_of))
     40000 (empty_manager, ?db) = (rep, m', db')" by (metis prod.exhaust)
  show ?thesis
    using restart_loses_match_won_by_disconnect [OF inv wid ts _ _ _ _ _ _ r] r
    by (simp add: in_int64_def lost_def empty_db_def)
qed

end
