(* ===== verification/Gateway_Sessions.thy ===== *)
theory Gateway_Sessions
  imports Gateway_Props
begin

text \<open>
  The life of a session at the gateway over the Redis store: from the login that creates it to its expiry
  or the logout, and what becomes of a login whose request id was used before.
\<close>

text \<open>A request outside HTTP that brings its token in the body.\<close>

lemma ExtractToken_body [simp]: "t \<noteq> [] \<Longrightarrow> ExtractToken ctl t = t"
  by (simp add: ExtractToken_def)

lemma good_token:
  "IsValidTokenFormat (fresh_token engine w)" "fresh_token engine w \<noteq> []" "c_str (fresh_token engine w) = fresh_token engine w"
proof -
  show v: "IsValidTokenFormat (fresh_token engine w)"
    by (simp add: fresh_token_def GenerateToken_valid)
  show "fresh_token engine w \<noteq> []" using v by (auto simp: IsValidTokenFormat_def token_consts)
  have "CHR 0x00 \<notin> set (fresh_token engine w)"
    using v by (auto simp: IsValidTokenFormat_def list_all_iff kTokenAlphabet_def)
  then show "c_str (fresh_token engine w) = fresh_token engine w"
    unfolding c_str_def by (subst takeWhile_eq_all_conv) auto
qed

text \<open>A login with valid input and the right credentials comes down to creating a session.\<close>

definition login_accepted :: "'w GatewayDeps \<Rightarrow> LoginRequest \<Rightarrow> PlayerInfo \<Rightarrow> bool" where
  "login_accepted d q player \<longleftrightarrow> ValidateLoginRequest q = [] \<and>
     pd_Authenticate (gd_players d) (lr_account q) (lr_password q) = (\<lambda>w. ((CredentialOk, Some player), w))"

definition client_of :: "LoginRequest \<Rightarrow> string" where
  "client_of q = (if lr_client_type q = [] then ''web'' else lr_client_type q)"

lemma Login_creates:
  assumes "\<not> gs_shutting_down gs" "login_accepted d q player"
    and "ss_CreateSession (gd_sessions d) (lr_request_id q) (pi_player_id player) (client_of q) (gd_session_ttl d) w =
      ((StoreOk, Some t), w')"
  shows "serve_gateway d ctl (LoginReq q) (gs, hub, w) =
    respond ctl (lr_request_id q) (200, None) (LoginBody t (gd_session_ttl d) player) (gs, hub, w')"
  using assms
  by (simp add: Gateway_Login_def Reject_cases keep_hub_def login_accepted_def client_of_def respond_parts)

text \<open>Asking who I am, with a session in the store and without.\<close>

lemma CurrentPlayer_found:
  assumes "t \<noteq> []" "IsValidTokenFormat t" "ss_GetSession (gd_sessions d) t w = ((StoreOk, Some x), w)"
    and "pd_FindByPlayerId (gd_players d) (se_player_id x) w = (Some player, w)"
  shows "serve_gateway d ctl (CurrentPlayerReq t r) (gs, hub, w) =
    respond ctl r (200, None) (PlayerBody player) (gs, hub, w)"
  using assms
  by (simp add: Gateway_GetCurrentPlayer_def with_player_def ResolvePlayerId_def keep_hub_def ValidateToken_ok respond_parts)

lemma CurrentPlayer_missing:
  assumes "t \<noteq> []" "IsValidTokenFormat t" "ss_GetSession (gd_sessions d) t w = ((StoreNotFound, x), w)"
  shows "serve_gateway d ctl (CurrentPlayerReq t r) (gs, hub, w) =
    respond ctl r (gateway_FillError UNAUTHENTICATED ''session_not_found'' r) NoBody (gs, hub, w)"
  using assms
  by (simp add: Gateway_GetCurrentPlayer_def with_player_def ResolvePlayerId_def keep_hub_def ValidateToken_ok respond_parts)

lemma key_value_later [simp]:
  "key_value k w = Some (v, Some e) \<Longrightarrow> rk_now w \<le> now \<Longrightarrow> 
   key_value k (w\<lparr>rk_now := now\<rparr>) = (if now < e then Some (v, Some e) else None)"
  by (auto simp: key_value_def split: option.splits if_splits)

text \<open>What a successful login with a new request id leaves in the store.\<close>

lemma Login_new:
  assumes d: "gd_sessions d = redis_session_store engine p default_ttl" "CHR 0x00 \<notin> set p" "gd_session_ttl d > 0"
    and q: "login_accepted d q player" "\<not> gs_shutting_down gs"
    and w: "rk_net w = []" "key_value (c_str (KeyForLoginIdempotency p (lr_request_id q))) w = None"
      "key_value (c_str (KeyForSession p (fresh_token engine w))) w = None"
  obtains w1 h where
    "serve_gateway d ctl (LoginReq q) (gs, hub, w) =
      respond ctl (lr_request_id q) (200, None) (LoginBody (fresh_token engine w) (gd_session_ttl d) player) (gs, hub, w1)"
    "rk_now w1 = rk_now w" "rk_net w1 = []"
    "key_value (c_str (KeyForSession p (fresh_token engine w))) w1 = Some (RedisHash h, Some (rk_now w + gd_session_ttl d))"
    "map_of h ''token'' = Some (fresh_token engine w)" "map_of h ''player_id'' = Some (c_str (pi_player_id player))"
    "map_of h ''client_type'' = Some (c_str (client_of q))"
    "key_value (c_str (KeyForLoginIdempotency p (lr_request_id q))) w1 =
      Some (RedisString (fresh_token engine w), Some (rk_now w + min (gd_session_ttl d) kIdempotencyTtlSeconds))"
proof -
  let ?w = "w\<lparr>sw_seeds := tl (sw_seeds w)\<rparr>" and ?tok = "fresh_token engine w"
  obtain st y w1 where c: "RedisSessionStore_CreateSession Session_Store.redis_connection p default_ttl ?tok (rk_now w) (lr_request_id q)
      (pi_player_id player) (client_of q) (gd_session_ttl d) ?w = ((st, y), w1)" by (metis surj_pair)
  have fresh: "key_value (c_str (KeyForLoginIdempotency p (lr_request_id q))) ?w = None"
    "key_value (c_str (KeyForSession p ?tok)) ?w = None" using w(2,3) by simp_all
  have calm: "st = StoreOk" "rk_net w1 = []"
    using CreateSession_calm [OF d(2) _ fresh c d(3)] w(1) by simp_all
  note new = CreateSession_new [OF d(2) fresh c [unfolded calm(1)] d(3)]
  have "serve_gateway d ctl (LoginReq q) (gs, hub, w) =
      respond ctl (lr_request_id q) (200, None) (LoginBody ?tok (gd_session_ttl d) player) (gs, hub, w1)"
    using c new(1) by (intro Login_creates [OF q(2,1)]) (simp add: d(1) redis_session_store_def calm(1))
  then show ?thesis
    using that new calm(2) by (auto simp: good_token(3))
qed

lemma GetSession_later:
  assumes "gd_sessions d = redis_session_store engine p default_ttl" "rk_net w = []" "rk_now w \<le> now"
    and "key_value (c_str (KeyForSession p t)) w = Some (RedisHash h, Some e)"
    and "map_of h ''token'' = Some tok" "map_of h ''player_id'' = Some pl" "map_of h ''client_type'' = Some cl"
  shows "ss_GetSession (gd_sessions d) t (w\<lparr>rk_now := now\<rparr>) =
    (if now < e then (StoreOk, Some \<lparr>se_token = tok, se_player_id = pl, se_client_type = cl\<rparr>) else (StoreNotFound, None),
     w\<lparr>rk_now := now\<rparr>)"
proof -
  have k: "key_value (c_str (KeyForSession p t)) (w\<lparr>rk_now := now\<rparr>) = (if now < e then Some (RedisHash h, Some e) else None)"
    using assms(3,4) by simp
  have "rk_net (w\<lparr>rk_now := now\<rparr>) = []" using assms(2) by simp
  then show ?thesis
    using k assms(5-7) stored_session_hash [of p t "w\<lparr>rk_now := now\<rparr>" h "Some e" tok pl cl]
      stored_session_none [of p t "w\<lparr>rk_now := now\<rparr>"]
    by (auto simp: assms(1) redis_session_store_def GetSession_calm)
qed

lemma Logout_ends:
  assumes "gd_sessions d = redis_session_store engine p default_ttl" "rk_net w = []" "t \<noteq> []" "IsValidTokenFormat t"
  obtains w' where "serve_gateway d ctl (LogoutReq t r) (gs, hub, w) = respond ctl r (200, None) NoBody (gs, hub, w')"
    "rk_net w' = []" "\<And>now. ss_GetSession (gd_sessions d) t (w'\<lparr>rk_now := now\<rparr>) = ((StoreNotFound, None), w'\<lparr>rk_now := now\<rparr>)"
proof -
  let ?w' = "w\<lparr>rk_keys := AList.delete (c_str (KeyForSession p t)) (rk_keys w)\<rparr>"
  have run: "serve_gateway d ctl (LogoutReq t r) (gs, hub, w) = respond ctl r (200, None) NoBody (gs, hub, ?w')"
    using assms by (simp add: Gateway_Logout_def keep_hub_def ValidateToken_ok respond_parts redis_session_store_def DeleteSession_calm)
  have k: "key_value (c_str (KeyForSession p t)) (?w'\<lparr>rk_now := now\<rparr>) = None" for now
    by (simp add: key_value_def delete_conv')
  have "ss_GetSession (gd_sessions d) t (?w'\<lparr>rk_now := now\<rparr>) = ((StoreNotFound, None), ?w'\<lparr>rk_now := now\<rparr>)" for now
    using stored_session_none [OF k] assms(2) by (simp add: assms(1) redis_session_store_def GetSession_calm)
  then show ?thesis using that run assms(2) by simp
qed

text \<open>C10: a session lasts from its login to the logout or the end of its time to live. After a login with
  the right credentials and a new request id the answer carries a fresh token; with that token the
  gateway answers who the player is at any time before the time to live is over, and 401 from then on;
  and once a logout with it was answered, it is 401 at any time.\<close>

theorem session_lives_from_login_to_logout:
  assumes "gd_sessions d = redis_session_store engine p default_ttl" "CHR 0x00 \<notin> set p" "gd_session_ttl d > 0"
    and "login_accepted d q player" "\<not> gs_shutting_down gs" "CHR 0x00 \<notin> set (pi_player_id player)"
    and "pd_FindByPlayerId (gd_players d) (pi_player_id player) = (\<lambda>v. (Some player, v))"
    and "rk_net w = []" "key_value (c_str (KeyForLoginIdempotency p (lr_request_id q))) w = None"
      "key_value (c_str (KeyForSession p (fresh_token engine w))) w = None"
  shows "\<exists>t w1. serve_gateway d ctl (LoginReq q) (gs, hub, w) =
      respond ctl (lr_request_id q) (200, None) (LoginBody t (gd_session_ttl d) player) (gs, hub, w1) \<and>
    (\<forall>now \<ge> rk_now w. \<forall>ctl r s. serve_gateway d ctl (CurrentPlayerReq t r) (fst s, snd s, w1\<lparr>rk_now := now\<rparr>) =
       (if now < rk_now w + gd_session_ttl d
        then respond ctl r (200, None) (PlayerBody player) (fst s, snd s, w1\<lparr>rk_now := now\<rparr>)
        else respond ctl r (gateway_FillError UNAUTHENTICATED ''session_not_found'' r) NoBody (fst s, snd s, w1\<lparr>rk_now := now\<rparr>))) \<and>
    (\<forall>now \<ge> rk_now w. \<forall>ctl r s. \<exists>w2. serve_gateway d ctl (LogoutReq t r) (fst s, snd s, w1\<lparr>rk_now := now\<rparr>) =
         respond ctl r (200, None) NoBody (fst s, snd s, w2) \<and>
       (\<forall>later ctl r s. serve_gateway d ctl (CurrentPlayerReq t r) (fst s, snd s, w2\<lparr>rk_now := later\<rparr>) =
         respond ctl r (gateway_FillError UNAUTHENTICATED ''session_not_found'' r) NoBody (fst s, snd s, w2\<lparr>rk_now := later\<rparr>)))"
proof -
  let ?t = "fresh_token engine w" and ?e = "rk_now w + gd_session_ttl d"
  obtain w1 h where login: "serve_gateway d ctl (LoginReq q) (gs, hub, w) =
      respond ctl (lr_request_id q) (200, None) (LoginBody ?t (gd_session_ttl d) player) (gs, hub, w1)"
    and w1: "rk_now w1 = rk_now w" "rk_net w1 = []"
      "key_value (c_str (KeyForSession p ?t)) w1 = Some (RedisHash h, Some ?e)"
    and h: "map_of h ''token'' = Some ?t" "map_of h ''player_id'' = Some (c_str (pi_player_id player))"
      "map_of h ''client_type'' = Some (c_str (client_of q))"
    using Login_new [OF assms(1-5) assms(8-10)] by metis
  have pid: "c_str (pi_player_id player) = pi_player_id player"
    using assms(6) unfolding c_str_def by (subst takeWhile_eq_all_conv) auto
  note t = good_token(2,1) [of engine w]
  have me: "serve_gateway d ctl (CurrentPlayerReq ?t r) (fst s, snd s, w1\<lparr>rk_now := now\<rparr>) =
       (if now < ?e then respond ctl r (200, None) (PlayerBody player) (fst s, snd s, w1\<lparr>rk_now := now\<rparr>)
        else respond ctl r (gateway_FillError UNAUTHENTICATED ''session_not_found'' r) NoBody (fst s, snd s, w1\<lparr>rk_now := now\<rparr>))"
    if "rk_now w \<le> now" for now ctl r and s :: "GatewayService \<times> StreamHub option"
  proof -
    note get = GetSession_later [OF assms(1) w1(2) _ w1(3) h, of now]
    show ?thesis
    proof (cases "now < ?e")
      case True
      then show ?thesis
        using CurrentPlayer_found [OF t, of d "w1\<lparr>rk_now := now\<rparr>"] get that w1(1) assms(7) by (simp add: pid)
    next
      case False
      then show ?thesis
        using CurrentPlayer_missing [OF t, of d "w1\<lparr>rk_now := now\<rparr>"] get that w1(1) by simp
    qed
  qed
  have out: "\<exists>w2. serve_gateway d ctl (LogoutReq ?t r) (fst s, snd s, w1\<lparr>rk_now := now\<rparr>) =
         respond ctl r (200, None) NoBody (fst s, snd s, w2) \<and>
       (\<forall>later ctl r s. serve_gateway d ctl (CurrentPlayerReq ?t r) (fst s, snd s, w2\<lparr>rk_now := later\<rparr>) =
         respond ctl r (gateway_FillError UNAUTHENTICATED ''session_not_found'' r) NoBody (fst s, snd s, w2\<lparr>rk_now := later\<rparr>))"
    for now ctl r and s :: "GatewayService \<times> StreamHub option"
  proof -
    have "rk_net (w1\<lparr>rk_now := now\<rparr>) = []" using w1(2) by simp
    from Logout_ends [OF assms(1) this t] show ?thesis
      using CurrentPlayer_missing [OF t] by metis
  qed
  show ?thesis using login me out by blast
qed

text \<open>C8: a login is answered with somebody else's session. The token of a login is remembered under the
  request id alone. When a second player logs in with the request id of a first, for instance because both
  leave it empty, the answer names the second player but carries the token of the first, and with it the
  gateway takes him for the first.\<close>

theorem login_hands_out_another_players_session:
  assumes "gd_sessions d = redis_session_store engine p default_ttl" "CHR 0x00 \<notin> set p" "gd_session_ttl d > 0"
    and "login_accepted d q player" "\<not> gs_shutting_down gs" "CHR 0x00 \<notin> set (pi_player_id player)"
    and "pd_FindByPlayerId (gd_players d) (pi_player_id player) = (\<lambda>v. (Some player, v))"
    and "rk_net w = []" "key_value (c_str (KeyForLoginIdempotency p (lr_request_id q))) w = None"
      "key_value (c_str (KeyForSession p (fresh_token engine w))) w = None"
    and "login_accepted d q2 player2" "lr_request_id q2 = lr_request_id q"
    and "rk_now w \<le> now" "now < rk_now w + min (gd_session_ttl d) kIdempotencyTtlSeconds"
  shows "\<exists>t w1. serve_gateway d ctl (LoginReq q) (gs, hub, w) =
      respond ctl (lr_request_id q) (200, None) (LoginBody t (gd_session_ttl d) player) (gs, hub, w1) \<and>
    (\<exists>w2. serve_gateway d ctl2 (LoginReq q2) (gs, hub, w1\<lparr>rk_now := now\<rparr>) =
        respond ctl2 (lr_request_id q2) (200, None) (LoginBody t (gd_session_ttl d) player2) (gs, hub, w2) \<and>
      serve_gateway d ctl3 (CurrentPlayerReq t r) (gs, hub, w2) = respond ctl3 r (200, None) (PlayerBody player) (gs, hub, w2))"
proof -
  let ?t = "fresh_token engine w" and ?e = "rk_now w + gd_session_ttl d"
  obtain w1 h where login: "serve_gateway d ctl (LoginReq q) (gs, hub, w) =
      respond ctl (lr_request_id q) (200, None) (LoginBody ?t (gd_session_ttl d) player) (gs, hub, w1)"
    and w1: "rk_now w1 = rk_now w" "rk_net w1 = []"
      "key_value (c_str (KeyForSession p ?t)) w1 = Some (RedisHash h, Some ?e)"
      "key_value (c_str (KeyForLoginIdempotency p (lr_request_id q))) w1 =
        Some (RedisString ?t, Some (rk_now w + min (gd_session_ttl d) kIdempotencyTtlSeconds))"
    and h: "map_of h ''token'' = Some ?t" "map_of h ''player_id'' = Some (c_str (pi_player_id player))"
      "map_of h ''client_type'' = Some (c_str (client_of q))"
    using Login_new [OF assms(1-5) assms(8-10)] by metis
  have pid: "c_str (pi_player_id player) = pi_player_id player"
    using assms(6) unfolding c_str_def by (subst takeWhile_eq_all_conv) auto
  note t = good_token(2,1) [of engine w]
  let ?v = "w1\<lparr>rk_now := now, sw_seeds := tl (sw_seeds w1)\<rparr>"
  have known: "key_value (c_str (KeyForLoginIdempotency p (lr_request_id q2))) ?v =
      Some (RedisString ?t, Some (rk_now w + min (gd_session_ttl d) kIdempotencyTtlSeconds))"
    using w1(1,4) assms(12-14) by simp
  obtain st y w2 where c: "RedisSessionStore_CreateSession Session_Store.redis_connection p default_ttl
      (fresh_token engine (w1\<lparr>rk_now := now\<rparr>)) now (lr_request_id q2) (pi_player_id player2) (client_of q2) (gd_session_ttl d) ?v =
      ((st, y), w2)" by (metis surj_pair)
  note K = CreateSession_known [OF known t(1) c]
  have "rk_net ?v = []" using w1(2) by simp
  then have ok: "st = StoreOk" "y = Some ?t" "w2 = ?v" using K no_net [of ?v] by simp_all
  have "ss_CreateSession (gd_sessions d) (lr_request_id q2) (pi_player_id player2) (client_of q2) (gd_session_ttl d)
      (w1\<lparr>rk_now := now\<rparr>) = ((StoreOk, Some ?t), w2)"
    using c ok by (simp add: assms(1) redis_session_store_def)
  from Login_creates [OF assms(5,11) this]
  have second: "serve_gateway d ctl2 (LoginReq q2) (gs, hub, w1\<lparr>rk_now := now\<rparr>) =
      respond ctl2 (lr_request_id q2) (200, None) (LoginBody ?t (gd_session_ttl d) player2) (gs, hub, w2)" .
  have swap: "?v = w1\<lparr>sw_seeds := tl (sw_seeds w1), rk_now := now\<rparr>" by (cases w1) simp
  have "ss_GetSession (gd_sessions d) ?t w2 =
      ((StoreOk, Some \<lparr>se_token = ?t, se_player_id = c_str (pi_player_id player), se_client_type = c_str (client_of q)\<rparr>), w2)"
    using GetSession_later [OF assms(1), of "w1\<lparr>sw_seeds := tl (sw_seeds w1)\<rparr>" now ?t h ?e, OF _ _ _ h]
      w1(1-3) assms(13,14) ok(3) unfolding swap by (simp add: min_def split: if_splits)
  from CurrentPlayer_found [OF t this] have "serve_gateway d ctl3 (CurrentPlayerReq ?t r) (gs, hub, w2) =
      respond ctl3 r (200, None) (PlayerBody player) (gs, hub, w2)"
    using assms(7) by (simp add: pid)
  then show ?thesis using login second by blast
qed

section \<open>Alice and Bob\<close>

definition login_as :: "string \<Rightarrow> LoginRequest" where
  "login_as account = \<lparr>lr_account = account, lr_password = account @ ''_dev_pw'', lr_request_id = [], lr_client_type = []\<rparr>"

lemma sample_logins:
  "login_accepted sample_gateway (login_as ''alice'') \<lparr>pi_player_id = ''p-0001'', pi_display_name = ''Alice'', pi_status = ''active''\<rparr>"
  "login_accepted sample_gateway (login_as ''bob'') \<lparr>pi_player_id = ''p-0002'', pi_display_name = ''Bob'', pi_status = ''active''\<rparr>"
proof -
  have c: "ConstantTimeEquals x x" for x
    by (induction x) (auto simp: ConstantTimeEquals_def)
  show "login_accepted sample_gateway (login_as ''alice'') \<lparr>pi_player_id = ''p-0001'', pi_display_name = ''Alice'', pi_status = ''active''\<rparr>"
    "login_accepted sample_gateway (login_as ''bob'') \<lparr>pi_player_id = ''p-0002'', pi_display_name = ''Bob'', pi_status = ''active''\<rparr>"
    by (simp_all add: login_accepted_def login_as_def ValidateLoginRequest_def gateway_consts sample_gateway_def in_memory_directory_def
        InMemoryPlayerDirectory_Authenticate_def WithBuiltinAccounts_def kBuiltinProfiles_def FindTestPasswordHash_password
        credential_password_def kBuiltinAccounts_def entry_info_def c)
qed

lemma sample_facts:
  "gd_sessions sample_gateway = redis_session_store (\<lambda>seed i. 0) ''dev'' 60" "gd_session_ttl sample_gateway = 600"
  "pd_FindByPlayerId (gd_players sample_gateway) ''p-0001'' =
     (\<lambda>v. (Some \<lparr>pi_player_id = ''p-0001'', pi_display_name = ''Alice'', pi_status = ''active''\<rparr>, v))"
  by (simp_all add: sample_gateway_def in_memory_directory_def InMemoryPlayerDirectory_FindByPlayerId_def WithBuiltinAccounts_def
      kBuiltinProfiles_def entry_info_def)

lemma sample_premises:
  "CHR 0x00 \<notin> set ''dev''" "gd_session_ttl sample_gateway > 0" "\<not> gs_shutting_down GatewayService_new"
  "rk_net (new_world []) = []" "rk_now (new_world []) = 1000"
  "lr_request_id (login_as ''bob'') = lr_request_id (login_as ''alice'')"
  by (simp_all add: sample_facts(2) GatewayService_new_def new_world_def login_as_def)

lemma alice_premises:
  "CHR 0x00 \<notin> set (pi_player_id \<lparr>pi_player_id = ''p-0001'', pi_display_name = ''Alice'', pi_status = ''active''\<rparr>)"
  "pd_FindByPlayerId (gd_players sample_gateway) (pi_player_id \<lparr>pi_player_id = ''p-0001'', pi_display_name = ''Alice'', pi_status = ''active''\<rparr>) =
     (\<lambda>v. (Some \<lparr>pi_player_id = ''p-0001'', pi_display_name = ''Alice'', pi_status = ''active''\<rparr>, v))"
  by (simp_all add: sample_facts(3))

theorem session_lives_from_login_to_logout_witness:
  "\<exists>t w1. an_body (fst (serve_gateway sample_gateway None (LoginReq (login_as ''alice'')) (GatewayService_new, None, new_world []))) =
      LoginBody t 600 \<lparr>pi_player_id = ''p-0001'', pi_display_name = ''Alice'', pi_status = ''active''\<rparr> \<and>
    an_body (fst (serve_gateway sample_gateway None (CurrentPlayerReq t []) (GatewayService_new, None, w1\<lparr>rk_now := 1599\<rparr>))) =
      PlayerBody \<lparr>pi_player_id = ''p-0001'', pi_display_name = ''Alice'', pi_status = ''active''\<rparr> \<and>
    an_status_code (fst (serve_gateway sample_gateway None (CurrentPlayerReq t []) (GatewayService_new, None, w1\<lparr>rk_now := 1600\<rparr>))) = 401"
proof -
  let ?alice = "\<lparr>pi_player_id = ''p-0001'', pi_display_name = ''Alice'', pi_status = ''active''\<rparr>"
  obtain t w1 where login: "serve_gateway sample_gateway None (LoginReq (login_as ''alice'')) (GatewayService_new, None, new_world []) =
      respond None (lr_request_id (login_as ''alice'')) (200, None) (LoginBody t (gd_session_ttl sample_gateway) ?alice)
        (GatewayService_new, None, w1)"
    and me: "\<forall>now \<ge> rk_now (new_world []). \<forall>ctl r s. serve_gateway sample_gateway ctl (CurrentPlayerReq t r) (fst s, snd s, w1\<lparr>rk_now := now\<rparr>) =
       (if now < rk_now (new_world []) + gd_session_ttl sample_gateway
        then respond ctl r (200, None) (PlayerBody ?alice) (fst s, snd s, w1\<lparr>rk_now := now\<rparr>)
        else respond ctl r (gateway_FillError UNAUTHENTICATED ''session_not_found'' r) NoBody (fst s, snd s, w1\<lparr>rk_now := now\<rparr>))"
    using session_lives_from_login_to_logout [OF sample_facts(1) sample_premises(1,2) sample_logins(1) sample_premises(3) alice_premises
        sample_premises(4) key_value_new key_value_new, of None None] by blast
  have me: "serve_gateway sample_gateway None (CurrentPlayerReq t []) (GatewayService_new, None, w1\<lparr>rk_now := now\<rparr>) =
       (if now < 1600
        then respond None [] (200, None) (PlayerBody ?alice) (GatewayService_new, None, w1\<lparr>rk_now := now\<rparr>)
        else respond None [] (gateway_FillError UNAUTHENTICATED ''session_not_found'' []) NoBody (GatewayService_new, None, w1\<lparr>rk_now := now\<rparr>))"
    if "1000 \<le> now" for now
    using me [rule_format, of now None "[]" "(GatewayService_new, None)"] that
    by (simp only: sample_premises(5) sample_facts(2) fst_conv snd_conv) simp
  show ?thesis
    by (intro exI [of _ t] exI [of _ w1]) (simp only: login me [of 1599] me [of 1600] sample_facts(2), simp add: respond_parts)
qed

theorem login_hands_out_another_players_session_witness:
  "\<exists>t w1 w2. an_body (fst (serve_gateway sample_gateway None (LoginReq (login_as ''bob'')) (GatewayService_new, None, w1\<lparr>rk_now := 1100\<rparr>))) =
      LoginBody t 600 \<lparr>pi_player_id = ''p-0002'', pi_display_name = ''Bob'', pi_status = ''active''\<rparr> \<and>
    an_body (fst (serve_gateway sample_gateway None (CurrentPlayerReq t []) (GatewayService_new, None, w2))) =
      PlayerBody \<lparr>pi_player_id = ''p-0001'', pi_display_name = ''Alice'', pi_status = ''active''\<rparr>"
proof -
  let ?alice = "\<lparr>pi_player_id = ''p-0001'', pi_display_name = ''Alice'', pi_status = ''active''\<rparr>"
  have now: "rk_now (new_world []) \<le> 1100" "1100 < rk_now (new_world []) + min (gd_session_ttl sample_gateway) kIdempotencyTtlSeconds"
    by (simp_all add: sample_premises(5) sample_facts(2) kIdempotencyTtlSeconds_def)
  obtain t w1 w2 where
    "serve_gateway sample_gateway None (LoginReq (login_as ''bob'')) (GatewayService_new, None, w1\<lparr>rk_now := 1100\<rparr>) =
        respond None (lr_request_id (login_as ''bob'')) (200, None) (LoginBody t (gd_session_ttl sample_gateway)
          \<lparr>pi_player_id = ''p-0002'', pi_display_name = ''Bob'', pi_status = ''active''\<rparr>) (GatewayService_new, None, w2)"
    "serve_gateway sample_gateway None (CurrentPlayerReq t []) (GatewayService_new, None, w2) =
        respond None [] (200, None) (PlayerBody ?alice) (GatewayService_new, None, w2)"
    using login_hands_out_another_players_session [OF sample_facts(1) sample_premises(1,2) sample_logins(1) sample_premises(3) alice_premises
        sample_premises(4) key_value_new key_value_new sample_logins(2) sample_premises(6) now, of None None None None "[]"] by blast
  then show ?thesis
    by (intro exI [of _ t] exI [of _ w1] exI [of _ w2]) (simp only: respond_parts fst_conv Answer.select_convs sample_facts(2))
qed

end
