(* ===== verification/Metrics.thy ===== *)
theory Metrics
  imports Decimal Complex_Main "HOL-Library.Char_ord" "HOL-Library.List_Lexorder" "HOL-Library.Product_Lexorder"
begin

text \<open>
  The metrics registry, \<^verbatim>\<open>src/common/metrics.cpp\<close>: counters, gauges and histograms, and their text for
  the scraper.

  A \<^verbatim>\<open>double\<close> is a real number; its addition and its printing with \<^verbatim>\<open>%.6g\<close> are parameters. A handle of a
  counter is the index of its cell, none for a default-constructed one. The call-back of a gauge reads a
  world \<^typ>\<open>'w\<close> it may change. \<^verbatim>\<open>std::sort\<close> leaves the order of equal elements open; the model keeps the
  order of registration. \<^verbatim>\<open>std::lower_bound\<close> is the first bound that is not smaller, as it is for the
  ascending bounds the interface asks for.
\<close>

section \<open>Data\<close>

type_synonym labels = "(string \<times> string) list"

type_synonym CounterHandle = "nat option"

record CounterCell =
  cc_name :: string
  cc_help :: string
  cc_labels :: labels
  cc_value :: "64 word"

record 'w GaugeEntry =
  gg_name :: string
  gg_help :: string
  gg_labels :: labels
  gg_read :: "('w \<Rightarrow> 64 word \<times> 'w) option"

record Histogram =
  hg_name :: string
  hg_help :: string
  hg_labels :: labels
  hg_bounds :: "real list"
  hg_bucket_counts :: "64 word list"
  hg_count :: "64 word"
  hg_sum :: real

record 'w MetricsRegistry =
  mr_counters :: "CounterCell list"
  mr_counter_index :: "(string, nat) umap"
  mr_gauges :: "'w GaugeEntry list"
  mr_histograms :: "Histogram list"

definition MetricsRegistry_new :: "'w MetricsRegistry" where
  "MetricsRegistry_new = \<lparr>mr_counters = [], mr_counter_index = [], mr_gauges = [], mr_histograms = []\<rparr>"

definition DefaultBounds :: "real list" where
  "DefaultBounds = [0.001, 0.005, 0.01, 0.025, 0.05, 0.1, 0.25, 0.5, 1, 2, 5]"

section \<open>Labels\<close>

fun join_comma :: "string list \<Rightarrow> string" where
  "join_comma [] = []"
| "join_comma [x] = x"
| "join_comma (x # xs) = x @ '','' @ join_comma xs"

definition LabelKey :: "string \<Rightarrow> labels \<Rightarrow> string" where
  "LabelKey name ls = (if ls = [] then name else name @ ''{'' @ join_comma (map (\<lambda>(k, v). k @ ''='' @ v) ls) @ ''}'')"

definition escape_label_char :: "char \<Rightarrow> string" where
  "escape_label_char ch =
     (if ch = CHR 0x22 then [CHR 0x5C, CHR 0x22]
      else if ch = CHR 0x5C then [CHR 0x5C, CHR 0x5C]
      else if ch = CHR 0x0A then [CHR 0x5C, CHR ''n'']
      else [ch])"

definition EscapeLabelValue :: "string \<Rightarrow> string" where
  "EscapeLabelValue value = concat (map escape_label_char value)"

definition RenderLabels :: "labels \<Rightarrow> string" where
  "RenderLabels ls =
     (if ls = [] then []
      else ''{'' @ join_comma (map (\<lambda>(k, v). k @ [CHR ''='', CHR 0x22] @ EscapeLabelValue v @ [CHR 0x22]) ls) @ ''}'')"

section \<open>Registration and counting\<close>

definition Counter :: "string \<Rightarrow> string \<Rightarrow> labels \<Rightarrow> 'w MetricsRegistry \<Rightarrow> CounterHandle \<times> 'w MetricsRegistry" where
  "Counter name help ls m =
     (let key = LabelKey name ls in
      case map_of (mr_counter_index m) key of
        Some i \<Rightarrow> (Some i, m)
      | None \<Rightarrow>
          let i = length (mr_counters m);
              cell = \<lparr>cc_name = name, cc_help = help, cc_labels = ls, cc_value = 0\<rparr>
          in (Some i, m\<lparr>mr_counters := mr_counters m @ [cell], mr_counter_index := emplace key i (mr_counter_index m)\<rparr>))"

definition CounterHandle_Add :: "CounterHandle \<Rightarrow> 64 word \<Rightarrow> 'w MetricsRegistry \<Rightarrow> 'w MetricsRegistry" where
  "CounterHandle_Add h delta m =
     (case h of None \<Rightarrow> m
      | Some i \<Rightarrow> m\<lparr>mr_counters := (mr_counters m)[i := (mr_counters m ! i)\<lparr>cc_value := cc_value (mr_counters m ! i) + delta\<rparr>]\<rparr>)"

definition CounterHandle_Value :: "CounterHandle \<Rightarrow> 'w MetricsRegistry \<Rightarrow> 64 word" where
  "CounterHandle_Value h m = (case h of None \<Rightarrow> 0 | Some i \<Rightarrow> cc_value (mr_counters m ! i))"

definition Gauge :: "string \<Rightarrow> string \<Rightarrow> ('w \<Rightarrow> 64 word \<times> 'w) option \<Rightarrow> labels \<Rightarrow> 'w MetricsRegistry \<Rightarrow> 'w MetricsRegistry" where
  "Gauge name help read ls m =
     (if list_ex (\<lambda>e. gg_name e = name \<and> gg_labels e = ls) (mr_gauges m) then m
      else m\<lparr>mr_gauges := mr_gauges m @ [\<lparr>gg_name = name, gg_help = help, gg_labels = ls, gg_read = read\<rparr>]\<rparr>)"

text \<open>One observation enters the smallest bucket that holds it; beyond the last bound it enters none.\<close>

definition record_value :: "(real \<Rightarrow> real \<Rightarrow> real) \<Rightarrow> real \<Rightarrow> Histogram \<Rightarrow> Histogram" where
  "record_value plus_double value h =
     (let observed = (if value < 0 then 0 else value);
          h1 = h\<lparr>hg_count := hg_count h + 1, hg_sum := plus_double (hg_sum h) observed\<rparr>
      in case first_index (\<lambda>b. \<not> b < observed) (hg_bounds h) of
           None \<Rightarrow> h1
         | Some i \<Rightarrow> h1\<lparr>hg_bucket_counts := (hg_bucket_counts h)[i := hg_bucket_counts h ! i + 1]\<rparr>)"

definition new_histogram :: "string \<Rightarrow> string \<Rightarrow> real list \<Rightarrow> labels \<Rightarrow> Histogram" where
  "new_histogram name help requested ls =
     (let bounds = (if requested = [] then DefaultBounds else requested)
      in \<lparr>hg_name = name, hg_help = help, hg_labels = ls, hg_bounds = bounds,
          hg_bucket_counts = replicate (length bounds) 0, hg_count = 0, hg_sum = 0\<rparr>)"

definition Observe ::
  "(real \<Rightarrow> real \<Rightarrow> real) \<Rightarrow> string \<Rightarrow> string \<Rightarrow> real \<Rightarrow> real list \<Rightarrow> labels \<Rightarrow> 'w MetricsRegistry \<Rightarrow> 'w MetricsRegistry" where
  "Observe plus_double name help value requested ls m =
     (case first_index (\<lambda>h. hg_name h = name \<and> hg_labels h = ls) (mr_histograms m) of
        Some i \<Rightarrow> m\<lparr>mr_histograms := (mr_histograms m)[i := record_value plus_double value (mr_histograms m ! i)]\<rparr>
      | None \<Rightarrow> m\<lparr>mr_histograms := mr_histograms m @ [record_value plus_double value (new_histogram name help requested ls)]\<rparr>)"

section \<open>The exposition\<close>

definition newline :: string where "newline = [CHR 0x0A]"

definition uint_text :: "64 word \<Rightarrow> string" where
  "uint_text v = nat_digits (unat v)"

definition write_header :: "string \<Rightarrow> string \<Rightarrow> string \<Rightarrow> string \<times> string \<Rightarrow> string \<times> string" where
  "write_header name help kind s =
     (if name \<noteq> fst s
      then (name, snd s @ ''# HELP '' @ name @ '' '' @ help @ newline @ ''# TYPE '' @ name @ '' '' @ kind @ newline)
      else s)"

definition write_counter :: "CounterCell \<Rightarrow> string \<times> string \<Rightarrow> string \<times> string" where
  "write_counter c s =
     apsnd (\<lambda>out. out @ cc_name c @ RenderLabels (cc_labels c) @ '' '' @ uint_text (cc_value c) @ newline)
       (write_header (cc_name c) (cc_help c) ''counter'' s)"

definition write_gauge :: "'w GaugeEntry \<Rightarrow> (string \<times> string) \<times> 'w \<Rightarrow> (string \<times> string) \<times> 'w" where
  "write_gauge g s =
     (case (case gg_read g of None \<Rightarrow> (0, snd s) | Some read \<Rightarrow> read (snd s)) of (value, w) \<Rightarrow>
       (apsnd (\<lambda>out. out @ gg_name g @ RenderLabels (gg_labels g) @ '' '' @ uint_text value @ newline)
          (write_header (gg_name g) (gg_help g) ''gauge'' (fst s)), w))"

fun cumulative :: "64 word \<Rightarrow> 64 word list \<Rightarrow> 64 word list" where
  "cumulative acc [] = []"
| "cumulative acc (n # ns) = (acc + n) # cumulative (acc + n) ns"

definition write_histogram :: "(real \<Rightarrow> string) \<Rightarrow> Histogram \<Rightarrow> string \<times> string \<Rightarrow> string \<times> string" where
  "write_histogram RenderNumber h s =
     (let label_text = (\<lambda>bound. RenderLabels (hg_labels h @ [(''le'', bound)]));
          bucket = (\<lambda>bound n. hg_name h @ ''_bucket'' @ label_text bound @ '' '' @ uint_text n @ newline)
      in apsnd (\<lambda>out. out
           @ concat (map (\<lambda>(b, n). bucket (RenderNumber b) n) (zip (hg_bounds h) (cumulative 0 (hg_bucket_counts h))))
           @ bucket ''+Inf'' (hg_count h)
           @ hg_name h @ ''_sum'' @ RenderLabels (hg_labels h) @ '' '' @ RenderNumber (hg_sum h) @ newline
           @ hg_name h @ ''_count'' @ RenderLabels (hg_labels h) @ '' '' @ uint_text (hg_count h) @ newline)
         (write_header (hg_name h) (hg_help h) ''histogram'' s))"

definition TextExposure :: "(real \<Rightarrow> string) \<Rightarrow> 'w MetricsRegistry \<Rightarrow> 'w \<Rightarrow> string \<times> 'w" where
  "TextExposure RenderNumber m w =
     (let counters = sort_key (\<lambda>c. (cc_name c, RenderLabels (cc_labels c))) (mr_counters m);
          gauges = sort_key (\<lambda>g. (gg_name g, RenderLabels (gg_labels g))) (mr_gauges m);
          histograms = sort_key hg_name (mr_histograms m)
      in case fold write_gauge gauges (fold write_counter counters ([], []), w) of (s, w') \<Rightarrow>
           (snd (fold (write_histogram RenderNumber) histograms s), w'))"

definition MetricCount :: "'w MetricsRegistry \<Rightarrow> nat" where
  "MetricCount m = length (mr_counters m) + length (mr_gauges m) + length (mr_histograms m)"

text \<open>The endpoint, \<^verbatim>\<open>src/common/metrics_service.cpp\<close>: the status and the body of its answer.\<close>

definition MetricsService_Scrape :: "(real \<Rightarrow> string) \<Rightarrow> 'w MetricsRegistry \<Rightarrow> 'w \<Rightarrow> (int \<times> string) \<times> 'w" where
  "MetricsService_Scrape RenderNumber m w =
     (case TextExposure RenderNumber m w of (body, w') \<Rightarrow>
        (if body = [] \<and> MetricCount m > 0 then (500, []) else (200, body), w'))"

section \<open>Histograms\<close>

text \<open>An observation: name, help, value, bounds and labels.\<close>

type_synonym observation = "string \<times> string \<times> real \<times> real list \<times> labels"

definition observe_all :: "(real \<Rightarrow> real \<Rightarrow> real) \<Rightarrow> observation list \<Rightarrow> 'w MetricsRegistry \<Rightarrow> 'w MetricsRegistry" where
  "observe_all plus_double obs m =
     fold (\<lambda>(name, help, value, bounds, ls). Observe plus_double name help value bounds ls) obs m"

definition series :: "string \<Rightarrow> labels \<Rightarrow> observation list \<Rightarrow> observation list" where
  "series name ls obs = filter (\<lambda>(n, help, value, bounds, l). n = name \<and> l = ls) obs"

definition series_bounds :: "observation list \<Rightarrow> real list" where
  "series_bounds own = (case own of [] \<Rightarrow> [] | (n, help, value, bounds, l) # _ \<Rightarrow> if bounds = [] then DefaultBounds else bounds)"

definition values_upto :: "real \<Rightarrow> observation list \<Rightarrow> nat" where
  "values_upto b own = length (filter (\<lambda>(n, help, value, bounds, l). max 0 value \<le> b) own)"

text \<open>How a histogram stands to the observations of its series.\<close>

definition hist_ok :: "observation list \<Rightarrow> Histogram \<Rightarrow> bool" where
  "hist_ok own h \<longleftrightarrow> own \<noteq> [] \<and> hg_bounds h = series_bounds own \<and>
     length (hg_bucket_counts h) = length (hg_bounds h) \<and> hg_count h = word_of_nat (length own) \<and>
     (sorted (hg_bounds h) \<longrightarrow>
       cumulative 0 (hg_bucket_counts h) = map (\<lambda>b. word_of_nat (values_upto b own)) (hg_bounds h))"

lemma length_cumulative [simp]: "length (cumulative acc ns) = length ns"
  by (induction acc ns rule: cumulative.induct) auto

lemma nth_cumulative: "i < length ns \<Longrightarrow> cumulative acc ns ! i = acc + sum_list (take (Suc i) ns)"
proof (induction ns arbitrary: acc i)
  case (Cons n ns)
  then show ?case by (cases i) (simp_all add: add.assoc)
qed simp

lemma sum_list_take_update:
  "i < length ns \<Longrightarrow> sum_list (take (Suc k) (ns[i := ns ! i + 1])) = sum_list (take (Suc k) ns) + (if i \<le> k then 1 else 0 :: 64 word)"
proof (induction ns arbitrary: i k)
  case (Cons n ns)
  show ?case
  proof (cases i)
    case (Suc j)
    then show ?thesis using Cons by (cases k) (simp_all add: add.assoc)
  qed simp
qed simp

lemma first_bound_le:
  assumes "sorted bs" "k < length bs"
  shows "(case first_index (\<lambda>b. \<not> b < (x :: real)) bs of None \<Rightarrow> False | Some i \<Rightarrow> i \<le> k) \<longleftrightarrow> x \<le> bs ! k"
proof (cases "first_index (\<lambda>b. \<not> b < x) bs")
  case None
  then have "bs ! k < x" using assms(2) by (force simp: first_index_None)
  then show ?thesis using None by simp
next
  case (Some i)
  note i = first_index_SomeD [OF Some]
  show ?thesis
  proof (cases "i \<le> k")
    case True
    then show ?thesis using Some i sorted_nth_mono [OF assms(1) True assms(2)] by auto
  next
    case False
    then have "bs ! k < x" using i by auto
    then show ?thesis using Some False by simp
  qed
qed

lemma record_value_keeps [simp]:
  "hg_name (record_value f v h) = hg_name h" "hg_labels (record_value f v h) = hg_labels h"
  "hg_bounds (record_value f v h) = hg_bounds h" "hg_count (record_value f v h) = hg_count h + 1"
  "length (hg_bucket_counts (record_value f v h)) = length (hg_bucket_counts h)"
  by (simp_all add: record_value_def Let_def split: option.split)

lemma record_value_cumulative:
  assumes "length (hg_bucket_counts h) = length (hg_bounds h)" "sorted (hg_bounds h)" "k < length (hg_bounds h)"
  shows "cumulative 0 (hg_bucket_counts (record_value f v h)) ! k =
    cumulative 0 (hg_bucket_counts h) ! k + (if max 0 v \<le> hg_bounds h ! k then 1 else 0)"
proof -
  define x where "x = (if v < 0 then 0 else v)"
  have x: "x = max 0 v" by (simp add: x_def)
  note le = first_bound_le [OF assms(2,3), of x]
  show ?thesis
  proof (cases "first_index (\<lambda>b. \<not> b < x) (hg_bounds h)")
    case None
    then show ?thesis using le x by (simp add: record_value_def Let_def x_def [symmetric])
  next
    case (Some i)
    then have "i < length (hg_bucket_counts h)" using first_index_SomeD [OF Some] assms(1) by simp
    then show ?thesis
      using Some le x assms(1,3)
      by (simp add: record_value_def Let_def x_def [symmetric] nth_cumulative sum_list_take_update)
  qed
qed

lemma hist_ok_record:
  assumes "hist_ok own h"
  shows "hist_ok (own @ [(n, help, v, bs, l)]) (record_value f v h)"
proof -
  have b: "series_bounds (own @ [(n, help, v, bs, l)]) = series_bounds own"
    using assms by (cases own) (auto simp: hist_ok_def series_bounds_def)
  have "cumulative 0 (hg_bucket_counts (record_value f v h)) =
      map (\<lambda>b. word_of_nat (values_upto b (own @ [(n, help, v, bs, l)]))) (hg_bounds h)" if "sorted (hg_bounds h)"
    using assms that record_value_cumulative [OF _ that, of _ f v]
    by (intro nth_equalityI) (auto simp: hist_ok_def values_upto_def)
  then show ?thesis using assms b by (auto simp: hist_ok_def)
qed

lemma hist_ok_new: "hist_ok [(n, help, v, bs, l)] (record_value f v (new_histogram n help bs l))"
proof -
  let ?h = "new_histogram n help bs l"
  have len: "length (hg_bucket_counts ?h) = length (hg_bounds ?h)" by (simp add: new_histogram_def Let_def)
  have zero: "cumulative 0 (replicate k 0) ! i = 0" if "i < k" for i k :: nat
    using that by (simp add: nth_cumulative sum_list_replicate min_def)
  have "cumulative 0 (hg_bucket_counts (record_value f v ?h)) =
      map (\<lambda>b. word_of_nat (values_upto b [(n, help, v, bs, l)])) (hg_bounds ?h)" if "sorted (hg_bounds ?h)"
    using record_value_cumulative [OF len that, of _ f v] len
    by (intro nth_equalityI) (auto simp: values_upto_def zero new_histogram_def Let_def)
  then show ?thesis using len by (simp add: hist_ok_def series_bounds_def new_histogram_def Let_def)
qed

definition histograms_ok :: "observation list \<Rightarrow> 'w MetricsRegistry \<Rightarrow> bool" where
  "histograms_ok obs m \<longleftrightarrow>
     (\<forall>name ls. case first_index (\<lambda>h. hg_name h = name \<and> hg_labels h = ls) (mr_histograms m) of
        None \<Rightarrow> series name ls obs = []
      | Some i \<Rightarrow> hist_ok (series name ls obs) (mr_histograms m ! i))"

lemma first_index_append:
  "first_index P (xs @ ys) =
     (case first_index P xs of Some i \<Rightarrow> Some i | None \<Rightarrow> map_option (\<lambda>i. i + length xs) (first_index P ys))"
  by (induction xs) (auto split: option.split simp: option.map_comp comp_def option.map_ident)

lemma series_snoc:
  "series name ls (obs @ [(n, help, v, bs, l)]) = series name ls obs @ (if n = name \<and> l = ls then [(n, help, v, bs, l)] else [])"
  by (simp add: series_def)

lemma histograms_ok_Observe:
  assumes "histograms_ok obs m"
  shows "histograms_ok (obs @ [(n, help, v, bs, l)]) (Observe f n help v bs l m)"
proof -
  let ?P = "\<lambda>name ls h. hg_name h = name \<and> hg_labels h = ls" and ?hs = "mr_histograms m"
  have old: "case first_index (?P name ls) ?hs of None \<Rightarrow> series name ls obs = [] | Some i \<Rightarrow> hist_ok (series name ls obs) (?hs ! i)" for name ls
    using assms by (simp add: histograms_ok_def)
  show ?thesis
  proof (cases "first_index (?P n l) ?hs")
    case None
    then have m: "mr_histograms (Observe f n help v bs l m) = ?hs @ [record_value f v (new_histogram n help bs l)]"
      by (simp add: Observe_def)
    have new: "?P n l (record_value f v (new_histogram n help bs l))" by (simp add: new_histogram_def Let_def)
    have e: "series n l obs = []" using old [of n l] None by simp
    show ?thesis unfolding histograms_ok_def m
    proof (intro allI)
      fix name ls
      show "case first_index (?P name ls) (?hs @ [record_value f v (new_histogram n help bs l)]) of
          None \<Rightarrow> series name ls (obs @ [(n, help, v, bs, l)]) = []
        | Some i \<Rightarrow> hist_ok (series name ls (obs @ [(n, help, v, bs, l)])) ((?hs @ [record_value f v (new_histogram n help bs l)]) ! i)"
        using old [of name ls] None new e hist_ok_new
        by (cases "first_index (?P name ls) ?hs")
           (auto simp: first_index_append series_snoc nth_append dest: first_index_SomeD)
    qed
  next
    case (Some i)
    note i = first_index_SomeD [OF Some]
    then have m: "mr_histograms (Observe f n help v bs l m) = ?hs[i := record_value f v (?hs ! i)]"
      using Some by (simp add: Observe_def)
    have same: "first_index (?P name ls) (?hs[i := record_value f v (?hs ! i)]) = first_index (?P name ls) ?hs" for name ls
      using first_index_cong [of "\<lambda>h. (hg_name h, hg_labels h)" "?hs[i := record_value f v (?hs ! i)]" ?hs "\<lambda>(a, b). a = name \<and> b = ls"] i
      by (simp add: map_update list_update_same_conv)
    show ?thesis unfolding histograms_ok_def m same
    proof (intro allI)
      fix name ls
      show "case first_index (?P name ls) ?hs of None \<Rightarrow> series name ls (obs @ [(n, help, v, bs, l)]) = []
        | Some j \<Rightarrow> hist_ok (series name ls (obs @ [(n, help, v, bs, l)])) (?hs[i := record_value f v (?hs ! i)] ! j)"
      proof (cases "name = n \<and> ls = l")
        case True
        then show ?thesis using old [of n l] Some i by (simp add: series_snoc hist_ok_record)
      next
        case False
        have "j \<noteq> i" if "first_index (?P name ls) ?hs = Some j" for j
          using first_index_SomeD [OF that] i False by auto
        then show ?thesis using old [of name ls] False by (auto simp: series_snoc split: option.splits)
      qed
    qed
  qed
qed

text \<open>C40: a histogram counts every observation once. After any run of observations the registry has a
  histogram for exactly the names and labels observed, whose bounds are those of the first observation
  (the default ones when it gave none), whose count is the number of observations of that name and those
  labels, and whose cumulative bucket for a bound is the number of them up to that bound (negative values
  counting as 0), when the bounds ascend.\<close>

theorem histograms_count_every_observation:
  "let hs = mr_histograms (observe_all plus_double obs (MetricsRegistry_new :: 'w MetricsRegistry)) in
   case first_index (\<lambda>h. hg_name h = name \<and> hg_labels h = ls) hs of
     None \<Rightarrow> series name ls obs = []
   | Some i \<Rightarrow> hist_ok (series name ls obs) (hs ! i)"
proof -
  have "histograms_ok obs (observe_all plus_double obs (MetricsRegistry_new :: 'w MetricsRegistry))"
  proof (induction obs rule: rev_induct)
    case Nil
    then show ?case by (simp add: histograms_ok_def observe_all_def MetricsRegistry_new_def series_def)
  next
    case (snoc x obs)
    then show ?case
      using histograms_ok_Observe [of obs _ "fst x" "fst (snd x)" "fst (snd (snd x))"]
      by (cases x) (auto simp: observe_all_def)
  qed
  then show ?thesis by (simp add: histograms_ok_def Let_def)
qed

section \<open>Counters\<close>

text \<open>The index of the counters is a text of the name and the labels that is not escaped. It tells names
  and labels apart when they do not contain the characters that separate them.\<close>

definition clean_metric :: "string \<Rightarrow> labels \<Rightarrow> bool" where
  "clean_metric name ls \<longleftrightarrow> CHR ''{'' \<notin> set name \<and>
     list_all (\<lambda>(k, v). CHR ''='' \<notin> set k \<and> CHR '','' \<notin> set k \<and> CHR '','' \<notin> set v) ls"

lemma append_sep_inj:
  "c \<notin> set x \<Longrightarrow> c \<notin> set y \<Longrightarrow> x @ c # s = y @ c # t \<longleftrightarrow> x = y \<and> s = t"
proof (induction x arbitrary: y)
  case Nil
  then show ?case by (cases y) auto
next
  case (Cons a x)
  then show ?case by (cases y) auto
qed

lemma join_comma_Cons: "xs \<noteq> [] \<Longrightarrow> join_comma (x # xs) = x @ CHR '','' # join_comma xs"
  by (cases xs) auto

lemma join_comma_inj:
  "xs \<noteq> [] \<Longrightarrow> ys \<noteq> [] \<Longrightarrow> list_all (\<lambda>x. CHR '','' \<notin> set x) xs \<Longrightarrow> list_all (\<lambda>y. CHR '','' \<notin> set y) ys \<Longrightarrow>
   join_comma xs = join_comma ys \<Longrightarrow> xs = ys"
proof (induction xs arbitrary: ys)
  case (Cons x xs)
  obtain y ys' where ys: "ys = y # ys'" using Cons.prems(2) by (cases ys) auto
  consider "xs = []" "ys' = []" | "xs = []" "ys' \<noteq> []" | "xs \<noteq> []" "ys' = []" | "xs \<noteq> []" "ys' \<noteq> []" by blast
  then show ?case
  proof cases
    case 2
    then have "CHR '','' \<in> set x" using Cons.prems(5) ys by (simp add: join_comma_Cons)
    then show ?thesis using Cons.prems(3) by simp
  next
    case 3
    then have "CHR '','' \<in> set y" using Cons.prems(5) ys by (simp add: join_comma_Cons) (metis in_set_conv_decomp)
    then show ?thesis using Cons.prems(4) ys by simp
  next
    case 4
    have sep: "CHR '','' \<notin> set x" "CHR '','' \<notin> set y" using Cons.prems(3,4) ys by simp_all
    have "x @ CHR '','' # join_comma xs = y @ CHR '','' # join_comma ys'"
      using Cons.prems(5) ys join_comma_Cons [OF 4(1), of x] join_comma_Cons [OF 4(2), of y] by metis
    then have "x = y" "join_comma xs = join_comma ys'" using append_sep_inj [OF sep] by simp_all
    then show ?thesis using Cons.IH [OF 4] Cons.prems(3,4) ys by simp
  qed (use Cons.prems ys in auto)
qed simp

lemma LabelKey_inj:
  assumes "clean_metric n ls" "clean_metric n' ls'"
  shows "LabelKey n ls = LabelKey n' ls' \<longleftrightarrow> n = n' \<and> ls = ls'"
proof
  assume eq: "LabelKey n ls = LabelKey n' ls'"
  let ?pair = "\<lambda>(k, v). k @ CHR ''='' # v"
  have names: "CHR ''{'' \<notin> set n" "CHR ''{'' \<notin> set n'" using assms by (simp_all add: clean_metric_def)
  have form: "LabelKey x ys = (if ys = [] then x else x @ CHR ''{'' # join_comma (map ?pair ys) @ ''}'')" for x ys
    by (simp add: LabelKey_def case_prod_beta)
  show "n = n' \<and> ls = ls'"
  proof (cases "ls = [] \<or> ls' = []")
    case True
    then show ?thesis using eq names by (auto simp: form split: if_splits)
  next
    case False
    then have "n @ CHR ''{'' # join_comma (map ?pair ls) @ ''}'' = n' @ CHR ''{'' # join_comma (map ?pair ls') @ ''}''"
      using eq by (simp add: form)
    then have n: "n = n'" and j: "join_comma (map ?pair ls) = join_comma (map ?pair ls')"
      using append_sep_inj [OF names] by simp_all
    have "map ?pair ls = map ?pair ls'"
      using False assms by (intro join_comma_inj [OF _ _ _ _ j]) (auto simp: clean_metric_def list_all_iff)
    moreover have "inj_on ?pair (set ls \<union> set ls')"
    proof (rule inj_onI)
      fix p q assume pq: "p \<in> set ls \<union> set ls'" "q \<in> set ls \<union> set ls'" and e: "?pair p = ?pair q"
      have "CHR ''='' \<notin> set (fst x)" if "x \<in> set ls \<union> set ls'" for x
        using that assms by (force simp: clean_metric_def list_all_iff)
      then show "p = q" using append_sep_inj [of "CHR ''=''" "fst p" "fst q"] pq e by (simp add: case_prod_beta prod_eq_iff)
    qed
    ultimately show ?thesis using n by (simp add: inj_on_map_eq_map)
  qed
qed simp

text \<open>Without that two counters can be one: the labels \<open>a = "1,b=2"\<close> and the pair of labels
  \<open>a = "1"\<close>, \<open>b = "2"\<close> have the same key.\<close>

lemma label_keys_collide:
  "LabelKey ''m'' [(''a'', ''1,b=2'')] = LabelKey ''m'' [(''a'', ''1''), (''b'', ''2'')]"
  by (simp add: LabelKey_def)

text \<open>The way the services count: \<^verbatim>\<open>Metrics().Counter(name, help, labels).Add(delta)\<close>.\<close>

type_synonym count_call = "string \<times> string \<times> labels \<times> 64 word"

definition count_all :: "count_call list \<Rightarrow> 'w MetricsRegistry \<Rightarrow> 'w MetricsRegistry" where
  "count_all calls m =
     fold (\<lambda>(name, help, ls, delta) m. case Counter name help ls m of (h, m') \<Rightarrow> CounterHandle_Add h delta m') calls m"

text \<open>What they mean: a tally for every name and labels.\<close>

definition tally :: "count_call list \<Rightarrow> string \<times> labels \<Rightarrow> 64 word" where
  "tally calls key = sum_list (map (\<lambda>(n, help, l, delta). delta) (filter (\<lambda>(n, help, l, delta). (n, l) = key) calls))"

definition clean_calls :: "count_call list \<Rightarrow> bool" where
  "clean_calls calls \<longleftrightarrow> list_all (\<lambda>(n, help, l, delta). clean_metric n l) calls"

definition cell_is :: "string \<Rightarrow> labels \<Rightarrow> CounterCell \<Rightarrow> bool" where
  "cell_is name ls c \<longleftrightarrow> cc_name c = name \<and> cc_labels c = ls"

definition counters_ok :: "count_call list \<Rightarrow> 'w MetricsRegistry \<Rightarrow> bool" where
  "counters_ok calls m \<longleftrightarrow>
     (\<forall>k. map_of (mr_counter_index m) k = first_index (\<lambda>c. LabelKey (cc_name c) (cc_labels c) = k) (mr_counters m)) \<and>
     (\<forall>c \<in> set (mr_counters m). clean_metric (cc_name c) (cc_labels c)) \<and>
     distinct (map (\<lambda>c. (cc_name c, cc_labels c)) (mr_counters m)) \<and>
     (\<forall>name ls. case first_index (cell_is name ls) (mr_counters m) of
        None \<Rightarrow> (name, ls) \<notin> (\<lambda>(n, help, l, delta). (n, l)) ` set calls
      | Some i \<Rightarrow> (name, ls) \<in> (\<lambda>(n, help, l, delta). (n, l)) ` set calls \<and> cc_value (mr_counters m ! i) = tally calls (name, ls))"

lemma first_index_cong_set: "(\<And>x. x \<in> set xs \<Longrightarrow> P x = Q x) \<Longrightarrow> first_index P xs = first_index Q xs"
  by (induction xs) auto

lemma index_finds_cell:
  assumes "counters_ok calls m" "clean_metric n l"
  shows "map_of (mr_counter_index m) (LabelKey n l) = first_index (cell_is n l) (mr_counters m)"
proof -
  have "map_of (mr_counter_index m) (LabelKey n l) = first_index (\<lambda>c. LabelKey (cc_name c) (cc_labels c) = LabelKey n l) (mr_counters m)"
    using assms(1) by (simp add: counters_ok_def)
  also have "\<dots> = first_index (cell_is n l) (mr_counters m)"
    using assms by (intro first_index_cong_set) (simp add: counters_ok_def LabelKey_inj cell_is_def)
  finally show ?thesis .
qed

lemma tally_snoc: "tally (calls @ [(n, help, l, delta)]) key = tally calls key + (if (n, l) = key then delta else 0)"
  by (simp add: tally_def)

lemma counters_ok_count:
  assumes ok: "counters_ok calls m" and clean: "clean_metric n l"
  shows "counters_ok (calls @ [(n, help, l, delta)]) (case Counter n help l m of (h, m') \<Rightarrow> CounterHandle_Add h delta m')" (is "counters_ok _ ?m")
proof -
  let ?cs = "mr_counters m" and ?key = "\<lambda>c. LabelKey (cc_name c) (cc_labels c)"
  note find = index_finds_cell [OF ok clean]
  have old: "case first_index (cell_is name ls) ?cs of
        None \<Rightarrow> (name, ls) \<notin> (\<lambda>(n, help, l, delta). (n, l)) ` set calls
      | Some i \<Rightarrow> (name, ls) \<in> (\<lambda>(n, help, l, delta). (n, l)) ` set calls \<and> cc_value (?cs ! i) = tally calls (name, ls)" for name ls
    using ok by (simp add: counters_ok_def)
  have index: "map_of (mr_counter_index m) k = first_index (\<lambda>c. ?key c = k) ?cs" for k
    using ok by (simp add: counters_ok_def)
  show ?thesis
  proof (cases "first_index (cell_is n l) ?cs")
    case None
    let ?c = "\<lparr>cc_name = n, cc_help = help, cc_labels = l, cc_value = delta\<rparr>"
    have m: "mr_counters ?m = ?cs @ [?c]" "mr_counter_index ?m = emplace (LabelKey n l) (length ?cs) (mr_counter_index m)"
      using None find by (simp_all add: Counter_def CounterHandle_Add_def Let_def)
    have fresh: "(n, l) \<notin> (\<lambda>c. (cc_name c, cc_labels c)) ` set ?cs" using None by (auto simp: first_index_None cell_is_def)
    have notin: "(n, l) \<notin> (\<lambda>(n, help, l, delta). (n, l)) ` set calls" using old [of n l] None by simp
    then have "filter (\<lambda>(n', help, l', delta). (n', l') = (n, l)) calls = []" by (force simp: filter_empty_conv)
    then have "tally calls (n, l) = 0" by (simp add: tally_def)
    have vals: "case first_index (cell_is name ls) (?cs @ [?c]) of
        None \<Rightarrow> (name, ls) \<notin> (\<lambda>(n, help, l, delta). (n, l)) ` set (calls @ [(n, help, l, delta)])
      | Some j \<Rightarrow> (name, ls) \<in> (\<lambda>(n, help, l, delta). (n, l)) ` set (calls @ [(n, help, l, delta)]) \<and>
          cc_value ((?cs @ [?c]) ! j) = tally (calls @ [(n, help, l, delta)]) (name, ls)" for name ls
    proof (cases "first_index (cell_is name ls) ?cs")
      case (Some j)
      then have "\<not> (name = n \<and> ls = l)" using None by auto
      then show ?thesis
        using Some old [of name ls] first_index_SomeD [OF Some]
        by (auto simp: first_index_append nth_append tally_snoc)
    next
      case none: None
      then show ?thesis
        using old [of name ls] \<open>tally calls (n, l) = 0\<close> by (auto simp: first_index_append cell_is_def tally_snoc)
    qed
    have "map_of (mr_counter_index ?m) k = first_index (\<lambda>c. ?key c = k) (?cs @ [?c])" for k
      using find index [of k] index [of "LabelKey n l"] None
      by (auto simp: m map_of_emplace first_index_append split: option.split)
    then show ?thesis
      unfolding counters_ok_def m(1) using ok clean fresh vals by (simp add: counters_ok_def)
  next
    case (Some i)
    note i = first_index_SomeD [OF Some]
    let ?c = "(?cs ! i)\<lparr>cc_value := cc_value (?cs ! i) + delta\<rparr>"
    have m: "mr_counters ?m = ?cs[i := ?c]" "mr_counter_index ?m = mr_counter_index m"
      using Some find by (simp_all add: Counter_def CounterHandle_Add_def Let_def)
    have keys: "map (\<lambda>c. (cc_name c, cc_labels c)) (?cs[i := ?c]) = map (\<lambda>c. (cc_name c, cc_labels c)) ?cs"
      using i by (simp add: map_update list_update_same_conv)
    have same: "first_index (\<lambda>c. P (cc_name c) (cc_labels c)) (?cs[i := ?c]) = first_index (\<lambda>c. P (cc_name c) (cc_labels c)) ?cs" for P
      using first_index_cong [OF keys, of "\<lambda>(a, b). P a b"] by simp
    have cleans: "\<forall>c \<in> set (?cs[i := ?c]). clean_metric (cc_name c) (cc_labels c)"
      using ok i by (auto simp: counters_ok_def dest!: set_update_subset_insert [THEN subsetD])
    have vals: "case first_index (cell_is name ls) (?cs[i := ?c]) of
        None \<Rightarrow> (name, ls) \<notin> (\<lambda>(n, help, l, delta). (n, l)) ` set (calls @ [(n, help, l, delta)])
      | Some j \<Rightarrow> (name, ls) \<in> (\<lambda>(n, help, l, delta). (n, l)) ` set (calls @ [(n, help, l, delta)]) \<and>
          cc_value (?cs[i := ?c] ! j) = tally (calls @ [(n, help, l, delta)]) (name, ls)" for name ls
    proof (cases "name = n \<and> ls = l")
      case True
      then show ?thesis
        using old [of n l] Some i same [of "\<lambda>a b. a = n \<and> b = l"] by (simp add: cell_is_def [abs_def] tally_snoc)
    next
      case False
      have "j \<noteq> i" if "first_index (cell_is name ls) ?cs = Some j" for j
        using first_index_SomeD [OF that] i False by (auto simp: cell_is_def)
      then show ?thesis
        using old [of name ls] False same [of "\<lambda>a b. a = name \<and> b = ls"]
        by (auto simp: cell_is_def [abs_def] tally_snoc split: option.splits)
    qed
    show ?thesis
      unfolding counters_ok_def m same [of "\<lambda>a b. LabelKey a b = _"] keys
      using ok cleans vals by (simp add: counters_ok_def)
  qed
qed

lemma counters_ok_all: "clean_calls calls \<Longrightarrow> counters_ok calls (count_all calls MetricsRegistry_new)"
proof (induction calls rule: rev_induct)
  case Nil
  then show ?case by (simp add: counters_ok_def count_all_def MetricsRegistry_new_def)
next
  case (snoc x calls)
  then show ?case
    using counters_ok_count [of calls _ "fst x" "fst (snd (snd x))" "fst (snd x)" "snd (snd (snd x))"]
    by (cases x) (auto simp: count_all_def clean_calls_def)
qed

text \<open>The counters implement the tally of what was counted. When names and labels do not contain the
  characters that separate them in a key, then after any run of counting the registry has one counter for
  every name and labels that was counted and no other, and its value is the sum, modulo \<open>2\<^sup>6\<^sup>4\<close>, of what
  was added under that name and those labels, in whatever order the calls came.\<close>

lemma counters_are_tallies:
  assumes "clean_calls calls"
  shows "let cells = mr_counters (count_all calls (MetricsRegistry_new :: 'w MetricsRegistry)) in
    distinct (map (\<lambda>c. (cc_name c, cc_labels c)) cells) \<and>
    set (map (\<lambda>c. (cc_name c, cc_labels c)) cells) = (\<lambda>(n, help, l, delta). (n, l)) ` set calls \<and>
    map cc_value cells = map (\<lambda>c. tally calls (cc_name c, cc_labels c)) cells"
proof -
  define cells where "cells = mr_counters (count_all calls (MetricsRegistry_new :: 'w MetricsRegistry))"
  let ?key = "\<lambda>c. (cc_name c, cc_labels c)" and ?K = "(\<lambda>(n, help, l, delta). (n, l)) ` set calls"
  have ok: "distinct (map ?key cells)" and vals: "case first_index (cell_is name ls) cells of None \<Rightarrow> (name, ls) \<notin> ?K
      | Some i \<Rightarrow> (name, ls) \<in> ?K \<and> cc_value (cells ! i) = tally calls (name, ls)" for name ls
    using counters_ok_all [OF assms, where 'a = 'w] unfolding counters_ok_def cells_def [symmetric] by blast+
  have cell: "?key c \<in> ?K \<and> cc_value c = tally calls (?key c)" if "c \<in> set cells" for c
  proof -
    have "first_index (cell_is (cc_name c) (cc_labels c)) cells \<noteq> None"
      using that unfolding first_index_None cell_is_def by blast
    then obtain i where i: "first_index (cell_is (cc_name c) (cc_labels c)) cells = Some i" by blast
    then have n: "i < length cells" "?key (cells ! i) = ?key c" using first_index_SomeD [OF i] by (simp_all add: cell_is_def)
    have "inj_on ?key (set cells)" using ok by (simp add: distinct_map)
    from inj_onD [OF this n(2) nth_mem [OF n(1)] that] have "cells ! i = c" .
    then show ?thesis using vals [of "cc_name c" "cc_labels c"] i by simp
  qed
  have sub: "(name, ls) \<in> ?key ` set cells" if counted: "(name, ls) \<in> ?K" for name ls
  proof -
    have "first_index (cell_is name ls) cells \<noteq> None"
    proof
      assume "first_index (cell_is name ls) cells = None"
      with vals [of name ls] have "(name, ls) \<notin> ?K" by (simp only: option.case not_False_eq_True)
      then show False using counted by simp
    qed
    then obtain i where i: "first_index (cell_is name ls) cells = Some i" by blast
    then show ?thesis using first_index_SomeD [OF i] by (force simp: cell_is_def)
  qed
  have "set (map ?key cells) = ?K"
    unfolding set_map
  proof (intro equalityI subsetI)
    fix x assume "x \<in> ?key ` set cells"
    then show "x \<in> ?K" using cell by (elim imageE) (simp only:)
  next
    fix x assume "x \<in> ?K"
    then show "x \<in> ?key ` set cells" using sub [of "fst x" "snd x"] by (simp only: prod.collapse)
  qed
  then show ?thesis using ok cell by (simp add: Let_def cells_def [symmetric])
qed

end
