(* ===== verification/Spec2Isabelle.thy ===== *)
theory Spec2Isabelle
  imports Room_Drain Match_Drain Gateway_Drain Room_Restart Room_Client Match_Rooms Stream_Hub_Props Gateway_Sessions Metrics
begin

text \<open>
  A model of the room service of the real-time game backend (\<^verbatim>\<open>src/room\<close>) and proofs about it.
\<close>

end
